(* ===== verification/Go_Base.thy ===== *)
theory Go_Base
  imports Main "HOL-Library.Word" "HOL-Library.Sublist"
begin

text \<open>
  The prelude: what the Go packages use of the language and of its standard library, and the
  generic lemmas the components share.

  \<^item> Go strings are byte sequences: \<open>string\<close> (a list of 8-bit \<open>char\<close>s), \<open>len\<close> is \<open>length\<close>.
  \<^item> \<open>error\<close> values: \<open>errors.New\<close> texts, the sentinels the packages compare against with
    \<open>errors.Is\<close>, and wrapping by \<open>fmt.Errorf\<close> with \<open>%w\<close>.
  \<^item> \<open>encoding/hex\<close>, \<open>path/filepath\<close>, \<open>unicode/utf8\<close>, \<open>strings.TrimSpace\<close> and
    \<open>strings.Fields\<close>.
  \<^item> the atomic file replacement every durable store performs (temporary file, fsync, rename,
    directory fsync), with each system call allowed to fail.
  \<^item> lemmas on lists used as small record tables.
\<close>

subsection \<open>Lemma collections of the development\<close>

named_theorems go_errors \<open>facts that invert or propagate Go error results\<close>
named_theorems table_simps \<open>lookup and update in lists of records\<close>
named_theorems frame_simps \<open>fields an operation does not write\<close>

subsection \<open>Errors\<close>

datatype error =
    Err string
  | ErrWrap string error
  | ErrNotExist
  | ErrPolicyUnavailable
  | ErrPolicyStale
  | ErrMissingProof
  | ErrProofIncomplete
  | ErrSnapshotCapacity
  | UnknownSendOutcome

text \<open>\<open>errors.Is\<close> looks through wrapping.\<close>

fun errors_is :: "error \<Rightarrow> error \<Rightarrow> bool" where
  "errors_is (ErrWrap m e) t = (ErrWrap m e = t \<or> errors_is e t)"
| "errors_is e t = (e = t)"

lemma errors_is_refl [simp]: "errors_is e e"
  by (cases e) auto

subsection \<open>Bytes, hexadecimal text and identifiers\<close>

type_synonym byte = "8 word"
type_synonym u64 = "64 word"
type_synonym millis = int

definition byte_of :: "char \<Rightarrow> nat" where
  "byte_of c = of_char c"

definition lower_hex :: "char \<Rightarrow> bool" where
  "lower_hex c \<longleftrightarrow> c \<in> set ''0123456789abcdef''"

definition hex_digit :: "nat \<Rightarrow> char" where
  "hex_digit n = ''0123456789abcdef'' ! (n mod 16)"

definition hex_byte :: "byte \<Rightarrow> string" where
  "hex_byte b = [hex_digit (unat b div 16), hex_digit (unat b)]"

definition hex_encode :: "byte list \<Rightarrow> string" where
  "hex_encode bs = concat (map hex_byte bs)"

definition hex_value :: "char \<Rightarrow> nat option" where
  "hex_value c =
     (if 48 \<le> byte_of c \<and> byte_of c \<le> 57 then Some (byte_of c - 48)
      else if 97 \<le> byte_of c \<and> byte_of c \<le> 102 then Some (byte_of c - 87)
      else if 65 \<le> byte_of c \<and> byte_of c \<le> 70 then Some (byte_of c - 55)
      else None)"

text \<open>\<open>hex.DecodeString\<close>: \<open>None\<close> for an odd length or a character that is no digit.\<close>

fun hex_decode :: "string \<Rightarrow> byte list option" where
  "hex_decode [] = Some []"
| "hex_decode [c] = None"
| "hex_decode (a # b # cs) =
     (case (hex_value a, hex_value b, hex_decode cs) of
        (Some x, Some y, Some bs) \<Rightarrow> Some (word_of_nat (16 * x + y) # bs)
      | _ \<Rightarrow> None)"

lemma length_hex_byte [simp]: "length (hex_byte b) = 2"
  by (simp add: hex_byte_def)

lemma length_hex_encode [simp]: "length (hex_encode bs) = 2 * length bs"
  by (induction bs) (auto simp: hex_encode_def)

text \<open>For evaluation, on the bits of the character.\<close>

lemma lower_hex_code [code]:
  "lower_hex (Char b0 b1 b2 b3 b4 b5 b6 b7) \<longleftrightarrow>
     \<not> b7 \<and> b5 \<and> (if b6 then \<not> b4 \<and> \<not> b3 \<and> (b0 \<or> b1 \<or> b2) \<and> \<not> (b0 \<and> b1 \<and> b2) else b4 \<and> \<not> (b3 \<and> (b1 \<or> b2)))"
  by (cases b0; cases b1; cases b2; cases b3; cases b4; cases b5; cases b6; cases b7) (simp_all add: lower_hex_def)

lemma lower_hex_digit [simp]: "lower_hex (hex_digit n)"
  unfolding lower_hex_def hex_digit_def by (rule nth_mem) simp

lemma hex_encode_lower: "list_all lower_hex (hex_encode bs)"
  by (induction bs) (auto simp: hex_encode_def hex_byte_def)

lemma hex_encode_append: "hex_encode (xs @ ys) = hex_encode xs @ hex_encode ys"
  by (simp add: hex_encode_def)

subsection \<open>Paths (\<open>path/filepath\<close> on Unix)\<close>

definition IsAbs :: "string \<Rightarrow> bool" where
  "IsAbs p \<longleftrightarrow> prefix ''/'' p"

fun split_on :: "char \<Rightarrow> string \<Rightarrow> string list" where
  "split_on d [] = [[]]"
| "split_on d (c # cs) =
     (if c = d then [] # split_on d cs
      else (case split_on d cs of [] \<Rightarrow> [[c]] | w # ws \<Rightarrow> (c # w) # ws))"

fun join_with :: "string \<Rightarrow> string list \<Rightarrow> string" where
  "join_with sep [] = []"
| "join_with sep [w] = w"
| "join_with sep (w # v # ws) = w @ sep @ join_with sep (v # ws)"

lemma length_join_with: "length (join_with sep ws) = sum_list (map length ws) + (length ws - 1) * length sep"
  by (induction sep ws rule: join_with.induct) auto

lemma split_on_not_in [simp]: "d \<notin> set w \<Longrightarrow> split_on d w = [w]"
  by (induction w) auto

lemma split_on_append_sep: "d \<notin> set w \<Longrightarrow> split_on d (w @ d # v) = w # split_on d v"
  by (induction w) auto

lemma not_lower_hex_dash: "\<not> lower_hex (CHR ''-'')"
  by (simp add: lower_hex_def)

lemma dash_not_lower_hex: "list_all lower_hex w \<Longrightarrow> CHR ''-'' \<notin> set w"
  using not_lower_hex_dash by (auto simp: list_all_iff)

text \<open>\<open>Clean\<close> keeps the components in reverse: \<open>..\<close> removes the last one, and at the root of an
  absolute path it disappears.\<close>

fun clean_parts :: "bool \<Rightarrow> string list \<Rightarrow> string list \<Rightarrow> string list" where
  "clean_parts rooted acc [] = rev acc"
| "clean_parts rooted acc (w # ws) =
     (if w = [] \<or> w = ''.'' then clean_parts rooted acc ws
      else if w = ''..'' then
        (case acc of
           [] \<Rightarrow> clean_parts rooted (if rooted then [] else [w]) ws
         | a # as \<Rightarrow> if a = ''..'' then clean_parts rooted (w # acc) ws
                     else clean_parts rooted as ws)
      else clean_parts rooted (w # acc) ws)"

definition Clean :: "string \<Rightarrow> string" where
  "Clean p =
     (let body = join_with ''/'' (clean_parts (IsAbs p) [] (split_on (CHR ''/'') p))
      in if IsAbs p then ''/'' @ body else if body = [] then ''.'' else body)"

text \<open>\<open>Join\<close> ignores empty elements and cleans the result.\<close>

definition Join :: "string list \<Rightarrow> string" where
  "Join ws = (let ps = filter (\<lambda>w. w \<noteq> []) ws in if ps = [] then [] else Clean (join_with ''/'' ps))"

definition ContainsAny :: "string \<Rightarrow> string \<Rightarrow> bool" where
  "ContainsAny s cs \<longleftrightarrow> list_ex (\<lambda>c. c \<in> set cs) s"


definition HasPrefix :: "string \<Rightarrow> string \<Rightarrow> bool" where
  "HasPrefix s p \<longleftrightarrow> prefix p s"

definition HasSuffix :: "string \<Rightarrow> string \<Rightarrow> bool" where
  "HasSuffix s p \<longleftrightarrow> suffix p s"

subsection \<open>UTF-8 (\<open>unicode/utf8\<close>)\<close>

definition in_range :: "nat \<Rightarrow> nat \<Rightarrow> nat \<Rightarrow> bool" where
  "in_range lo hi b \<longleftrightarrow> lo \<le> b \<and> b \<le> hi"

text \<open>
  The length of the rune at the head of a byte sequence, \<open>0\<close> when the bytes there are no valid
  encoding (Go then reports the replacement rune and a width of one byte).
\<close>

definition cont :: "string \<Rightarrow> nat \<Rightarrow> bool" where
  "cont s i \<longleftrightarrow> i < length s \<and> in_range 128 191 (byte_of (s ! i))"

definition second :: "nat \<Rightarrow> nat \<Rightarrow> string \<Rightarrow> bool" where
  "second lo hi s \<longleftrightarrow> 1 < length s \<and> in_range lo hi (byte_of (s ! 1))"

definition rune_width :: "string \<Rightarrow> nat" where
  "rune_width s =
     (case s of [] \<Rightarrow> 0 | c # _ \<Rightarrow>
       (let b = byte_of c in
        if b < 128 then 1
        else if in_range 194 223 b then (if cont s 1 then 2 else 0)
        else if b = 224 then (if second 160 191 s \<and> cont s 2 then 3 else 0)
        else if b = 237 then (if second 128 159 s \<and> cont s 2 then 3 else 0)
        else if in_range 225 239 b then (if cont s 1 \<and> cont s 2 then 3 else 0)
        else if b = 240 then (if second 144 191 s \<and> cont s 2 \<and> cont s 3 then 4 else 0)
        else if b = 244 then (if second 128 143 s \<and> cont s 2 \<and> cont s 3 then 4 else 0)
        else if in_range 241 243 b then (if cont s 1 \<and> cont s 2 \<and> cont s 3 then 4 else 0)
        else 0))"

function ValidString :: "string \<Rightarrow> bool" where
  "ValidString s =
     (if s = [] then True
      else if rune_width s = 0 then False
      else ValidString (drop (rune_width s) s))"
  by pat_completeness auto
termination
  by (relation "measure length") auto

declare ValidString.simps [simp del]

text \<open>
  \<open>unicode.IsSpace\<close>: the encodings of the white-space runes, and the number of bytes of the
  space rune a string starts or ends with.
\<close>

definition space_runes :: "string list" where
  "space_runes =
     map (map char_of)
       ([[9], [10], [11], [12], [13], [32], [194, 133], [194, 160], [225, 154, 128],
         [226, 128, 168], [226, 128, 169], [226, 128, 175], [226, 129, 159], [227, 128, 128]]
        @ map (\<lambda>i. [226, 128, i]) [128 ..< 139 :: nat])"

definition leading_space :: "string \<Rightarrow> nat" where
  "leading_space s = (case List.find (\<lambda>r. prefix r s) space_runes of None \<Rightarrow> 0 | Some r \<Rightarrow> length r)"

definition trailing_space :: "string \<Rightarrow> nat" where
  "trailing_space s = (case List.find (\<lambda>r. suffix r s) space_runes of None \<Rightarrow> 0 | Some r \<Rightarrow> length r)"

lemma space_runes_nonempty: "r \<in> set space_runes \<Longrightarrow> 0 < length r"
  by (auto simp: space_runes_def)

function TrimLeft :: "string \<Rightarrow> string" where
  "TrimLeft s = (if s \<noteq> [] \<and> 0 < leading_space s then TrimLeft (drop (leading_space s) s) else s)"
  by pat_completeness auto
termination
  by (relation "measure length") auto

function TrimRight :: "string \<Rightarrow> string" where
  "TrimRight s =
     (if s \<noteq> [] \<and> 0 < trailing_space s
      then TrimRight (take (length s - trailing_space s) s) else s)"
  by pat_completeness auto
termination
  by (relation "measure length") auto

declare TrimLeft.simps [simp del] TrimRight.simps [simp del]

definition TrimSpace :: "string \<Rightarrow> string" where
  "TrimSpace s = TrimRight (TrimLeft s)"

lemma TrimLeft_Nil [simp]: "TrimLeft [] = []"
  by (simp add: TrimLeft.simps)

lemma TrimRight_Nil [simp]: "TrimRight [] = []"
  by (simp add: TrimRight.simps)

lemma TrimSpace_Nil [simp]: "TrimSpace [] = []"
  by (simp add: TrimSpace_def)

lemma length_TrimLeft: "length (TrimLeft s) \<le> length s"
proof (induction s rule: TrimLeft.induct)
  case (1 s)
  then show ?case
    by (subst TrimLeft.simps) (auto intro: le_trans)
qed

lemma length_TrimRight: "length (TrimRight s) \<le> length s"
proof (induction s rule: TrimRight.induct)
  case (1 s)
  then show ?case
    by (subst TrimRight.simps) (auto intro: le_trans)
qed

lemma length_TrimSpace: "length (TrimSpace s) \<le> length s"
  unfolding TrimSpace_def by (rule le_trans [OF length_TrimRight length_TrimLeft])

subsection \<open>Replacing a file atomically\<close>

text \<open>
  Every durable store writes a temporary file in the target's directory, syncs and closes it,
  renames it over the target, then opens and syncs the directory. Each call may fail; \<open>replace_io\<close>
  holds the result of each call of one such sequence.
\<close>

record replace_io =
  io_create :: "error option"
  io_write :: "error option"
  io_sync :: "error option"
  io_close :: "error option"
  io_rename :: "error option"
  io_opendir :: "error option"
  io_syncdir :: "error option"

definition io_success :: replace_io where
  "io_success = \<lparr>io_create = None, io_write = None, io_sync = None, io_close = None,
                 io_rename = None, io_opendir = None, io_syncdir = None\<rparr>"

primrec first_error :: "error option list \<Rightarrow> error option" where
  "first_error [] = None"
| "first_error (e # es) = (case e of Some x \<Rightarrow> Some x | None \<Rightarrow> first_error es)"

lemma first_error_None: "first_error es = None \<longleftrightarrow> (\<forall>e \<in> set es. e = None)"
  by (induction es) (auto split: option.splits)

definition atomic_replace :: "replace_io \<Rightarrow> 'a \<Rightarrow> 'a option \<Rightarrow> error option \<times> 'a option" where
  "atomic_replace io new old =
     (case first_error [io_create io, io_write io, io_sync io, io_close io, io_rename io] of
        Some e \<Rightarrow> (Some e, old)
      | None \<Rightarrow> (first_error [io_opendir io, io_syncdir io], Some new))"

lemma atomic_replace_old_or_new: "snd (atomic_replace io new old) \<in> {old, Some new}"
  by (auto simp: atomic_replace_def split: option.splits)

lemma atomic_replace_ok: "fst (atomic_replace io new old) = None \<Longrightarrow> snd (atomic_replace io new old) = Some new"
  by (auto simp: atomic_replace_def split: option.splits)

lemma atomic_replace_success [simp]: "atomic_replace io_success new old = (None, Some new)"
  by (simp add: atomic_replace_def io_success_def)

text \<open>
  The contract of a durable store: a put either leaves the durable value alone or replaces it by
  the new value in its stored form, and only an acceptable value is ever stored. The lemma for
  clients: no sequence of puts, whatever fails in between, leaves an unacceptable durable value.
\<close>

locale durable_store =
  fixes acceptable :: "'a \<Rightarrow> bool"
    and stored :: "'a \<Rightarrow> 'a"
    and put :: "'io \<Rightarrow> 'a \<Rightarrow> 'a option \<Rightarrow> error option \<times> 'a option"
  assumes put_old_or_new:
      "put io v old = (e, d) \<Longrightarrow> d = old \<or> d = Some (stored v) \<and> acceptable (stored v)"
    and put_ok: "put io v old = (None, d) \<Longrightarrow> d = Some (stored v)"
begin

definition durable_ok :: "'a option \<Rightarrow> bool" where
  "durable_ok d \<longleftrightarrow> (\<forall>v. d = Some v \<longrightarrow> acceptable v)"

primrec puts :: "('io \<times> 'a) list \<Rightarrow> 'a option \<Rightarrow> 'a option" where
  "puts [] d = d"
| "puts (x # xs) d = puts xs (snd (put (fst x) (snd x) d))"

lemma put_durable_ok: "durable_ok d \<Longrightarrow> durable_ok (snd (put io v d))"
  using put_old_or_new [of io v d "fst (put io v d)" "snd (put io v d)"]
  by (auto simp: durable_ok_def)

lemma puts_durable_ok: "durable_ok d \<Longrightarrow> durable_ok (puts xs d)"
  by (induction xs arbitrary: d) (auto intro: put_durable_ok)

lemma put_ok_acceptable:
  assumes "put io v old = (None, d)" and "durable_ok old"
  shows "d = Some (stored v) \<and> acceptable (stored v)"
proof -
  from put_ok [OF assms(1)] have d: "d = Some (stored v)" .
  from put_durable_ok [OF assms(2), of io v] assms(1) have "durable_ok d" by simp
  with d show ?thesis by (simp add: durable_ok_def)
qed

end

subsection \<open>State machines\<close>

text \<open>
  A component's operations as a step relation over events, the states it reaches, and the contract
  of an inductive invariant.
\<close>

inductive reachable :: "('s \<Rightarrow> bool) \<Rightarrow> ('s \<Rightarrow> 'e \<Rightarrow> 's \<Rightarrow> bool) \<Rightarrow> 's \<Rightarrow> bool"
  for init step where
  reach_init: "init s \<Longrightarrow> reachable init step s"
| reach_step: "reachable init step s \<Longrightarrow> step s e t \<Longrightarrow> reachable init step t"

locale safe_machine =
  fixes init :: "'s \<Rightarrow> bool"
    and step :: "'s \<Rightarrow> 'e \<Rightarrow> 's \<Rightarrow> bool"
    and inv :: "'s \<Rightarrow> bool"
  assumes inv_init: "init s \<Longrightarrow> inv s"
    and inv_step: "inv s \<Longrightarrow> step s e t \<Longrightarrow> inv t"
begin

lemma inv_reachable: "reachable init step s \<Longrightarrow> inv s"
  by (induction rule: reachable.induct) (auto intro: inv_init inv_step)

end

subsection \<open>Lists as tables of records\<close>

text \<open>\<open>find_index\<close> is the Go loop that remembers the first index with a property.\<close>

primrec find_index :: "('a \<Rightarrow> bool) \<Rightarrow> 'a list \<Rightarrow> nat option" where
  "find_index P [] = None"
| "find_index P (x # xs) = (if P x then Some 0 else map_option Suc (find_index P xs))"

lemma find_index_Some:
  "find_index P xs = Some i \<Longrightarrow> i < length xs \<and> P (xs ! i) \<and> (\<forall>j < i. \<not> P (xs ! j))"
  by (induction xs arbitrary: i)
     (auto simp: less_Suc_eq_0_disj nth_Cons split: if_splits nat.splits)

lemma find_index_None: "find_index P xs = None \<longleftrightarrow> (\<forall>x \<in> set xs. \<not> P x)"
  by (induction xs) auto

definition remove_nth :: "nat \<Rightarrow> 'a list \<Rightarrow> 'a list" where
  "remove_nth i xs = take i xs @ drop (Suc i) xs"

lemma length_remove_nth [simp]: "i < length xs \<Longrightarrow> length (remove_nth i xs) = length xs - 1"
  by (simp add: remove_nth_def)

lemma set_remove_nth: "set (remove_nth i xs) \<subseteq> set xs"
  by (auto simp: remove_nth_def dest: in_set_takeD in_set_dropD)

lemma set_remove_nth_other:
  assumes "i < length xs" and "x \<in> set xs" and "x \<noteq> xs ! i"
  shows "x \<in> set (remove_nth i xs)"
proof -
  have "xs = take i xs @ xs ! i # drop (Suc i) xs"
    using assms(1) by (rule id_take_nth_drop)
  then have "set xs = set (take i xs) \<union> {xs ! i} \<union> set (drop (Suc i) xs)"
    by (metis Un_insert_right list.simps(15) set_append sup_bot.right_neutral
        sup_commute Un_commute insert_is_Un)
  with assms(2,3) show ?thesis by (auto simp: remove_nth_def)
qed

text \<open>Replace the first entry with a property, or append: the Go "found" loop.\<close>

primrec replace_first :: "('a \<Rightarrow> bool) \<Rightarrow> 'a \<Rightarrow> 'a list \<Rightarrow> 'a list option" where
  "replace_first P y [] = None"
| "replace_first P y (x # xs) =
     (if P x then Some (y # xs) else map_option ((#) x) (replace_first P y xs))"

lemma replace_first_Some_set:
  "replace_first P y xs = Some ys \<Longrightarrow> y \<in> set ys \<and> set ys \<subseteq> insert y (set xs)"
  by (induction xs arbitrary: ys) (auto split: if_splits)

lemma replace_first_keeps:
  "replace_first P y xs = Some ys \<Longrightarrow> x \<in> set xs \<Longrightarrow> \<not> P x \<Longrightarrow> x \<in> set ys"
  by (induction xs arbitrary: ys) (auto split: if_splits)

lemma replace_first_length: "replace_first P y xs = Some ys \<Longrightarrow> length ys = length xs"
  by (induction xs arbitrary: ys) (auto split: if_splits)

lemma replace_first_None: "replace_first P y xs = None \<longleftrightarrow> (\<forall>x \<in> set xs. \<not> P x)"
  by (induction xs) auto

end
