(* ===== verification/Go_Json.thy ===== *)
theory Go_Json
  imports Go_Base
begin

text \<open>
  The encoder of \<open>encoding/json\<close> as the packages use it: \<open>json.Marshal\<close> writes a value without
  white space, object members in the order of the struct's fields (map keys in order), strings
  with Go's default HTML escaping. The packages look at the bytes only through their length and
  through SHA-256, so the encoder is all they need; \<open>JRaw\<close> is an already compacted
  \<open>json.RawMessage\<close>.
\<close>

datatype json =
    JNull
  | JBool bool
  | JInt int
  | JStr string
  | JArr "json list"
  | JObj "(string \<times> json) list"
  | JRaw string

fun dec_nat :: "nat \<Rightarrow> string" where
  "dec_nat n = (if n < 10 then [char_of (48 + n)] else dec_nat (n div 10) @ [char_of (48 + n mod 10)])"

declare dec_nat.simps [simp del]

definition dec_int :: "int \<Rightarrow> string" where
  "dec_int i = (if i < 0 then CHR ''-'' # dec_nat (nat (- i)) else dec_nat (nat i))"

text \<open>One byte below 128; \<open>hex_digit\<close> gives the two digits of a \<open>u00XX\<close> escape.\<close>

definition bslash :: char where
  "bslash = char_of (92::nat)"

definition u_escape :: "nat \<Rightarrow> string" where
  "u_escape b = bslash # ''u00'' @ [hex_digit (b div 16), hex_digit b]"

definition esc_ascii :: "char \<Rightarrow> string" where
  "esc_ascii c =
     (let b = byte_of c in
      if b = 34 \<or> b = 92 then [bslash, c]
      else if b = 8 then bslash # ''b''
      else if b = 12 then bslash # ''f''
      else if b = 10 then bslash # ''n''
      else if b = 13 then bslash # ''r''
      else if b = 9 then bslash # ''t''
      else if b < 32 \<or> b = 60 \<or> b = 62 \<or> b = 38 then u_escape b
      else [c])"

text \<open>Invalid UTF-8 becomes the replacement rune; U+2028 and U+2029 are escaped.\<close>

function esc_string :: "string \<Rightarrow> string" where
  "esc_string s =
     (if s = [] then []
      else if byte_of (hd s) < 128 then esc_ascii (hd s) @ esc_string (tl s)
      else if rune_width s = 0 then bslash # ''ufffd'' @ esc_string (tl s)
      else if take 3 s = map char_of [226, 128, 168 :: nat] then bslash # ''u2028'' @ esc_string (drop 3 s)
      else if take 3 s = map char_of [226, 128, 169 :: nat] then bslash # ''u2029'' @ esc_string (drop 3 s)
      else take (rune_width s) s @ esc_string (drop (rune_width s) s))"
  by pat_completeness auto
termination
  by (relation "measure length") auto

declare esc_string.simps [simp del]

text \<open>For evaluation: a byte that stands for itself, decided on its bits.\<close>

fun verbatim :: "char \<Rightarrow> bool" where
  "verbatim (Char b0 b1 b2 b3 b4 b5 b6 b7) =
     (\<not> b7 \<and> (b5 \<or> b6) \<and>
      \<not> (\<not> b6 \<and> b5 \<and> \<not> b4 \<and> \<not> b3 \<and> b1 \<and> \<not> b0) \<and>
      \<not> (\<not> b6 \<and> b5 \<and> b4 \<and> b3 \<and> b2 \<and> \<not> b0) \<and>
      \<not> (b6 \<and> \<not> b5 \<and> b4 \<and> b3 \<and> b2 \<and> \<not> b1 \<and> \<not> b0))"

lemma verbatim_esc: "verbatim c \<Longrightarrow> byte_of c < 128 \<and> esc_ascii c = [c]"
proof (cases c)
  case (Char b0 b1 b2 b3 b4 b5 b6 b7)
  assume "verbatim c"
  then have bits: "\<not> b7" "b5 \<or> b6" "\<not> (\<not> b6 \<and> b5 \<and> \<not> b4 \<and> \<not> b3 \<and> b1 \<and> \<not> b0)" "\<not> (\<not> b6 \<and> b5 \<and> b4 \<and> b3 \<and> b2 \<and> \<not> b0)"
    "\<not> (b6 \<and> \<not> b5 \<and> b4 \<and> b3 \<and> b2 \<and> \<not> b1 \<and> \<not> b0)" by (simp_all add: Char)
  have b: "byte_of c = of_bool b0 + 2 * (of_bool b1 + 2 * (of_bool b2 + 2 * (of_bool b3 + 2 * (of_bool b4 + 2 * (of_bool b5 + 2 * (of_bool b6 + 2 * of_bool b7))))))"
    by (simp add: byte_of_def Char)
  have "byte_of c \<notin> {34, 92, 8, 12, 10, 13, 9, 60, 62, 38} \<and> 32 \<le> byte_of c \<and> byte_of c < 128"
    unfolding b using bits by (cases b0; cases b1; cases b2; cases b3; cases b4; cases b5; cases b6) simp_all
  then show ?thesis by (simp add: esc_ascii_def)
qed

lemma esc_string_code [code]:
  "esc_string s =
     (case s of [] \<Rightarrow> []
      | c # cs \<Rightarrow>
          if verbatim c then c # esc_string cs
          else if byte_of c < 128 then esc_ascii c @ esc_string cs
          else if rune_width s = 0 then bslash # ''ufffd'' @ esc_string cs
          else if take 3 s = map char_of [226, 128, 168 :: nat] then bslash # ''u2028'' @ esc_string (drop 3 s)
          else if take 3 s = map char_of [226, 128, 169 :: nat] then bslash # ''u2029'' @ esc_string (drop 3 s)
          else take (rune_width s) s @ esc_string (drop (rune_width s) s))"
  by (subst esc_string.simps) (auto split: list.split dest: verbatim_esc)

lemma esc_verbatim: "list_all verbatim s \<Longrightarrow> esc_string s = s"
proof (induction s)
  case (Cons c s)
  then show ?case by (subst esc_string_code) simp
qed (simp add: esc_string.simps)

definition json_string :: "string \<Rightarrow> string" where
  "json_string s = CHR 0x22 # esc_string s @ [CHR 0x22]"

fun json_enc :: "json \<Rightarrow> string" where
  "json_enc JNull = ''null''"
| "json_enc (JBool b) = (if b then ''true'' else ''false'')"
| "json_enc (JInt i) = dec_int i"
| "json_enc (JStr s) = json_string s"
| "json_enc (JArr xs) = ''['' @ join_with '','' (map json_enc xs) @ '']''"
| "json_enc (JObj ms) =
     CHR 0x7B # join_with '','' (map (\<lambda>m. json_string (fst m) @ '':'' @ json_enc (snd m)) ms) @ [CHR 0x7D]"
| "json_enc (JRaw s) = s"

definition JWord :: "u64 \<Rightarrow> json" where
  "JWord w = JInt (int (unat w))"

definition JOpt :: "('a \<Rightarrow> json) \<Rightarrow> 'a option \<Rightarrow> json" where
  "JOpt f x = (case x of None \<Rightarrow> JNull | Some v \<Rightarrow> f v)"

text \<open>A member with \<open>omitempty\<close>: absent when its value is empty.\<close>

definition omit :: "bool \<Rightarrow> string \<Rightarrow> json \<Rightarrow> (string \<times> json) list" where
  "omit blank k v = (if blank then [] else [(k, v)])"

text \<open>The length of the text, which the size bounds of the stores are about.\<close>

definition json_len :: "json \<Rightarrow> nat" where
  "json_len j = length (json_enc j)"

lemma esc_string_Nil [simp]: "esc_string [] = []"
  by (simp add: esc_string.simps)

lemma esc_ascii_nonempty [simp]: "esc_ascii c \<noteq> []"
  by (simp add: esc_ascii_def u_escape_def Let_def)

lemma length_esc_ascii: "length (esc_ascii c) \<le> 6"
  by (simp add: esc_ascii_def u_escape_def Let_def)

text \<open>Escaping never grows a text by more than a factor of six.\<close>

lemma length_esc_string: "length (esc_string s) \<le> 6 * length s"
proof (induction s rule: esc_string.induct)
  case (1 s)
  show ?case
  proof (cases s)
    case Nil
    then show ?thesis by simp
  next
    case (Cons c cs)
    have len3: "length (take 3 s) = 3" if "take 3 s = map char_of [226, 128, x :: nat]" for x
      using that by simp
    show ?thesis
      using "1.IH" length_esc_ascii [of c] len3 [of 168] len3 [of 169] Cons
      by (subst esc_string.simps) (auto simp: min_def split: if_splits)
  qed
qed

end
