(* ===== verification/Retry_State.thy ===== *)
theory Retry_State
  imports Complex_Main Go_Json "HOL-Library.List_Lexorder" "HOL-Library.Char_ord"
begin

text \<open>
  The durable automatic-continuation ledger of one thread: \<open>portal/internal/turnretry/state.go\<close>,
  \<open>managed_turn.go\<close>, the decision type of \<open>policy.go\<close> and the record validation of
  \<open>store.go\<close>. Operations on \<open>*State\<close> pass the state explicitly; an operation that can fail
  after it has written returns the state beside the error (\<open>None\<close> is a nil error).

  Code outside the repository is a parameter: \<open>'p\<close> is \<open>codex.ThreadPolicy\<close>, and the record
  \<open>codec\<close> holds the JSON forms of the codex types, SHA-256 (as its hexadecimal text) and the
  rounding of a float64 product.
\<close>

subsection \<open>Data\<close>

definition Schema :: int where "Schema = 2"
definition MaxBytes :: nat where "MaxBytes = 1024 * 1024"
definition MaxSnapshotBytes :: nat where "MaxSnapshotBytes = 256 * 1024"
definition CyberLimit :: nat where "CyberLimit = 30"
definition MaxSnapshots :: nat where "MaxSnapshots = 64"
definition receiptReserveBytes :: nat where "receiptReserveBytes = 8192"

definition Continuation :: string where
  "Continuation = ''Continue the interrupted task from the saved conversation. Inspect the current state before repeating actions.''"

type_synonym 'a go_map = "(string \<times> 'a) list option"

definition map_entries :: "'a go_map \<Rightarrow> (string \<times> 'a) list" where
  "map_entries m = (case m of None \<Rightarrow> [] | Some xs \<Rightarrow> xs)"

record context_entry =
  ce_kind :: string
  ce_value :: string

record 'p turn_options =
  opt_model :: string
  opt_effort :: string
  opt_policy :: 'p
  opt_context :: "context_entry go_map"

record scope =
  sc_workspace :: string
  sc_slug :: string
  sc_root :: string
  sc_thread :: string
  sc_socket :: string

record 'p snapshot =
  sn_epoch :: u64
  sn_version :: int
  sn_id :: string
  sn_turn :: string
  sn_origin :: string
  sn_provider :: string
  sn_mode :: string
  sn_common :: string
  sn_options :: "'p turn_options"
  sn_digest :: string
  sn_proven :: bool
  sn_text_digest :: string
  sn_socket :: string
  sn_native :: "string option"
  sn_binding_digest :: string

record 'p binding =
  bd_epoch :: u64
  bd_socket :: string
  bd_provider :: string
  bd_policy :: 'p
  bd_common :: string
  bd_digest :: string

record 'p pending =
  pd_id :: string
  pd_action :: string
  pd_failure :: string
  pd_snapshot :: "'p snapshot"
  pd_charged :: millis
  pd_result :: string

record charge =
  ch_id :: string
  ch_at :: millis
  ch_accepted :: bool

record managed_turn =
  mt_version :: int
  mt_turn :: string
  mt_epoch :: u64
  mt_binding :: string
  mt_count :: u64
  mt_digest :: string
  mt_last :: string
  mt_context :: "context_entry go_map"

record 'p rstate =
  s_epoch :: u64
  s_schema :: int
  s_scope :: scope
  s_enabled :: bool
  s_enrolled :: bool
  s_boundary :: string
  s_baseline :: string
  s_baseline_active :: bool
  s_handled :: string
  s_chain :: string
  s_class :: string
  s_phase :: string
  s_reason :: string
  s_attempt :: u64
  s_capacity :: u64
  s_deadline :: millis
  s_clock :: millis
  s_cyber :: "charge list"
  s_cancelled :: bool
  s_pending :: "'p pending option"
  s_snapshots :: "'p snapshot list"
  s_binding :: "'p binding option"
  s_managed :: "managed_turn option"

record observation =
  o_turn :: string
  o_status :: string
  o_code :: string

record 'p codec =
  cx_sha256 :: "string \<Rightarrow> string"
  cx_options_json :: "'p turn_options \<Rightarrow> json"
  cx_policy_json :: "'p \<Rightarrow> json"
  cx_context_json :: "context_entry \<Rightarrow> json"
  cx_fround :: "rat \<Rightarrow> rat"

subsection \<open>JSON forms of the records\<close>

definition json_map :: "('a \<Rightarrow> json) \<Rightarrow> 'a go_map \<Rightarrow> json" where
  "json_map f m =
     (case m of None \<Rightarrow> JNull
      | Some xs \<Rightarrow> JObj (map (\<lambda>x. (fst x, f (snd x))) (sort_key fst xs)))"

definition scope_json :: "scope \<Rightarrow> json" where
  "scope_json c = JObj
     [(''workspace'', JStr (sc_workspace c)), (''slug'', JStr (sc_slug c)),
      (''root'', JStr (sc_root c)), (''thread'', JStr (sc_thread c)), (''socket'', JStr (sc_socket c))]"

definition snapshot_json :: "'p codec \<Rightarrow> 'p snapshot \<Rightarrow> json" where
  "snapshot_json cx p = JObj
     ([(''epoch'', JWord (sn_epoch p)), (''version'', JInt (sn_version p)), (''id'', JStr (sn_id p)),
       (''turn'', JStr (sn_turn p)), (''origin'', JStr (sn_origin p)),
       (''provider'', JStr (sn_provider p)), (''mode'', JStr (sn_mode p)),
       (''commonInstructions'', JStr (sn_common p)), (''options'', cx_options_json cx (sn_options p)),
       (''digest'', JStr (sn_digest p)), (''proven'', JBool (sn_proven p)),
       (''textDigest'', JStr (sn_text_digest p)), (''socketIdentity'', JStr (sn_socket p))]
      @ (case sn_native p of None \<Rightarrow> [] | Some raw \<Rightarrow> [(''nativeContext'', JRaw raw)])
      @ [(''bindingDigest'', JStr (sn_binding_digest p))])"

definition binding_json :: "'p codec \<Rightarrow> 'p binding \<Rightarrow> json" where
  "binding_json cx b = JObj
     [(''epoch'', JWord (bd_epoch b)), (''socketIdentity'', JStr (bd_socket b)),
      (''provider'', JStr (bd_provider b)), (''policy'', cx_policy_json cx (bd_policy b)),
      (''commonInstructions'', JStr (bd_common b)), (''digest'', JStr (bd_digest b))]"

definition pending_json :: "'p codec \<Rightarrow> 'p pending \<Rightarrow> json" where
  "pending_json cx p = JObj
     [(''id'', JStr (pd_id p)), (''action'', JStr (pd_action p)), (''failure'', JStr (pd_failure p)),
      (''snapshot'', snapshot_json cx (pd_snapshot p)), (''chargedAtMs'', JInt (pd_charged p)),
      (''resultTurn'', JStr (pd_result p))]"

definition charge_json :: "charge \<Rightarrow> json" where
  "charge_json c = JObj
     [(''id'', JStr (ch_id c)), (''atMs'', JInt (ch_at c)), (''accepted'', JBool (ch_accepted c))]"

definition managed_json :: "'p codec \<Rightarrow> managed_turn \<Rightarrow> json" where
  "managed_json cx m = JObj
     [(''version'', JInt (mt_version m)), (''turn'', JStr (mt_turn m)), (''epoch'', JWord (mt_epoch m)),
      (''bindingDigest'', JStr (mt_binding m)), (''count'', JWord (mt_count m)),
      (''digest'', JStr (mt_digest m)), (''lastUserItemId'', JStr (mt_last m)),
      (''additionalContext'', json_map (cx_context_json cx) (mt_context m))]"

definition state_json :: "'p codec \<Rightarrow> 'p rstate \<Rightarrow> json" where
  "state_json cx s = JObj
     ([(''epoch'', JWord (s_epoch s)), (''schema'', JInt (s_schema s)), (''scope'', scope_json (s_scope s)),
       (''enabled'', JBool (s_enabled s)), (''enrolled'', JBool (s_enrolled s)),
       (''boundary'', JStr (s_boundary s)), (''baseline'', JStr (s_baseline s)),
       (''baselineActive'', JBool (s_baseline_active s)), (''handled'', JStr (s_handled s)),
       (''chain'', JStr (s_chain s)), (''class'', JStr (s_class s)), (''phase'', JStr (s_phase s)),
       (''reason'', JStr (s_reason s)), (''attempt'', JWord (s_attempt s)),
       (''capacity'', JWord (s_capacity s)), (''deadlineMs'', JInt (s_deadline s)),
       (''clockMs'', JInt (s_clock s)), (''cyber'', JArr (map charge_json (s_cyber s))),
       (''cancelled'', JBool (s_cancelled s)), (''pending'', JOpt (pending_json cx) (s_pending s)),
       (''snapshots'', JArr (map (snapshot_json cx) (s_snapshots s)))]
      @ omit (s_binding s = None) ''binding'' (JOpt (binding_json cx) (s_binding s))
      @ omit (s_managed s = None) ''managedTurn'' (JOpt (managed_json cx) (s_managed s)))"

subsection \<open>Digests and attempt identifiers\<close>

definition Binding_Hash :: "'p codec \<Rightarrow> 'p binding \<Rightarrow> string" where
  "Binding_Hash cx b = cx_sha256 cx (json_enc (binding_json cx (b\<lparr>bd_digest := []\<rparr>)))"

definition Snapshot_Hash :: "'p codec \<Rightarrow> 'p snapshot \<Rightarrow> error + string" where
  "Snapshot_Hash cx p =
     (let data = json_enc (snapshot_json cx (p\<lparr>sn_digest := [], sn_turn := [], sn_proven := False\<rparr>))
      in if MaxSnapshotBytes < length data then Inl (Err ''retry settings snapshot exceeds 256 KiB'')
         else Inr (cx_sha256 cx data))"

definition hex_run :: "nat \<Rightarrow> string \<Rightarrow> bool" where
  "hex_run n w \<longleftrightarrow> length w = n \<and> list_all lower_hex w"

text \<open>\<open>attemptIDPattern\<close>: five runs of lower-case hexadecimal digits separated by dashes.\<close>

definition attemptID :: "string \<Rightarrow> bool" where
  "attemptID v =
     (case split_on (CHR ''-'') v of
        [a, b, c, d, e] \<Rightarrow> hex_run 8 a \<and> hex_run 4 b \<and> hex_run 4 c \<and> hex_run 4 d \<and> hex_run 12 e
      | _ \<Rightarrow> False)"

text \<open>\<open>NewID\<close> over the sixteen bytes \<open>crypto/rand\<close> delivers, or its error.\<close>

type_synonym entropy = "error + byte list"

unbundle bit_operations_syntax

definition uuid_bytes :: "byte list \<Rightarrow> byte list" where
  "uuid_bytes b = b[6 := ((b ! 6) AND 15) OR 64, 8 := ((b ! 8) AND 63) OR 128]"

definition NewID :: "entropy \<Rightarrow> error + string" where
  "NewID e =
     (case e of Inl x \<Rightarrow> Inl x
      | Inr b0 \<Rightarrow>
          (let b = uuid_bytes b0 in
           Inr (hex_encode (take 4 b) @ ''-'' @ hex_encode (take 2 (drop 4 b)) @ ''-'' @
                hex_encode (take 2 (drop 6 b)) @ ''-'' @ hex_encode (take 2 (drop 8 b)) @ ''-'' @
                hex_encode (drop 10 b))))"


subsection \<open>Basic transitions\<close>

definition New :: "scope \<Rightarrow> 'p rstate" where
  "New c = \<lparr>s_epoch = 1, s_schema = Schema, s_scope = c, s_enabled = True, s_enrolled = False,
     s_boundary = [], s_baseline = [], s_baseline_active = False, s_handled = [], s_chain = [],
     s_class = [], s_phase = ''idle'', s_reason = [], s_attempt = 0, s_capacity = 0,
     s_deadline = 0, s_clock = 0, s_cyber = [], s_cancelled = False, s_pending = None,
     s_snapshots = [], s_binding = None, s_managed = None\<rparr>"

definition Enroll :: "observation \<Rightarrow> 'p rstate \<Rightarrow> 'p rstate" where
  "Enroll ob s =
     (if s_enrolled s then s
      else s\<lparr>s_enrolled := True, s_baseline := o_turn ob,
             s_baseline_active := (o_status ob = ''inProgress'')\<rparr>)"

definition Uncertain :: "'p rstate \<Rightarrow> bool" where
  "Uncertain s \<longleftrightarrow> s_pending s \<noteq> None \<and> (s_phase s = ''submitting'' \<or> s_phase s = ''reconciling'')"

definition Owned :: "'p rstate \<Rightarrow> bool" where
  "Owned s \<longleftrightarrow> s_phase s = ''scheduled'' \<or> Uncertain s"

definition Cancel :: "string \<Rightarrow> 'p rstate \<Rightarrow> 'p rstate" where
  "Cancel reason s =
     (let s1 = s\<lparr>s_cancelled := True, s_deadline := 0, s_reason := reason\<rparr>;
          s2 = (case s_pending s1 of
                  Some p \<Rightarrow> if pd_result p \<noteq> [] then s1\<lparr>s_handled := pd_result p\<rparr> else s1
                | None \<Rightarrow> s1)
      in if Uncertain s2 then s2 else s2\<lparr>s_phase := ''cancelled'', s_pending := None\<rparr>)"

definition SetEnabled :: "bool \<Rightarrow> observation \<Rightarrow> 'p rstate \<Rightarrow> 'p rstate" where
  "SetEnabled enabled baseline s =
     (if s_enabled s = enabled then s
      else
        (let s1 = Cancel ''disabled'' (s\<lparr>s_enabled := enabled\<rparr>) in
         if enabled then
           (let consumed = (s_handled s1 = o_turn baseline);
                s2 = s1\<lparr>s_baseline := o_turn baseline,
                        s_baseline_active := (o_status baseline = ''inProgress''),
                        s_handled := o_turn baseline\<rparr>
            in if s_baseline_active s2 \<and> \<not> consumed then s2\<lparr>s_handled := []\<rparr> else s2)
         else s1))"

definition InvalidateSettings :: "string \<Rightarrow> 'p rstate \<Rightarrow> 'p rstate \<times> error option" where
  "InvalidateSettings turn s =
     (if s_epoch s = 0 \<or> s_epoch s = - 1 then (s, Some (Err ''retry provenance epoch is unavailable''))
      else
        (let s1 = Cancel ''settings_changed'' (s\<lparr>s_epoch := s_epoch s + 1\<rparr>);
             s2 = (if turn \<noteq> [] then s1\<lparr>s_handled := turn\<rparr> else s1)
         in (s2\<lparr>s_binding := None, s_managed := None\<rparr>, None)))"

text \<open>\<open>Now\<close> over \<open>now.UnixMilli()\<close>: the value and the state with its clock moved forward.\<close>

definition Now :: "millis \<Rightarrow> 'p rstate \<Rightarrow> millis \<times> 'p rstate" where
  "Now now s = (if now < s_clock s then (s_clock s, s) else (now, s\<lparr>s_clock := now\<rparr>))"

definition CyberUsed :: "millis \<Rightarrow> 'p rstate \<Rightarrow> nat" where
  "CyberUsed now s = length (filter (\<lambda>c. now - 300000 < ch_at c) (s_cyber s))"

text \<open>\<open>CapacityDelay\<close> in nanoseconds; the float product is rounded by \<open>fl\<close> and truncated.\<close>

definition CapacityDelay :: "(rat \<Rightarrow> rat) \<Rightarrow> u64 \<Rightarrow> rat \<Rightarrow> int" where
  "CapacityDelay fl attempt random0 =
     (let seconds = [15, 30, 60, 120, 240, 300 :: int];
          index = min (unat attempt) (length seconds - 1);
          base = (seconds ! index) * 1000000000;
          random = (if random0 < 0 then 0 else if 1 < random0 then 1 else random0);
          jitter = \<lfloor>fl (of_int (min 3000000000 (base div 10)) * random)\<rfloor>
      in min 300000000000 (base + jitter))"

definition Milliseconds :: "int \<Rightarrow> int" where
  "Milliseconds d = d div 1000000"

definition Class :: "string \<Rightarrow> string" where
  "Class c = (if c = ''serverOverloaded'' then ''capacity''
              else if c = ''cyberPolicy'' then ''cybersecurity'' else [])"

definition Proof :: "string \<Rightarrow> 'p rstate \<Rightarrow> 'p snapshot option" where
  "Proof turn s =
     List.find (\<lambda>p. sn_turn p = turn \<and> sn_proven p \<and> sn_epoch p = s_epoch s) (rev (s_snapshots s))"

subsection \<open>Decisions of the session policy\<close>

record enrollment =
  en_turn :: string
  en_active :: bool

record suppression =
  su_chain :: string
  su_pending :: string
  su_result :: string

record decision =
  d_revision :: string
  d_capacity :: bool
  d_cyber :: bool
  d_capacity_base :: enrollment
  d_cyber_base :: enrollment
  d_suppressed :: "suppression list"

definition Enabled :: "decision \<Rightarrow> string \<Rightarrow> bool" where
  "Enabled d c \<longleftrightarrow> d_revision d \<noteq> [] \<and>
     (c = ''capacity'' \<and> d_capacity d \<or> c = ''cybersecurity'' \<and> d_cyber d)"

definition Allows :: "decision \<Rightarrow> 'p rstate \<Rightarrow> bool" where
  "Allows d s \<longleftrightarrow>
     Enabled d (s_class s) \<and> \<not> s_cancelled s \<and>
     \<not> list_ex (\<lambda>v. su_chain v = s_chain s \<or>
                    (case s_pending s of None \<Rightarrow> False
                     | Some p \<Rightarrow> su_pending v \<noteq> [] \<and> su_pending v = pd_id p)) (d_suppressed d)"

definition result_of :: "'p rstate \<Rightarrow> string \<Rightarrow> bool" where
  "result_of s turn \<longleftrightarrow> (case s_pending s of None \<Rightarrow> False | Some p \<Rightarrow> pd_result p = turn)"

definition Eligible :: "decision \<Rightarrow> 'p rstate \<Rightarrow> observation \<Rightarrow> bool" where
  "Eligible d s ob \<longleftrightarrow>
     (let cls = Class (o_code ob);
          baseline = (if cls = ''cybersecurity'' then d_cyber_base d else d_capacity_base d)
      in Enabled d cls \<and> \<not> (o_turn ob = en_turn baseline \<and> \<not> en_active baseline) \<and>
         \<not> list_ex (\<lambda>v. o_turn ob = su_chain v \<or> su_result v \<noteq> [] \<and> o_turn ob = su_result v \<or>
                        (case s_pending s of None \<Rightarrow> False
                         | Some p \<Rightarrow> pd_result p = o_turn ob \<and>
                                      (su_chain v = s_chain s \<or> su_pending v = pd_id p)))
                    (d_suppressed d))"

subsection \<open>Observing a turn and reserving quota\<close>

text \<open>
  \<open>Observe\<close> in the order of the source, one definition per stage: a turn that overtakes an
  unanswered or an answered attempt cancels it, a turn that did not fail ends the chain, and a
  failed turn is scheduled when its class is supported, the policy admits it, its settings are
  proved and quota is left.
\<close>

definition supersede_unanswered :: "observation \<Rightarrow> 'p rstate \<Rightarrow> 'p rstate" where
  "supersede_unanswered ob s =
     (case s_pending s of
        None \<Rightarrow> s
      | Some p \<Rightarrow> if pd_result p = [] \<and> o_turn ob \<noteq> pd_failure p \<and> o_turn ob \<noteq> []
                  then Cancel ''superseded'' s else s)"

definition supersede_answered :: "observation \<Rightarrow> 'p rstate \<Rightarrow> 'p rstate" where
  "supersede_answered ob s =
     (case s_pending s of
        None \<Rightarrow> s
      | Some p \<Rightarrow> if pd_result p \<noteq> [] \<and> o_turn ob \<noteq> pd_result p then Cancel ''superseded'' s else s)"

definition observe_other :: "observation \<Rightarrow> 'p rstate \<Rightarrow> 'p rstate" where
  "observe_other ob s0 =
     (let s = (if o_turn ob \<noteq> [] then s0\<lparr>s_handled := o_turn ob\<rparr> else s0) in
      if \<not> Uncertain s then s\<lparr>s_phase := ''idle'', s_pending := None, s_deadline := 0, s_class := []\<rparr> else s)"

definition observe_unsupported :: "observation \<Rightarrow> 'p rstate \<Rightarrow> 'p rstate" where
  "observe_unsupported ob s =
     (if result_of s (o_turn ob)
      then s\<lparr>s_handled := o_turn ob, s_phase := ''blocked'', s_reason := ''unsupported_failure'',
             s_deadline := 0, s_cancelled := True\<rparr>
      else s\<lparr>s_handled := o_turn ob\<rparr>)"

definition observe_ineligible :: "observation \<Rightarrow> 'p rstate \<Rightarrow> 'p rstate" where
  "observe_ineligible ob s =
     (if result_of s (o_turn ob)
      then s\<lparr>s_class := Class (o_code ob), s_cancelled := True, s_deadline := 0, s_reason := ''disabled'',
             s_phase := ''cancelled'', s_handled := o_turn ob\<rparr>
      else s)"

text \<open>The failure is handled once; unless it answers the running attempt it starts a new chain.\<close>

definition enter_chain :: "observation \<Rightarrow> 'p rstate \<Rightarrow> 'p rstate" where
  "enter_chain ob s =
     (if result_of s (o_turn ob) \<and> \<not> s_cancelled s
      then s\<lparr>s_handled := o_turn ob, s_class := Class (o_code ob)\<rparr>
      else s\<lparr>s_handled := o_turn ob, s_chain := o_turn ob, s_attempt := 0, s_capacity := 0,
             s_cancelled := False, s_class := Class (o_code ob)\<rparr>)"

definition new_pending :: "observation \<Rightarrow> 'p snapshot \<Rightarrow> string \<Rightarrow> 'p pending" where
  "new_pending ob proof nid =
     \<lparr>pd_id = nid, pd_action = ''turn-retry:'' @ o_turn ob @ '':'' @ sn_digest proof @ '':'' @ nid,
      pd_failure = o_turn ob, pd_snapshot = proof, pd_charged = 0, pd_result = []\<rparr>"

definition retry_deadline :: "'p codec \<Rightarrow> millis \<Rightarrow> rat \<Rightarrow> 'p rstate \<Rightarrow> millis" where
  "retry_deadline cx clock random s =
     (if s_class s = ''capacity''
      then clock + Milliseconds (CapacityDelay (cx_fround cx) (s_capacity s) random) else clock)"

definition schedule_failure ::
  "'p codec \<Rightarrow> observation \<Rightarrow> millis \<Rightarrow> rat \<Rightarrow> entropy \<Rightarrow> 'p rstate \<Rightarrow> 'p rstate \<times> error option" where
  "schedule_failure cx ob clock random ent s =
     (case Proof (o_turn ob) s of
        None \<Rightarrow> (s\<lparr>s_phase := ''blocked'', s_reason := ''settings_unproven'', s_pending := None,
                    s_deadline := 0\<rparr>, None)
      | Some proof \<Rightarrow>
          if s_class s = ''cybersecurity'' \<and> CyberLimit \<le> CyberUsed clock s
          then (s\<lparr>s_phase := ''exhausted'', s_reason := ''cyber_limit'', s_pending := None,
                  s_deadline := 0\<rparr>, None)
          else (case NewID ent of
                  Inl e \<Rightarrow> (s, Some e)
                | Inr nid \<Rightarrow>
                    (s\<lparr>s_pending := Some (new_pending ob proof nid), s_phase := ''scheduled'', s_reason := [],
                       s_deadline := retry_deadline cx clock random s\<rparr>, None)))"

definition observe_failed ::
  "'p codec \<Rightarrow> observation \<Rightarrow> millis \<Rightarrow> rat \<Rightarrow> decision \<Rightarrow> entropy \<Rightarrow> 'p rstate
   \<Rightarrow> 'p rstate \<times> error option" where
  "observe_failed cx ob clock random d ent s =
     (if Class (o_code ob) = [] then (observe_unsupported ob s, None)
      else if \<not> Eligible d s ob then (observe_ineligible ob s, None)
      else schedule_failure cx ob clock random ent (enter_chain ob s))"

text \<open>The stages after enrolment for a settled attempt (or none).\<close>

definition observe_settled ::
  "'p codec \<Rightarrow> observation \<Rightarrow> millis \<Rightarrow> rat \<Rightarrow> decision \<Rightarrow> entropy \<Rightarrow> 'p rstate
   \<Rightarrow> 'p rstate \<times> error option" where
  "observe_settled cx ob clock random d ent s =
     (if o_status ob = ''inProgress'' then (s, None)
      else if o_turn ob = s_handled s \<or> o_turn ob = s_baseline s \<and> \<not> s_baseline_active s then (s, None)
      else if o_status ob \<noteq> ''failed'' then (observe_other ob (supersede_answered ob s), None)
      else observe_failed cx ob clock random d ent (supersede_answered ob s))"

text \<open>The source's separate return for the running attempt's own turn in progress is the first
  case of \<open>observe_settled\<close>.\<close>

definition Observe ::
  "'p codec \<Rightarrow> observation \<Rightarrow> millis \<Rightarrow> rat \<Rightarrow> decision \<Rightarrow> entropy \<Rightarrow> 'p rstate
   \<Rightarrow> 'p rstate \<times> error option" where
  "Observe cx ob now random d ent s0 =
     (let (clock, s) = Now now s0 in
      if \<not> s_enrolled s then (Enroll ob s, None)
      else if Uncertain s then (s, None)
      else if s_cancelled s \<and> s_pending s \<noteq> None then (s, None)
      else observe_settled cx ob clock random d ent (supersede_unanswered ob s))"

text \<open>\<open>ReserveUnsubmitted\<close> drops this attempt's old charge and every charge outside the window.\<close>

definition ReserveUnsubmitted :: "millis \<Rightarrow> decision \<Rightarrow> 'p rstate \<Rightarrow> 'p rstate \<times> error option" where
  "ReserveUnsubmitted now d s =
     (if \<not> Allows d s then (s, Some ErrPolicyUnavailable)
      else if s_class s \<noteq> ''cybersecurity'' then (s, None)
      else case s_pending s of
          None \<Rightarrow> (s, Some (Err ''retry reservation has no intent''))
        | Some p \<Rightarrow>
            (let (clock, s1) = Now now s;
                 kept = filter (\<lambda>c. ch_id c \<noteq> pd_id p \<and> clock - 300000 < ch_at c) (s_cyber s1)
             in if CyberLimit \<le> length kept
                then (s1\<lparr>s_cyber := kept, s_phase := ''exhausted'', s_reason := ''cyber_limit'',
                         s_deadline := 0, s_pending := None\<rparr>, None)
                else (s1\<lparr>s_cyber := kept @ [\<lparr>ch_id = pd_id p, ch_at = clock, ch_accepted = False\<rparr>],
                         s_pending := Some (p\<lparr>pd_charged := clock\<rparr>)\<rparr>, None)))"

definition Begin :: "millis \<Rightarrow> decision \<Rightarrow> 'p rstate \<Rightarrow> 'p rstate \<times> error option" where
  "Begin now d s0 =
     (let (clock, s) = Now now s0 in
      if \<not> Allows d s \<or> s_phase s \<noteq> ''scheduled'' \<or> s_pending s = None \<or> clock < s_deadline s
      then (s, Some (Err ''retry is not due''))
      else
        (case ReserveUnsubmitted now d s of
           (s1, Some e) \<Rightarrow> (s1, Some e)
         | (s1, None) \<Rightarrow>
             if s_pending s1 = None then (s1, None)
             else
               (let s2 = s1\<lparr>s_attempt := s_attempt s1 + 1\<rparr>;
                    s3 = (if s_class s2 = ''capacity'' then s2\<lparr>s_capacity := s_capacity s2 + 1\<rparr> else s2)
                in (s3\<lparr>s_phase := ''submitting'', s_deadline := 0, s_reason := []\<rparr>, None))))"


subsection \<open>Validation of a record (\<open>store.go\<close> and \<open>managed_turn.go\<close>)\<close>

definition ManagedTurnSeed :: "'p codec \<Rightarrow> scope \<Rightarrow> u64 \<Rightarrow> string \<Rightarrow> string \<Rightarrow> string" where
  "ManagedTurnSeed cx c epoch bd turn =
     cx_sha256 cx (json_enc (JArr [JStr ''managed-turn/v1'', scope_json c, JWord epoch, JStr bd, JStr turn]))"

definition ManagedInputDigest :: "'p codec \<Rightarrow> string \<Rightarrow> string \<Rightarrow> string \<Rightarrow> string \<Rightarrow> string" where
  "ManagedInputDigest cx previous item client txt =
     cx_sha256 cx (json_enc (JArr [JStr ''managed-turn/input/v1'', JStr previous, JStr item, JStr client, JStr txt]))"

definition validDigest :: "string \<Rightarrow> bool" where
  "validDigest v = (case hex_decode v of None \<Rightarrow> False | Some d \<Rightarrow> length d = 32 \<and> hex_encode d = v)"

definition validateManagedTurn :: "'p codec \<Rightarrow> 'p rstate \<Rightarrow> error option" where
  "validateManagedTurn cx s =
     (case s_managed s of
        None \<Rightarrow> None
      | Some m \<Rightarrow>
          if s_schema s \<noteq> Schema \<or> mt_version m \<noteq> 1 \<or> mt_turn m = [] \<or> 4096 < length (mt_turn m) \<or>
             mt_epoch m \<noteq> s_epoch s \<or> s_binding s = None \<or>
             mt_binding m \<noteq> bd_digest (the (s_binding s)) \<or> \<not> validDigest (mt_digest m) \<or>
             mt_context m = None \<or> 4096 < length (mt_last m)
          then Some (Err ''managed turn authority is invalid'')
          else if mt_count m = 0 \<and>
                  (mt_last m \<noteq> [] \<or> map_entries (mt_context m) \<noteq> [] \<or>
                   mt_digest m \<noteq> ManagedTurnSeed cx (s_scope s) (mt_epoch m) (mt_binding m) (mt_turn m)) \<or>
                  0 < mt_count m \<and> mt_last m = []
          then Some (Err ''managed turn prefix is invalid'')
          else if MaxSnapshotBytes < json_len (managed_json cx m)
          then Some (Err ''managed turn context exceeds its bounds'')
          else None)"

definition retry_phases :: "string list" where
  "retry_phases = [''idle'', ''scheduled'', ''submitting'', ''reconciling'', ''running'', ''cancelled'',
                   ''exhausted'', ''blocked'']"

text \<open>The loop over the charges: well-formed, positive, and no identifier twice.\<close>

fun charges_ok :: "string list \<Rightarrow> charge list \<Rightarrow> bool" where
  "charges_ok seen [] = True"
| "charges_ok seen (c # cs) =
     (attemptID (ch_id c) \<and> 0 < ch_at c \<and> ch_id c \<notin> set seen \<and> charges_ok (ch_id c # seen) cs)"

definition check_snapshot :: "'p codec \<Rightarrow> 'p rstate \<Rightarrow> 'p snapshot \<Rightarrow> error option" where
  "check_snapshot cx s p =
     (if Snapshot_Hash cx p \<noteq> Inr (sn_digest p) \<or> sn_epoch p = 0 \<or> s_epoch s < sn_epoch p \<or>
         sn_version p \<noteq> 1 \<or> sn_id p = []
      then Some (Err ''retry settings snapshot is invalid'')
      else if sn_proven p \<and>
              (sn_turn p = [] \<or> opt_model (sn_options p) = [] \<or> opt_effort (sn_options p) = [] \<or>
               sn_provider p = [] \<or> sn_mode p \<noteq> ''default'' \<and> sn_mode p \<noteq> ''plan'')
      then Some (Err ''retry settings proof is incomplete'')
      else None)"

definition check_binding :: "'p codec \<Rightarrow> 'p rstate \<Rightarrow> error option" where
  "check_binding cx s =
     (case s_binding s of
        None \<Rightarrow> None
      | Some b \<Rightarrow>
          if bd_epoch b \<noteq> s_epoch s \<or> bd_digest b \<noteq> Binding_Hash cx b \<or> bd_socket b = [] \<or> bd_provider b = []
          then Some (Err ''retry loaded binding is invalid'') else None)"

definition charge_of :: "string \<Rightarrow> charge list \<Rightarrow> charge option" where
  "charge_of i cs = List.find (\<lambda>c. ch_id c = i) cs"

definition check_pending :: "'p codec \<Rightarrow> 'p rstate \<Rightarrow> error option" where
  "check_pending cx s =
     (case s_pending s of
        None \<Rightarrow> None
      | Some p \<Rightarrow>
          if \<not> attemptID (pd_id p) \<or> pd_action p = [] \<or> pd_failure p = []
          then Some (Err ''retry attempt identity is incomplete'')
          else case check_snapshot cx s (pd_snapshot p) of
              Some e \<Rightarrow> Some e
            | None \<Rightarrow>
                if pd_charged p \<noteq> 0 \<and> map_option ch_at (charge_of (pd_id p) (s_cyber s)) \<noteq> Some (pd_charged p)
                then Some (Err ''retry quota reservation changed'')
                else if s_class s = ''cybersecurity'' \<and>
                        (s_phase s = ''submitting'' \<or> s_phase s = ''reconciling'' \<or> s_phase s = ''running'') \<and>
                        pd_charged p = 0
                then Some (Err ''retry quota reservation is missing'')
                else None)"

text \<open>
  \<open>validate\<close>. A nil \<open>Cyber\<close> or \<open>Snapshots\<close> slice only comes from decoding a file; the model of
  \<open>Load\<close> refuses it there, where the decoder reports it.
\<close>

definition validate :: "'p codec \<Rightarrow> scope \<Rightarrow> 'p rstate \<Rightarrow> error option" where
  "validate cx c s =
     (if s_schema s \<noteq> 1 \<and> s_schema s \<noteq> Schema \<or> s_epoch s = 0 \<or> s_scope s \<noteq> c \<or>
         128 < length (s_reason s) \<or> CyberLimit + 1 < length (s_cyber s) \<or>
         MaxSnapshots < length (s_snapshots s)
      then Some (Err ''retry state identity or bounds changed'')
      else if s_phase s \<notin> set retry_phases then Some (Err ''unsupported retry phase'')
      else if s_class s \<noteq> [] \<and> s_class s \<noteq> ''capacity'' \<and> s_class s \<noteq> ''cybersecurity''
      then Some (Err ''unsupported retry class'')
      else if \<not> charges_ok [] (s_cyber s) then Some (Err ''invalid cyber dispatch time'')
      else
        (case first_error (map (check_snapshot cx s) (s_snapshots s)
                           @ [check_binding cx s, validateManagedTurn cx s, check_pending cx s]) of
           Some e \<Rightarrow> Some e
         | None \<Rightarrow>
             if s_phase s = ''scheduled'' \<and> (s_pending s = None \<or> s_deadline s \<le> 0) \<or>
                Uncertain s \<and> s_pending s = None
             then Some (Err ''retry phase is incomplete'')
             else None))"

subsection \<open>Keeping and retiring settings snapshots\<close>

definition protectedSnapshot :: "'p rstate \<Rightarrow> 'p snapshot \<Rightarrow> bool" where
  "protectedSnapshot s p \<longleftrightarrow>
     sn_turn p = [] \<or>
     (case s_pending s of None \<Rightarrow> False
      | Some q \<Rightarrow> sn_id p = pd_id q \<or> sn_id p = sn_id (pd_snapshot q) \<or> sn_turn p = sn_turn (pd_snapshot q))"

definition executed_or_proven :: "'p snapshot \<Rightarrow> bool" where
  "executed_or_proven p \<longleftrightarrow> sn_proven p \<or> sn_origin p = ''executed''"

definition SuppressTurn :: "string \<Rightarrow> 'p rstate \<Rightarrow> 'p rstate" where
  "SuppressTurn turn s0 =
     (let s = s0\<lparr>s_handled := turn\<rparr> in
      s\<lparr>s_snapshots := filter (\<lambda>p. \<not> (sn_turn p = turn \<and> executed_or_proven p \<and> \<not> protectedSnapshot s p))
                             (s_snapshots s)\<rparr>)"

definition RetireObsoleteProofs :: "string \<Rightarrow> 'p rstate \<Rightarrow> 'p rstate \<times> bool" where
  "RetireObsoleteProofs latest s =
     (if latest = [] then (s, False)
      else
        (let kept = filter (\<lambda>p. \<not> (sn_turn p \<noteq> [] \<and> sn_turn p \<noteq> latest \<and> executed_or_proven p \<and>
                                    \<not> protectedSnapshot s p)) (s_snapshots s)
         in if length kept = length (s_snapshots s) then (s, False) else (s\<lparr>s_snapshots := kept\<rparr>, True)))"

text \<open>Which entry \<open>retainSnapshot\<close> may drop to make the candidate fit.\<close>

definition retirable :: "'p rstate \<Rightarrow> 'p snapshot \<Rightarrow> string \<Rightarrow> 'p snapshot \<Rightarrow> bool" where
  "retirable s snap currentTurn p \<longleftrightarrow>
     sn_id p \<noteq> sn_id snap \<and>
     (sn_turn p \<noteq> currentTurn \<or> currentTurn \<noteq> [] \<and> currentTurn = s_handled s) \<and>
     \<not> sn_proven p \<and> sn_origin p \<noteq> ''executed'' \<and> \<not> protectedSnapshot s p \<and>
     (\<not> sn_proven snap \<or> sn_turn p \<noteq> sn_turn snap)"

definition retire_entry :: "string \<Rightarrow> nat \<Rightarrow> 'p snapshot list \<Rightarrow> 'p snapshot list" where
  "retire_entry currentTurn i xs =
     (let turn = sn_turn (xs ! i); ys = remove_nth i xs in
      if turn \<noteq> currentTurn
      then filter (\<lambda>p. sn_turn p \<noteq> turn \<or> \<not> sn_proven p \<and> sn_origin p \<noteq> ''executed'') ys else ys)"

lemma length_retire_entry: "i < length xs \<Longrightarrow> length (retire_entry t i xs) < length xs"
  by (auto simp: retire_entry_def Let_def intro: le_less_trans [OF length_filter_le])

text \<open>The loop of \<open>retainSnapshot\<close>, over the candidate's snapshots.\<close>

function retain_loop ::
  "'p codec \<Rightarrow> 'p rstate \<Rightarrow> 'p snapshot \<Rightarrow> string \<Rightarrow> bool \<Rightarrow> nat \<Rightarrow> 'p snapshot list \<Rightarrow> error + 'p rstate" where
  "retain_loop cx s snap currentTurn retire reserve xs =
     (let candidate = s\<lparr>s_snapshots := xs\<rparr> in
      if length xs \<le> MaxSnapshots \<and> json_len (state_json cx candidate) + 1 + reserve \<le> MaxBytes
      then (case validate cx (s_scope candidate) candidate of Some e \<Rightarrow> Inl e | None \<Rightarrow> Inr candidate)
      else
        (case (if retire \<and> currentTurn \<noteq> [] then find_index (retirable s snap currentTurn) xs else None) of
           None \<Rightarrow> Inl ErrSnapshotCapacity
         | Some i \<Rightarrow> retain_loop cx s snap currentTurn retire reserve (retire_entry currentTurn i xs)))"
  by pat_completeness auto
termination
  by (relation "measure (\<lambda>(cx, s, snap, currentTurn, retire, reserve, xs). length xs)")
     (auto dest!: find_index_Some intro: length_retire_entry split: if_splits)

declare retain_loop.simps [simp del]

definition put_snapshot :: "'p snapshot \<Rightarrow> 'p snapshot list \<Rightarrow> 'p snapshot list" where
  "put_snapshot snap xs =
     (case replace_first (\<lambda>p. sn_id p = sn_id snap) snap xs of None \<Rightarrow> xs @ [snap] | Some ys \<Rightarrow> ys)"

definition retainSnapshot ::
  "'p codec \<Rightarrow> 'p snapshot \<Rightarrow> string \<Rightarrow> bool \<Rightarrow> nat \<Rightarrow> 'p rstate \<Rightarrow> 'p rstate \<times> error option" where
  "retainSnapshot cx snap currentTurn retire reserve s =
     (case retain_loop cx s snap currentTurn retire reserve (put_snapshot snap (s_snapshots s)) of
        Inl e \<Rightarrow> (s, Some e) | Inr t \<Rightarrow> (t, None))"

definition AddSnapshot :: "'p codec \<Rightarrow> 'p snapshot \<Rightarrow> 'p rstate \<Rightarrow> 'p rstate \<times> error option" where
  "AddSnapshot cx snap s = retainSnapshot cx snap [] False 0 s"

definition RetainSnapshot :: "'p codec \<Rightarrow> 'p snapshot \<Rightarrow> string \<Rightarrow> 'p rstate \<Rightarrow> 'p rstate \<times> error option" where
  "RetainSnapshot cx snap currentTurn s = retainSnapshot cx snap currentTurn True 0 s"

definition AdmitSnapshot :: "'p codec \<Rightarrow> 'p snapshot \<Rightarrow> string \<Rightarrow> 'p rstate \<Rightarrow> 'p rstate \<times> error option" where
  "AdmitSnapshot cx snap currentTurn s = retainSnapshot cx snap currentTurn True receiptReserveBytes s"

definition RetainProof :: "'p codec \<Rightarrow> 'p snapshot \<Rightarrow> 'p rstate \<Rightarrow> 'p rstate \<times> error option" where
  "RetainProof cx snap s =
     retainSnapshot cx snap (sn_turn snap) True (json_len (snapshot_json cx snap) + receiptReserveBytes) s"

subsection \<open>Settling a receipt\<close>

definition resultSnapshot :: "'p codec \<Rightarrow> string \<Rightarrow> 'p pending \<Rightarrow> 'p snapshot" where
  "resultSnapshot cx turn p =
     (let q = (pd_snapshot p)\<lparr>sn_id := pd_id p, sn_turn := turn, sn_origin := ''automatic'', sn_proven := False,
                              sn_text_digest := cx_sha256 cx Continuation, sn_native := None\<rparr>
      in q\<lparr>sn_digest := (case Snapshot_Hash cx q of Inl _ \<Rightarrow> [] | Inr h \<Rightarrow> h)\<rparr>)"

text \<open>The loop over the charges in \<open>Accepted\<close>: the charges, the state (clock and \<open>ChargedAtMS\<close>)
  and whether this attempt's charge was found.\<close>

fun accept_charges ::
  "string \<Rightarrow> millis \<Rightarrow> charge list \<Rightarrow> 'p rstate \<Rightarrow> charge list \<times> 'p rstate \<times> bool" where
  "accept_charges i now [] s = ([], s, False)"
| "accept_charges i now (c # cs) s =
     (if ch_id c \<noteq> i then
        (let (ds, t, found) = accept_charges i now cs s in (c # ds, t, found))
      else if ch_accepted c then
        (let (ds, t, found) = accept_charges i now cs s in (c # ds, t, True))
      else
        (let (clock, s1) = Now now s;
             c1 = c\<lparr>ch_at := max (ch_at c) clock, ch_accepted := True\<rparr>;
             s2 = s1\<lparr>s_pending := map_option (\<lambda>p. p\<lparr>pd_charged := ch_at c1\<rparr>) (s_pending s1)\<rparr>;
             (ds, t, found) = accept_charges i now cs s2
         in (c1 # ds, t, True)))"

definition settle_result :: "'p codec \<Rightarrow> string \<Rightarrow> 'p rstate \<Rightarrow> 'p rstate \<times> error option" where
  "settle_result cx turn s =
     (case s_pending s of
        None \<Rightarrow> (s, Some (Err ''retry receipt has no exact turn''))
      | Some p \<Rightarrow>
          (let alreadySuppressed = (pd_result p = turn \<and> s_handled s = turn);
               p1 = p\<lparr>pd_result := turn\<rparr>;
               s1 = s\<lparr>s_pending := Some p1\<rparr>;
               finish = (\<lambda>t. if s_cancelled t
                             then t\<lparr>s_phase := ''cancelled'', s_reason := [], s_handled := turn\<rparr>
                             else t\<lparr>s_phase := ''running'', s_reason := []\<rparr>)
           in if alreadySuppressed
              then (if s_phase s1 = ''blocked'' then (s1, None) else (finish s1, None))
              else
                (case RetainSnapshot cx (resultSnapshot cx turn p1) turn s1 of
                   (s2, Some e) \<Rightarrow>
                     if \<not> errors_is e ErrSnapshotCapacity then (s2, Some e)
                     else ((SuppressTurn turn s2)\<lparr>s_phase := ''blocked'', s_reason := ''settings_unproven'',
                                                  s_cancelled := True, s_deadline := 0\<rparr>, None)
                 | (s2, None) \<Rightarrow> (finish s2, None))))"

definition Accepted :: "'p codec \<Rightarrow> string \<Rightarrow> millis \<Rightarrow> 'p rstate \<Rightarrow> 'p rstate \<times> error option" where
  "Accepted cx turn now s =
     (case s_pending s of
        None \<Rightarrow> (s, Some (Err ''retry receipt has no exact turn''))
      | Some p \<Rightarrow>
          if turn = [] then (s, Some (Err ''retry receipt has no exact turn''))
          else if pd_result p \<noteq> [] \<and> pd_result p \<noteq> turn
          then (s, Some (Err ''retry receipt identity changed''))
          else if s_class s = ''cybersecurity'' then
            (let (cs, t, found) = accept_charges (pd_id p) now (s_cyber s) s;
                 s1 = t\<lparr>s_cyber := cs\<rparr>
             in if \<not> found then (s1, Some (Err ''retry receipt has no quota reservation''))
                else settle_result cx turn s1)
          else settle_result cx turn s)"

text \<open>\<open>PreflightAccepted\<close> tries the bookkeeping of a receipt on a copy before a submission.\<close>

definition PreflightAccepted :: "'p codec \<Rightarrow> 'p rstate \<Rightarrow> 'p rstate \<times> error option" where
  "PreflightAccepted cx s =
     (case s_pending s of
        None \<Rightarrow> (s, Some (Err ''retry receipt has no exact turn''))
      | Some p \<Rightarrow>
          (let p1 = p\<lparr>pd_result := pd_id p\<rparr>; preview = s\<lparr>s_pending := Some p1\<rparr> in
           case retainSnapshot cx (resultSnapshot cx (pd_id p) p1) (pd_failure p) True receiptReserveBytes preview of
             (_, Some e) \<Rightarrow> (s, Some e)
           | (t, None) \<Rightarrow>
               (s\<lparr>s_snapshots := filter (\<lambda>q. sn_id q \<noteq> pd_id p) (s_snapshots t), s_handled := s_handled t\<rparr>, None)))"


subsection \<open>Compacting an observed input into the managed prefix\<close>

primrec map_put :: "string \<Rightarrow> 'a \<Rightarrow> (string \<times> 'a) list \<Rightarrow> (string \<times> 'a) list" where
  "map_put k v [] = [(k, v)]"
| "map_put k v (x # xs) = (if fst x = k then (k, v) # xs else x # map_put k v xs)"

text \<open>The loop that adds a snapshot's context: a key with a different value is refused.\<close>

fun merge_context ::
  "(string \<times> context_entry) list \<Rightarrow> (string \<times> context_entry) list \<Rightarrow> (string \<times> context_entry) list option" where
  "merge_context acc [] = Some acc"
| "merge_context acc ((k, v) # xs) =
     (case map_of acc k of
        Some old \<Rightarrow> if old \<noteq> v then None else merge_context (map_put k v acc) xs
      | None \<Rightarrow> merge_context (map_put k v acc) xs)"

definition input_matches :: "string \<Rightarrow> string \<Rightarrow> 'p snapshot \<Rightarrow> bool" where
  "input_matches client txt p \<longleftrightarrow>
     client \<noteq> [] \<and> sn_id p = client \<or> client = [] \<and> sn_origin p = ''initial'' \<and> sn_text_digest p = txt"

definition input_admissible :: "'p binding \<Rightarrow> string \<Rightarrow> string \<Rightarrow> 'p snapshot \<Rightarrow> bool" where
  "input_admissible b turn txt p \<longleftrightarrow>
     sn_text_digest p = txt \<and> (sn_turn p = [] \<or> sn_turn p = turn) \<and> \<not> sn_proven p \<and>
     sn_epoch p = bd_epoch b \<and> sn_binding_digest p = bd_digest b \<and> sn_socket p = bd_socket b \<and>
     sn_provider p = bd_provider b \<and> sn_common p = bd_common b \<and>
     opt_policy (sn_options p) = bd_policy b \<and>
     \<not> (sn_origin p = ''queue'' \<and> map_entries (opt_context (sn_options p)) \<noteq> [])"

text \<open>The managed prefix an input of \<open>turn\<close> extends: the saved one of that turn, or a fresh seed.\<close>

definition managed_base :: "'p codec \<Rightarrow> 'p binding \<Rightarrow> string \<Rightarrow> 'p rstate \<Rightarrow> managed_turn" where
  "managed_base cx b turn s =
     (let fresh = \<lparr>mt_version = 1, mt_turn = turn, mt_epoch = s_epoch s, mt_binding = bd_digest b, mt_count = 0,
                   mt_digest = ManagedTurnSeed cx (s_scope s) (s_epoch s) (bd_digest b) turn, mt_last = [],
                   mt_context = Some []\<rparr>
      in case s_managed s of
           Some m \<Rightarrow> if mt_turn m = turn then m\<lparr>mt_context := Some (map_entries (mt_context m))\<rparr> else fresh
         | None \<Rightarrow> fresh)"

definition CompactManagedInput ::
  "'p codec \<Rightarrow> string \<Rightarrow> string \<Rightarrow> string \<Rightarrow> string \<Rightarrow> 'p rstate \<Rightarrow> 'p rstate \<times> error option" where
  "CompactManagedInput cx turn item client txt s =
     (case s_binding s of
        None \<Rightarrow> (s, Some ErrMissingProof)
      | Some b \<Rightarrow>
          if bd_epoch b \<noteq> s_epoch s \<or> item = [] \<or> 4096 < length item \<or> turn = [] \<or> s_handled s = turn
          then (s, Some ErrMissingProof)
          else
            (case filter (\<lambda>i. input_matches client txt (s_snapshots s ! i)) [0 ..< length (s_snapshots s)] of
               [i] \<Rightarrow>
                 (let p = s_snapshots s ! i; m = managed_base cx b turn s in
                  if \<not> input_admissible b turn txt p then (s, Some ErrMissingProof)
                  else
                    (case merge_context (map_entries (mt_context m)) (map_entries (opt_context (sn_options p))) of
                       None \<Rightarrow> (s, Some ErrMissingProof)
                     | Some ctx \<Rightarrow>
                         if mt_count m = - 1 then (s, Some (Err ''managed turn prefix count overflow''))
                         else
                           (let m1 = m\<lparr>mt_context := Some ctx, mt_count := mt_count m + 1,
                                       mt_digest := ManagedInputDigest cx (mt_digest m) item client txt,
                                       mt_last := item\<rparr>;
                                kept = filter (\<lambda>q. \<not> (sn_turn q = turn \<and> sn_origin q = ''executed''))
                                              (remove_nth i (s_snapshots s));
                                candidate = s\<lparr>s_schema := Schema, s_managed := Some m1, s_snapshots := kept\<rparr>
                            in case validate cx (s_scope candidate) candidate of
                                 Some e \<Rightarrow> (s, Some e)
                               | None \<Rightarrow> (candidate, None))))
             | _ \<Rightarrow> (s, Some ErrMissingProof)))"

subsection \<open>User actions (\<open>policy.go\<close>)\<close>

definition Stop :: "'p rstate \<Rightarrow> 'p rstate \<times> bool" where
  "Stop s =
     (if s_cancelled s then (s, False)
      else
        (let s1 = (case s_pending s of
                     None \<Rightarrow> s
                   | Some p \<Rightarrow> s\<lparr>s_handled := (if pd_result p \<noteq> [] then pd_result p else pd_failure p)\<rparr>)
         in ((Cancel ''cancelled'' s1)\<lparr>s_pending := s_pending s1\<rparr>, True)))"

definition RetryNow :: "millis \<Rightarrow> 'p rstate \<Rightarrow> 'p rstate \<times> bool" where
  "RetryNow now s =
     (if s_cancelled s \<or> s_phase s \<noteq> ''scheduled'' \<or> s_pending s = None \<or> s_deadline s \<le> max now (s_clock s)
      then (s, False)
      else (let (clock, s1) = Now now s in (s1\<lparr>s_deadline := clock\<rparr>, True)))"

definition ActionToken ::
  "'p codec \<Rightarrow> string \<Rightarrow> string \<Rightarrow> string \<Rightarrow> string \<Rightarrow> string \<Rightarrow> string \<Rightarrow> string" where
  "ActionToken cx incarnation thread chain revision operation pend =
     (let z = [char_of (0::nat)] in
      cx_sha256 cx (incarnation @ z @ thread @ z @ chain @ z @ revision @ z @ operation @ z @ pend))"

end
