(* ===== verification/Retry_Ledger.thy ===== *)
theory Retry_Ledger
  imports Retry_State
begin

text \<open>
  Lemmas of the ledger's operations: which fields each stage leaves alone, the identifiers
  \<open>NewID\<close> makes, and what retaining a snapshot keeps and bounds.
\<close>

subsection \<open>Frames\<close>

text \<open>\<open>ledger\<close> projects the fields only quota, provenance and save operations write.\<close>

definition ledger :: "'p rstate \<Rightarrow>
    u64 \<times> int \<times> scope \<times> charge list \<times> millis \<times> 'p snapshot list \<times> 'p binding option \<times> managed_turn option" where
  "ledger s = (s_epoch s, s_schema s, s_scope s, s_cyber s, s_clock s, s_snapshots s, s_binding s, s_managed s)"

lemma ledger_eqD:
  assumes "ledger s = ledger t"
  shows "s_epoch s = s_epoch t" "s_schema s = s_schema t" "s_scope s = s_scope t" "s_cyber s = s_cyber t"
    "s_clock s = s_clock t" "s_snapshots s = s_snapshots t" "s_binding s = s_binding t" "s_managed s = s_managed t"
  using assms by (simp_all add: ledger_def)

lemma ledger_update [frame_simps]:
  "ledger (s_enabled_update f1 s) = ledger s" "ledger (s_enrolled_update f1 s) = ledger s"
  "ledger (s_boundary_update f2 s) = ledger s" "ledger (s_baseline_update f2 s) = ledger s"
  "ledger (s_baseline_active_update f1 s) = ledger s" "ledger (s_handled_update f2 s) = ledger s"
  "ledger (s_chain_update f2 s) = ledger s" "ledger (s_class_update f2 s) = ledger s"
  "ledger (s_phase_update f2 s) = ledger s" "ledger (s_reason_update f2 s) = ledger s"
  "ledger (s_attempt_update f3 s) = ledger s" "ledger (s_capacity_update f3 s) = ledger s"
  "ledger (s_deadline_update f4 s) = ledger s" "ledger (s_cancelled_update f1 s) = ledger s"
  "ledger (s_pending_update f5 s) = ledger s"
  by (simp_all add: ledger_def)

lemma ledger_Cancel [frame_simps]: "ledger (Cancel r s) = ledger s"
  by (simp add: Cancel_def Let_def frame_simps split: option.split)

lemma ledger_Enroll [frame_simps]: "ledger (Enroll ob s) = ledger s"
  by (simp add: Enroll_def frame_simps)

lemma ledger_SetEnabled [frame_simps]: "ledger (SetEnabled e ob s) = ledger s"
  by (simp add: SetEnabled_def Let_def frame_simps)

lemma ledger_stages [frame_simps]:
  "ledger (supersede_unanswered ob s) = ledger s"
  "ledger (supersede_answered ob s) = ledger s"
  "ledger (observe_other ob s) = ledger s"
  "ledger (observe_unsupported ob s) = ledger s"
  "ledger (observe_ineligible ob s) = ledger s"
  "ledger (enter_chain ob s) = ledger s"
  by (simp_all add: supersede_unanswered_def supersede_answered_def observe_other_def observe_unsupported_def
       observe_ineligible_def enter_chain_def Let_def frame_simps split: option.split)

lemma ledger_schedule_failure [frame_simps]: "ledger (fst (schedule_failure cx ob c r e s)) = ledger s"
  by (simp add: schedule_failure_def frame_simps split: option.split sum.split)

lemma ledger_observe_settled [frame_simps]: "ledger (fst (observe_settled cx ob c r d e s)) = ledger s"
  by (simp add: observe_settled_def observe_failed_def frame_simps)

lemma ledger_Observe: "ledger (fst (Observe cx ob now r d e s)) = ledger (snd (Now now s))"
  by (simp add: Observe_def frame_simps split: prod.split)

lemma Now_eq: "Now now s = (max now (s_clock s), s\<lparr>s_clock := max now (s_clock s)\<rparr>)"
  by (simp add: Now_def max_def)

lemma ledger_Stop [frame_simps]: "ledger (fst (Stop s)) = ledger s"
  by (simp add: Stop_def Let_def frame_simps split: option.split)

lemma ledger_RetryNow [frame_simps]: "ledger (fst (RetryNow now s)) = ledger s \<or> ledger (fst (RetryNow now s)) = ledger (snd (Now now s))"
  by (simp add: RetryNow_def frame_simps split: prod.split)


subsection \<open>Attempt identifiers\<close>

lemma dash_not_hex_encode [simp]: "CHR ''-'' \<notin> set (hex_encode bs)"
  by (rule dash_not_lower_hex) (rule hex_encode_lower)

lemma length_uuid_bytes [simp]: "length (uuid_bytes b) = length b"
  by (simp add: uuid_bytes_def)

lemma NewID_attemptID: "length b = 16 \<Longrightarrow> NewID (Inr b) = Inr v \<Longrightarrow> attemptID v"
  by (auto simp: NewID_def attemptID_def hex_run_def split_on_append_sep hex_encode_lower Let_def)


lemma uuid_version: "length b = 16 \<Longrightarrow> uuid_bytes b ! 6 AND 240 = 64 \<and> uuid_bytes b ! 8 AND 192 = 128"
  unfolding uuid_bytes_def
  by (auto simp: bit.conj_disj_distrib2 and.assoc)

subsection \<open>Retaining a snapshot\<close>

lemma retire_entry_set: "set (retire_entry t i xs) \<subseteq> set xs"
  using set_remove_nth [of i xs] by (auto simp: retire_entry_def Let_def)

text \<open>What a retirement of a retirable entry never drops.\<close>

definition kept_by_retirement :: "'p rstate \<Rightarrow> 'p snapshot \<Rightarrow> 'p snapshot \<Rightarrow> bool" where
  "kept_by_retirement s snap p \<longleftrightarrow>
     sn_turn p = [] \<or>
     (\<exists>q. s_pending s = Some q \<and>
          (sn_turn p = sn_turn (pd_snapshot q) \<or>
           \<not> executed_or_proven p \<and> (sn_id p = pd_id q \<or> sn_id p = sn_id (pd_snapshot q)))) \<or>
     sn_id p = sn_id snap \<and> (\<not> executed_or_proven p \<or> p = snap \<and> sn_proven snap)"

lemma retire_entry_keeps:
  assumes i: "i < length xs" and r: "retirable s snap ct (xs ! i)"
    and p: "p \<in> set xs" and k: "kept_by_retirement s snap p"
  shows "p \<in> set (retire_entry ct i xs)"
proof -
  from r k have ne: "p \<noteq> xs ! i"
    by (auto simp: retirable_def kept_by_retirement_def protectedSnapshot_def executed_or_proven_def
        split: option.splits)
  from set_remove_nth_other [OF i p ne] have mem: "p \<in> set (remove_nth i xs)" .
  from r k have "sn_turn p \<noteq> sn_turn (xs ! i) \<or> \<not> sn_proven p \<and> sn_origin p \<noteq> ''executed''"
    by (auto simp: retirable_def kept_by_retirement_def protectedSnapshot_def executed_or_proven_def
        split: option.splits)
  with mem show ?thesis by (simp add: retire_entry_def Let_def)
qed

lemma retain_loop_Inr:
  "retain_loop cx s snap ct retire reserve xs = Inr t \<Longrightarrow>
     t = s\<lparr>s_snapshots := s_snapshots t\<rparr> \<and> set (s_snapshots t) \<subseteq> set xs \<and>
     length (s_snapshots t) \<le> MaxSnapshots \<and> json_len (state_json cx t) + 1 + reserve \<le> MaxBytes \<and>
     validate cx (s_scope s) t = None \<and>
     (\<forall>p \<in> set xs. kept_by_retirement s snap p \<longrightarrow> p \<in> set (s_snapshots t)) \<and>
     (\<not> retire \<longrightarrow> s_snapshots t = xs)"
proof (induction cx s snap ct retire reserve xs rule: retain_loop.induct)
  case (1 cx s snap ct retire reserve xs)
  let ?c = "s\<lparr>s_snapshots := xs\<rparr>"
  show ?case
  proof (cases "length xs \<le> MaxSnapshots \<and> json_len (state_json cx ?c) + 1 + reserve \<le> MaxBytes")
    case True
    with "1.prems" have "validate cx (s_scope s) ?c = None" and "t = ?c"
      by (auto simp: retain_loop.simps [of cx s snap ct retire reserve xs] Let_def split: option.splits)
    with True show ?thesis by simp
  next
    case False
    then obtain i where i: "retire \<and> ct \<noteq> []" "find_index (retirable s snap ct) xs = Some i"
      and rec: "retain_loop cx s snap ct retire reserve (retire_entry ct i xs) = Inr t"
      using "1.prems"
      by (auto simp: retain_loop.simps [of cx s snap ct retire reserve xs] Let_def split: option.splits if_splits)
    have sel: "i < length xs" "retirable s snap ct (xs ! i)"
      using find_index_Some [OF i(2)] by auto
    have ih: "t = s\<lparr>s_snapshots := s_snapshots t\<rparr> \<and> set (s_snapshots t) \<subseteq> set (retire_entry ct i xs) \<and>
        length (s_snapshots t) \<le> MaxSnapshots \<and> json_len (state_json cx t) + 1 + reserve \<le> MaxBytes \<and>
        validate cx (s_scope s) t = None \<and>
        (\<forall>p \<in> set (retire_entry ct i xs). kept_by_retirement s snap p \<longrightarrow> p \<in> set (s_snapshots t)) \<and>
        (\<not> retire \<longrightarrow> s_snapshots t = retire_entry ct i xs)"
      using "1.IH" [OF refl False _ rec] i by simp
    have kept: "\<forall>p \<in> set xs. kept_by_retirement s snap p \<longrightarrow> p \<in> set (s_snapshots t)"
      using ih retire_entry_keeps [OF sel] by blast
    show ?thesis
      using ih kept i(1) retire_entry_set [of ct i xs] by (metis subset_trans)
  qed
qed

lemma put_snapshot_mem: "snap \<in> set (put_snapshot snap xs)"
  by (auto simp: put_snapshot_def dest: replace_first_Some_set split: option.splits)

lemma put_snapshot_keeps: "p \<in> set xs \<Longrightarrow> sn_id p \<noteq> sn_id snap \<Longrightarrow> p \<in> set (put_snapshot snap xs)"
  by (auto simp: put_snapshot_def dest: replace_first_keeps split: option.splits)

lemma put_snapshot_sub: "set (put_snapshot snap xs) \<subseteq> insert snap (set xs)"
  by (auto simp: put_snapshot_def dest: replace_first_Some_set split: option.splits)

lemma retainSnapshot_ok:
  assumes "retainSnapshot cx snap ct retire reserve s = (t, None)"
  shows "t = s\<lparr>s_snapshots := s_snapshots t\<rparr>"
    and "set (s_snapshots t) \<subseteq> insert snap (set (s_snapshots s))"
    and "length (s_snapshots t) \<le> MaxSnapshots"
    and "json_len (state_json cx t) + 1 + reserve \<le> MaxBytes"
    and "validate cx (s_scope s) t = None"
    and "kept_by_retirement s snap snap \<Longrightarrow> snap \<in> set (s_snapshots t)"
    and "\<And>p. p \<in> set (s_snapshots s) \<Longrightarrow> sn_id p \<noteq> sn_id snap \<Longrightarrow> kept_by_retirement s snap p \<Longrightarrow> p \<in> set (s_snapshots t)"
    and "\<not> retire \<Longrightarrow> s_snapshots t = put_snapshot snap (s_snapshots s)"
proof -
  from assms have "retain_loop cx s snap ct retire reserve (put_snapshot snap (s_snapshots s)) = Inr t"
    by (auto simp: retainSnapshot_def split: sum.splits)
  note r = retain_loop_Inr [OF this]
  from r show "t = s\<lparr>s_snapshots := s_snapshots t\<rparr>" by blast
  from r show "set (s_snapshots t) \<subseteq> insert snap (set (s_snapshots s))"
    using put_snapshot_sub [of snap "s_snapshots s"] by (meson subset_trans)
  from r show "length (s_snapshots t) \<le> MaxSnapshots"
    and "json_len (state_json cx t) + 1 + reserve \<le> MaxBytes"
    and "validate cx (s_scope s) t = None"
    and "kept_by_retirement s snap snap \<Longrightarrow> snap \<in> set (s_snapshots t)"
    and "\<not> retire \<Longrightarrow> s_snapshots t = put_snapshot snap (s_snapshots s)"
    using put_snapshot_mem [of snap "s_snapshots s"] by blast+
  fix p assume "p \<in> set (s_snapshots s)" "sn_id p \<noteq> sn_id snap" "kept_by_retirement s snap p"
  then show "p \<in> set (s_snapshots t)" using r put_snapshot_keeps by blast
qed

lemma retainSnapshot_error: "retainSnapshot cx snap ct retire reserve s = (t, Some e) \<Longrightarrow> t = s"
  by (auto simp: retainSnapshot_def split: sum.splits)

end
