(* ===== verification/Retry_Samples.thy ===== *)
theory Retry_Samples
  imports Retry_State
begin

text \<open>
  Concrete values of the ledger's types, at which the theorems with hypotheses are applied: a codec
  whose SHA-256 is a constant function and whose codex types have an empty JSON form, a scope, a
  settings snapshot with its digest, an attempt and a policy decision.
\<close>

definition sample_codec :: "unit codec" where
  "sample_codec = \<lparr>cx_sha256 = (\<lambda>_. replicate 64 (CHR ''a'')), cx_options_json = (\<lambda>_. JNull),
                   cx_policy_json = (\<lambda>_. JNull), cx_context_json = (\<lambda>_. JNull), cx_fround = (\<lambda>x. x)\<rparr>"

definition sample_scope :: scope where
  "sample_scope = \<lparr>sc_workspace = ''/w'', sc_slug = ''s'', sc_root = ''r'', sc_thread = ''t'', sc_socket = ''/k''\<rparr>"

definition sample_id :: string where
  "sample_id = ''00000000-0000-4000-8000-000000000000''"

definition sample_options :: "unit turn_options" where
  "sample_options = \<lparr>opt_model = ''m'', opt_effort = ''high'', opt_policy = (), opt_context = None\<rparr>"

definition sample_snapshot :: "unit snapshot" where
  "sample_snapshot = \<lparr>sn_epoch = 1, sn_version = 1, sn_id = ''p1'', sn_turn = ''turn-1'', sn_origin = ''manual'',
     sn_provider = ''openai'', sn_mode = ''default'', sn_common = [], sn_options = sample_options,
     sn_digest = replicate 64 (CHR ''a''), sn_proven = True, sn_text_digest = [], sn_socket = [],
     sn_native = None, sn_binding_digest = []\<rparr>"

definition sample_pending :: "unit pending" where
  "sample_pending = \<lparr>pd_id = sample_id, pd_action = ''turn-retry'', pd_failure = ''turn-1'',
     pd_snapshot = sample_snapshot, pd_charged = 0, pd_result = []\<rparr>"

definition sample_decision :: decision where
  "sample_decision = \<lparr>d_revision = ''r1'', d_capacity = True, d_cyber = True,
     d_capacity_base = \<lparr>en_turn = ''turn-0'', en_active = False\<rparr>,
     d_cyber_base = \<lparr>en_turn = ''turn-0'', en_active = False\<rparr>, d_suppressed = []\<rparr>"

end
