(* ===== verification/Retry_Quota.thy ===== *)
theory Retry_Quota
  imports Retry_Ledger Retry_Samples
begin

text \<open>
  The cybersecurity dispatch quota: at most \<open>CyberLimit\<close> reservations in any five minutes, whatever
  the clock does and in whatever order the ledger's operations run. The operations become the
  events of a step relation over a state and the list of reservations in force; the invariant ties
  each recent reservation to a charge the ledger still holds.
\<close>

subsection \<open>Operations that leave the charges and the clock alone\<close>

definition quota :: "'p rstate \<Rightarrow> charge list \<times> millis" where
  "quota s = (s_cyber s, s_clock s)"

lemma quota_eqD: "quota s = quota t \<Longrightarrow> s_cyber s = s_cyber t \<and> s_clock s = s_clock t"
  by (simp add: quota_def)

lemma ledger_quota: "ledger s = ledger t \<Longrightarrow> quota s = quota t"
  by (simp add: ledger_def quota_def)

lemma quota_update [frame_simps]:
  "quota (s_epoch_update f3 s) = quota s" "quota (s_schema_update f6 s) = quota s"
  "quota (s_snapshots_update f7 s) = quota s" "quota (s_binding_update f8 s) = quota s"
  "quota (s_managed_update f9 s) = quota s"
  "quota (s_boundary_update f2 s) = quota s" "quota (s_handled_update f2 s) = quota s"
  "quota (s_phase_update f2 s) = quota s" "quota (s_reason_update f2 s) = quota s"
  "quota (s_attempt_update f3 s) = quota s" "quota (s_capacity_update f3 s) = quota s"
  "quota (s_deadline_update f4 s) = quota s" "quota (s_cancelled_update f1 s) = quota s"
  "quota (s_pending_update f5 s) = quota s"
  by (simp_all add: quota_def)

lemma quota_by_ledger [frame_simps]:
  "quota (Cancel r s) = quota s" "quota (Enroll ob s) = quota s" "quota (SetEnabled en ob s) = quota s"
  "quota (fst (Stop s)) = quota s"
  by (rule ledger_quota, simp add: frame_simps)+

lemma quota_Observe: "quota (fst (Observe cx ob now r d e s)) = quota (snd (Now now s))"
  by (rule ledger_quota) (rule ledger_Observe)

lemma quota_retainSnapshot [frame_simps]: "quota (fst (retainSnapshot cx snap ct retire res s)) = quota s"
proof (cases "retainSnapshot cx snap ct retire res s")
  case (Pair t e)
  show ?thesis
  proof (cases e)
    case None
    with Pair have "t = s\<lparr>s_snapshots := s_snapshots t\<rparr>"
      using retainSnapshot_ok(1) [of cx snap ct retire res s t] by simp
    then have "quota t = quota s" by (metis quota_update(3))
    with Pair show ?thesis by simp
  next
    case (Some x)
    with Pair show ?thesis using retainSnapshot_error [of cx snap ct retire res s t x] by simp
  qed
qed

lemma quota_snapshot_ops [frame_simps]:
  "quota (SuppressTurn t s) = quota s"
  "quota (fst (RetireObsoleteProofs t s)) = quota s"
  "quota (fst (InvalidateSettings t s)) = quota s"
  by (simp_all add: SuppressTurn_def RetireObsoleteProofs_def InvalidateSettings_def Let_def frame_simps)

lemma quota_PreflightAccepted [frame_simps]: "quota (fst (PreflightAccepted cx s)) = quota s"
  by (simp add: PreflightAccepted_def Let_def frame_simps split: option.split prod.split)

lemma quota_CompactManagedInput [frame_simps]: "quota (fst (CompactManagedInput cx tn it cl txt s)) = quota s"
  by (simp add: CompactManagedInput_def Let_def frame_simps split: option.split list.split)

lemma quota_settle_result [frame_simps]: "quota (fst (settle_result cx turn s)) = quota s"
proof (cases "s_pending s")
  case None
  then show ?thesis by (simp add: settle_result_def)
next
  case (Some p)
  let ?p = "p\<lparr>pd_result := turn\<rparr>"
  obtain s2 e where r: "RetainSnapshot cx (resultSnapshot cx turn ?p) turn (s\<lparr>s_pending := Some ?p\<rparr>) = (s2, e)"
    by fastforce
  have "quota (fst (RetainSnapshot cx (resultSnapshot cx turn ?p) turn (s\<lparr>s_pending := Some ?p\<rparr>))) = quota s"
    by (simp add: RetainSnapshot_def frame_simps)
  with r have "quota s2 = quota s" by simp
  with Some r show ?thesis
    by (cases e) (simp_all add: settle_result_def Let_def frame_simps)
qed

text \<open>Accepting a receipt keeps the charges' identifiers and never moves one back in time.\<close>

lemma accept_charges_facts:
  "accept_charges i now cs s = (ds, t, found) \<Longrightarrow>
     list_all2 (\<lambda>c d. ch_id d = ch_id c \<and> ch_at c \<le> ch_at d) cs ds \<and>
     s_clock s \<le> s_clock t \<and> (found \<longleftrightarrow> i \<in> ch_id ` set cs)"
proof (induction cs arbitrary: s ds t found)
  case Nil
  then show ?case by simp
next
  case (Cons c cs)
  then show ?case
    by (fastforce simp: Now_eq split: if_splits prod.splits)
qed

subsection \<open>Charges cover the recent reservations\<close>

type_synonym reservations = "(string \<times> millis) list"

definition window_ids :: "millis \<Rightarrow> reservations \<Rightarrow> string set" where
  "window_ids T rs = fst ` {x \<in> set rs. T - 300000 < snd x \<and> snd x \<le> T}"

definition covered :: "charge list \<Rightarrow> millis \<Rightarrow> reservations \<Rightarrow> bool" where
  "covered cs clock rs \<longleftrightarrow>
     (\<forall>x \<in> set rs. snd x \<le> clock \<and>
        (clock - 300000 < snd x \<longrightarrow> (\<exists>c \<in> set cs. ch_id c = fst x \<and> snd x \<le> ch_at c)))"

definition quota_inv :: "charge list \<Rightarrow> millis \<Rightarrow> reservations \<Rightarrow> bool" where
  "quota_inv cs clock rs \<longleftrightarrow>
     length cs \<le> CyberLimit \<and> covered cs clock rs \<and> (\<forall>T. card (window_ids T rs) \<le> CyberLimit)"

lemma finite_window_ids [simp]: "finite (window_ids T rs)"
  by (simp add: window_ids_def)

lemma quota_inv_forward: "quota_inv cs clock rs \<Longrightarrow> clock \<le> clock' \<Longrightarrow> quota_inv cs clock' rs"
  unfolding quota_inv_def covered_def by force

lemma list_all2_memD: "list_all2 P xs ys \<Longrightarrow> x \<in> set xs \<Longrightarrow> \<exists>y \<in> set ys. P x y"
  by (induction rule: list_all2_induct) auto

lemma quota_inv_later_charges:
  assumes "quota_inv cs clock rs" and "list_all2 (\<lambda>c d. ch_id d = ch_id c \<and> ch_at c \<le> ch_at d) cs ds"
  shows "quota_inv ds clock rs"
proof -
  have len: "length ds \<le> CyberLimit"
    using assms(1) list_all2_lengthD [OF assms(2)] by (simp add: quota_inv_def)
  have "\<exists>d \<in> set ds. ch_id d = i \<and> t \<le> ch_at d"
    if c: "c \<in> set cs" "ch_id c = i" "t \<le> ch_at c" for c i t
  proof -
    from list_all2_memD [OF assms(2) c(1)] obtain d where "d \<in> set ds" "ch_id d = ch_id c" "ch_at c \<le> ch_at d"
      by blast
    with c show ?thesis by (intro bexI [of _ d]) auto
  qed
  then have "covered ds clock rs"
    using assms(1) unfolding quota_inv_def covered_def by fast
  with len show ?thesis using assms(1) by (simp add: quota_inv_def)
qed

lemma quota_inv_void:
  assumes "quota_inv cs clock rs"
  shows "quota_inv (filter (\<lambda>c. ch_id c \<noteq> i \<and> clock - 300000 < ch_at c) cs) clock
                   (filter (\<lambda>x. fst x \<noteq> i) rs)" (is "quota_inv ?ks clock ?rs")
proof -
  have "card (window_ids T ?rs) \<le> CyberLimit" for T
  proof -
    have "card (window_ids T ?rs) \<le> card (window_ids T rs)"
      by (rule card_mono) (auto simp: window_ids_def)
    also have "\<dots> \<le> CyberLimit" using assms by (simp add: quota_inv_def)
    finally show ?thesis .
  qed
  moreover have "covered ?ks clock ?rs"
    using assms unfolding quota_inv_def covered_def by force
  moreover have "length ?ks \<le> CyberLimit"
    using assms le_trans [OF length_filter_le] by (auto simp: quota_inv_def)
  ultimately show ?thesis by (simp add: quota_inv_def)
qed

lemma quota_inv_reserve:
  assumes "quota_inv ks clock rs" and "length ks < CyberLimit"
  shows "quota_inv (ks @ [\<lparr>ch_id = i, ch_at = clock, ch_accepted = False\<rparr>]) clock ((i, clock) # rs)"
    (is "quota_inv ?cs clock ?rs")
proof -
  have cov: "covered ?cs clock ?rs"
    using assms(1) unfolding quota_inv_def covered_def by force
  have "card (window_ids T ?rs) \<le> CyberLimit" for T
  proof (cases "clock \<le> T")
    case True
    have "window_ids T ?rs \<subseteq> ch_id ` set ?cs"
      using cov True unfolding window_ids_def covered_def by force
    then have "card (window_ids T ?rs) \<le> card (ch_id ` set ?cs)"
      by (rule card_mono [rotated]) simp
    also have "\<dots> \<le> length ?cs" using card_image_le [of "set ?cs" ch_id] card_length [of ?cs] by simp
    also have "\<dots> \<le> CyberLimit" using assms(2) by simp
    finally show ?thesis .
  next
    case False
    then have "window_ids T ?rs = window_ids T rs" by (auto simp: window_ids_def)
    then show ?thesis using assms(1) by (simp add: quota_inv_def)
  qed
  then show ?thesis using cov assms(2) by (simp add: quota_inv_def)
qed

subsection \<open>The ledger as a state machine\<close>

datatype 'p retry_event =
    EEnroll observation
  | EObserve observation millis rat decision entropy
  | EBegin millis decision
  | EReserve millis decision
  | EAccepted string millis
  | ECancel string
  | ESetEnabled bool observation
  | EInvalidate string
  | EAdd "'p snapshot"
  | ERetain "'p snapshot" string
  | EAdmit "'p snapshot" string
  | EProof "'p snapshot"
  | ESuppress string
  | ERetire string
  | ECompact string string string string
  | EPreflight
  | EStop
  | ERetryNow millis

fun apply_event :: "'p codec \<Rightarrow> 'p retry_event \<Rightarrow> 'p rstate \<Rightarrow> 'p rstate" where
  "apply_event cx (EEnroll ob) s = Enroll ob s"
| "apply_event cx (EObserve ob now r d e) s = fst (Observe cx ob now r d e s)"
| "apply_event cx (EBegin now d) s = fst (Begin now d s)"
| "apply_event cx (EReserve now d) s = fst (ReserveUnsubmitted now d s)"
| "apply_event cx (EAccepted turn now) s = fst (Accepted cx turn now s)"
| "apply_event cx (ECancel reason) s = Cancel reason s"
| "apply_event cx (ESetEnabled e ob) s = SetEnabled e ob s"
| "apply_event cx (EInvalidate turn) s = fst (InvalidateSettings turn s)"
| "apply_event cx (EAdd p) s = fst (AddSnapshot cx p s)"
| "apply_event cx (ERetain p turn) s = fst (RetainSnapshot cx p turn s)"
| "apply_event cx (EAdmit p turn) s = fst (AdmitSnapshot cx p turn s)"
| "apply_event cx (EProof p) s = fst (RetainProof cx p s)"
| "apply_event cx (ESuppress turn) s = SuppressTurn turn s"
| "apply_event cx (ERetire turn) s = fst (RetireObsoleteProofs turn s)"
| "apply_event cx (ECompact turn item client txt) s = fst (CompactManagedInput cx turn item client txt s)"
| "apply_event cx EPreflight s = fst (PreflightAccepted cx s)"
| "apply_event cx EStop s = fst (Stop s)"
| "apply_event cx (ERetryNow now) s = fst (RetryNow now s)"

text \<open>
  The reservations in force: reserving voids the earlier reservation of the same attempt (the
  caller has positive proof that it was never sent) and, when quota is left, records the new one.
\<close>

definition voids :: "decision \<Rightarrow> 'p rstate \<Rightarrow> string option" where
  "voids d s = (if Allows d s \<and> s_class s = ''cybersecurity'' then map_option pd_id (s_pending s) else None)"

definition reserve_log :: "decision \<Rightarrow> 'p rstate \<Rightarrow> 'p rstate \<Rightarrow> reservations \<Rightarrow> reservations" where
  "reserve_log d s t rs =
     (case voids d s of
        None \<Rightarrow> rs
      | Some i \<Rightarrow> (if s_pending t = None then [] else [(i, s_clock t)]) @ filter (\<lambda>x. fst x \<noteq> i) rs)"

definition due :: "millis \<Rightarrow> decision \<Rightarrow> 'p rstate \<Rightarrow> bool" where
  "due now d s \<longleftrightarrow> Allows d s \<and> s_phase s = ''scheduled'' \<and> s_pending s \<noteq> None \<and> s_deadline s \<le> max now (s_clock s)"

fun event_log :: "'p retry_event \<Rightarrow> 'p rstate \<Rightarrow> 'p rstate \<Rightarrow> reservations \<Rightarrow> reservations" where
  "event_log (EReserve now d) s t rs = reserve_log d s t rs"
| "event_log (EBegin now d) s t rs = (if due now d s then reserve_log d s t rs else rs)"
| "event_log _ s t rs = rs"

text \<open>
  One step is an operation, or a direct write of the callers to fields other than the charges and
  the clock (the phase, the reason, the boundary, the pending attempt).
\<close>

inductive retry_step ::
  "'p codec \<Rightarrow> 'p rstate \<times> reservations \<Rightarrow> 'p retry_event option \<Rightarrow> 'p rstate \<times> reservations \<Rightarrow> bool"
  for cx where
  operation: "t = apply_event cx ev s \<Longrightarrow> retry_step cx (s, rs) (Some ev) (t, event_log ev s t rs)"
| direct_write: "quota t = quota s \<Longrightarrow> retry_step cx (s, rs) None (t, rs)"

inductive_cases retry_stepE: "retry_step cx (s, rs) ev (t, rs')"

definition retry_init :: "'p rstate \<times> reservations \<Rightarrow> bool" where
  "retry_init x \<longleftrightarrow> (\<exists>c. x = (New c, []))"

definition machine_inv :: "'p rstate \<times> reservations \<Rightarrow> bool" where
  "machine_inv x \<longleftrightarrow> quota_inv (s_cyber (fst x)) (s_clock (fst x)) (snd x)"

lemma machine_inv_quota: "machine_inv (s, rs) \<Longrightarrow> quota t = quota s \<Longrightarrow> machine_inv (t, rs)"
  by (auto simp: machine_inv_def dest: quota_eqD)

lemma machine_inv_Now: "machine_inv (s, rs) \<Longrightarrow> machine_inv (snd (Now now s), rs)"
  by (auto simp: machine_inv_def Now_eq intro: quota_inv_forward)

lemma machine_inv_Reserve:
  assumes "machine_inv (s, rs)"
  shows "machine_inv (fst (ReserveUnsubmitted now d s), reserve_log d s (fst (ReserveUnsubmitted now d s)) rs)"
proof (cases "Allows d s \<and> s_class s = ''cybersecurity'' \<and> s_pending s \<noteq> None")
  case False
  then have "fst (ReserveUnsubmitted now d s) = s" and "voids d s = None"
    by (auto simp: ReserveUnsubmitted_def voids_def split: option.splits)
  with assms show ?thesis by (simp add: reserve_log_def)
next
  case True
  then obtain p where p: "s_pending s = Some p" and a: "Allows d s" "s_class s = ''cybersecurity''"
    by blast
  let ?clock = "max now (s_clock s)"
  let ?kept = "filter (\<lambda>c. ch_id c \<noteq> pd_id p \<and> ?clock - 300000 < ch_at c) (s_cyber s)"
  let ?rs = "filter (\<lambda>x. fst x \<noteq> pd_id p) rs"
  from assms have "quota_inv (s_cyber s) ?clock rs"
    by (auto simp: machine_inv_def intro: quota_inv_forward)
  then have kept: "quota_inv ?kept ?clock ?rs" by (rule quota_inv_void)
  show ?thesis
    using a p kept quota_inv_reserve [OF kept, of "pd_id p"]
    by (simp add: ReserveUnsubmitted_def Now_eq voids_def reserve_log_def machine_inv_def Let_def)
qed

lemma due_Now: "due now d s \<longleftrightarrow>
    Allows d (snd (Now now s)) \<and> s_phase (snd (Now now s)) = ''scheduled'' \<and>
    s_pending (snd (Now now s)) \<noteq> None \<and> s_deadline (snd (Now now s)) \<le> fst (Now now s)"
  by (simp add: due_def Now_eq Allows_def)

lemma machine_inv_Begin:
  assumes "machine_inv (s, rs)"
  shows "machine_inv (fst (Begin now d s), event_log (EBegin now d) s (fst (Begin now d s)) rs)"
proof (cases "due now d s")
  case False
  then have "fst (Begin now d s) = snd (Now now s)"
    by (auto simp: Begin_def due_Now split: prod.splits)
  with False machine_inv_Now [OF assms] show ?thesis by simp
next
  case True
  let ?s = "snd (Now now s)"
  obtain u e where u: "ReserveUnsubmitted now d ?s = (u, e)" by fastforce
  have inv: "machine_inv (u, reserve_log d ?s u rs)"
    using machine_inv_Reserve [OF machine_inv_Now [OF assms, of now], of now d] u by simp
  have "quota (fst (Begin now d s)) = quota u \<and> (s_pending (fst (Begin now d s)) = None \<longleftrightarrow> s_pending u = None)"
    using True u by (cases e) (auto simp: Begin_def due_Now Let_def frame_simps split: prod.splits if_splits)
  moreover then have "reserve_log d s (fst (Begin now d s)) rs = reserve_log d ?s u rs"
    by (auto simp: reserve_log_def voids_def Now_eq Allows_def dest: quota_eqD split: option.splits)
  ultimately show ?thesis using True inv by (auto intro: machine_inv_quota)
qed

lemma machine_inv_Accepted:
  assumes "machine_inv (s, rs)"
  shows "machine_inv (fst (Accepted cx turn now s), rs)"
proof (cases "\<exists>p. s_pending s = Some p \<and> turn \<noteq> [] \<and> (pd_result p = [] \<or> pd_result p = turn)")
  case False
  then have "fst (Accepted cx turn now s) = s" by (auto simp: Accepted_def split: option.splits)
  with assms show ?thesis by simp
next
  case True
  then obtain p where p: "s_pending s = Some p" "turn \<noteq> []" "pd_result p = [] \<or> pd_result p = turn" by blast
  obtain ds t found where acc: "accept_charges (pd_id p) now (s_cyber s) s = (ds, t, found)"
    by (metis prod_cases3)
  note facts = accept_charges_facts [OF acc]
  have "quota_inv ds (s_clock t) rs"
    using assms facts by (auto simp: machine_inv_def intro: quota_inv_forward quota_inv_later_charges)
  then have inv: "machine_inv (t\<lparr>s_cyber := ds\<rparr>, rs)" by (simp add: machine_inv_def)
  show ?thesis
    using p acc inv assms
    by (auto simp: Accepted_def Let_def frame_simps intro: machine_inv_quota)
qed

interpretation retry: safe_machine retry_init "retry_step cx" machine_inv
  for cx :: "'p codec"
proof
  fix x :: "'p rstate \<times> reservations"
  assume "retry_init x"
  then show "machine_inv x"
    by (auto simp: retry_init_def machine_inv_def quota_inv_def covered_def window_ids_def New_def)
next
  fix x y :: "'p rstate \<times> reservations" and ev
  assume inv: "machine_inv x" and step: "retry_step cx x ev y"
  obtain s rs where x: "x = (s, rs)" by fastforce
  from inv x have inv: "machine_inv (s, rs)" by simp
  from step show "machine_inv y"
  proof cases
    case (operation t ev' s' rs')
    show ?thesis
    proof (cases ev')
      case (EBegin now d)
      then show ?thesis using operation x machine_inv_Begin [OF inv] by simp
    next
      case (EReserve now d)
      then show ?thesis using operation x machine_inv_Reserve [OF inv] by simp
    next
      case (EAccepted turn now)
      then show ?thesis using operation x machine_inv_Accepted [OF inv] by simp
    next
      case (EObserve ob now r d e)
      then show ?thesis
        using operation x machine_inv_quota [OF machine_inv_Now [OF inv] quota_Observe] by simp
    next
      case (ERetryNow now)
      then show ?thesis
        using operation x inv machine_inv_Now [OF inv, of now] ledger_RetryNow [of now s]
        by (auto dest: ledger_quota intro: machine_inv_quota)
    qed (use operation x inv in \<open>auto simp: AddSnapshot_def RetainSnapshot_def AdmitSnapshot_def
           RetainProof_def frame_simps intro: machine_inv_quota\<close>)
  next
    case (direct_write t s' rs')
    then show ?thesis using x inv by (auto intro: machine_inv_quota)
  qed
qed

text \<open>
  C2. However the ledger's operations are interleaved, and however the wall clock jumps, no five
  minutes contain more than \<open>CyberLimit\<close> (thirty) cybersecurity submissions in force, and the
  ledger never holds more charges than that: the reservation a submission needs is refused
  otherwise.
\<close>

theorem cyber_rate_limit:
  "reachable retry_init (retry_step cx) (s, rs) \<Longrightarrow>
   length (s_cyber s) \<le> CyberLimit \<and> (\<forall>T. card (window_ids T rs) \<le> CyberLimit)"
  using retry.inv_reachable [of cx "(s, rs)"] by (simp add: machine_inv_def quota_inv_def)

theorem cyber_rate_limit_witness:
  "\<exists>s. reachable retry_init (retry_step sample_codec) (s, [(sample_id, 1000)]) \<and> length (s_cyber s) = 1 \<and>
       length (s_cyber s) \<le> CyberLimit \<and> card (window_ids 2000 [(sample_id, 1000)]) \<le> CyberLimit"
proof -
  let ?s0 = "New sample_scope :: unit rstate"
  let ?s1 = "?s0\<lparr>s_class := ''cybersecurity'', s_chain := ''turn-1'', s_phase := ''scheduled'',
                 s_pending := Some sample_pending\<rparr>"
  let ?ev = "EReserve 1000 sample_decision"
  let ?s2 = "apply_event sample_codec ?ev ?s1"
  have "reachable retry_init (retry_step sample_codec) (?s0, [])"
    by (rule reach_init) (auto simp: retry_init_def)
  then have "reachable retry_init (retry_step sample_codec) (?s1, [])"
    by (rule reach_step) (rule direct_write, simp add: quota_def)
  then have r: "reachable retry_init (retry_step sample_codec) (?s2, event_log ?ev ?s1 ?s2 [])"
    by (rule reach_step) (rule operation, rule refl)
  have log: "event_log ?ev ?s1 ?s2 [] = [(sample_id, 1000)]" and len: "length (s_cyber ?s2) = 1"
    by (simp_all add: reserve_log_def voids_def Allows_def Enabled_def sample_decision_def sample_pending_def
        ReserveUnsubmitted_def Now_def New_def CyberLimit_def)
  from r log have r: "reachable retry_init (retry_step sample_codec) (?s2, [(sample_id, 1000)])" by simp
  show ?thesis using r len cyber_rate_limit [OF r] by blast
qed

end
