(* ===== verification/Retry_Valid.thy ===== *)
theory Retry_Valid
  imports Retry_Quota
begin

text \<open>
  Validity of the ledger's record (\<open>validate\<close> of \<open>store.go\<close>) as a conjunction, and that every
  operation of the ledger keeps it: what \<open>Save\<close> refuses to write, and \<open>Load\<close> to read, never comes
  out of the operations themselves.
\<close>

subsection \<open>Validity as a conjunction\<close>

lemma if_Some_eq_None [go_errors]: "((if A then Some e else x) = None) \<longleftrightarrow> \<not> A \<and> x = None"
  by simp

lemma case_error_eq_None [go_errors]:
  "((case r of Some e \<Rightarrow> Some e | None \<Rightarrow> x) = None) \<longleftrightarrow> r = None \<and> x = None"
  by (simp split: option.split)

lemma Uncertain_pending: "\<not> (Uncertain s \<and> s_pending s = None)"
  by (auto simp: Uncertain_def)

lemma validate_iff:
  "validate cx c s = None \<longleftrightarrow>
     (s_schema s = 1 \<or> s_schema s = Schema) \<and> s_epoch s \<noteq> 0 \<and> s_scope s = c \<and> length (s_reason s) \<le> 128 \<and>
     length (s_cyber s) \<le> CyberLimit + 1 \<and> length (s_snapshots s) \<le> MaxSnapshots \<and>
     s_phase s \<in> set retry_phases \<and>
     (s_class s = [] \<or> s_class s = ''capacity'' \<or> s_class s = ''cybersecurity'') \<and>
     charges_ok [] (s_cyber s) \<and> (\<forall>p \<in> set (s_snapshots s). check_snapshot cx s p = None) \<and>
     check_binding cx s = None \<and> validateManagedTurn cx s = None \<and> check_pending cx s = None \<and>
     (s_phase s = ''scheduled'' \<longrightarrow> s_pending s \<noteq> None \<and> 0 < s_deadline s)" (is "?L = ?R")
proof
  assume ?L then show ?R
    unfolding validate_def go_errors first_error_None
    by (elim conjE, intro conjI) (simp_all add: not_less not_le)
next
  assume ?R then show ?L
    unfolding validate_def go_errors first_error_None
    by (elim conjE, intro conjI) (simp_all add: not_less not_le Uncertain_pending [simplified])
qed

lemma check_snapshot_iff:
  "check_snapshot cx s p = None \<longleftrightarrow>
     Snapshot_Hash cx p = Inr (sn_digest p) \<and> sn_epoch p \<noteq> 0 \<and> sn_epoch p \<le> s_epoch s \<and> sn_version p = 1 \<and> sn_id p \<noteq> [] \<and>
     (sn_proven p \<longrightarrow> sn_turn p \<noteq> [] \<and> opt_model (sn_options p) \<noteq> [] \<and> opt_effort (sn_options p) \<noteq> [] \<and>
        sn_provider p \<noteq> [] \<and> (sn_mode p = ''default'' \<or> sn_mode p = ''plan''))"
  by (auto simp: check_snapshot_def not_less)

lemma check_pending_iff:
  "check_pending cx s = None \<longleftrightarrow>
     (\<forall>p. s_pending s = Some p \<longrightarrow>
        attemptID (pd_id p) \<and> pd_action p \<noteq> [] \<and> pd_failure p \<noteq> [] \<and> check_snapshot cx s (pd_snapshot p) = None \<and>
        (pd_charged p \<noteq> 0 \<longrightarrow> map_option ch_at (charge_of (pd_id p) (s_cyber s)) = Some (pd_charged p)) \<and>
        (s_class s = ''cybersecurity'' \<longrightarrow> s_phase s \<in> {''submitting'', ''reconciling'', ''running''} \<longrightarrow> pd_charged p \<noteq> 0))"
  by (auto simp: check_pending_def split: option.splits)

text \<open>The part of validity the ledger projection decides, and the rest.\<close>

definition ledger_valid :: "'p codec \<Rightarrow> scope \<Rightarrow> 'p rstate \<Rightarrow> bool" where
  "ledger_valid cx c s \<longleftrightarrow>
     (s_schema s = 1 \<or> s_schema s = Schema) \<and> s_epoch s \<noteq> 0 \<and> s_scope s = c \<and>
     length (s_cyber s) \<le> CyberLimit + 1 \<and> length (s_snapshots s) \<le> MaxSnapshots \<and>
     charges_ok [] (s_cyber s) \<and> (\<forall>p \<in> set (s_snapshots s). check_snapshot cx s p = None) \<and>
     check_binding cx s = None \<and> validateManagedTurn cx s = None"

definition phase_valid :: "'p codec \<Rightarrow> 'p rstate \<Rightarrow> bool" where
  "phase_valid cx s \<longleftrightarrow>
     length (s_reason s) \<le> 128 \<and> s_phase s \<in> set retry_phases \<and>
     (s_class s = [] \<or> s_class s = ''capacity'' \<or> s_class s = ''cybersecurity'') \<and>
     check_pending cx s = None \<and>
     (s_phase s = ''scheduled'' \<longrightarrow> s_pending s \<noteq> None \<and> 0 < s_deadline s)"

lemma validate_split: "validate cx c s = None \<longleftrightarrow> ledger_valid cx c s \<and> phase_valid cx s"
  by (auto simp: validate_iff ledger_valid_def phase_valid_def)

lemma check_snapshot_epoch: "s_epoch s = s_epoch t \<Longrightarrow> check_snapshot cx s = check_snapshot cx t"
  by (rule ext) (simp add: check_snapshot_def)

lemma check_ledger_fields:
  assumes "s_epoch t = s_epoch s" and "s_schema t = s_schema s" and "s_scope t = s_scope s"
    and "s_binding t = s_binding s" and "s_managed t = s_managed s"
  shows "check_snapshot cx t = check_snapshot cx s" "check_binding cx t = check_binding cx s"
    "validateManagedTurn cx t = validateManagedTurn cx s"
  unfolding check_binding_def validateManagedTurn_def check_snapshot_epoch [OF assms(1)] assms
  by (rule refl)+

lemma check_ledger_cong:
  assumes "ledger s = ledger t"
  shows "check_snapshot cx s = check_snapshot cx t" "check_binding cx s = check_binding cx t"
    "validateManagedTurn cx s = validateManagedTurn cx t"
  by (rule check_ledger_fields; rule ledger_eqD [OF assms])+

lemma ledger_valid_cong:
  assumes "ledger s = ledger t"
  shows "ledger_valid cx c s = ledger_valid cx c t"
  unfolding ledger_valid_def check_ledger_cong [OF assms] ledger_eqD [OF assms] ..

lemma check_pending_cong:
  assumes "s_epoch t = s_epoch s" and "s_pending t = s_pending s" and "s_cyber t = s_cyber s"
    and "s_class t = s_class s" and "s_phase t = s_phase s"
  shows "check_pending cx t = check_pending cx s"
  unfolding check_pending_def assms check_snapshot_epoch [OF assms(1)] by (rule refl)

lemma check_clock [simp]:
  "check_snapshot cx (s\<lparr>s_clock := k\<rparr>) = check_snapshot cx s" "check_binding cx (s\<lparr>s_clock := k\<rparr>) = check_binding cx s"
  "validateManagedTurn cx (s\<lparr>s_clock := k\<rparr>) = validateManagedTurn cx s" "check_pending cx (s\<lparr>s_clock := k\<rparr>) = check_pending cx s"
  by (rule check_ledger_fields check_pending_cong; simp)+

lemma valid_clock [simp]:
  "ledger_valid cx c (s\<lparr>s_clock := k\<rparr>) = ledger_valid cx c s" "phase_valid cx (s\<lparr>s_clock := k\<rparr>) = phase_valid cx s"
  by (simp_all add: ledger_valid_def phase_valid_def)

text \<open>The attempt's own part of validity depends on the ledger, the class and the phase only.\<close>

lemma check_pending_transfer:
  assumes "ledger t = ledger s" and "s_pending t = None \<or> s_pending t = s_pending s"
    and "check_pending cx s = None"
    and "s_class t = ''cybersecurity'' \<longrightarrow> s_phase t \<in> {''submitting'', ''reconciling'', ''running''} \<longrightarrow>
         s_pending t \<noteq> None \<longrightarrow> s_class s = ''cybersecurity'' \<and> s_phase s \<in> {''submitting'', ''reconciling'', ''running''}"
  shows "check_pending cx t = None"
proof -
  note cs = check_ledger_cong(1) [OF assms(1), of cx] ledger_eqD(4) [OF assms(1)]
  show ?thesis
    unfolding check_pending_iff cs
  proof (intro allI impI)
    fix p assume p: "s_pending t = Some p"
    with assms(2) have "s_pending s = Some p" by auto
    with assms(3) p assms(4) show "attemptID (pd_id p) \<and> pd_action p \<noteq> [] \<and> pd_failure p \<noteq> [] \<and>
        check_snapshot cx s (pd_snapshot p) = None \<and>
        (pd_charged p \<noteq> 0 \<longrightarrow> map_option ch_at (charge_of (pd_id p) (s_cyber s)) = Some (pd_charged p)) \<and>
        (s_class t = ''cybersecurity'' \<longrightarrow> s_phase t \<in> {''submitting'', ''reconciling'', ''running''} \<longrightarrow> pd_charged p \<noteq> 0)"
      unfolding check_pending_iff by blast
  qed
qed

lemma Cancel_fields:
  "s_cancelled (Cancel r s)" "s_deadline (Cancel r s) = 0" "s_reason (Cancel r s) = r" "s_class (Cancel r s) = s_class s"
  "s_chain (Cancel r s) = s_chain s" "s_enrolled (Cancel r s) = s_enrolled s"
  "s_baseline (Cancel r s) = s_baseline s" "s_baseline_active (Cancel r s) = s_baseline_active s"
  "s_phase (Cancel r s) = (if Uncertain s then s_phase s else ''cancelled'')"
  "s_pending (Cancel r s) = (if Uncertain s then s_pending s else None)"
  by (auto simp: Cancel_def Let_def Uncertain_def split: option.split)

lemma Cancel_phase_valid: "phase_valid cx s \<Longrightarrow> length r \<le> 128 \<Longrightarrow> phase_valid cx (Cancel r s)"
  using check_pending_transfer [OF ledger_Cancel, of r s cx]
  by (auto simp: phase_valid_def Cancel_fields retry_phases_def Uncertain_def)

lemma valid_by_ledger:
  "validate cx c s = None \<Longrightarrow> ledger t = ledger s \<Longrightarrow> phase_valid cx t \<Longrightarrow> validate cx c t = None"
  using ledger_valid_cong [of t s cx c] by (simp add: validate_split)

lemma Cancel_valid: "validate cx c s = None \<Longrightarrow> length r \<le> 128 \<Longrightarrow> validate cx c (Cancel r s) = None"
  by (rule valid_by_ledger) (auto simp: frame_simps validate_split intro: Cancel_phase_valid)


text \<open>The fields of the current attempt that validity reads beside the ledger.\<close>

definition attempt_part :: "'p rstate \<Rightarrow> string \<times> string \<times> string \<times> 'p pending option \<times> millis" where
  "attempt_part s = (s_reason s, s_phase s, s_class s, s_pending s, s_deadline s)"

lemma attempt_update [frame_simps]:
  "attempt_part (s_enabled_update f1 s) = attempt_part s" "attempt_part (s_enrolled_update f1 s) = attempt_part s"
  "attempt_part (s_baseline_update f2 s) = attempt_part s" "attempt_part (s_baseline_active_update f1 s) = attempt_part s"
  "attempt_part (s_handled_update f2 s) = attempt_part s" "attempt_part (s_boundary_update f2 s) = attempt_part s"
  "attempt_part (s_cancelled_update f1 s) = attempt_part s" "attempt_part (s_snapshots_update f3 s) = attempt_part s"
  "attempt_part (s_clock_update f4 s) = attempt_part s"
  by (simp_all add: attempt_part_def)

lemma phase_valid_cong:
  assumes "attempt_part t = attempt_part s" and "s_epoch t = s_epoch s" and "s_cyber t = s_cyber s"
  shows "phase_valid cx t = phase_valid cx s"
  using assms check_pending_cong [of t s cx] by (simp add: phase_valid_def attempt_part_def)

lemma valid_same:
  assumes "validate cx c s = None" and "ledger t = ledger s" and "attempt_part t = attempt_part s"
  shows "validate cx c t = None"
  using assms phase_valid_cong [OF assms(3) ledger_eqD(1,4) [OF assms(2)], of cx] ledger_valid_cong [OF assms(2)]
  by (simp add: validate_split)

lemma Now_valid: "validate cx c (snd (Now now s)) = None \<longleftrightarrow> validate cx c s = None"
  by (simp add: Now_eq validate_split)

lemma Enroll_valid: "validate cx c s = None \<Longrightarrow> validate cx c (Enroll ob s) = None"
  by (rule valid_same [of cx c s]) (auto simp: frame_simps Enroll_def)

lemma SetEnabled_valid: "validate cx c s = None \<Longrightarrow> validate cx c (SetEnabled e ob s) = None"
proof -
  assume v: "validate cx c s = None"
  have "validate cx c (s\<lparr>s_enabled := e\<rparr>) = None"
    by (rule valid_same [OF v]) (simp_all add: frame_simps)
  then have "validate cx c (Cancel ''disabled'' (s\<lparr>s_enabled := e\<rparr>)) = None"
    by (rule Cancel_valid) simp
  then have "validate cx c t = None" if "ledger t = ledger (Cancel ''disabled'' (s\<lparr>s_enabled := e\<rparr>))"
    "attempt_part t = attempt_part (Cancel ''disabled'' (s\<lparr>s_enabled := e\<rparr>))" for t
    using that by (rule valid_same)
  with v show ?thesis by (simp add: SetEnabled_def Let_def frame_simps)
qed

lemma epoch_succ: "e \<noteq> - 1 \<Longrightarrow> x \<le> e \<Longrightarrow> x \<le> e + (1 :: u64) \<and> e + 1 \<noteq> 0"
proof -
  assume "e \<noteq> - 1" "x \<le> e"
  then have nz: "1 + e \<noteq> 0" by (metis add.commute eq_neg_iff_add_eq_0)
  then have "unat (1 + e) = Suc (unat e)" by (rule unatSuc)
  with \<open>x \<le> e\<close> nz show ?thesis by (simp add: word_le_nat_alt add.commute)
qed

lemma InvalidateSettings_valid: "validate cx c s = None \<Longrightarrow> validate cx c (fst (InvalidateSettings turn s)) = None"
proof (cases "s_epoch s = 0 \<or> s_epoch s = - 1")
  case True
  then show "validate cx c s = None \<Longrightarrow> ?thesis" by (simp add: InvalidateSettings_def)
next
  case False
  assume v: "validate cx c s = None"
  let ?s = "s\<lparr>s_epoch := s_epoch s + 1, s_binding := None, s_managed := None\<rparr>"
  have sn: "check_snapshot cx ?s p = None" if "check_snapshot cx s p = None" for p
    using that False epoch_succ [of "s_epoch s" "sn_epoch p"] by (simp add: check_snapshot_iff)
  have "validate cx c ?s = None"
    using v False sn epoch_succ [of "s_epoch s" 0]
    by (simp add: validate_iff check_pending_iff check_binding_def validateManagedTurn_def)
  then have w: "validate cx c (Cancel ''settings_changed'' ?s) = None" by (rule Cancel_valid) simp
  let ?t = "fst (InvalidateSettings turn s)"
  have "ledger ?t = ledger (Cancel ''settings_changed'' ?s)" and "attempt_part ?t = attempt_part (Cancel ''settings_changed'' ?s)"
    using False by (simp_all add: InvalidateSettings_def Let_def ledger_def attempt_part_def Cancel_def Uncertain_def split: option.split)
  with w show ?thesis by (rule valid_same)
qed

subsection \<open>Observing a turn\<close>

lemma supersede_valid:
  "validate cx c s = None \<Longrightarrow> validate cx c (supersede_unanswered ob s) = None"
  "validate cx c s = None \<Longrightarrow> validate cx c (supersede_answered ob s) = None"
  by (simp_all add: supersede_unanswered_def supersede_answered_def Cancel_valid split: option.split)

lemma phases_mem [simp]:
  "''idle'' \<in> set retry_phases" "''scheduled'' \<in> set retry_phases" "''submitting'' \<in> set retry_phases"
  "''reconciling'' \<in> set retry_phases" "''running'' \<in> set retry_phases" "''cancelled'' \<in> set retry_phases"
  "''exhausted'' \<in> set retry_phases" "''blocked'' \<in> set retry_phases"
  by (simp_all add: retry_phases_def)

definition class_ok :: "string \<Rightarrow> bool" where
  "class_ok v \<longleftrightarrow> v = [] \<or> v = ''capacity'' \<or> v = ''cybersecurity''"

definition resting :: "string \<Rightarrow> bool" where
  "resting ph \<longleftrightarrow> ph \<in> set retry_phases \<and> ph \<noteq> ''scheduled'' \<and> ph \<noteq> ''submitting'' \<and> ph \<noteq> ''reconciling'' \<and> ph \<noteq> ''running''"

lemma resting_phases [simp]: "resting ''idle''" "resting ''cancelled''" "resting ''exhausted''" "resting ''blocked''"
  by (simp_all add: resting_def)

lemma class_ok_simps [simp]: "class_ok []" "class_ok ''capacity''" "class_ok ''cybersecurity''" "class_ok (Class v)"
  by (simp_all add: class_ok_def Class_def)

lemma valid_class: "validate cx c s = None \<Longrightarrow> class_ok (s_class s)"
  unfolding validate_iff class_ok_def by blast

text \<open>Resting with the attempt kept or dropped keeps validity.\<close>

lemma valid_resting:
  assumes v: "validate cx c s = None" and l: "ledger t = ledger s"
    and p: "s_pending t = None \<or> s_pending t = s_pending s"
    and ph: "resting (s_phase t)" and r: "length (s_reason t) \<le> 128" and cl: "class_ok (s_class t)"
  shows "validate cx c t = None"
proof (rule valid_by_ledger [OF v l])
  from v have "check_pending cx s = None" by (simp add: validate_iff)
  then have "check_pending cx t = None"
    by (rule check_pending_transfer [OF l p]) (use ph in \<open>simp add: resting_def\<close>)
  with ph r cl show "phase_valid cx t" unfolding phase_valid_def resting_def class_ok_def by blast
qed

lemma observe_other_valid: "validate cx c s = None \<Longrightarrow> validate cx c (observe_other ob s) = None"
proof -
  assume v: "validate cx c s = None"
  let ?s = "if o_turn ob \<noteq> [] then s\<lparr>s_handled := o_turn ob\<rparr> else s"
  have w: "validate cx c ?s = None"
    by (rule valid_same [OF v]) (simp_all add: frame_simps)
  have "validate cx c (?s\<lparr>s_phase := ''idle'', s_pending := None, s_deadline := 0, s_class := []\<rparr>) = None"
    by (rule valid_resting [OF w]) (use w in \<open>simp_all add: frame_simps validate_iff\<close>)
  with w show ?thesis by (simp add: observe_other_def Let_def)
qed

lemma observe_unsupported_valid: "validate cx c s = None \<Longrightarrow> validate cx c (observe_unsupported ob s) = None"
proof -
  assume v: "validate cx c s = None"
  have "validate cx c (s\<lparr>s_handled := o_turn ob\<rparr>) = None" by (rule valid_same [OF v]) (simp_all add: frame_simps)
  moreover have "validate cx c (s\<lparr>s_handled := o_turn ob, s_phase := ''blocked'', s_reason := ''unsupported_failure'',
             s_deadline := 0, s_cancelled := True\<rparr>) = None"
    by (rule valid_resting [OF v]) (simp_all add: frame_simps valid_class [OF v])
  ultimately show ?thesis by (simp add: observe_unsupported_def)
qed

lemma observe_ineligible_valid: "validate cx c s = None \<Longrightarrow> validate cx c (observe_ineligible ob s) = None"
proof -
  assume v: "validate cx c s = None"
  have "validate cx c (s\<lparr>s_class := Class (o_code ob), s_cancelled := True, s_deadline := 0, s_reason := ''disabled'',
             s_phase := ''cancelled'', s_handled := o_turn ob\<rparr>) = None"
    by (rule valid_resting [OF v]) (simp_all add: frame_simps)
  with v show ?thesis by (simp add: observe_ineligible_def)
qed

text \<open>What the rounding of a float64 product promises: it is monotone and exact on small integers.\<close>

definition float_rounding :: "(rat \<Rightarrow> rat) \<Rightarrow> bool" where
  "float_rounding fl \<longleftrightarrow> mono fl \<and> (\<forall>n :: int. \<bar>n\<bar> \<le> 2 ^ 53 \<longrightarrow> fl (of_int n) = of_int n)"

lemma float_rounding_between:
  assumes "float_rounding fl" and "0 \<le> x" and "x \<le> of_int n" and "0 \<le> n" and "n \<le> 2 ^ 53"
  shows "0 \<le> fl x \<and> fl x \<le> of_int n"
proof -
  from assms have "fl 0 \<le> fl x" and "fl x \<le> fl (of_int n)"
    by (auto simp: float_rounding_def dest: monoD)
  moreover have "fl (of_int 0) = of_int 0" "fl (of_int n) = of_int n"
    using assms unfolding float_rounding_def by (metis abs_of_nonneg order_refl zero_le_numeral zero_le_power abs_zero)+
  ultimately show ?thesis by simp
qed

lemma jitter_bounds:
  assumes "float_rounding fl" and "0 \<le> m" and "m \<le> 3000000000"
  shows "0 \<le> \<lfloor>fl (of_int m * (if r < 0 then 0 else if 1 < r then 1 else r))\<rfloor>" (is "0 \<le> \<lfloor>fl (_ * ?r)\<rfloor>")
    and "\<lfloor>fl (of_int m * (if r < 0 then 0 else if 1 < r then 1 else r))\<rfloor> \<le> m"
proof -
  have r: "0 \<le> ?r" "?r \<le> 1" by auto
  from assms(2) r(1) have "0 \<le> of_int m * ?r" by (intro mult_nonneg_nonneg) auto
  moreover from assms(2) r(2) have "of_int m * ?r \<le> of_int m" by (intro mult_left_le) auto
  ultimately have "0 \<le> fl (of_int m * ?r) \<and> fl (of_int m * ?r) \<le> of_int m"
    by (rule float_rounding_between [OF assms(1)]) (use assms in simp_all)
  then show "0 \<le> \<lfloor>fl (of_int m * ?r)\<rfloor>" and "\<lfloor>fl (of_int m * ?r)\<rfloor> \<le> m" by (simp_all add: floor_le_iff)
qed

lemma CapacityDelay_bounds:
  assumes "float_rounding fl"
  shows "15000000000 \<le> CapacityDelay fl a r \<and> CapacityDelay fl a r \<le> 300000000000"
proof -
  define b where "b = [15, 30, 60, 120, 240, 300 :: int] ! min (unat a) (length [15, 30, 60, 120, 240, 300 :: int] - 1)"
  have "b \<in> set [15, 30, 60, 120, 240, 300]" unfolding b_def by (rule nth_mem) simp
  then have base: "15000000000 \<le> b * 1000000000" by auto
  then have "0 \<le> min 3000000000 (b * 1000000000 div 10)" by simp
  then have "0 \<le> \<lfloor>fl (of_int (min 3000000000 (b * 1000000000 div 10)) * (if r < 0 then 0 else if 1 < r then 1 else r))\<rfloor>"
    by (rule jitter_bounds(1) [OF assms]) simp
  with base show ?thesis
    unfolding CapacityDelay_def Let_def b_def [symmetric] by linarith
qed


lemma retry_deadline_bounds:
  assumes "float_rounding (cx_fround cx)"
  shows "clock \<le> retry_deadline cx clock r s \<and> retry_deadline cx clock r s \<le> clock + 300000"
proof -
  from CapacityDelay_bounds [OF assms, of "s_capacity s" r]
  have "0 \<le> Milliseconds (CapacityDelay (cx_fround cx) (s_capacity s) r)"
    and "Milliseconds (CapacityDelay (cx_fround cx) (s_capacity s) r) \<le> 300000"
    unfolding Milliseconds_def by linarith+
  then show ?thesis by (simp add: retry_deadline_def)
qed

lemma Proof_Some:
  "Proof turn s = Some p \<Longrightarrow> p \<in> set (s_snapshots s) \<and> sn_turn p = turn \<and> sn_proven p \<and> sn_epoch p = s_epoch s"
  unfolding Proof_def find_Some_iff by (metis nth_mem set_rev)

text \<open>Sixteen bytes of entropy, when the random source delivers.\<close>

definition entropy_ok :: "entropy \<Rightarrow> bool" where
  "entropy_ok e \<longleftrightarrow> (\<forall>b. e = Inr b \<longrightarrow> length b = 16)"

lemma NewID_ok: "entropy_ok e \<Longrightarrow> NewID e = Inr v \<Longrightarrow> attemptID v"
  by (cases e) (auto simp: entropy_ok_def NewID_def Let_def intro!: NewID_attemptID)

lemma new_pending_valid:
  assumes v: "validate cx c s = None" and p: "Proof (o_turn ob) s = Some p" and nid: "attemptID nid"
    and d: "0 < dl" and cl: "class_ok cls" and l: "ledger t = ledger s"
    and t: "s_pending t = Some (new_pending ob p nid)" "s_phase t = ''scheduled''" "s_reason t = []"
      "s_deadline t = dl" "s_class t = cls"
  shows "validate cx c t = None"
proof (rule valid_by_ledger [OF v l])
  from Proof_Some [OF p] have mem: "p \<in> set (s_snapshots s)" and turn: "sn_turn p = o_turn ob" "sn_proven p" by auto
  from v mem have ck: "check_snapshot cx s p = None" by (simp add: validate_iff)
  with turn have "o_turn ob \<noteq> []" by (simp add: check_snapshot_iff)
  then have "check_pending cx t = None"
    using ck nid t check_ledger_cong(1) [OF l, of cx] by (simp add: check_pending_iff new_pending_def)
  with t d cl show "phase_valid cx t" by (simp add: phase_valid_def class_ok_def)
qed

lemma schedule_failure_valid:
  assumes v: "validate cx c s0 = None" and fl: "float_rounding (cx_fround cx)" and e: "entropy_ok ent" and k: "0 < clock"
    and l: "ledger s = ledger s0" and cl: "class_ok (s_class s)"
    and r: "schedule_failure cx ob clock r ent s = (t, None)"
  shows "validate cx c t = None"
proof (cases "Proof (o_turn ob) s")
  case None
  with r have t: "t = s\<lparr>s_phase := ''blocked'', s_reason := ''settings_unproven'', s_pending := None, s_deadline := 0\<rparr>"
    by (simp add: schedule_failure_def)
  show ?thesis unfolding t by (rule valid_resting [OF v]) (simp_all add: frame_simps l cl)
next
  case (Some p)
  show ?thesis
  proof (cases "s_class s = ''cybersecurity'' \<and> CyberLimit \<le> CyberUsed clock s")
    case True
    with Some r have t: "t = s\<lparr>s_phase := ''exhausted'', s_reason := ''cyber_limit'', s_pending := None, s_deadline := 0\<rparr>"
      by (simp add: schedule_failure_def)
    show ?thesis unfolding t by (rule valid_resting [OF v]) (simp_all add: frame_simps l cl)
  next
    case False
    with Some r obtain nid where nid: "NewID ent = Inr nid"
      and t: "t = s\<lparr>s_pending := Some (new_pending ob p nid), s_phase := ''scheduled'', s_reason := [],
                    s_deadline := retry_deadline cx clock r s\<rparr>"
      by (auto simp: schedule_failure_def split: sum.splits if_splits)
    have "0 < retry_deadline cx clock r s" using retry_deadline_bounds [OF fl, of clock r s] k by linarith
    moreover have "Proof (o_turn ob) s0 = Some p" using Some l by (simp add: Proof_def ledger_def)
    ultimately show ?thesis
      using new_pending_valid [OF v _ NewID_ok [OF e nid] _ cl, of ob p "retry_deadline cx clock r s" t]
      by (simp add: t frame_simps l)
  qed
qed

lemma Observe_valid:
  assumes v: "validate cx c s = None" and fl: "float_rounding (cx_fround cx)" and e: "entropy_ok ent" and k: "0 < now"
    and r: "Observe cx ob now r d ent s = (t, None)"
  shows "validate cx c t = None"
proof -
  define s1 where "s1 = snd (Now now s)"
  have v1: "validate cx c s1 = None" using v by (simp add: s1_def Now_valid)
  note v2 = supersede_valid(1) [OF v1, of ob]
  note v3 = supersede_valid(2) [OF v2, of ob]
  let ?s2 = "supersede_unanswered ob s1"
  let ?s3 = "supersede_answered ob ?s2"
  have obs: "(if \<not> s_enrolled s1 then (Enroll ob s1, None) else if Uncertain s1 then (s1, None)
       else if s_cancelled s1 \<and> s_pending s1 \<noteq> None then (s1, None)
       else observe_settled cx ob (max now (s_clock s)) r d ent ?s2) = (t, None)"
    using r unfolding Observe_def s1_def Now_eq Let_def prod.case snd_conv .
  have failed: "validate cx c t = None" if "observe_failed cx ob (max now (s_clock s)) r d ent ?s3 = (t, None)"
  proof (cases "Class (o_code ob) = [] \<or> \<not> Eligible d ?s3 ob")
    case True
    with that show ?thesis
      using observe_unsupported_valid [OF v3] observe_ineligible_valid [OF v3]
      by (auto simp: observe_failed_def split: if_splits)
  next
    case False
    with that have "schedule_failure cx ob (max now (s_clock s)) r ent (enter_chain ob ?s3) = (t, None)"
      by (simp add: observe_failed_def)
    then show ?thesis
      by (rule schedule_failure_valid [OF v3 fl e, rotated 3])
         (use k in \<open>simp_all add: frame_simps, simp add: enter_chain_def\<close>)
  qed
  show ?thesis
  proof (cases "\<not> s_enrolled s1 \<or> Uncertain s1 \<or> s_cancelled s1 \<and> s_pending s1 \<noteq> None")
    case True
    with obs v1 Enroll_valid [OF v1, of ob] show ?thesis by (auto split: if_splits)
  next
    case False
    with obs have "observe_settled cx ob (max now (s_clock s)) r d ent ?s2 = (t, None)" by auto
    then show ?thesis
      using v2 failed observe_other_valid [OF v3, of ob]
      by (auto simp: observe_settled_def split: if_splits)
  qed
qed


subsection \<open>Reserving quota\<close>

lemma charges_ok_iff:
  "charges_ok seen cs \<longleftrightarrow>
     distinct (map ch_id cs) \<and> set seen \<inter> ch_id ` set cs = {} \<and> (\<forall>x \<in> set cs. attemptID (ch_id x) \<and> 0 < ch_at x)"
  by (induction cs arbitrary: seen) auto

lemma charges_ok_filter: "charges_ok [] cs \<Longrightarrow> charges_ok [] (filter P cs)"
  by (auto simp: charges_ok_iff distinct_map_filter)

lemma charge_of_append: "\<forall>x \<in> set cs. ch_id x \<noteq> i \<Longrightarrow> charge_of i (cs @ [x]) = (if ch_id x = i then Some x else None)"
  by (induction cs) (auto simp: charge_of_def)

lemma valid_new_charges:
  assumes v: "validate cx c s = None" and q: "charges_ok [] cs" "length cs \<le> CyberLimit + 1"
    and t: "t = s\<lparr>s_cyber := cs, s_clock := k, s_pending := pd, s_phase := ph, s_reason := rs, s_deadline := dl\<rparr>"
    and ph: "ph \<in> set retry_phases" "ph \<noteq> ''scheduled'' \<or> pd \<noteq> None \<and> 0 < dl" and rs: "length rs \<le> 128"
    and pd: "\<And>p. pd = Some p \<Longrightarrow>
        (\<exists>q. s_pending s = Some q \<and> pd_id p = pd_id q \<and> pd_action p = pd_action q \<and> pd_failure p = pd_failure q \<and>
             pd_snapshot p = pd_snapshot q) \<and> pd_charged p \<noteq> 0 \<and>
        map_option ch_at (charge_of (pd_id p) cs) = Some (pd_charged p)"
  shows "validate cx c t = None"
proof -
  have fields: "check_snapshot cx t = check_snapshot cx s" "check_binding cx t = check_binding cx s"
    "validateManagedTurn cx t = validateManagedTurn cx s"
    by (rule check_ledger_fields; simp add: t)+
  have "check_pending cx t = None"
    unfolding check_pending_iff fields
  proof (intro allI impI)
    fix p assume "s_pending t = Some p"
    then have "pd = Some p" by (simp add: t)
    from pd [OF this] v show "attemptID (pd_id p) \<and> pd_action p \<noteq> [] \<and> pd_failure p \<noteq> [] \<and>
        check_snapshot cx s (pd_snapshot p) = None \<and>
        (pd_charged p \<noteq> 0 \<longrightarrow> map_option ch_at (charge_of (pd_id p) (s_cyber t)) = Some (pd_charged p)) \<and>
        (s_class t = ''cybersecurity'' \<longrightarrow> s_phase t \<in> {''submitting'', ''reconciling'', ''running''} \<longrightarrow> pd_charged p \<noteq> 0)"
      by (auto simp: validate_split phase_valid_def check_pending_iff t)
  qed
  with v q ph rs fields show ?thesis by (simp add: validate_iff t)
qed


lemma ReserveUnsubmitted_valid:
  assumes v: "validate cx c s = None" and k: "0 < now"
  shows "validate cx c (fst (ReserveUnsubmitted now d s)) = None"
proof (cases "Allows d s \<and> s_class s = ''cybersecurity'' \<and> s_pending s \<noteq> None")
  case False
  with v show ?thesis by (auto simp: ReserveUnsubmitted_def split: option.splits)
next
  case True
  then obtain p where p: "s_pending s = Some p" and a: "Allows d s" "s_class s = ''cybersecurity''" by blast
  let ?clock = "max now (s_clock s)"
  let ?kept = "filter (\<lambda>x. ch_id x \<noteq> pd_id p \<and> ?clock - 300000 < ch_at x) (s_cyber s)"
  let ?ch = "\<lparr>ch_id = pd_id p, ch_at = ?clock, ch_accepted = False\<rparr>"
  let ?t = "fst (ReserveUnsubmitted now d s)"
  from v p have id: "attemptID (pd_id p)" and ok: "charges_ok [] (s_cyber s)" and ph: "s_phase s \<in> set retry_phases"
    and r: "length (s_reason s) \<le> 128" and dl: "s_phase s = ''scheduled'' \<longrightarrow> 0 < s_deadline s"
    by (auto simp: validate_iff check_pending_iff)
  from k have pos: "0 < ?clock" by simp
  from ok have kept: "charges_ok [] ?kept" by (rule charges_ok_filter)
  show ?thesis
  proof (cases "CyberLimit \<le> length ?kept")
    case True
    with a p have t: "?t = s\<lparr>s_cyber := ?kept, s_clock := ?clock, s_pending := None, s_phase := ''exhausted'',
        s_reason := ''cyber_limit'', s_deadline := 0\<rparr>"
      by (simp add: ReserveUnsubmitted_def Now_eq Let_def)
    from v have "length (s_cyber s) \<le> CyberLimit + 1" by (simp add: validate_iff)
    then have "length ?kept \<le> CyberLimit + 1" by (rule le_trans [OF length_filter_le])
    then show ?thesis by (intro valid_new_charges [OF v kept _ t]) simp_all
  next
    case False
    let ?cs = "?kept @ [?ch]"
    from False a p have t: "?t = s\<lparr>s_cyber := ?cs, s_clock := ?clock, s_pending := Some (p\<lparr>pd_charged := ?clock\<rparr>),
        s_phase := s_phase s, s_reason := s_reason s, s_deadline := s_deadline s\<rparr>"
      by (simp add: ReserveUnsubmitted_def Now_eq Let_def)
    have "charges_ok [] ?cs" using kept id pos by (auto simp: charges_ok_iff)
    moreover have "charge_of (pd_id p) ?cs = Some ?ch" by (subst charge_of_append) auto
    ultimately show ?thesis
      by (intro valid_new_charges [OF v _ _ t]) (use False ph r dl p pos in auto)
  qed
qed

lemma Reserve_class: "s_class (fst (ReserveUnsubmitted now d s)) = s_class s"
  by (simp add: ReserveUnsubmitted_def Now_eq Let_def split: option.split)

lemma Reserve_pending:
  assumes "fst (ReserveUnsubmitted now d s) = t" and "s_pending t = Some p" and "snd (ReserveUnsubmitted now d s) = None"
    and "0 < now" and "s_class s = ''cybersecurity''"
  shows "pd_charged p \<noteq> 0"
  using assms by (auto simp: ReserveUnsubmitted_def Now_eq Let_def split: option.splits if_splits)

lemma Begin_valid:
  assumes v: "validate cx c s = None" and k: "0 < now"
  shows "validate cx c (fst (Begin now d s)) = None"
proof (cases "due now d s \<and> snd (ReserveUnsubmitted now d (snd (Now now s))) = None \<and>
              s_pending (fst (ReserveUnsubmitted now d (snd (Now now s)))) \<noteq> None")
  case False
  then have "fst (Begin now d s) \<in> {snd (Now now s), fst (ReserveUnsubmitted now d (snd (Now now s)))}"
    by (auto simp: Begin_def due_Now split: prod.splits option.splits)
  with v k ReserveUnsubmitted_valid [of cx c "snd (Now now s)" now d] show ?thesis by (auto simp: Now_valid)
next
  case True
  let ?r = "ReserveUnsubmitted now d (snd (Now now s))"
  let ?u = "fst ?r"
  from True have r: "due now d s" "snd ?r = None" "s_pending ?u \<noteq> None" by blast+
  let ?t = "fst (Begin now d s)"
  have u: "validate cx c ?u = None" using v k ReserveUnsubmitted_valid [of cx c "snd (Now now s)" now d] by (simp add: Now_valid)
  have t: "ledger ?t = ledger ?u" "s_pending ?t = s_pending ?u" "s_class ?t = s_class ?u" "s_phase ?t = ''submitting''"
    "s_reason ?t = []" "s_deadline ?t = 0"
    using r by (auto simp: Begin_def due_Now frame_simps Let_def split: prod.splits option.splits)
  show ?thesis
  proof (rule valid_by_ledger [OF u t(1)])
    have "s_class ?u = ''cybersecurity'' \<longrightarrow> (\<forall>p. s_pending ?u = Some p \<longrightarrow> pd_charged p \<noteq> 0)"
      using Reserve_pending [OF refl _ r(2) k] Reserve_class [of now d "snd (Now now s)"] by auto
    with u check_ledger_cong(1) [OF t(1), of cx] ledger_eqD(4) [OF t(1)]
    have "check_pending cx ?t = None" by (auto simp: validate_split phase_valid_def check_pending_iff t)
    with t u show "phase_valid cx ?t" by (simp add: phase_valid_def validate_iff)
  qed
qed


subsection \<open>Snapshots and receipts\<close>

lemma valid_fewer_snapshots:
  assumes v: "validate cx c s = None" and sub: "set xs \<subseteq> set (s_snapshots s)" and len: "length xs \<le> MaxSnapshots"
    and t: "t = s\<lparr>s_snapshots := xs, s_handled := h\<rparr>"
  shows "validate cx c t = None"
proof -
  have fields: "check_snapshot cx t = check_snapshot cx s" "check_binding cx t = check_binding cx s"
    "validateManagedTurn cx t = validateManagedTurn cx s" "check_pending cx t = check_pending cx s"
    by ((rule check_ledger_fields check_pending_cong; simp add: t))+
  from v sub have "\<forall>p \<in> set xs. check_snapshot cx s p = None" by (auto simp: validate_iff)
  with v len fields show ?thesis by (simp add: validate_iff t)
qed

lemma valid_filtered_snapshots:
  assumes "validate cx c s = None"
  shows "validate cx c (s\<lparr>s_snapshots := filter P (s_snapshots s), s_handled := h\<rparr>) = None"
proof -
  from assms have "length (s_snapshots s) \<le> MaxSnapshots" by (simp add: validate_iff)
  then show ?thesis
    by (intro valid_fewer_snapshots [OF assms _ _ refl]) (auto intro: le_trans [OF length_filter_le])
qed

lemma SuppressTurn_eq:
  "SuppressTurn turn s = s\<lparr>s_snapshots := filter (\<lambda>p. \<not> (sn_turn p = turn \<and> executed_or_proven p \<and>
      \<not> protectedSnapshot (s\<lparr>s_handled := turn\<rparr>) p)) (s_snapshots s), s_handled := turn\<rparr>"
  by (simp add: SuppressTurn_def Let_def)

lemma SuppressTurn_valid: "validate cx c s = None \<Longrightarrow> validate cx c (SuppressTurn turn s) = None"
  unfolding SuppressTurn_eq by (rule valid_filtered_snapshots)

lemma RetireObsoleteProofs_valid:
  "validate cx c s = None \<Longrightarrow> validate cx c (fst (RetireObsoleteProofs latest s)) = None"
  using valid_filtered_snapshots [of cx c s "s_handled s"] by (simp add: RetireObsoleteProofs_def Let_def)

lemma valid_scope: "validate cx c s = None \<Longrightarrow> s_scope s = c"
  by (simp add: validate_iff)

lemma retainSnapshot_valid:
  assumes "validate cx c s = None"
  shows "validate cx c (fst (retainSnapshot cx snap ct retire res s)) = None"
proof (cases "retainSnapshot cx snap ct retire res s")
  case (Pair t e)
  then show ?thesis
    using assms retainSnapshot_error [of cx snap ct retire res s t] retainSnapshot_ok(5) [of cx snap ct retire res s t]
      valid_scope [OF assms]
    by (cases e) auto
qed

lemma PreflightAccepted_valid:
  assumes v: "validate cx c s = None"
  shows "validate cx c (fst (PreflightAccepted cx s)) = None"
proof (cases "s_pending s")
  case None
  with v show ?thesis by (simp add: PreflightAccepted_def)
next
  case (Some p)
  let ?p = "p\<lparr>pd_result := pd_id p\<rparr>"
  let ?s = "s\<lparr>s_pending := Some ?p\<rparr>"
  obtain t e where r: "retainSnapshot cx (resultSnapshot cx (pd_id p) ?p) (pd_failure p) True receiptReserveBytes ?s = (t, e)"
    by fastforce
  show ?thesis
  proof (cases e)
    case (Some x)
    with v r \<open>s_pending s = Some p\<close> show ?thesis by (simp add: PreflightAccepted_def)
  next
    case None
    note ok = retainSnapshot_ok [OF r [unfolded None]]
    let ?xs = "filter (\<lambda>q. sn_id q \<noteq> pd_id p) (s_snapshots t)"
    have res: "fst (PreflightAccepted cx s) = s\<lparr>s_snapshots := ?xs, s_handled := s_handled t\<rparr>"
      using r None \<open>s_pending s = Some p\<close> by (simp add: PreflightAccepted_def)
    have "set ?xs \<subseteq> set (s_snapshots s)"
      using ok(2) by (auto simp: resultSnapshot_def Let_def)
    moreover have "length ?xs \<le> MaxSnapshots" using ok(3) le_trans [OF length_filter_le] by blast
    ultimately show ?thesis unfolding res by (rule valid_fewer_snapshots [OF v _ _ refl])
  qed
qed

lemma CompactManagedInput_valid:
  assumes "validate cx c s = None"
  shows "validate cx c (fst (CompactManagedInput cx turn item client txt s)) = None"
  using assms valid_scope [OF assms]
  by (auto simp: CompactManagedInput_def Let_def split: option.splits list.splits)

lemma valid_restore_pending:
  assumes v: "validate cx c s = None" and l: "ledger t = ledger s"
    and "s_pending t = s_pending s" "s_class t = s_class s" "length (s_reason t) \<le> 128"
    and "s_phase t = s_phase s \<and> s_phase s \<noteq> ''scheduled'' \<or> resting (s_phase t)"
  shows "validate cx c t = None"
proof (cases "resting (s_phase t)")
  case True
  then show ?thesis using assms by (intro valid_resting [OF v l]) (auto intro: valid_class)
next
  case False
  with assms have "s_phase t = s_phase s" "s_phase s \<noteq> ''scheduled''" by auto
  moreover from this have "check_pending cx t = check_pending cx s"
    by (intro check_pending_cong) (use assms ledger_eqD [OF l] in auto)
  ultimately show ?thesis
    using assms by (intro valid_by_ledger [OF v l]) (simp add: phase_valid_def validate_iff)
qed

lemma Stop_valid:
  assumes v: "validate cx c s = None"
  shows "validate cx c (fst (Stop s)) = None"
proof (cases "s_cancelled s")
  case True
  with v show ?thesis by (simp add: Stop_def)
next
  case False
  show ?thesis
    by (rule valid_restore_pending [OF v ledger_Stop])
       (use False in \<open>simp_all add: Stop_def Let_def Cancel_fields Uncertain_def split: option.split\<close>)
qed

lemma RetryNow_valid:
  assumes v: "validate cx c s = None" and "0 < now"
  shows "validate cx c (fst (RetryNow now s)) = None"
proof (cases "s_cancelled s \<or> s_phase s \<noteq> ''scheduled'' \<or> s_pending s = None \<or> s_deadline s \<le> max now (s_clock s)")
  case True
  with v show ?thesis by (simp add: RetryNow_def)
next
  case False
  let ?t = "s\<lparr>s_clock := max now (s_clock s), s_deadline := max now (s_clock s)\<rparr>"
  have "check_pending cx ?t = check_pending cx s" by (rule check_pending_cong) simp_all
  moreover have "check_snapshot cx ?t = check_snapshot cx s" "check_binding cx ?t = check_binding cx s"
    "validateManagedTurn cx ?t = validateManagedTurn cx s" by (rule check_ledger_fields; simp)+
  ultimately have "validate cx c ?t = None"
    using v assms(2) by (simp add: validate_iff less_max_iff_disj)
  with False show ?thesis by (auto simp: RetryNow_def Now_eq)
qed


text \<open>Accepting touches at most the one charge of the attempt, since identifiers are distinct.\<close>

lemma accept_charges_absent: "i \<notin> ch_id ` set cs \<Longrightarrow> accept_charges i now cs s = (cs, s, False)"
  by (induction cs) auto

lemma accept_charges_done:
  "distinct (map ch_id cs) \<Longrightarrow> charge_of i cs = Some x \<Longrightarrow> ch_accepted x \<Longrightarrow> accept_charges i now cs s = (cs, s, True)"
  by (induction cs) (auto simp: charge_of_def accept_charges_absent split: if_splits)

lemma accept_charges_first:
  "distinct (map ch_id cs) \<Longrightarrow> charge_of i cs = Some x \<Longrightarrow> \<not> ch_accepted x \<Longrightarrow>
   accept_charges i now cs s =
     (map (\<lambda>y. if ch_id y = i then x\<lparr>ch_at := max (ch_at x) (max now (s_clock s)), ch_accepted := True\<rparr> else y) cs,
      s\<lparr>s_clock := max now (s_clock s),
        s_pending := map_option (\<lambda>p. p\<lparr>pd_charged := max (ch_at x) (max now (s_clock s))\<rparr>) (s_pending s)\<rparr>, True)"
proof (induction cs)
  case Nil
  from Nil.prems(2) have False by (simp add: charge_of_def)
  then show ?case ..
next
  case (Cons y ys)
  show ?case
  proof (cases "ch_id y = i")
    case True
    with Cons.prems have xy: "x = y" and new: "i \<notin> ch_id ` set ys" by (auto simp: charge_of_def)
    have "map (\<lambda>z. if ch_id z = i then w else z) ys = ys" for w
      by (rule map_idI) (use new in auto)
    with True Cons.prems(3) show ?thesis
      unfolding xy by (simp add: accept_charges_absent [OF new] Now_eq)
  next
    case False
    with Cons show ?thesis by (simp add: charge_of_def)
  qed
qed

lemma charge_of_map:
  "charge_of i cs = Some x \<Longrightarrow> ch_id x' = i \<Longrightarrow> charge_of i (map (\<lambda>y. if ch_id y = i then x' else y) cs) = Some x'"
  by (induction cs) (auto simp: charge_of_def split: if_splits)

lemma charge_of_mem: "charge_of i cs = Some x \<Longrightarrow> x \<in> set cs \<and> ch_id x = i"
  unfolding charge_of_def find_Some_iff by (metis nth_mem)

text \<open>An attempt whose cybersecurity charge is recorded: what a submission leaves behind.\<close>

definition charged_attempt :: "'p rstate \<Rightarrow> bool" where
  "charged_attempt s \<longleftrightarrow> (s_class s = ''cybersecurity'' \<longrightarrow> (\<forall>p. s_pending s = Some p \<longrightarrow> pd_charged p \<noteq> 0))"

lemma Uncertain_charged: "validate cx c s = None \<Longrightarrow> Uncertain s \<Longrightarrow> charged_attempt s"
  by (auto simp: validate_iff check_pending_iff Uncertain_def charged_attempt_def)

lemma accept_charges_valid:
  assumes v: "validate cx c s = None" and p: "s_pending s = Some p" and k: "0 < now"
    and ch: "s_class s = ''cybersecurity''" "charged_attempt s"
    and r: "accept_charges (pd_id p) now (s_cyber s) s = (cs, t, found)"
  shows "validate cx c (t\<lparr>s_cyber := cs\<rparr>) = None \<and> charged_attempt (t\<lparr>s_cyber := cs\<rparr>)"
proof -
  from v p ch have ok: "charges_ok [] (s_cyber s)" and len: "length (s_cyber s) \<le> CyberLimit + 1"
    and ph: "s_phase s \<in> set retry_phases" "length (s_reason s) \<le> 128" "s_phase s = ''scheduled'' \<longrightarrow> 0 < s_deadline s"
    and charged: "pd_charged p \<noteq> 0" "map_option ch_at (charge_of (pd_id p) (s_cyber s)) = Some (pd_charged p)"
    by (auto simp: validate_iff check_pending_iff charged_attempt_def)
  then obtain x where x: "charge_of (pd_id p) (s_cyber s) = Some x" by auto
  from ok have d: "distinct (map ch_id (s_cyber s))" by (simp add: charges_ok_iff)
  show ?thesis
  proof (cases "ch_accepted x")
    case True
    with accept_charges_done [OF d x True, of now s] r have "cs = s_cyber s" "t = s" by auto
    with v ch show ?thesis by simp
  next
    case False
    let ?at = "max (ch_at x) (max now (s_clock s))"
    let ?x = "x\<lparr>ch_at := ?at, ch_accepted := True\<rparr>"
    from accept_charges_first [OF d x False, of now s] r p
    have cs: "cs = map (\<lambda>y. if ch_id y = pd_id p then ?x else y) (s_cyber s)"
      and t: "t\<lparr>s_cyber := cs\<rparr> = s\<lparr>s_cyber := cs, s_clock := max now (s_clock s), s_pending := Some (p\<lparr>pd_charged := ?at\<rparr>),
        s_phase := s_phase s, s_reason := s_reason s, s_deadline := s_deadline s\<rparr>"
      by auto
    have idx: "ch_id x = pd_id p" using charge_of_mem [OF x] by simp
    then have ids: "map ch_id cs = map ch_id (s_cyber s)" unfolding cs by auto
    from k have pos: "0 < ?at" by simp
    have "charges_ok [] cs"
      using ok idx pos charge_of_mem [OF x] unfolding charges_ok_iff ids by (auto simp: cs)
    moreover have "charge_of (pd_id p) cs = Some ?x" unfolding cs by (rule charge_of_map [OF x]) (simp add: idx)
    ultimately have "validate cx c (t\<lparr>s_cyber := cs\<rparr>) = None"
      by (intro valid_new_charges [OF v _ _ t]) (use ph p pos len in \<open>auto simp: cs\<close>)
    then show ?thesis using pos unfolding t by (simp add: charged_attempt_def)
  qed
qed


lemma valid_with_result:
  assumes v: "validate cx c s = None" and p: "s_pending s = Some p"
  shows "validate cx c (s\<lparr>s_pending := Some (p\<lparr>pd_result := turn\<rparr>)\<rparr>) = None" (is "validate cx c ?t = None")
proof -
  have f: "check_snapshot cx ?t = check_snapshot cx s" "check_binding cx ?t = check_binding cx s"
    "validateManagedTurn cx ?t = validateManagedTurn cx s" by (rule check_ledger_fields; simp)+
  from v p have "check_pending cx ?t = None" by (simp add: validate_iff check_pending_iff f)
  with v f show ?thesis by (simp add: validate_iff)
qed

definition settle_finish :: "string \<Rightarrow> 'p rstate \<Rightarrow> 'p rstate" where
  "settle_finish turn t = (if s_cancelled t then t\<lparr>s_phase := ''cancelled'', s_reason := [], s_handled := turn\<rparr>
                           else t\<lparr>s_phase := ''running'', s_reason := []\<rparr>)"

lemma settle_finish_valid:
  assumes v: "validate cx c t = None" and ch: "charged_attempt t"
  shows "validate cx c (settle_finish turn t) = None"
proof (cases "s_cancelled t")
  case True
  then show ?thesis unfolding settle_finish_def
    by (simp, intro valid_resting [OF v]) (simp_all add: frame_simps valid_class [OF v])
next
  case False
  let ?t = "t\<lparr>s_phase := ''running'', s_reason := []\<rparr>"
  have f: "check_snapshot cx ?t = check_snapshot cx t" "check_binding cx ?t = check_binding cx t"
    "validateManagedTurn cx ?t = validateManagedTurn cx t" by (rule check_ledger_fields; simp)+
  from v ch have "check_pending cx ?t = None"
    by (simp add: validate_iff check_pending_iff f charged_attempt_def)
  with v f have "validate cx c ?t = None" by (simp add: validate_iff)
  with False show ?thesis by (simp add: settle_finish_def)
qed

lemma settle_result_valid:
  assumes v: "validate cx c s = None" and ch: "charged_attempt s"
  shows "validate cx c (fst (settle_result cx turn s)) = None"
proof (cases "s_pending s")
  case None
  with v show ?thesis by (simp add: settle_result_def)
next
  case (Some p)
  let ?s1 = "s\<lparr>s_pending := Some (p\<lparr>pd_result := turn\<rparr>)\<rparr>"
  let ?r = "RetainSnapshot cx (resultSnapshot cx turn (p\<lparr>pd_result := turn\<rparr>)) turn ?s1"
  have v1: "validate cx c ?s1 = None" by (rule valid_with_result [OF v Some])
  have ch1: "charged_attempt ?s1" using ch Some by (simp add: charged_attempt_def)
  obtain s2 e where r: "?r = (s2, e)" by fastforce
  have v2: "validate cx c s2 = None"
    using retainSnapshot_valid [OF v1, of "resultSnapshot cx turn (p\<lparr>pd_result := turn\<rparr>)" turn True 0] r
    by (simp add: RetainSnapshot_def)
  then obtain xs where "s2 = ?s1\<lparr>s_snapshots := xs\<rparr>"
    using r retainSnapshot_ok(1) retainSnapshot_error unfolding RetainSnapshot_def
    by (cases e) (fastforce, metis rstate.surjective rstate.update_convs(21))
  then have ch2: "charged_attempt s2" using ch1 by (simp add: charged_attempt_def)
  have blocked: "validate cx c ((SuppressTurn turn s2)\<lparr>s_phase := ''blocked'', s_reason := ''settings_unproven'',
      s_cancelled := True, s_deadline := 0\<rparr>) = None"
    by (rule valid_resting [OF SuppressTurn_valid [OF v2, of turn]])
       (simp_all add: frame_simps valid_class [OF SuppressTurn_valid [OF v2]])
  have "fst (settle_result cx turn s) \<in> {?s1, settle_finish turn ?s1, s2, settle_finish turn s2, (SuppressTurn turn s2)\<lparr>s_phase := ''blocked'', s_reason := ''settings_unproven'',
      s_cancelled := True, s_deadline := 0\<rparr>}"
    using r Some by (cases e) (auto simp: settle_result_def settle_finish_def Let_def)
  with v1 v2 blocked settle_finish_valid [OF v1 ch1] settle_finish_valid [OF v2 ch2] show ?thesis by auto
qed


lemma Accepted_valid:
  assumes v: "validate cx c s = None" and ch: "charged_attempt s" and k: "0 < now"
  shows "validate cx c (fst (Accepted cx turn now s)) = None"
proof (cases "s_pending s")
  case None
  with v show ?thesis by (simp add: Accepted_def)
next
  case (Some p)
  obtain cs t found where r: "accept_charges (pd_id p) now (s_cyber s) s = (cs, t, found)" by (metis prod_cases3)
  show ?thesis
  proof (cases "s_class s = ''cybersecurity''")
    case True
    from accept_charges_valid [OF v Some k True ch r] have w: "validate cx c (t\<lparr>s_cyber := cs\<rparr>) = None"
      and cw: "charged_attempt (t\<lparr>s_cyber := cs\<rparr>)" by auto
    from settle_result_valid [OF w cw, of turn] w v True Some r show ?thesis
      by (simp add: Accepted_def Let_def)
  next
    case False
    with v Some settle_result_valid [OF v ch, of turn] show ?thesis by (simp add: Accepted_def)
  qed
qed

subsection \<open>Every ledger the operations reach is one the store accepts\<close>

text \<open>
  What the callers of each operation guarantee: reasons are short constants, the wall clock is after
  1970, the random source delivers sixteen bytes, a receipt is booked for an attempt that is being
  submitted or reconciled (or carries its charge), and a failed \<open>Observe\<close> is not kept.
\<close>

fun event_fine :: "'p codec \<Rightarrow> 'p retry_event \<Rightarrow> 'p rstate \<Rightarrow> bool" where
  "event_fine cx (EObserve ob now r d e) s \<longleftrightarrow> 0 < now \<and> entropy_ok e \<and> snd (Observe cx ob now r d e s) = None"
| "event_fine cx (EBegin now d) s \<longleftrightarrow> 0 < now"
| "event_fine cx (EReserve now d) s \<longleftrightarrow> 0 < now"
| "event_fine cx (EAccepted turn now) s \<longleftrightarrow> 0 < now \<and> charged_attempt s"
| "event_fine cx (ECancel reason) s \<longleftrightarrow> length reason \<le> 128"
| "event_fine cx (ERetryNow now) s \<longleftrightarrow> 0 < now"
| "event_fine cx _ s \<longleftrightarrow> True"

inductive valid_step :: "'p codec \<Rightarrow> 'p rstate \<Rightarrow> 'p retry_event \<Rightarrow> 'p rstate \<Rightarrow> bool" for cx where
  fine: "event_fine cx ev s \<Longrightarrow> valid_step cx s ev (apply_event cx ev s)"

inductive_cases valid_stepE: "valid_step cx s ev t"

definition fresh_ledger :: "'p codec \<Rightarrow> scope \<Rightarrow> 'p rstate \<Rightarrow> bool" where
  "fresh_ledger cx c s \<longleftrightarrow> float_rounding (cx_fround cx) \<and> s = New c"

definition storable :: "'p codec \<Rightarrow> scope \<Rightarrow> 'p rstate \<Rightarrow> bool" where
  "storable cx c s \<longleftrightarrow> float_rounding (cx_fround cx) \<and> validate cx c s = None"

lemma New_valid: "validate cx c (New c) = None"
  by (simp add: validate_iff New_def check_binding_def validateManagedTurn_def check_pending_def)

lemma apply_event_valid:
  assumes fl: "float_rounding (cx_fround cx)" and v: "validate cx c s = None" and e: "event_fine cx ev s"
  shows "validate cx c (apply_event cx ev s) = None"
proof (cases ev)
  case (EObserve ob now r d ent)
  with e Observe_valid [OF v fl, of ent now ob r d] show ?thesis
    by (metis apply_event.simps(2) event_fine.simps(1) prod.collapse)
qed (use e v in \<open>simp_all add: Enroll_valid Begin_valid ReserveUnsubmitted_valid Accepted_valid Cancel_valid
       SetEnabled_valid InvalidateSettings_valid AddSnapshot_def RetainSnapshot_def AdmitSnapshot_def RetainProof_def
       retainSnapshot_valid SuppressTurn_valid RetireObsoleteProofs_valid CompactManagedInput_valid
       PreflightAccepted_valid Stop_valid RetryNow_valid\<close>)

interpretation ledger_validity: safe_machine "fresh_ledger cx c" "valid_step cx" "storable cx c"
  for cx :: "'p codec" and c
  by unfold_locales
     (auto simp: fresh_ledger_def storable_def New_valid elim!: valid_stepE intro: apply_event_valid)

text \<open>
  C3. Every ledger that the operations reach from a fresh one, in any order, passes the validation
  that guards both the save and the load of the record: the session never blocks on a file its own
  operations produced.
\<close>

theorem reachable_ledger_valid:
  "reachable (fresh_ledger cx c) (valid_step cx) s \<Longrightarrow> validate cx c s = None"
  using ledger_validity.inv_reachable by (auto simp: storable_def)


theorem reachable_ledger_valid_witness:
  "\<exists>s. reachable (fresh_ledger sample_codec sample_scope) (valid_step sample_codec) s \<and>
       s_phase s = ''blocked'' \<and> validate sample_codec sample_scope s = None"
proof -
  let ?s0 = "New sample_scope :: unit rstate"
  let ?ob = "\<lparr>o_turn = ''turn-1'', o_status = ''failed'', o_code = ''serverOverloaded''\<rparr>"
  let ?e1 = "EEnroll \<lparr>o_turn = ''turn-0'', o_status = ''completed'', o_code = []\<rparr> :: unit retry_event"
  let ?s1 = "apply_event sample_codec ?e1 ?s0"
  let ?e2 = "EObserve ?ob 1000 0 sample_decision (Inr (replicate 16 0)) :: unit retry_event"
  let ?s2 = "apply_event sample_codec ?e2 ?s1"
  have "float_rounding (cx_fround sample_codec)"
    by (simp add: sample_codec_def float_rounding_def mono_def)
  then have "reachable (fresh_ledger sample_codec sample_scope) (valid_step sample_codec) ?s0"
    by (intro reach_init) (simp add: fresh_ledger_def)
  then have r1: "reachable (fresh_ledger sample_codec sample_scope) (valid_step sample_codec) ?s1"
    by (rule reach_step) (rule fine, simp)
  have obs: "Observe sample_codec ?ob 1000 0 sample_decision (Inr (replicate 16 0)) ?s1 =
      (?s1\<lparr>s_clock := 1000, s_handled := ''turn-1'', s_chain := ''turn-1'', s_class := ''capacity'', s_phase := ''blocked'',
           s_reason := ''settings_unproven''\<rparr>, None)"
    by (simp add: Observe_def Now_def New_def Enroll_def Uncertain_def supersede_unanswered_def observe_settled_def
        supersede_answered_def observe_failed_def Class_def Eligible_def Enabled_def sample_decision_def enter_chain_def
        result_of_def schedule_failure_def Proof_def)
  have r2: "reachable (fresh_ledger sample_codec sample_scope) (valid_step sample_codec) ?s2"
    by (rule reach_step [OF r1], rule fine) (simp only: event_fine.simps obs snd_conv entropy_ok_def, simp)
  have "s_phase ?s2 = ''blocked''" by (simp only: apply_event.simps obs [simplified apply_event.simps] fst_conv, simp)
  with r2 reachable_ledger_valid [OF r2] show ?thesis by blast
qed

end
