(* ===== verification/Go_Files.thy ===== *)
theory Go_Files
  imports Go_Base
begin

text \<open>
  What the durable stores see of the operating system: the outcome of every call that opens, stats,
  reads and decodes a file, and of the calls that take an advisory lock. The stores' own decisions
  over these outcomes are definitions of the components; here are only the outcomes.

  The decoders (\<open>yaml.Unmarshal\<close>, \<open>json.Decoder\<close> with \<open>DisallowUnknownFields\<close>, \<open>json.Unmarshal\<close>
  into raw fields) appear by their results on the file's bytes.
\<close>

datatype yaml_kind = DocumentNode | MappingNode | SequenceNode | ScalarNode | AliasNode

text \<open>A node of the syntax tree: kind, whether it has the tagged style, resolved tag, value, content.\<close>

datatype yaml = YNode (y_kind: yaml_kind) (y_tagged: bool) (y_tag: string) (y_value: string) (y_content: "yaml list")

text \<open>The entries at even positions: the keys of a mapping node.\<close>

fun evens :: "'a list \<Rightarrow> 'a list" where
  "evens [] = []"
| "evens [x] = [x]"
| "evens (x # _ # xs) = x # evens xs"

record 'a file_view =
  fv_open :: "error option"
  fv_stat :: "error option"
  fv_fstat :: "error option"
  fv_regular :: bool
  fv_perm :: nat
  fv_owned :: bool
  fv_size :: int
  fv_read :: "error + string"
  fv_yaml :: "error + yaml"
  fv_decode :: "error + 'a"
  fv_trailing :: bool
  fv_nil_slices :: bool
  fv_fields :: "error + (string \<times> string) list"

definition perm_0600 :: nat where "perm_0600 = 384"
definition perm_0700 :: nat where "perm_0700 = 448"

text \<open>The attributes and contents of a regular private file that holds a value.\<close>

definition plain_view :: "string \<Rightarrow> 'a \<Rightarrow> 'a file_view" where
  "plain_view bytes v =
     \<lparr>fv_open = None, fv_stat = None, fv_fstat = None, fv_regular = True, fv_perm = perm_0600, fv_owned = True,
      fv_size = int (length bytes), fv_read = Inr bytes, fv_yaml = Inr (YNode DocumentNode False [] [] []),
      fv_decode = Inr v, fv_trailing = False, fv_nil_slices = False, fv_fields = Inr []\<rparr>"

definition missing_view :: "'a \<Rightarrow> 'a file_view" where
  "missing_view v = (plain_view [] v)\<lparr>fv_open := Some ErrNotExist\<rparr>"

text \<open>
  A non-blocking \<open>flock\<close> that is retried every ten milliseconds until the context ends. \<open>None\<close> is a
  loop that has not returned after the attempts given.
\<close>

datatype flock_attempt = Acquired | WouldBlock "error option" | FlockFailed error

fun flock_wait :: "flock_attempt list \<Rightarrow> error option option" where
  "flock_wait [] = None"
| "flock_wait (Acquired # _) = Some None"
| "flock_wait (FlockFailed e # _) = Some (Some e)"
| "flock_wait (WouldBlock (Some e) # _) = Some (Some e)"
| "flock_wait (WouldBlock None # xs) = flock_wait xs"

lemma flock_wait_returns:
  "(\<exists>r. flock_wait xs = Some r) \<longleftrightarrow> (\<exists>x \<in> set xs. x \<noteq> WouldBlock None)"
  by (induction xs rule: flock_wait.induct) auto

end
