(* ===== verification/Retry_Store.thy ===== *)
theory Retry_Store
  imports Retry_Valid Go_Files
begin

text \<open>
  The ledger's store, \<open>portal/internal/turnretry/store.go\<close>: paths and scopes, \<open>Load\<close>, the admission
  lock, \<open>Save\<close> by atomic replacement. The file system appears by the outcome of each call
  (\<open>file_view\<close>, \<open>replace_io\<close>, \<open>lock_io\<close>); a durable record is the state it decodes to.
\<close>

subsection \<open>Paths and scopes\<close>

record store =
  st_root :: string
  st_workspace :: string

definition Store_directory :: "'p codec \<Rightarrow> store \<Rightarrow> string" where
  "Store_directory cx st = Join [st_root st, ''turn-retries'', cx_sha256 cx (st_workspace st)]"

definition Store_path :: "'p codec \<Rightarrow> store \<Rightarrow> scope \<Rightarrow> string" where
  "Store_path cx st c = Join [Store_directory cx st, sc_slug c, cx_sha256 cx (sc_thread c) @ ''.json'']"

definition Store_validScope :: "store \<Rightarrow> scope \<Rightarrow> bool" where
  "Store_validScope st c \<longleftrightarrow>
     IsAbs (st_root st) \<and> IsAbs (st_workspace st) \<and> sc_workspace c = st_workspace st \<and>
     sc_slug c \<noteq> [] \<and> sc_slug c \<noteq> ''.'' \<and> sc_slug c \<noteq> ''..'' \<and> \<not> ContainsAny (sc_slug c) [CHR ''/'', CHR 0x5C] \<and>
     sc_root c \<noteq> [] \<and> sc_thread c \<noteq> [] \<and> length (sc_thread c) \<le> 4096 \<and> IsAbs (sc_socket c)"

subsection \<open>Reading a record\<close>

fun uniqueKeys :: "yaml \<Rightarrow> error option" where
  "uniqueKeys (YNode k tagged tag v content) =
     (if k = AliasNode then Some (Err ''retry record has aliases'')
      else if k = MappingNode \<and> \<not> distinct (map y_value (evens content))
      then Some (Err ''retry record has duplicate keys'')
      else first_error (map uniqueKeys content))"

definition Load :: "'p codec \<Rightarrow> store \<Rightarrow> scope \<Rightarrow> 'p rstate file_view \<Rightarrow> error + 'p rstate" where
  "Load cx st c f =
     (if \<not> Store_validScope st c then Inl (Err ''invalid retry scope'')
      else case first_error [fv_open f, fv_stat f, fv_fstat f] of
        Some e \<Rightarrow> Inl e
      | None \<Rightarrow>
          if \<not> fv_regular f \<or> fv_perm f \<noteq> perm_0600 \<or> \<not> fv_owned f \<or> int MaxBytes < fv_size f
          then Inl (Err ''invalid private retry record'')
          else case fv_read f of
            Inl e \<Rightarrow> Inl e
          | Inr _ \<Rightarrow> (case fv_yaml f of
              Inl e \<Rightarrow> Inl e
            | Inr syntax \<Rightarrow> (case uniqueKeys syntax of
                Some e \<Rightarrow> Inl e
              | None \<Rightarrow> (case fv_decode f of
                  Inl e \<Rightarrow> Inl e
                | Inr state \<Rightarrow>
                    if fv_trailing f then Inl (Err ''retry record has trailing data'')
                    else case fv_fields f of
                      Inl e \<Rightarrow> Inl e
                    | Inr raws \<Rightarrow>
                        if (case map_of raws ''managedTurn'' of None \<Rightarrow> False
                            | Some raw \<Rightarrow> s_schema state = 1 \<or> TrimSpace raw = ''null'')
                        then Inl (Err ''managed turn requires a schema-2 object'')
                        else if fv_nil_slices f then Inl (Err ''retry state identity or bounds changed'')
                        else case validate cx c state of Some e \<Rightarrow> Inl e | None \<Rightarrow> Inr state))))"

lemma Load_valid: "Load cx st c f = Inr s \<Longrightarrow> validate cx c s = None \<and> Store_validScope st c"
  by (auto simp: Load_def split: if_splits option.splits sum.splits)

subsection \<open>Saving a record\<close>

record 'p transaction =
  tx_store :: store
  tx_scope :: scope
  tx_open :: bool
  tx_state :: "'p rstate"

definition Save ::
  "'p codec \<Rightarrow> replace_io \<Rightarrow> 'p transaction \<Rightarrow> 'p rstate option \<Rightarrow> error option \<times> 'p transaction \<times> 'p rstate option" where
  "Save cx io t disk =
     (if \<not> tx_open t then (Some (Err ''retry admission lock is closed''), t, disk)
      else
        (let candidate = (tx_state t)\<lparr>s_schema := Schema\<rparr> in
         case validate cx (tx_scope t) candidate of
           Some e \<Rightarrow> (Some e, t, disk)
         | None \<Rightarrow>
             if MaxBytes < json_len (state_json cx candidate) + 1
             then (Some (Err ''retry state exceeds 1 MiB''), t, disk)
             else (case atomic_replace io candidate disk of
                     (Some e, d) \<Rightarrow> (Some e, t, d)
                   | (None, d) \<Rightarrow> (None, t\<lparr>tx_state := candidate\<rparr>, d))))"

definition Close :: "'p transaction \<Rightarrow> 'p transaction" where
  "Close t = t\<lparr>tx_open := False\<rparr>"

subsection \<open>The admission lock\<close>

record 'p lock_io =
  li_ctx :: "error option"
  li_mkdir :: "error option"
  li_dir_ok :: bool
  li_openlock :: "error option"
  li_flock :: "flock_attempt list"
  li_view :: "'p rstate file_view"
  li_guard :: "error option"
  li_guard_flock :: "error option"
  li_entries :: "error + nat"
  li_save :: replace_io

text \<open>\<open>lock\<close> returns \<open>None\<close> while it still waits for the fence.\<close>

definition lock ::
  "'p codec \<Rightarrow> store \<Rightarrow> scope \<Rightarrow> bool \<Rightarrow> 'p lock_io \<Rightarrow> 'p rstate option
   \<Rightarrow> ((error + 'p transaction) \<times> 'p rstate option) option" where
  "lock cx st c create io disk =
     (if \<not> Store_validScope st c then Some (Inl (Err ''invalid retry scope''), disk)
      else case first_error [li_ctx io, li_mkdir io] of
        Some e \<Rightarrow> Some (Inl e, disk)
      | None \<Rightarrow>
          if \<not> li_dir_ok io then Some (Inl (Err ''retry directory must be private''), disk)
          else case li_openlock io of
            Some e \<Rightarrow> Some (Inl e, disk)
          | None \<Rightarrow> (case flock_wait (li_flock io) of
              None \<Rightarrow> None
            | Some (Some e) \<Rightarrow> Some (Inl e, disk)
            | Some None \<Rightarrow>
                (let t = (\<lambda>s. \<lparr>tx_store = st, tx_scope = c, tx_open = True, tx_state = s\<rparr>) in
                 case Load cx st c (li_view io) of
                   Inr s \<Rightarrow> Some (Inr (t s), disk)
                 | Inl e \<Rightarrow>
                     if errors_is e ErrNotExist \<and> \<not> create then Some (Inr (t (New c)), disk)
                     else if errors_is e ErrNotExist then
                       (case first_error [li_guard io, li_guard_flock io] of
                          Some e \<Rightarrow> Some (Inl e, disk)
                        | None \<Rightarrow>
                            if (case li_entries io of Inl _ \<Rightarrow> True | Inr n \<Rightarrow> 128 \<le> n)
                            then Some (Inl (Err ''retry session record limit reached''), disk)
                            else (case Save cx (li_save io) (t (New c)) disk of
                                    (Some e, _, d) \<Rightarrow> Some (Inl e, d)
                                  | (None, t1, d) \<Rightarrow> Some (Inr t1, d)))
                     else Some (Inl e, disk))))"

definition Lock where "Lock cx st c io disk = lock cx st c True io disk"
definition Inspect where "Inspect cx st c io disk = lock cx st c False io disk"

subsection \<open>Saving is durable and never stores an invalid record\<close>

definition record_ok :: "'p codec \<Rightarrow> scope \<Rightarrow> 'p rstate \<Rightarrow> bool" where
  "record_ok cx c s \<longleftrightarrow> validate cx c s = None \<and> s_schema s = Schema \<and> json_len (state_json cx s) + 1 \<le> MaxBytes"

text \<open>Putting a state: \<open>Save\<close> of an open transaction on the record of scope \<open>c\<close>.\<close>

definition save_put :: "'p codec \<Rightarrow> scope \<Rightarrow> replace_io \<Rightarrow> 'p rstate \<Rightarrow> 'p rstate option \<Rightarrow> error option \<times> 'p rstate option" where
  "save_put cx c io s disk =
     (let t = \<lparr>tx_store = \<lparr>st_root = [], st_workspace = []\<rparr>, tx_scope = c, tx_open = True, tx_state = s\<rparr> in
      case Save cx io t disk of (e, _, d) \<Rightarrow> (e, d))"

lemma Save_cases:
  assumes "Save cx io t disk = (e, t', d)"
  obtains (refused) x where "e = Some x" "t' = t" "d = disk"
  | (replaced) x where "e = Some x" "t' = t" "d = Some ((tx_state t)\<lparr>s_schema := Schema\<rparr>)"
      "record_ok cx (tx_scope t) ((tx_state t)\<lparr>s_schema := Schema\<rparr>)" "tx_open t"
  | (saved) "e = None" "t' = t\<lparr>tx_state := (tx_state t)\<lparr>s_schema := Schema\<rparr>\<rparr>" "d = Some ((tx_state t)\<lparr>s_schema := Schema\<rparr>)"
      "record_ok cx (tx_scope t) ((tx_state t)\<lparr>s_schema := Schema\<rparr>)" "tx_open t"
proof -
  let ?v = "(tx_state t)\<lparr>s_schema := Schema\<rparr>"
  show thesis
  proof (cases "tx_open t \<and> validate cx (tx_scope t) ?v = None \<and> json_len (state_json cx ?v) + 1 \<le> MaxBytes")
    case False
    with assms have "(\<exists>x. e = Some x) \<and> t' = t \<and> d = disk"
      by (cases "validate cx (tx_scope t) ?v") (simp_all add: Save_def Let_def split: if_splits, metis+)
    then show ?thesis using refused by blast
  next
    case True
    obtain e1 d1 where a: "atomic_replace io ?v disk = (e1, d1)" by fastforce
    with True assms have r: "e = e1" "d = d1" "t' = (if e1 = None then t\<lparr>tx_state := ?v\<rparr> else t)"
      by (auto simp: Save_def Let_def split: option.splits)
    from True have ok: "record_ok cx (tx_scope t) ?v" by (simp add: record_ok_def)
    from a have "d1 = disk \<or> d1 = Some ?v" using atomic_replace_old_or_new [of io ?v disk] by auto
    moreover from a have "e1 = None \<Longrightarrow> d1 = Some ?v" using atomic_replace_ok [of io ?v disk] by simp
    ultimately show ?thesis using r ok True refused replaced saved by (cases e1) auto
  qed
qed

interpretation retry_file: durable_store "record_ok cx c" "\<lambda>s. s\<lparr>s_schema := Schema\<rparr>" "save_put cx c"
  for cx :: "'p codec" and c
proof
  fix io :: replace_io and v :: "'p rstate" and old e d
  assume "save_put cx c io v old = (e, d)"
  then obtain t' where
    "Save cx io \<lparr>tx_store = \<lparr>st_root = [], st_workspace = []\<rparr>, tx_scope = c, tx_open = True, tx_state = v\<rparr> old = (e, t', d)"
    by (auto simp: save_put_def Let_def split: prod.splits)
  then show "d = old \<or> d = Some (v\<lparr>s_schema := Schema\<rparr>) \<and> record_ok cx c (v\<lparr>s_schema := Schema\<rparr>)"
    by (cases rule: Save_cases) auto
next
  fix io :: replace_io and v :: "'p rstate" and old d
  assume "save_put cx c io v old = (None, d)"
  then obtain t' where
    "Save cx io \<lparr>tx_store = \<lparr>st_root = [], st_workspace = []\<rparr>, tx_scope = c, tx_open = True, tx_state = v\<rparr> old = (None, t', d)"
    by (auto simp: save_put_def Let_def split: prod.splits)
  then show "d = Some (v\<lparr>s_schema := Schema\<rparr>)"
    by (cases rule: Save_cases) auto
qed

end
