(* ===== verification/Retry_Policy.thy ===== *)
theory Retry_Policy
  imports Retry_Store
begin

text \<open>
  The saved session policy: \<open>portal/internal/turnretry/policy_store.go\<close> (the record, its validation,
  \<open>Load\<close> and the read-modify-write \<open>Update\<close>), \<open>policy.go\<close> (\<open>Decide\<close>, \<open>PreparePolicy\<close>) and
  \<open>summary.go\<close> (\<open>Checkpoint\<close>).
\<close>

subsection \<open>The policy record\<close>

definition PolicySchema :: int where "PolicySchema = 1"
definition MaxPolicyBytes :: nat where "MaxPolicyBytes = 1024 * 1024"
definition MaxPolicyThreads :: nat where "MaxPolicyThreads = 128"
definition maxJSONInteger :: int where "maxJSONInteger = 2 ^ 53 - 1"

record policy_scope =
  ps_workspace :: string
  ps_slug :: string
  ps_root :: string
  ps_incarnation :: string

record summary =
  su_chain_of :: string
  su_class :: string
  su_phase :: string
  su_outcome :: string
  su_reason :: string
  su_confirmed :: "int option"
  su_count_quality :: string
  su_started :: "int option"
  su_finished :: "int option"
  su_timing_quality :: string
  su_last :: string
  su_pending_id :: string

record thread_policy =
  tp_thread :: string
  tp_capacity :: enrollment
  tp_cyber :: enrollment
  tp_suppressed :: "suppression list"
  tp_summary :: "summary option"

record policy =
  po_schema :: int
  po_scope :: policy_scope
  po_revision :: string
  po_capacity :: bool
  po_cyber :: bool
  po_threads :: "thread_policy list"

definition policy_scope_json :: "policy_scope \<Rightarrow> json" where
  "policy_scope_json c = JObj [(''workspace'', JStr (ps_workspace c)), (''slug'', JStr (ps_slug c)),
     (''root'', JStr (ps_root c)), (''incarnation'', JStr (ps_incarnation c))]"

definition enrollment_json :: "enrollment \<Rightarrow> json" where
  "enrollment_json e = JObj [(''turn'', JStr (en_turn e)), (''active'', JBool (en_active e))]"

definition suppression_json :: "suppression \<Rightarrow> json" where
  "suppression_json v = JObj [(''chain'', JStr (su_chain v)), (''pending'', JStr (su_pending v)), (''result'', JStr (su_result v))]"

definition summary_json :: "summary \<Rightarrow> json" where
  "summary_json v = JObj
     [(''chain'', JStr (su_chain_of v)), (''class'', JStr (su_class v)), (''phase'', JStr (su_phase v)),
      (''outcome'', JStr (su_outcome v)), (''reason'', JStr (su_reason v)),
      (''confirmedStarts'', JOpt JInt (su_confirmed v)), (''countQuality'', JStr (su_count_quality v)),
      (''startedAtMs'', JOpt JInt (su_started v)), (''finishedAtMs'', JOpt JInt (su_finished v)),
      (''timingQuality'', JStr (su_timing_quality v)), (''lastConfirmed'', JStr (su_last v)),
      (''pendingId'', JStr (su_pending_id v))]"

definition thread_policy_json :: "thread_policy \<Rightarrow> json" where
  "thread_policy_json t = JObj
     [(''thread'', JStr (tp_thread t)), (''capacity'', enrollment_json (tp_capacity t)),
      (''cybersecurity'', enrollment_json (tp_cyber t)),
      (''suppressed'', JArr (map suppression_json (tp_suppressed t))),
      (''summary'', JOpt summary_json (tp_summary t))]"

definition policy_json :: "policy \<Rightarrow> json" where
  "policy_json p = JObj
     [(''schema'', JInt (po_schema p)), (''scope'', policy_scope_json (po_scope p)), (''revision'', JStr (po_revision p)),
      (''capacity'', JBool (po_capacity p)), (''cybersecurity'', JBool (po_cyber p)),
      (''threads'', JArr (map thread_policy_json (po_threads p)))]"

definition boundedIdentity :: "string \<Rightarrow> bool" where
  "boundedIdentity v \<longleftrightarrow> v \<noteq> [] \<and> length v \<le> 4096"

definition oneOf :: "string \<Rightarrow> string list \<Rightarrow> bool" where
  "oneOf v allowed \<longleftrightarrow> list_ex (\<lambda>x. v = x) allowed"

definition Thread :: "string \<Rightarrow> policy \<Rightarrow> thread_policy option" where
  "Thread t p = List.find (\<lambda>e. tp_thread e = t) (po_threads p)"

text \<open>Writing through the pointer \<open>Thread\<close> returns: the first entry of the thread changes.\<close>

fun update_thread :: "string \<Rightarrow> (thread_policy \<Rightarrow> thread_policy) \<Rightarrow> thread_policy list \<Rightarrow> thread_policy list" where
  "update_thread t f [] = []"
| "update_thread t f (e # es) = (if tp_thread e = t then f e # es else e # update_thread t f es)"

definition EqualChoices :: "policy \<Rightarrow> bool \<Rightarrow> bool \<Rightarrow> bool" where
  "EqualChoices p capacity cyber \<longleftrightarrow> po_capacity p = capacity \<and> po_cyber p = cyber"

subsection \<open>Validation\<close>

fun stops_ok :: "string list \<Rightarrow> suppression list \<Rightarrow> bool" where
  "stops_ok known [] = True"
| "stops_ok known (v # vs) =
     (boundedIdentity (su_chain v) \<and> su_chain v \<notin> set known \<and> length (su_result v) \<le> 4096 \<and>
      (su_pending v = [] \<or> attemptID (su_pending v)) \<and> stops_ok (su_chain v # known) vs)"

definition json_int_ok :: "int option \<Rightarrow> bool" where
  "json_int_ok n \<longleftrightarrow> (case n of None \<Rightarrow> True | Some k \<Rightarrow> 0 \<le> k \<and> k \<le> maxJSONInteger)"

definition summary_phases :: "string list" where
  "summary_phases = [''scheduled'', ''submitting'', ''reconciling'', ''running'', ''terminal'']"

definition qualities :: "string list" where
  "qualities = [''exact'', ''partial'', ''unavailable'']"

definition outcomes :: "string list" where
  "outcomes = [[], ''success'', ''stopped'', ''exhausted'', ''superseded'', ''blocked'']"

definition summary_ok :: "summary \<Rightarrow> bool" where
  "summary_ok v \<longleftrightarrow>
     boundedIdentity (su_chain_of v) \<and> (su_class v = ''capacity'' \<or> su_class v = ''cybersecurity'') \<and>
     length (su_reason v) \<le> 128 \<and> (su_last v = [] \<or> attemptID (su_last v)) \<and>
     (su_pending_id v = [] \<or> attemptID (su_pending_id v)) \<and>
     oneOf (su_phase v) summary_phases \<and> oneOf (su_count_quality v) qualities \<and>
     oneOf (su_timing_quality v) qualities \<and> oneOf (su_outcome v) outcomes \<and>
     json_int_ok (su_confirmed v) \<and> json_int_ok (su_started v) \<and> json_int_ok (su_finished v) \<and>
     (su_count_quality v = ''unavailable'' \<longleftrightarrow> su_confirmed v = None) \<and>
     (su_timing_quality v = ''unavailable'' \<longleftrightarrow> su_started v = None) \<and>
     (case (su_finished v, su_started v) of (Some f, Some b) \<Rightarrow> b \<le> f | _ \<Rightarrow> True)"

definition enrollment_ok :: "enrollment \<Rightarrow> bool" where
  "enrollment_ok e \<longleftrightarrow> length (en_turn e) \<le> 4096 \<and> (en_active e \<longrightarrow> en_turn e \<noteq> [])"

fun threads_ok :: "string list \<Rightarrow> thread_policy list \<Rightarrow> bool" where
  "threads_ok seen [] = True"
| "threads_ok seen (t # ts) =
     (boundedIdentity (tp_thread t) \<and> tp_thread t \<notin> set seen \<and> length (tp_suppressed t) \<le> 2 \<and>
      enrollment_ok (tp_capacity t) \<and> enrollment_ok (tp_cyber t) \<and> stops_ok [] (tp_suppressed t) \<and>
      (case tp_summary t of None \<Rightarrow> True | Some v \<Rightarrow> summary_ok v) \<and> threads_ok (tp_thread t # seen) ts)"

text \<open>As for the ledger, a nil slice is refused where the decoder reports it.\<close>

definition validatePolicy :: "policy_scope \<Rightarrow> policy \<Rightarrow> error option" where
  "validatePolicy c p =
     (if po_schema p \<noteq> PolicySchema \<or> po_scope p \<noteq> c \<or> \<not> attemptID (po_revision p) \<or>
         MaxPolicyThreads < length (po_threads p) \<or> \<not> threads_ok [] (po_threads p)
      then Some ErrPolicyUnavailable else None)"

subsection \<open>Reading\<close>

record policy_store =
  pst_root :: string
  pst_workspace :: string

definition PolicyStore_directory :: "'p codec \<Rightarrow> policy_store \<Rightarrow> string" where
  "PolicyStore_directory cx st = Join [pst_root st, ''turn-retry-policy'', cx_sha256 cx (pst_workspace st)]"

definition PolicyStore_path :: "'p codec \<Rightarrow> policy_store \<Rightarrow> policy_scope \<Rightarrow> string" where
  "PolicyStore_path cx st c = Join [PolicyStore_directory cx st, ps_slug c @ ''.json'']"

definition PolicyStore_validScope :: "policy_store \<Rightarrow> policy_scope \<Rightarrow> bool" where
  "PolicyStore_validScope st c \<longleftrightarrow>
     IsAbs (pst_root st) \<and> IsAbs (pst_workspace st) \<and> ps_workspace c = pst_workspace st \<and>
     boundedIdentity (ps_slug c) \<and> ps_slug c \<noteq> ''.'' \<and> ps_slug c \<noteq> ''..'' \<and>
     \<not> ContainsAny (ps_slug c) [CHR ''/'', CHR 0x5C] \<and> boundedIdentity (ps_root c) \<and> boundedIdentity (ps_incarnation c)"

text \<open>\<open>fields\<close> of each thread entry: per class, the raw baseline fields (\<open>None\<close>: not an object).\<close>

type_synonym raw_entries = "(string \<times> (string \<times> string) list option) list list option"

definition raw_bool :: "(string \<times> string) list \<Rightarrow> string \<Rightarrow> bool" where
  "raw_bool fs k \<longleftrightarrow> map_of fs k = Some ''true'' \<or> map_of fs k = Some ''false''"

definition baseline_explicit :: "(string \<times> (string \<times> string) list option) list \<Rightarrow> string \<Rightarrow> bool" where
  "baseline_explicit entry cls =
     (case map_of entry cls of
        Some (Some b) \<Rightarrow> map_of b ''turn'' \<noteq> None \<and> map_of b ''turn'' \<noteq> Some ''null'' \<and> raw_bool b ''active''
      | _ \<Rightarrow> False)"

definition PolicyStore_Load ::
  "policy_store \<Rightarrow> policy_scope \<Rightarrow> policy file_view \<Rightarrow> raw_entries \<Rightarrow> error + policy" where
  "PolicyStore_Load st c f entries =
     (if \<not> PolicyStore_validScope st c then Inl ErrPolicyUnavailable
      else case fv_open f of
        Some e \<Rightarrow> Inl e
      | None \<Rightarrow>
          if fv_stat f \<noteq> None \<or> fv_fstat f \<noteq> None \<or> \<not> fv_regular f \<or> fv_perm f \<noteq> perm_0600 \<or> \<not> fv_owned f \<or>
             int MaxPolicyBytes < fv_size f then Inl ErrPolicyUnavailable
          else case (fv_read f, fv_yaml f, fv_decode f, fv_fields f, entries) of
              (Inr bytes, Inr syntax, Inr p, Inr raws, Some es) \<Rightarrow>
                if MaxPolicyBytes < length bytes \<or> uniqueKeys syntax \<noteq> None \<or> fv_trailing f \<or>
                   \<not> raw_bool raws ''capacity'' \<or> \<not> raw_bool raws ''cybersecurity'' \<or>
                   \<not> list_all (\<lambda>e. baseline_explicit e ''capacity'' \<and> baseline_explicit e ''cybersecurity'') es \<or>
                   fv_nil_slices f
                then Inl ErrPolicyUnavailable
                else (case validatePolicy c p of Some e \<Rightarrow> Inl e | None \<Rightarrow> Inr p)
            | _ \<Rightarrow> Inl ErrPolicyUnavailable)"

subsection \<open>Read, modify, write\<close>

text \<open>The context's end before or between the attempts to lock is a \<open>WouldBlock\<close> with its error.\<close>

record policy_io =
  pio_mkdir :: "error option list"
  pio_dirs_ok :: bool
  pio_openlock :: "error option"
  pio_lock_ok :: bool
  pio_flock :: "flock_attempt list"
  pio_view :: "policy file_view"
  pio_entries :: raw_entries
  pio_entropy :: entropy
  pio_ctx :: "error option"
  pio_replace :: replace_io

definition replacePolicy :: "replace_io \<Rightarrow> policy \<Rightarrow> policy option \<Rightarrow> error option \<times> policy option" where
  "replacePolicy io p disk = atomic_replace io p disk"

text \<open>The part of \<open>Update\<close> that runs under the lock.\<close>

definition update_locked ::
  "policy_store \<Rightarrow> policy_scope \<Rightarrow> bool \<Rightarrow> (policy \<Rightarrow> policy \<times> error option)
   \<Rightarrow> policy_io \<Rightarrow> policy option \<Rightarrow> (error + policy) \<times> policy option" where
  "update_locked st c create upd io disk =
     (let loaded = PolicyStore_Load st c (pio_view io) (pio_entries io);
          existed = (case loaded of Inr _ \<Rightarrow> True | Inl _ \<Rightarrow> False);
          start = (case loaded of
                     Inr p \<Rightarrow> Inr p
                   | Inl e \<Rightarrow>
                       if errors_is e ErrNotExist \<and> create
                       then (case NewID (pio_entropy io) of
                               Inl x \<Rightarrow> Inl x
                             | Inr fresh \<Rightarrow> Inr \<lparr>po_schema = PolicySchema, po_scope = c, po_revision = fresh, po_capacity = True,
                                              po_cyber = True, po_threads = []\<rparr>)
                       else Inl e)
      in case start of
           Inl e \<Rightarrow> (Inl e, disk)
         | Inr p0 \<Rightarrow>
             (case upd p0 of
                (_, Some e) \<Rightarrow> (Inl e, disk)
              | (p, None) \<Rightarrow>
                  (case validatePolicy c p of
                     Some e \<Rightarrow> (Inl e, disk)
                   | None \<Rightarrow>
                       if MaxPolicyBytes < json_len (policy_json p) + 1
                       then (Inl (ErrWrap ''size bound'' ErrPolicyUnavailable), disk)
                       else if existed \<and> json_enc (policy_json p0) = json_enc (policy_json p) then (Inr p, disk)
                       else (case pio_ctx io of
                               Some e \<Rightarrow> (Inl e, disk)
                             | None \<Rightarrow> (case replacePolicy (pio_replace io) p disk of
                                          (Some e, d) \<Rightarrow> (Inl e, d)
                                        | (None, d) \<Rightarrow> (Inr p, d))))))"

definition Update ::
  "policy_store \<Rightarrow> policy_scope \<Rightarrow> bool \<Rightarrow> (policy \<Rightarrow> policy \<times> error option)
   \<Rightarrow> policy_io \<Rightarrow> policy option \<Rightarrow> ((error + policy) \<times> policy option) option" where
  "Update st c create upd io disk =
     (if \<not> PolicyStore_validScope st c then Some (Inl ErrPolicyUnavailable, disk)
      else case first_error (pio_mkdir io) of
        Some e \<Rightarrow> Some (Inl e, disk)
      | None \<Rightarrow>
          if \<not> pio_dirs_ok io then Some (Inl ErrPolicyUnavailable, disk)
          else case pio_openlock io of
            Some e \<Rightarrow> Some (Inl e, disk)
          | None \<Rightarrow>
              if \<not> pio_lock_ok io then Some (Inl ErrPolicyUnavailable, disk)
              else case flock_wait (pio_flock io) of
                None \<Rightarrow> None
              | Some (Some e) \<Rightarrow> Some (Inl e, disk)
              | Some None \<Rightarrow> Some (update_locked st c create upd io disk))"


subsection \<open>Deciding under the saved policy\<close>

definition scope_matches :: "policy_scope \<Rightarrow> 'p rstate \<Rightarrow> bool" where
  "scope_matches c s \<longleftrightarrow> sc_workspace (s_scope s) = ps_workspace c \<and> sc_slug (s_scope s) = ps_slug c \<and>
     sc_root (s_scope s) = ps_root c \<and> s_boundary s = ps_incarnation c"

definition enroll_thread :: "'p rstate \<Rightarrow> policy \<Rightarrow> policy \<times> error option" where
  "enroll_thread s p =
     (if Thread (sc_thread (s_scope s)) p \<noteq> None then (p, None)
      else if MaxPolicyThreads \<le> length (po_threads p) then (p, Some ErrPolicyUnavailable)
      else
        (let baseline = \<lparr>en_turn = s_baseline s, en_active = s_baseline_active s\<rparr> in
         (p\<lparr>po_threads := po_threads p @ [\<lparr>tp_thread = sc_thread (s_scope s), tp_capacity = baseline,
              tp_cyber = baseline, tp_suppressed = [], tp_summary = None\<rparr>]\<rparr>, None)))"

definition decision_of :: "policy \<Rightarrow> thread_policy \<Rightarrow> decision" where
  "decision_of p e = \<lparr>d_revision = po_revision p, d_capacity = po_capacity p, d_cyber = po_cyber p,
     d_capacity_base = tp_capacity e, d_cyber_base = tp_cyber e, d_suppressed = tp_suppressed e\<rparr>"

definition Decide ::
  "policy_store \<Rightarrow> policy_scope \<Rightarrow> policy file_view \<times> raw_entries \<Rightarrow> policy_io \<Rightarrow> 'p rstate \<Rightarrow> policy option
   \<Rightarrow> ((error + decision) \<times> policy option) option" where
  "Decide st c view io s disk =
     (if \<not> scope_matches c s then Some (Inl ErrPolicyUnavailable, disk)
      else case PolicyStore_Load st c (fst view) (snd view) of
        Inl e \<Rightarrow> Some (Inl e, disk)
      | Inr p \<Rightarrow> (case Thread (sc_thread (s_scope s)) p of
          Some e \<Rightarrow> Some (Inr (decision_of p e), disk)
        | None \<Rightarrow>
            if \<not> s_enrolled s then Some (Inl ErrPolicyUnavailable, disk)
            else case Update st c False (enroll_thread s) io disk of
                None \<Rightarrow> None
              | Some (Inl e, d) \<Rightarrow> Some (Inl e, d)
              | Some (Inr q, d) \<Rightarrow> (case Thread (sc_thread (s_scope s)) q of
                    Some e \<Rightarrow> Some (Inr (decision_of q e), d)
                  | None \<Rightarrow> Some (Inl ErrPolicyUnavailable, d))))"

subsection \<open>Changing the saved choices\<close>

record 'p policy_thread =
  pt_state :: "'p rstate"
  pt_before :: observation
  pt_after :: observation

text \<open>The first loop of \<open>PreparePolicy\<close>: refuse an unstable or foreign observation; a bootstrap
  inherits an opt-out.\<close>

definition observation_ok :: "observation \<Rightarrow> bool" where
  "observation_ok ob \<longleftrightarrow> \<not> (o_turn ob = [] \<and> o_status ob \<noteq> [] \<or>
     o_turn ob \<noteq> [] \<and> \<not> oneOf (o_status ob) [''inProgress'', ''completed'', ''failed'', ''interrupted''])"

fun check_threads :: "policy \<Rightarrow> bool \<Rightarrow> string list \<Rightarrow> 'p policy_thread list \<Rightarrow> bool \<times> bool \<Rightarrow> (bool \<times> bool) option" where
  "check_threads p bootstrap seen [] choice = Some choice"
| "check_threads p bootstrap seen (v # vs) choice =
     (let s = pt_state v in
      if \<not> observation_ok (pt_after v) \<or> pt_before v \<noteq> pt_after v \<or> sc_root (s_scope s) \<noteq> ps_root (po_scope p) \<or>
         sc_slug (s_scope s) \<noteq> ps_slug (po_scope p) \<or> sc_workspace (s_scope s) \<noteq> ps_workspace (po_scope p) \<or>
         sc_thread (s_scope s) \<in> set seen \<or> s_boundary s \<noteq> [] \<and> s_boundary s \<noteq> ps_incarnation (po_scope p)
      then None
      else check_threads p bootstrap (sc_thread (s_scope s) # seen) vs
             (if bootstrap \<and> \<not> s_enabled s then (False, False) else choice))"

definition chosen :: "string \<Rightarrow> bool \<Rightarrow> bool \<Rightarrow> bool" where
  "chosen cls capacity cyber \<longleftrightarrow> cls = ''capacity'' \<and> capacity \<or> cls = ''cybersecurity'' \<and> cyber"

definition unchosen :: "string \<Rightarrow> bool \<Rightarrow> bool \<Rightarrow> bool" where
  "unchosen cls capacity cyber \<longleftrightarrow> cls = ''capacity'' \<and> \<not> capacity \<or> cls = ''cybersecurity'' \<and> \<not> cyber"

definition suppress_chain :: "'p rstate \<Rightarrow> 'p pending \<Rightarrow> suppression list \<Rightarrow> suppression list \<times> error option" where
  "suppress_chain s q old =
     (let kept = filter (\<lambda>v. su_chain v = s_chain s \<or> su_pending v = pd_id q) old;
          stop = \<lparr>su_chain = s_chain s, su_pending = pd_id q, su_result = pd_result q\<rparr>
      in if list_ex (\<lambda>v. su_chain v = su_chain stop) kept
         then (map (\<lambda>v. if su_chain v = su_chain stop then stop else v) kept, None)
         else if 2 \<le> length kept then (kept, Some ErrPolicyUnavailable)
         else (kept @ [stop], None))"

text \<open>One iteration of the second loop, on the thread's entry.\<close>

definition prepare_entry ::
  "bool \<Rightarrow> bool \<times> bool \<Rightarrow> bool \<times> bool \<Rightarrow> 'p policy_thread \<Rightarrow> thread_policy \<Rightarrow> thread_policy \<times> error option" where
  "prepare_entry bootstrap old new v e =
     (let s = pt_state v; capacity = fst new; cyber = snd new;
          baseline = \<lparr>en_turn = o_turn (pt_after v), en_active = (o_status (pt_after v) = ''inProgress'')\<rparr>;
          owned = \<lparr>en_turn = s_baseline s, en_active = s_baseline_active s\<rparr>;
          e1 = (if bootstrap \<or> fst old \<noteq> capacity then e\<lparr>tp_capacity := baseline\<rparr> else e);
          e2 = (if bootstrap \<or> snd old \<noteq> cyber then e1\<lparr>tp_cyber := baseline\<rparr> else e1);
          e3 = (if bootstrap \<and> s_chain s \<noteq> [] \<and> s_pending s \<noteq> None \<and> \<not> s_cancelled s \<and> chosen (s_class s) capacity cyber
                then (if s_class s = ''capacity'' then e2\<lparr>tp_capacity := owned\<rparr> else e2\<lparr>tp_cyber := owned\<rparr>) else e2)
      in case s_pending s of
           Some q \<Rightarrow>
             if s_chain s \<noteq> [] \<and> unchosen (s_class s) capacity cyber
             then (case suppress_chain s q (tp_suppressed e3) of (vs, err) \<Rightarrow> (e3\<lparr>tp_suppressed := vs\<rparr>, err))
             else (e3, None)
         | None \<Rightarrow> (e3, None))"

fun prepare_threads ::
  "bool \<Rightarrow> bool \<times> bool \<Rightarrow> bool \<times> bool \<Rightarrow> 'p policy_thread list \<Rightarrow> policy \<Rightarrow> policy \<times> error option" where
  "prepare_threads bootstrap old new [] p = (p, None)"
| "prepare_threads bootstrap old new (v # vs) p =
     (let t = sc_thread (s_scope (pt_state v));
          empty = \<lparr>tp_thread = t, tp_capacity = \<lparr>en_turn = [], en_active = False\<rparr>,
                   tp_cyber = \<lparr>en_turn = [], en_active = False\<rparr>, tp_suppressed = [], tp_summary = None\<rparr>
      in if Thread t p = None \<and> MaxPolicyThreads \<le> length (po_threads p) then (p, Some ErrPolicyUnavailable)
         else
           (let p1 = (if Thread t p = None then p\<lparr>po_threads := po_threads p @ [empty]\<rparr> else p);
                (e, err) = prepare_entry bootstrap old new v (the (Thread t p1));
                p2 = p1\<lparr>po_threads := update_thread t (\<lambda>_. e) (po_threads p1)\<rparr>
            in case err of Some x \<Rightarrow> (p2, Some x) | None \<Rightarrow> prepare_threads bootstrap old new vs p2))"

definition PreparePolicy ::
  "'p policy_thread list \<Rightarrow> bool \<Rightarrow> bool \<Rightarrow> string \<Rightarrow> bool \<Rightarrow> entropy \<Rightarrow> policy \<Rightarrow> policy \<times> error option" where
  "PreparePolicy threads capacity0 cyber0 revision bootstrap ent p =
     (if threads = [] \<or> MaxPolicyThreads < length threads then (p, Some ErrPolicyUnavailable)
      else case check_threads p bootstrap [] threads (capacity0, cyber0) of
        None \<Rightarrow> (p, Some ErrPolicyUnavailable)
      | Some (capacity, cyber) \<Rightarrow>
          if \<not> bootstrap \<and> EqualChoices p capacity cyber then (p, None)
          else if \<not> bootstrap \<and> po_revision p \<noteq> revision then (p, Some ErrPolicyStale)
          else (case prepare_threads bootstrap (po_capacity p, po_cyber p) (capacity, cyber) threads p of
                  (p1, Some e) \<Rightarrow> (p1, Some e)
                | (p1, None) \<Rightarrow>
                    if bootstrap then (p1\<lparr>po_capacity := capacity, po_cyber := cyber\<rparr>, None)
                    else (case NewID ent of
                            Inl e \<Rightarrow> (p1, Some e)
                          | Inr fresh \<Rightarrow> (p1\<lparr>po_revision := fresh, po_capacity := capacity, po_cyber := cyber\<rparr>, None))))"

subsection \<open>Checkpoints of a chain's summary\<close>

definition answer_suppressed :: "'p rstate \<Rightarrow> thread_policy \<Rightarrow> thread_policy" where
  "answer_suppressed s e =
     (case s_pending s of
        Some q \<Rightarrow>
          if pd_result q \<noteq> []
          then e\<lparr>tp_suppressed := map (\<lambda>v. if su_chain v = s_chain s \<and> su_pending v = pd_id q
                                            then v\<lparr>su_result := pd_result q\<rparr> else v) (tp_suppressed e)\<rparr>
          else e
      | None \<Rightarrow> e)"

definition new_summary :: "'p rstate \<Rightarrow> millis \<Rightarrow> bool \<Rightarrow> summary" where
  "new_summary s now fresh =
     (let v = \<lparr>su_chain_of = s_chain s, su_class = s_class s, su_phase = [], su_outcome = [], su_reason = [],
               su_confirmed = None, su_count_quality = ''unavailable'', su_started = None, su_finished = None,
               su_timing_quality = ''unavailable'', su_last = [], su_pending_id = []\<rparr>
      in if fresh then v\<lparr>su_confirmed := Some 0, su_count_quality := ''exact'',
                         su_started := Some (max now (s_clock s)), su_timing_quality := ''exact''\<rparr>
         else v)"

text \<open>The count: an attempt lost between checkpoints makes it partial; a started attempt counts once.\<close>

definition mark_lost :: "'p rstate \<Rightarrow> summary \<Rightarrow> summary" where
  "mark_lost s v =
     (if su_pending_id v \<noteq> [] \<and> su_last v \<noteq> su_pending_id v \<and>
         (case s_pending s of None \<Rightarrow> True | Some q \<Rightarrow> pd_id q \<noteq> su_pending_id v) \<and> su_count_quality v = ''exact''
      then v\<lparr>su_count_quality := ''partial''\<rparr> else v)"

definition count_start :: "'p rstate \<Rightarrow> summary \<Rightarrow> error + summary" where
  "count_start s v =
     (case s_pending s of
        None \<Rightarrow> Inr v
      | Some q \<Rightarrow>
          (let v1 = v\<lparr>su_pending_id := pd_id q\<rparr> in
           if pd_result q \<noteq> [] \<and> su_last v1 \<noteq> pd_id q
           then (case su_confirmed v1 of
                   Some n \<Rightarrow> if maxJSONInteger \<le> n then Inl ErrPolicyUnavailable
                             else Inr (v1\<lparr>su_confirmed := Some (n + 1), su_last := pd_id q\<rparr>)
                 | None \<Rightarrow> Inr (v1\<lparr>su_confirmed := Some 1, su_count_quality := ''partial'', su_last := pd_id q\<rparr>))
           else Inr v1))"

definition phase_outcome :: "'p rstate \<Rightarrow> string \<times> string" where
  "phase_outcome s =
     (if s_phase s = ''cancelled'' then
        (''terminal'', if s_reason s = ''superseded'' \<or> s_reason s = ''manual_input'' \<or> s_reason s = ''activated'' \<or>
                          s_reason s = ''queue_started'' then ''superseded'' else ''stopped'')
      else if s_phase s = ''exhausted'' then (''terminal'', ''exhausted'')
      else if s_phase s = ''blocked'' then (''terminal'', ''blocked'')
      else if s_phase s = ''idle'' then (''terminal'', ''success'')
      else (s_phase s, []))"

definition observed_outcome :: "observation option \<Rightarrow> 'p rstate \<Rightarrow> string \<times> string \<Rightarrow> string \<times> string" where
  "observed_outcome ob s po =
     (case (ob, s_pending s) of
        (Some x, Some q) \<Rightarrow>
          if pd_result q = [] then po
          else if o_turn x = pd_result q \<and> o_status x \<noteq> ''inProgress'' \<and> o_status x \<noteq> ''failed''
          then (''terminal'', ''success'')
          else if o_turn x \<noteq> [] \<and> o_turn x \<noteq> pd_result q then (''terminal'', ''superseded'')
          else po
      | _ \<Rightarrow> po)"

definition settle_summary :: "observation option \<Rightarrow> millis \<Rightarrow> 'p rstate \<Rightarrow> summary \<Rightarrow> summary" where
  "settle_summary ob now s v =
     (let po = observed_outcome ob s (phase_outcome s);
          (ph, out) = (if s_cancelled s \<and> snd po = [] then (''terminal'', ''stopped'') else po);
          v1 = v\<lparr>su_phase := ph, su_outcome := out\<rparr>
      in if ph = ''terminal'' \<and> su_finished v1 = None then v1\<lparr>su_finished := Some (max now (s_clock s))\<rparr> else v1)"

definition checkpoint_entry ::
  "observation option \<Rightarrow> millis \<Rightarrow> bool \<Rightarrow> 'p rstate \<Rightarrow> thread_policy \<Rightarrow> thread_policy \<times> error option" where
  "checkpoint_entry ob now fresh s e0 =
     (let e = answer_suppressed s e0;
          adopt = (case tp_summary e of None \<Rightarrow> True | Some v \<Rightarrow> su_chain_of v \<noteq> s_chain s)
      in if adopt \<and> \<not> fresh \<and> (s_phase s = ''idle'' \<or> s_phase s = ''cancelled'') \<and> s_pending s = None then (e, None)
         else
           (let v = (if adopt then new_summary s now fresh else the (tp_summary e));
                v1 = mark_lost s (v\<lparr>su_class := s_class s, su_reason := s_reason s\<rparr>)
            in case count_start s v1 of
                 Inl x \<Rightarrow> (e\<lparr>tp_summary := Some v1\<rparr>, Some x)
               | Inr v2 \<Rightarrow> (e\<lparr>tp_summary := Some (settle_summary ob now s v2)\<rparr>, None)))"

definition checkpoint_policy ::
  "observation option \<Rightarrow> millis \<Rightarrow> bool \<Rightarrow> 'p rstate \<Rightarrow> policy \<Rightarrow> policy \<times> error option" where
  "checkpoint_policy ob now fresh s p =
     (case Thread (sc_thread (s_scope s)) p of
        None \<Rightarrow> (p, Some ErrPolicyUnavailable)
      | Some e \<Rightarrow>
          (case checkpoint_entry ob now fresh s e of
             (e1, err) \<Rightarrow> (p\<lparr>po_threads := update_thread (sc_thread (s_scope s)) (\<lambda>_. e1) (po_threads p)\<rparr>, err)))"

definition Checkpoint ::
  "policy_store \<Rightarrow> policy_scope \<Rightarrow> observation option \<Rightarrow> millis \<Rightarrow> bool \<Rightarrow> 'p rstate \<Rightarrow> policy_io \<Rightarrow> policy option
   \<Rightarrow> (error option \<times> policy option) option" where
  "Checkpoint st c ob now fresh s io disk =
     (if \<not> scope_matches c s then Some (Some ErrPolicyUnavailable, disk)
      else if s_chain s = [] \<or> s_class s = [] then Some (None, disk)
      else case Update st c False (checkpoint_policy ob now fresh s) io disk of
          None \<Rightarrow> None
        | Some (Inl e, d) \<Rightarrow> Some (Some e, d)
        | Some (Inr _, d) \<Rightarrow> Some (None, d))"

subsection \<open>Validity of the policy\<close>

definition entry_ok :: "thread_policy \<Rightarrow> bool" where
  "entry_ok t \<longleftrightarrow> boundedIdentity (tp_thread t) \<and> length (tp_suppressed t) \<le> 2 \<and>
      enrollment_ok (tp_capacity t) \<and> enrollment_ok (tp_cyber t) \<and> stops_ok [] (tp_suppressed t) \<and>
      (case tp_summary t of None \<Rightarrow> True | Some v \<Rightarrow> summary_ok v)"

lemma threads_ok_iff:
  "threads_ok seen ts \<longleftrightarrow>
     distinct (map tp_thread ts) \<and> set seen \<inter> tp_thread ` set ts = {} \<and> (\<forall>t \<in> set ts. entry_ok t)"
  by (induction ts arbitrary: seen) (auto simp: entry_ok_def)

definition stop_ok :: "suppression \<Rightarrow> bool" where
  "stop_ok v \<longleftrightarrow> boundedIdentity (su_chain v) \<and> length (su_result v) \<le> 4096 \<and> (su_pending v = [] \<or> attemptID (su_pending v))"

lemma stops_ok_iff:
  "stops_ok known vs \<longleftrightarrow>
     distinct (map su_chain vs) \<and> set known \<inter> su_chain ` set vs = {} \<and> (\<forall>v \<in> set vs. stop_ok v)"
  by (induction vs arbitrary: known) (auto simp: stop_ok_def)

lemma validatePolicy_iff:
  "validatePolicy c p = None \<longleftrightarrow>
     po_schema p = PolicySchema \<and> po_scope p = c \<and> attemptID (po_revision p) \<and>
     length (po_threads p) \<le> MaxPolicyThreads \<and> distinct (map tp_thread (po_threads p)) \<and>
     (\<forall>t \<in> set (po_threads p). entry_ok t)"
  by (auto simp: validatePolicy_def threads_ok_iff)

lemma update_thread_names: "(\<And>e. tp_thread (f e) = tp_thread e) \<Longrightarrow> map tp_thread (update_thread t f es) = map tp_thread es"
  by (induction es) auto

lemma update_thread_const_names:
  "tp_thread e = t \<Longrightarrow> map tp_thread (update_thread t (\<lambda>_. e) es) = map tp_thread es"
  by (induction es) auto

lemma update_thread_set: "set (update_thread t (\<lambda>_. e) es) \<subseteq> insert e (set es)"
  by (induction es) auto

lemma length_update_thread [simp]: "length (update_thread t f es) = length es"
  by (induction es) auto

lemma Thread_Some: "Thread t p = Some e \<Longrightarrow> e \<in> set (po_threads p) \<and> tp_thread e = t"
  unfolding Thread_def find_Some_iff by (metis nth_mem)

lemma Thread_None: "Thread t p = None \<longleftrightarrow> t \<notin> tp_thread ` set (po_threads p)"
  by (auto simp: Thread_def find_None_iff)

lemma find_update_thread:
  "tp_thread e = t \<Longrightarrow>
   List.find (\<lambda>x. tp_thread x = u) (update_thread t (\<lambda>_. e) es) =
     (if u = t \<and> t \<in> tp_thread ` set es then Some e else List.find (\<lambda>x. tp_thread x = u) es)"
  by (induction es) auto

lemma Thread_update:
  "tp_thread e = t \<Longrightarrow> Thread t p \<noteq> None \<Longrightarrow>
   Thread u (p\<lparr>po_threads := update_thread t (\<lambda>_. e) (po_threads p)\<rparr>) = (if u = t then Some e else Thread u p)"
  unfolding Thread_None by (simp add: Thread_def find_update_thread)

lemma policy_update_valid:
  assumes "validatePolicy c p = None" and "entry_ok e" and "tp_thread e = t"
  shows "validatePolicy c (p\<lparr>po_threads := update_thread t (\<lambda>_. e) (po_threads p)\<rparr>) = None"
  using assms update_thread_set [of t e "po_threads p"]
  by (auto simp: validatePolicy_iff update_thread_const_names)

text \<open>What a saved ledger and a native observation bound: the texts the policy copies.\<close>

definition thread_bounded :: "'p policy_thread \<Rightarrow> bool" where
  "thread_bounded v \<longleftrightarrow>
     boundedIdentity (sc_thread (s_scope (pt_state v))) \<and> length (o_turn (pt_after v)) \<le> 4096 \<and>
     length (s_baseline (pt_state v)) \<le> 4096 \<and> (s_baseline_active (pt_state v) \<longrightarrow> s_baseline (pt_state v) \<noteq> []) \<and>
     length (s_chain (pt_state v)) \<le> 4096 \<and>
     (\<forall>q. s_pending (pt_state v) = Some q \<longrightarrow> attemptID (pd_id q) \<and> length (pd_result q) \<le> 4096)"

lemma suppress_chain_ok:
  assumes "suppress_chain s q old = (vs, None)" and "stops_ok [] old" and "length old \<le> 2"
    and "s_chain s \<noteq> []" "length (s_chain s) \<le> 4096" "attemptID (pd_id q)" "length (pd_result q) \<le> 4096"
  shows "stops_ok [] vs \<and> length vs \<le> 2 \<and>
         (\<exists>v \<in> set vs. su_chain v = s_chain s \<and> su_pending v = pd_id q \<and> su_result v = pd_result q)"
proof -
  let ?kept = "filter (\<lambda>v. su_chain v = s_chain s \<or> su_pending v = pd_id q) old"
  let ?stop = "\<lparr>su_chain = s_chain s, su_pending = pd_id q, su_result = pd_result q\<rparr>"
  have kept: "stops_ok [] ?kept" "length ?kept \<le> 2"
    using assms(2,3) le_trans [OF length_filter_le] by (auto simp: stops_ok_iff distinct_map_filter)
  have stop: "stop_ok ?stop" using assms by (simp add: stop_ok_def boundedIdentity_def)
  show ?thesis
  proof (cases "list_ex (\<lambda>v. su_chain v = s_chain s) ?kept")
    case True
    with assms(1) have vs: "vs = map (\<lambda>v. if su_chain v = s_chain s then ?stop else v) ?kept"
      by (simp add: suppress_chain_def Let_def)
    have "map su_chain vs = map su_chain ?kept" unfolding vs by (simp add: comp_def)
    with kept(1) have "distinct (map su_chain vs)" by (simp add: stops_ok_iff)
    moreover have "\<forall>v \<in> set vs. stop_ok v" using kept(1) stop by (auto simp: vs stops_ok_iff)
    ultimately have "stops_ok [] vs" by (simp add: stops_ok_iff)
    moreover from True have "?stop \<in> set vs" by (force simp: vs list_ex_iff)
    ultimately show ?thesis using kept(2) by (intro conjI bexI [of _ ?stop]) (simp_all add: vs)
  next
    case False
    with assms(1) have vs: "vs = ?kept @ [?stop]" and len: "length ?kept < 2"
      by (auto simp: suppress_chain_def Let_def split: if_splits)
    from False kept(1) stop have "stops_ok [] vs" unfolding vs stops_ok_iff by (auto simp: list_ex_iff)
    then show ?thesis using len by (simp add: vs)
  qed
qed

lemma prepare_entry_fields:
  "prepare_entry b old new v e = (e', err) \<Longrightarrow> tp_thread e' = tp_thread e \<and> tp_summary e' = tp_summary e"
  by (auto simp: prepare_entry_def Let_def split: option.splits if_splits prod.splits)

lemma observation_active: "observation_ok ob \<Longrightarrow> o_status ob = ''inProgress'' \<Longrightarrow> o_turn ob \<noteq> []"
  by (auto simp: observation_ok_def)

lemma prepare_entry_ok:
  assumes r: "prepare_entry b old new v e = (e', None)" and e: "entry_ok e" and b: "thread_bounded v"
    and ob: "observation_ok (pt_after v)"
  shows "entry_ok e'"
proof -
  let ?s = "pt_state v"
  let ?base = "\<lparr>en_turn = o_turn (pt_after v), en_active = (o_status (pt_after v) = ''inProgress'')\<rparr>"
  let ?own = "\<lparr>en_turn = s_baseline ?s, en_active = s_baseline_active ?s\<rparr>"
  have base: "enrollment_ok ?base" and own: "enrollment_ok ?own"
    using b observation_active [OF ob] by (auto simp: enrollment_ok_def thread_bounded_def)
  from r have enr: "tp_capacity e' \<in> {tp_capacity e, ?base, ?own}" "tp_cyber e' \<in> {tp_cyber e, ?base, ?own}"
    by (auto simp: prepare_entry_def Let_def split: option.splits if_splits prod.splits)
  have "tp_suppressed e' = tp_suppressed e \<or>
      (\<exists>q. s_pending ?s = Some q \<and> s_chain ?s \<noteq> [] \<and> suppress_chain ?s q (tp_suppressed e) = (tp_suppressed e', None))"
    using r by (auto simp: prepare_entry_def Let_def split: option.splits if_splits prod.splits)
  then have "stops_ok [] (tp_suppressed e') \<and> length (tp_suppressed e') \<le> 2"
    using e b suppress_chain_ok [of ?s _ "tp_suppressed e" "tp_suppressed e'"]
    by (auto simp: entry_ok_def thread_bounded_def)
  with enr base own e prepare_entry_fields [OF r] show ?thesis by (auto simp: entry_ok_def)
qed


lemma find_append: "List.find P (xs @ ys) = (case List.find P xs of None \<Rightarrow> List.find P ys | Some x \<Rightarrow> Some x)"
  by (induction xs) auto

text \<open>The entry one iteration works on, and the policy it leaves.\<close>

lemma prepare_threads_step:
  assumes "prepare_threads b old new (v # vs) p = (p', None)"
  obtains e0 e1 p1 where "Thread (sc_thread (s_scope (pt_state v))) p1 = Some e0"
    "p1 = p \<or> Thread (sc_thread (s_scope (pt_state v))) p = None \<and> length (po_threads p) < MaxPolicyThreads \<and>
       p1 = p\<lparr>po_threads := po_threads p @ [e0]\<rparr> \<and> tp_suppressed e0 = [] \<and> tp_summary e0 = None \<and>
       tp_capacity e0 = \<lparr>en_turn = [], en_active = False\<rparr> \<and> tp_cyber e0 = \<lparr>en_turn = [], en_active = False\<rparr>"
    "tp_thread e0 = sc_thread (s_scope (pt_state v))"
    "prepare_entry b old new v e0 = (e1, None)"
    "prepare_threads b old new vs (p1\<lparr>po_threads := update_thread (sc_thread (s_scope (pt_state v))) (\<lambda>_. e1) (po_threads p1)\<rparr>) = (p', None)"
proof -
  let ?t = "sc_thread (s_scope (pt_state v))"
  let ?empty = "\<lparr>tp_thread = ?t, tp_capacity = \<lparr>en_turn = [], en_active = False\<rparr>,
                   tp_cyber = \<lparr>en_turn = [], en_active = False\<rparr>, tp_suppressed = [], tp_summary = None\<rparr>"
  let ?p1 = "if Thread ?t p = None then p\<lparr>po_threads := po_threads p @ [?empty]\<rparr> else p"
  have found: "Thread ?t ?p1 = Some (if Thread ?t p = None then ?empty else the (Thread ?t p))"
    by (auto simp: Thread_def find_append split: option.splits)
  obtain e1 err where e1: "prepare_entry b old new v (the (Thread ?t ?p1)) = (e1, err)" by fastforce
  from assms e1 have "\<not> (Thread ?t p = None \<and> MaxPolicyThreads \<le> length (po_threads p))" and "err = None"
    and rest: "prepare_threads b old new vs (?p1\<lparr>po_threads := update_thread ?t (\<lambda>_. e1) (po_threads ?p1)\<rparr>) = (p', None)"
    by (auto simp: Let_def split: if_splits option.splits)
  then show thesis
    using that [of ?p1 "the (Thread ?t ?p1)" e1] found e1 Thread_Some [of ?t p]
    by (cases "Thread ?t p") auto
qed

lemma prepare_threads_valid:
  assumes "prepare_threads b old new vs p = (p', None)" and "validatePolicy c p = None"
    and "\<forall>v \<in> set vs. thread_bounded v \<and> observation_ok (pt_after v)"
  shows "validatePolicy c p' = None"
  using assms
proof (induction vs arbitrary: p)
  case Nil
  then show ?case by simp
next
  case (Cons v vs)
  from prepare_threads_step [OF Cons.prems(1)] obtain e0 e1 p1 where
    t: "Thread (sc_thread (s_scope (pt_state v))) p1 = Some e0" and
    p1: "p1 = p \<or> Thread (sc_thread (s_scope (pt_state v))) p = None \<and> length (po_threads p) < MaxPolicyThreads \<and>
       p1 = p\<lparr>po_threads := po_threads p @ [e0]\<rparr> \<and> tp_suppressed e0 = [] \<and> tp_summary e0 = None \<and>
       tp_capacity e0 = \<lparr>en_turn = [], en_active = False\<rparr> \<and> tp_cyber e0 = \<lparr>en_turn = [], en_active = False\<rparr>" and
    e0: "tp_thread e0 = sc_thread (s_scope (pt_state v))" and
    e1: "prepare_entry b old new v e0 = (e1, None)" and
    rest: "prepare_threads b old new vs (p1\<lparr>po_threads := update_thread (sc_thread (s_scope (pt_state v))) (\<lambda>_. e1) (po_threads p1)\<rparr>) = (p', None)"
    by metis
  have v1: "validatePolicy c p1 = None"
    using p1 Cons.prems(2,3) e0
    by (auto simp: validatePolicy_iff Thread_None entry_ok_def enrollment_ok_def thread_bounded_def)
  then have "entry_ok e0" using Thread_Some [OF t] by (simp add: validatePolicy_iff)
  then have "entry_ok e1" using prepare_entry_ok [OF e1] Cons.prems(3) by simp
  moreover have "tp_thread e1 = sc_thread (s_scope (pt_state v))" using prepare_entry_fields [OF e1] e0 by simp
  ultimately show ?case using Cons.IH [OF rest] policy_update_valid [OF v1] Cons.prems(3) by simp
qed

lemma check_threads_observations:
  "check_threads p b seen vs ch = Some ch' \<Longrightarrow>
     (\<forall>v \<in> set vs. observation_ok (pt_after v)) \<and> distinct (map (\<lambda>v. sc_thread (s_scope (pt_state v))) vs) \<and>
     (\<forall>v \<in> set vs. sc_thread (s_scope (pt_state v)) \<notin> set seen)"
  by (induction vs arbitrary: seen ch) (fastforce simp: Let_def split: if_splits)+

lemma check_threads_choice: "check_threads p False seen vs ch = Some ch' \<Longrightarrow> ch' = ch"
  by (induction vs arbitrary: seen) (auto simp: Let_def split: if_splits)

text \<open>A successful change of the saved choices, taken apart.\<close>

lemma PreparePolicy_cases:
  assumes "PreparePolicy threads cap cyb rv b ent p = (p', None)"
  obtains (unchanged) "p' = p" "\<not> b" "EqualChoices p cap cyb"
  | (changed) ch p1 rv' where "check_threads p b [] threads (cap, cyb) = Some ch"
      "prepare_threads b (po_capacity p, po_cyber p) ch threads p = (p1, None)"
      "p' = p1\<lparr>po_revision := rv', po_capacity := fst ch, po_cyber := snd ch\<rparr>"
      "if b then rv' = po_revision p1 else NewID ent = Inr rv'"
      "b \<or> \<not> EqualChoices p (fst ch) (snd ch) \<and> po_revision p = rv"
proof (cases "check_threads p b [] threads (cap, cyb)")
  case None
  with assms show thesis by (auto simp: PreparePolicy_def split: if_splits)
next
  case (Some ch)
  obtain p1 err where p1: "prepare_threads b (po_capacity p, po_cyber p) ch threads p = (p1, err)" by fastforce
  obtain capacity cyber where ch: "ch = (capacity, cyber)" by fastforce
  have nonempty: "\<not> (threads = [] \<or> MaxPolicyThreads < length threads)"
    using assms by (auto simp: PreparePolicy_def)
  show thesis
  proof (cases "b \<or> \<not> EqualChoices p capacity cyber")
    case False
    with assms nonempty Some ch show thesis
      by (intro unchanged) (auto simp: PreparePolicy_def dest: check_threads_choice)
  next
    case True
    with assms nonempty Some ch p1 have stale: "b \<or> po_revision p = rv" and err: "err = None"
      by (auto simp: PreparePolicy_def split: if_splits option.splits)
    show thesis
    proof (cases b)
      case True
      with assms nonempty Some ch p1 err have "p' = p1\<lparr>po_capacity := capacity, po_cyber := cyber\<rparr>"
        by (simp add: PreparePolicy_def)
      with True show thesis by (intro changed [OF Some p1 [unfolded err], of "po_revision p1"]) (simp_all add: ch)
    next
      case False
      with assms nonempty Some ch p1 err stale \<open>b \<or> \<not> EqualChoices p capacity cyber\<close> obtain rv' where
        "NewID ent = Inr rv'" "p' = p1\<lparr>po_revision := rv', po_capacity := capacity, po_cyber := cyber\<rparr>"
        by (auto simp: PreparePolicy_def split: sum.splits)
      with False stale \<open>b \<or> \<not> EqualChoices p capacity cyber\<close> show thesis
        by (intro changed [OF Some p1 [unfolded err], of rv']) (simp_all add: ch)
    qed
  qed
qed

text \<open>
  Changing or bootstrapping the saved choices keeps the policy record valid, when the turns, baselines, chains
  and results of the threads it is given are within the bounds of the record: at most 128 threads, each once,
  at most two suppressions per thread with distinct bounded chains, bounded baselines, a well-formed
  revision.
\<close>

lemma PreparePolicy_valid:
  assumes "PreparePolicy threads cap cyb rv b ent p = (p', None)" and "validatePolicy c p = None"
    and "\<forall>v \<in> set threads. thread_bounded v" and "entropy_ok ent"
  shows "validatePolicy c p' = None"
  using assms(1)
proof (cases rule: PreparePolicy_cases)
  case unchanged
  with assms(2) show ?thesis by simp
next
  case (changed ch p1 rv')
  have "validatePolicy c p1 = None"
    using changed(2) assms(2) by (rule prepare_threads_valid) (use assms(3) check_threads_observations [OF changed(1)] in blast)
  moreover have "attemptID rv'"
    using changed(4) calculation NewID_ok [OF assms(4)] by (auto simp: validatePolicy_iff split: if_splits)
  ultimately show ?thesis unfolding changed(3) by (simp add: validatePolicy_iff)
qed


subsection \<open>A stopped chain stays stopped\<close>

definition chain_stopped :: "string \<Rightarrow> string \<Rightarrow> policy \<Rightarrow> bool" where
  "chain_stopped t ch p \<longleftrightarrow> (\<exists>e. Thread t p = Some e \<and> (\<exists>v \<in> set (tp_suppressed e). su_chain v = ch))"

lemma suppress_chain_keeps:
  "suppress_chain s q old = (vs, None) \<Longrightarrow>
     (\<exists>v \<in> set vs. su_chain v = s_chain s)"
  by (auto simp: suppress_chain_def Let_def list_ex_iff bex_Un split: if_splits)

lemma prepare_entry_suppressed:
  assumes "prepare_entry b old new v e = (e', None)"
  shows "tp_suppressed e' = tp_suppressed e \<and>
           \<not> (s_pending (pt_state v) \<noteq> None \<and> s_chain (pt_state v) \<noteq> [] \<and> unchosen (s_class (pt_state v)) (fst new) (snd new)) \<or>
         (\<exists>x \<in> set (tp_suppressed e'). su_chain x = s_chain (pt_state v))"
  using assms suppress_chain_keeps [of "pt_state v"]
  by (auto simp: prepare_entry_def Let_def split: option.splits if_splits prod.splits)

lemma prepare_threads_keep:
  assumes "prepare_threads b old new vs p = (p', None)" and "chain_stopped t ch p"
    and "\<forall>v \<in> set vs. sc_thread (s_scope (pt_state v)) = t \<longrightarrow> s_chain (pt_state v) = ch"
  shows "chain_stopped t ch p'"
  using assms
proof (induction vs arbitrary: p)
  case Nil
  then show ?case by simp
next
  case (Cons v vs)
  let ?u = "sc_thread (s_scope (pt_state v))"
  from prepare_threads_step [OF Cons.prems(1)] obtain e0 e1 p1 where
    t: "Thread ?u p1 = Some e0" and
    p1: "p1 = p \<or> Thread ?u p = None \<and> p1 = p\<lparr>po_threads := po_threads p @ [e0]\<rparr>" and
    e0: "tp_thread e0 = ?u" and e1: "prepare_entry b old new v e0 = (e1, None)" and
    rest: "prepare_threads b old new vs (p1\<lparr>po_threads := update_thread ?u (\<lambda>_. e1) (po_threads p1)\<rparr>) = (p', None)"
    by metis
  have st1: "chain_stopped t ch p1"
    using p1 Cons.prems(2) by (auto simp: chain_stopped_def Thread_def find_append)
  have th: "Thread w (p1\<lparr>po_threads := update_thread ?u (\<lambda>_. e1) (po_threads p1)\<rparr>) = (if w = ?u then Some e1 else Thread w p1)" for w
    by (rule Thread_update) (use prepare_entry_fields [OF e1] e0 t in auto)
  have "chain_stopped t ch (p1\<lparr>po_threads := update_thread ?u (\<lambda>_. e1) (po_threads p1)\<rparr>)"
  proof (cases "t = ?u")
    case True
    with st1 t have old: "\<exists>x \<in> set (tp_suppressed e0). su_chain x = ch" by (simp add: chain_stopped_def)
    from True Cons.prems(3) have "s_chain (pt_state v) = ch" by simp
    with old prepare_entry_suppressed [OF e1] have "\<exists>x \<in> set (tp_suppressed e1). su_chain x = ch" by auto
    with True show ?thesis by (simp add: chain_stopped_def th)
  next
    case False
    with st1 show ?thesis by (simp add: chain_stopped_def th)
  qed
  from Cons.IH [OF rest this] Cons.prems(3) show ?case by simp
qed

lemma prepare_threads_stop:
  assumes "prepare_threads b old new vs p = (p', None)" and "v \<in> set vs"
    and "distinct (map (\<lambda>v. sc_thread (s_scope (pt_state v))) vs)"
    and "s_pending (pt_state v) \<noteq> None" "s_chain (pt_state v) \<noteq> []" "unchosen (s_class (pt_state v)) (fst new) (snd new)"
  shows "chain_stopped (sc_thread (s_scope (pt_state v))) (s_chain (pt_state v)) p'"
  using assms(1-3)
proof (induction vs arbitrary: p)
  case Nil
  then show ?case by simp
next
  case (Cons w ws)
  let ?u = "sc_thread (s_scope (pt_state w))"
  from prepare_threads_step [OF Cons.prems(1)] obtain e0 e1 p1 where
    t: "Thread ?u p1 = Some e0" and e0: "tp_thread e0 = ?u" and e1: "prepare_entry b old new w e0 = (e1, None)" and
    rest: "prepare_threads b old new ws (p1\<lparr>po_threads := update_thread ?u (\<lambda>_. e1) (po_threads p1)\<rparr>) = (p', None)"
    by metis
  show ?case
  proof (cases "v = w")
    case False
    with Cons show ?thesis using Cons.IH [OF rest] by auto
  next
    case True
    have "Thread ?u (p1\<lparr>po_threads := update_thread ?u (\<lambda>_. e1) (po_threads p1)\<rparr>) = Some e1"
      by (subst Thread_update) (use prepare_entry_fields [OF e1] e0 t in auto)
    moreover have "\<exists>x \<in> set (tp_suppressed e1). su_chain x = s_chain (pt_state v)"
      using prepare_entry_suppressed [OF e1] assms(4-6) True by auto
    ultimately have "chain_stopped ?u (s_chain (pt_state v)) (p1\<lparr>po_threads := update_thread ?u (\<lambda>_. e1) (po_threads p1)\<rparr>)"
      by (auto simp: chain_stopped_def)
    moreover have "\<forall>x \<in> set ws. sc_thread (s_scope (pt_state x)) \<noteq> ?u"
      using Cons.prems(3) by (auto simp: image_iff)
    ultimately have "chain_stopped ?u (s_chain (pt_state v)) p'"
      by (intro prepare_threads_keep [OF rest]) blast+
    with True show ?thesis by simp
  qed
qed

text \<open>
  A later change of the choices in which the thread, if it is inventoried at all, still carries the
  same chain.
\<close>

definition later_choice :: "'p rstate \<Rightarrow> policy \<Rightarrow> policy \<Rightarrow> bool" where
  "later_choice s p p' \<longleftrightarrow>
     (\<exists>threads cap cyb rv b ent. PreparePolicy threads cap cyb rv b ent p = (p', None) \<and>
        (\<forall>v \<in> set (threads :: 'p policy_thread list).
           sc_thread (s_scope (pt_state v)) = sc_thread (s_scope s) \<longrightarrow> s_chain (pt_state v) = s_chain s))"

lemma later_choice_stopped:
  assumes "later_choice s p p'" and "chain_stopped (sc_thread (s_scope s)) (s_chain s) p"
  shows "chain_stopped (sc_thread (s_scope s)) (s_chain s) p'"
proof -
  from assms(1) obtain threads cap cyb rv b ent where
    r: "PreparePolicy (threads :: 'a policy_thread list) cap cyb rv b ent p = (p', None)"
    and same: "\<forall>v \<in> set threads. sc_thread (s_scope (pt_state v)) = sc_thread (s_scope s) \<longrightarrow> s_chain (pt_state v) = s_chain s"
    by (auto simp: later_choice_def)
  from r show ?thesis
  proof (cases rule: PreparePolicy_cases)
    case unchanged
    with assms(2) show ?thesis by simp
  next
    case (changed ch p1 rv')
    from prepare_threads_keep [OF changed(2) assms(2) same]
    show ?thesis unfolding changed(3) by (simp add: chain_stopped_def Thread_def)
  qed
qed

text \<open>
  C4. Switching a class off stops the chain that is under way in it for good: whatever choices are
  saved afterwards, also switching the class on again, the decision read for that thread never
  allows the stopped chain to be sent.
\<close>

theorem stopped_chain_never_resumes:
  assumes "PreparePolicy threads cap cyb rv b ent p = (p1, None)" and "v \<in> set threads"
    and "b \<or> \<not> EqualChoices p cap cyb"
    and "s_pending (pt_state v) \<noteq> None" and "s_chain (pt_state v) \<noteq> []"
    and "unchosen (s_class (pt_state v)) (po_capacity p1) (po_cyber p1)"
    and "(later_choice (pt_state v))\<^sup>*\<^sup>* p1 p2" and "Thread (sc_thread (s_scope (pt_state v))) p2 = Some e"
  shows "\<not> Allows (decision_of p2 e) (pt_state v)"
proof -
  let ?s = "pt_state v"
  have "chain_stopped (sc_thread (s_scope ?s)) (s_chain ?s) p1"
    using assms(1)
  proof (cases rule: PreparePolicy_cases)
    case unchanged
    with assms(3) show ?thesis by simp
  next
    case (changed ch q rv')
    have "chain_stopped (sc_thread (s_scope ?s)) (s_chain ?s) q"
      by (rule prepare_threads_stop [OF changed(2) assms(2)])
         (use assms(4-6) changed(3) check_threads_observations [OF changed(1)] in auto)
    then show ?thesis unfolding changed(3) by (simp add: chain_stopped_def Thread_def)
  qed
  from assms(7) this have "chain_stopped (sc_thread (s_scope ?s)) (s_chain ?s) p2"
    by (induction rule: rtranclp_induct) (auto intro: later_choice_stopped)
  with assms(8) obtain x where "x \<in> set (tp_suppressed e)" "su_chain x = s_chain ?s"
    by (auto simp: chain_stopped_def)
  then show ?thesis by (auto simp: Allows_def decision_of_def list_ex_iff)
qed


definition sample_policy_scope :: policy_scope where
  "sample_policy_scope = \<lparr>ps_workspace = ''/w'', ps_slug = ''s'', ps_root = ''r'', ps_incarnation = ''i''\<rparr>"

definition sample_policy :: policy where
  "sample_policy = \<lparr>po_schema = 1, po_scope = sample_policy_scope, po_revision = sample_id, po_capacity = True,
     po_cyber = True, po_threads = []\<rparr>"

definition sample_owner :: "unit rstate" where
  "sample_owner = (New sample_scope)\<lparr>s_enrolled := True, s_boundary := ''i'', s_baseline := ''turn-0'', s_handled := ''turn-1'',
     s_chain := ''turn-1'', s_class := ''capacity'', s_phase := ''scheduled'', s_deadline := 1000, s_pending := Some sample_pending\<rparr>"

definition sample_thread :: "unit policy_thread" where
  "sample_thread = (let ob = \<lparr>o_turn = ''turn-1'', o_status = ''failed'', o_code = ''serverOverloaded''\<rparr> in
     \<lparr>pt_state = sample_owner, pt_before = ob, pt_after = ob\<rparr>)"

text \<open>Capacity is switched off, then on again, with the same failure still owned by the chain.\<close>

definition sample_entry :: thread_policy where
  "sample_entry = \<lparr>tp_thread = ''t'', tp_capacity = \<lparr>en_turn = ''turn-1'', en_active = False\<rparr>,
     tp_cyber = \<lparr>en_turn = [], en_active = False\<rparr>,
     tp_suppressed = [\<lparr>su_chain = ''turn-1'', su_pending = sample_id, su_result = []\<rparr>], tp_summary = None\<rparr>"

lemma sample_prepare_off:
  "PreparePolicy [sample_thread] False True sample_id False (Inr (replicate 16 0)) sample_policy =
     (sample_policy\<lparr>po_capacity := False, po_threads := [sample_entry]\<rparr>, None)"
  by code_simp

lemma sample_prepare_on:
  "PreparePolicy [sample_thread] True True sample_id False (Inr (replicate 16 0))
     (sample_policy\<lparr>po_capacity := False, po_threads := [sample_entry]\<rparr>) =
     (sample_policy\<lparr>po_threads := [sample_entry]\<rparr>, None)"
  by code_simp

theorem stopped_chain_never_resumes_witness:
  "Thread ''t'' (sample_policy\<lparr>po_threads := [sample_entry]\<rparr>) = Some sample_entry \<and>
   Enabled (decision_of (sample_policy\<lparr>po_threads := [sample_entry]\<rparr>) sample_entry) ''capacity'' \<and>
   \<not> Allows (decision_of (sample_policy\<lparr>po_threads := [sample_entry]\<rparr>) sample_entry) sample_owner"
proof -
  let ?p1 = "sample_policy\<lparr>po_capacity := False, po_threads := [sample_entry]\<rparr>"
  let ?p2 = "sample_policy\<lparr>po_threads := [sample_entry]\<rparr>"
  have s: "pt_state sample_thread = sample_owner" by (simp add: sample_thread_def Let_def)
  have th: "Thread (sc_thread (s_scope (pt_state sample_thread))) ?p2 = Some sample_entry" by code_simp
  have "later_choice (pt_state sample_thread) ?p1 ?p2"
    unfolding later_choice_def using sample_prepare_on by fastforce
  then have "\<not> Allows (decision_of ?p2 sample_entry) (pt_state sample_thread)"
    by (intro stopped_chain_never_resumes [OF sample_prepare_off, of sample_thread])
       (use th in \<open>auto simp: s sample_owner_def EqualChoices_def sample_policy_def unchosen_def\<close>)
  moreover have "Enabled (decision_of ?p2 sample_entry) ''capacity''" by code_simp
  ultimately show ?thesis using th by (simp add: s sample_owner_def New_def sample_scope_def)
qed


subsection \<open>Checkpoints\<close>

lemma answer_suppressed_idem [simp]: "answer_suppressed s (answer_suppressed s e) = answer_suppressed s e"
  by (auto simp: answer_suppressed_def split: option.splits)

lemma answer_suppressed_summary [simp]:
  "tp_summary (answer_suppressed s e) = tp_summary e" "tp_thread (answer_suppressed s e) = tp_thread e"
  "answer_suppressed s (e\<lparr>tp_summary := v\<rparr>) = (answer_suppressed s e)\<lparr>tp_summary := v\<rparr>"
  by (simp_all add: answer_suppressed_def split: option.splits)

lemma settle_summary_fields:
  "su_chain_of (settle_summary ob now s v) = su_chain_of v" "su_class (settle_summary ob now s v) = su_class v"
  "su_reason (settle_summary ob now s v) = su_reason v" "su_confirmed (settle_summary ob now s v) = su_confirmed v"
  "su_count_quality (settle_summary ob now s v) = su_count_quality v" "su_last (settle_summary ob now s v) = su_last v"
  "su_pending_id (settle_summary ob now s v) = su_pending_id v"
  by (simp_all add: settle_summary_def Let_def split: prod.split)

lemma settle_summary_idem: "settle_summary ob now' s (settle_summary ob now s v) = settle_summary ob now s v"
  by (auto simp: settle_summary_def Let_def split: prod.splits)

lemma count_start_fields:
  "count_start s v = Inr v2 \<Longrightarrow> su_chain_of v2 = su_chain_of v \<and> su_class v2 = su_class v \<and> su_reason v2 = su_reason v"
  by (auto simp: count_start_def Let_def split: option.splits if_splits)

lemma mark_lost_fields:
  "su_chain_of (mark_lost s v) = su_chain_of v" "su_class (mark_lost s v) = su_class v" "su_reason (mark_lost s v) = su_reason v"
  by (simp_all add: mark_lost_def)

text \<open>After the count, the summary names the state's attempt and has counted its start.\<close>

definition counted :: "'p rstate \<Rightarrow> summary \<Rightarrow> bool" where
  "counted s v \<longleftrightarrow>
     (case s_pending s of
        Some q \<Rightarrow> su_pending_id v = pd_id q \<and> (pd_result q \<noteq> [] \<longrightarrow> su_last v = pd_id q)
      | None \<Rightarrow> su_pending_id v = [] \<or> su_last v = su_pending_id v \<or> su_count_quality v \<noteq> ''exact'')"

lemma count_start_counted: "count_start s (mark_lost s v) = Inr v2 \<Longrightarrow> counted s v2"
  by (auto simp: count_start_def mark_lost_def counted_def Let_def split: option.splits if_splits)

lemma counted_stable: "counted s v \<Longrightarrow> mark_lost s v = v \<and> count_start s v = Inr v"
  by (auto simp: count_start_def mark_lost_def counted_def Let_def split: option.splits)

lemma counted_settle: "counted s v \<Longrightarrow> counted s (settle_summary ob now s v)"
  by (simp add: counted_def settle_summary_fields split: option.splits)

text \<open>
  C34. A checkpoint is idempotent: repeating it for the same ledger, at whatever time, changes
  nothing, so each accepted attempt is counted once and a chain's end is stamped once.
\<close>

theorem checkpoint_idempotent:
  "checkpoint_entry ob now fresh s e = (e', None) \<Longrightarrow> checkpoint_entry ob now' fresh s e' = (e', None)"
proof -
  assume r: "checkpoint_entry ob now fresh s e = (e', None)"
  let ?e = "answer_suppressed s e"
  let ?adopt = "case tp_summary e of None \<Rightarrow> True | Some v \<Rightarrow> su_chain_of v \<noteq> s_chain s"
  show ?thesis
  proof (cases "?adopt \<and> \<not> fresh \<and> (s_phase s = ''idle'' \<or> s_phase s = ''cancelled'') \<and> s_pending s = None")
    case True
    with r have "e' = ?e" by (simp add: checkpoint_entry_def Let_def)
    with True show ?thesis by (simp add: checkpoint_entry_def Let_def)
  next
    case False
    define v where "v = (if ?adopt then new_summary s now fresh else the (tp_summary e))"
    define v1 where "v1 = v\<lparr>su_class := s_class s, su_reason := s_reason s\<rparr>"
    have chain: "su_chain_of v = s_chain s"
      by (auto simp: v_def new_summary_def Let_def split: option.splits)
    from False r obtain v2 where v2: "count_start s (mark_lost s v1) = Inr v2"
      and e': "e' = ?e\<lparr>tp_summary := Some (settle_summary ob now s v2)\<rparr>"
      by (auto simp: checkpoint_entry_def Let_def v_def v1_def split: sum.splits if_splits)
    let ?w = "settle_summary ob now s v2"
    have "counted s ?w" using count_start_counted [OF v2] by (rule counted_settle)
    then have stable: "mark_lost s ?w = ?w" "count_start s ?w = Inr ?w" by (simp_all add: counted_stable)
    have fields: "su_chain_of ?w = s_chain s" "su_class ?w = s_class s" "su_reason ?w = s_reason s"
      using count_start_fields [OF v2] by (simp_all add: settle_summary_fields mark_lost_fields v1_def chain)
    then have "?w\<lparr>su_class := s_class s, su_reason := s_reason s\<rparr> = ?w"
      by (metis summary.surjective summary.update_convs(2,5))
    then show ?thesis
      by (simp add: checkpoint_entry_def Let_def e' fields(1) stable settle_summary_idem)
  qed
qed


theorem checkpoint_idempotent_witness:
  "checkpoint_entry None 5000 False sample_owner sample_entry =
     (sample_entry\<lparr>tp_summary := Some \<lparr>su_chain_of = ''turn-1'', su_class = ''capacity'', su_phase = ''scheduled'', su_outcome = [],
        su_reason = [], su_confirmed = None, su_count_quality = ''unavailable'', su_started = None, su_finished = None,
        su_timing_quality = ''unavailable'', su_last = [], su_pending_id = sample_id\<rparr>\<rparr>, None) \<and>
   checkpoint_entry None 6000 False sample_owner (fst (checkpoint_entry None 5000 False sample_owner sample_entry)) =
     checkpoint_entry None 5000 False sample_owner sample_entry" (is "?r = (?e, None) \<and> _")
proof -
  have r: "?r = (?e, None)" by code_simp
  from checkpoint_idempotent [OF r, of 6000] show ?thesis using r by simp
qed


end
