(* ===== verification/Go_Monad.thy ===== *)
theory Go_Monad
  imports Go_Base "HOL-Library.State_Monad"
begin

text \<open>
  Code that threads a state through many calls is written in the state monad of the library, an
  early \<open>return err\<close> being a branch that does not continue. This theory holds the reasoning rules: a
  partial-correctness triple per program, with one rule per way the programs are put together.
  The monad is total, so every triple is also a statement about a result that exists.
\<close>

named_theorems hoare \<open>rules for triples over the state monad\<close>

abbreviation finish :: "'a \<Rightarrow> ('s, 'a) state" where "finish \<equiv> State_Monad.return"

definition triple :: "('s \<Rightarrow> bool) \<Rightarrow> ('s, 'a) state \<Rightarrow> ('a \<Rightarrow> 's \<Rightarrow> bool) \<Rightarrow> bool" where
  "triple P m Q \<longleftrightarrow> (\<forall>s x t. P s \<longrightarrow> run_state m s = (x, t) \<longrightarrow> Q x t)"

lemma tripleI: "(\<And>s x t. P s \<Longrightarrow> run_state m s = (x, t) \<Longrightarrow> Q x t) \<Longrightarrow> triple P m Q"
  by (simp add: triple_def)

lemma tripleD: "triple P m Q \<Longrightarrow> P s \<Longrightarrow> run_state m s = (x, t) \<Longrightarrow> Q x t"
  by (simp add: triple_def)

lemma triple_bind:
  "triple P m R \<Longrightarrow> (\<And>x. triple (R x) (f x) Q) \<Longrightarrow> triple P (State_Monad.bind m f) Q"
  unfolding triple_def by (fastforce split: prod.splits)

lemma triple_return: "(\<And>s. P s \<Longrightarrow> Q x s) \<Longrightarrow> triple P (finish x) Q"
  by (simp add: triple_def)

lemma triple_pre: "triple P m Q \<Longrightarrow> (\<And>s. P' s \<Longrightarrow> P s) \<Longrightarrow> triple P' m Q"
  unfolding triple_def by blast

lemma triple_post: "triple P m Q' \<Longrightarrow> (\<And>x s. Q' x s \<Longrightarrow> Q x s) \<Longrightarrow> triple P m Q"
  unfolding triple_def by blast

lemma triple_if:
  "(b \<Longrightarrow> triple P m Q) \<Longrightarrow> (\<not> b \<Longrightarrow> triple P n Q) \<Longrightarrow> triple P (if b then m else n) Q"
  by simp

lemma triple_option:
  "(x = None \<Longrightarrow> triple P m Q) \<Longrightarrow> (\<And>y. x = Some y \<Longrightarrow> triple P (f y) Q) \<Longrightarrow>
   triple P (case x of None \<Rightarrow> m | Some y \<Rightarrow> f y) Q"
  by (cases x) auto

lemma triple_sum:
  "(\<And>y. x = Inl y \<Longrightarrow> triple P (f y) Q) \<Longrightarrow> (\<And>y. x = Inr y \<Longrightarrow> triple P (g y) Q) \<Longrightarrow>
   triple P (case x of Inl y \<Rightarrow> f y | Inr y \<Rightarrow> g y) Q"
  by (cases x) auto

lemma triple_pair: "(\<And>y z. x = (y, z) \<Longrightarrow> triple P (f y z) Q) \<Longrightarrow> triple P (case x of (y, z) \<Rightarrow> f y z) Q"
  by (cases x) auto

lemmas triple_cases = triple_if triple_option triple_sum triple_pair

text \<open>A program that only ever extends the state along a preorder, whatever it returns.\<close>

definition steady :: "('s \<Rightarrow> 's \<Rightarrow> bool) \<Rightarrow> ('s, 'a) state \<Rightarrow> bool" where
  "steady R m \<longleftrightarrow> (\<forall>s x t. run_state m s = (x, t) \<longrightarrow> R s t)"

lemma steady_bind:
  assumes "transp R" and "steady R m" and "\<And>x. steady R (f x)"
  shows "steady R (State_Monad.bind m f)"
  using assms unfolding steady_def by (fastforce split: prod.splits dest: transpD)

lemma steady_return: "reflp R \<Longrightarrow> steady R (finish x)"
  by (simp add: steady_def reflp_def)

lemma steady_if: "steady R m \<Longrightarrow> steady R n \<Longrightarrow> steady R (if b then m else n)"
  by simp

lemma steady_option: "steady R m \<Longrightarrow> (\<And>y. steady R (f y)) \<Longrightarrow> steady R (case x of None \<Rightarrow> m | Some y \<Rightarrow> f y)"
  by (cases x) auto

lemma steady_sum: "(\<And>y. steady R (f y)) \<Longrightarrow> (\<And>y. steady R (g y)) \<Longrightarrow> steady R (case x of Inl y \<Rightarrow> f y | Inr y \<Rightarrow> g y)"
  by (cases x) auto

lemma steady_pair: "(\<And>y z. steady R (f y z)) \<Longrightarrow> steady R (case x of (y, z) \<Rightarrow> f y z)"
  by (cases x) auto

lemma steadyD: "steady R m \<Longrightarrow> run_state m s = (x, t) \<Longrightarrow> R s t"
  by (simp add: steady_def)

end
