(* ===== verification/Retry_Controller.thy ===== *)
theory Retry_Controller
  imports Retry_Policy Go_Monad "HOL-Library.Code_Target_Nat"
begin

text \<open>
  The automatic-continuation controller, \<open>portal/internal/turnretry/controller.go\<close>. The interfaces the controller calls (\<open>Backend\<close>,
  \<open>PolicyAuthority\<close>, the clock, the random sources, the file system) are the fields of \<open>env\<close>:
  functions on a world \<open>'w\<close> that each call may advance. A \<open>run\<close> is the held transaction, the durable
  record and the log of the calls that matter for delivery, newest first; a \<open>CContinue\<close> entry keeps
  the record that was durable at the moment of the call.
\<close>

subsection \<open>Environment and run\<close>

record ('w, 'p) env =
  ev_observe :: "scope \<Rightarrow> 'w \<Rightarrow> (error + observation) \<times> 'w"
  ev_boundary :: "scope \<Rightarrow> 'w \<Rightarrow> (error + string) \<times> 'w"
  ev_advance :: "scope \<Rightarrow> string \<Rightarrow> 'p rstate \<times> 'p rstate option \<Rightarrow> 'w \<Rightarrow> (error option \<times> 'p rstate \<times> 'p rstate option) \<times> 'w"
  ev_prove :: "scope \<Rightarrow> string \<Rightarrow> 'p rstate \<Rightarrow> 'w \<Rightarrow> (error option \<times> 'p rstate) \<times> 'w"
  ev_check :: "scope \<Rightarrow> 'p snapshot \<Rightarrow> 'w \<Rightarrow> error option \<times> 'w"
  ev_reconcile :: "scope \<Rightarrow> 'p pending \<Rightarrow> 'w \<Rightarrow> (string \<times> bool \<times> error option) \<times> 'w"
  ev_continue :: "scope \<Rightarrow> 'p pending \<Rightarrow> 'w \<Rightarrow> (error + string) \<times> 'w"
  ev_never :: "scope \<Rightarrow> 'p pending \<Rightarrow> 'w \<Rightarrow> (error + bool) \<times> 'w"
  ev_policy :: bool
  ev_decide :: "'p rstate \<Rightarrow> 'w \<Rightarrow> (error + decision) \<times> 'w"
  ev_checkpoint :: "'p rstate \<Rightarrow> observation option \<Rightarrow> millis \<Rightarrow> bool \<Rightarrow> 'w \<Rightarrow> error option \<times> 'w"
  ev_clock :: "'w \<Rightarrow> millis \<times> 'w"
  ev_random :: "'w \<Rightarrow> rat \<times> 'w"
  ev_entropy :: "'w \<Rightarrow> entropy \<times> 'w"
  ev_lock :: "'w \<Rightarrow> 'p lock_io \<times> 'w"
  ev_load :: "'w \<Rightarrow> 'p rstate file_view \<times> 'w"
  ev_replace :: "'w \<Rightarrow> replace_io \<times> 'w"

datatype 'p call =
    CReconcile "'p pending"
  | CNever "'p pending" "error + bool"
  | CContinue "'p pending" "'p rstate option"

record ('w, 'p) run =
  rn_world :: 'w
  rn_tx :: "'p transaction"
  rn_disk :: "'p rstate option"
  rn_log :: "'p call list"

type_synonym ('w, 'p, 'a) act = "(('w, 'p) run, 'a) state"

definition ask :: "('w \<Rightarrow> 'a \<times> 'w) \<Rightarrow> ('w, 'p, 'a) act" where
  "ask f = State (\<lambda>r. case f (rn_world r) of (x, w) \<Rightarrow> (x, r\<lparr>rn_world := w\<rparr>))"

definition ledger_state :: "('w, 'p, 'p rstate) act" where
  "ledger_state = State (\<lambda>r. (tx_state (rn_tx r), r))"

definition set_ledger :: "'p rstate \<Rightarrow> ('w, 'p, unit) act" where
  "set_ledger s = State (\<lambda>r. ((), r\<lparr>rn_tx := (rn_tx r)\<lparr>tx_state := s\<rparr>\<rparr>))"

definition note_call :: "('p rstate option \<Rightarrow> 'p call) \<Rightarrow> ('w, 'p, unit) act" where
  "note_call c = State (\<lambda>r. ((), r\<lparr>rn_log := c (rn_disk r) # rn_log r\<rparr>))"

definition save_tx :: "'p codec \<Rightarrow> ('w, 'p) env \<Rightarrow> ('w, 'p, error option) act" where
  "save_tx cx ev = State (\<lambda>r.
     case ev_replace ev (rn_world r) of (io, w) \<Rightarrow>
     case Save cx io (rn_tx r) (rn_disk r) of (e, t, d) \<Rightarrow>
       (e, r\<lparr>rn_world := w, rn_tx := t, rn_disk := d\<rparr>))"

subsection \<open>Reconciling an attempt whose outcome is unknown\<close>

definition checkBoundary :: "'p codec \<Rightarrow> ('w, 'p) env \<Rightarrow> ('w, 'p, error option) act" where
  "checkBoundary cx ev = do {
     s \<leftarrow> ledger_state;
     b \<leftarrow> ask (ev_boundary ev (s_scope s));
     case b of
       Inl e \<Rightarrow> finish (Some e)
     | Inr boundary \<Rightarrow>
         if s_boundary s = [] then do { set_ledger (s\<lparr>s_boundary := boundary\<rparr>); finish None }
         else if s_boundary s \<noteq> boundary then do {
           set_ledger (Cancel ''identity_changed'' s);
           e \<leftarrow> save_tx cx ev;
           case e of Some x \<Rightarrow> finish (Some x)
           | None \<Rightarrow> finish (Some (Err ''retry session incarnation changed''))
         }
         else finish None
   }"

text \<open>The summary of a settled receipt is optional: its error is dropped.\<close>

definition checkpoint_quietly :: "('w, 'p) env \<Rightarrow> ('w, 'p, unit) act" where
  "checkpoint_quietly ev =
     (if ev_policy ev then do {
        s \<leftarrow> ledger_state;
        now \<leftarrow> ask (ev_clock ev);
        _ \<leftarrow> ask (ev_checkpoint ev s None now False);
        finish ()
      } else finish ())"

definition book_receipt :: "'p codec \<Rightarrow> ('w, 'p) env \<Rightarrow> string \<Rightarrow> ('w, 'p, error option) act" where
  "book_receipt cx ev turn = do {
     s \<leftarrow> ledger_state;
     now \<leftarrow> ask (ev_clock ev);
     set_ledger (fst (Accepted cx turn now s));
     case snd (Accepted cx turn now s) of
       Some e \<Rightarrow> finish (Some e)
     | None \<Rightarrow> do {
         e \<leftarrow> save_tx cx ev;
         case e of Some x \<Rightarrow> finish (Some x)
         | None \<Rightarrow> do { checkpoint_quietly ev; finish None }
       }
   }"

definition hold_unknown :: "'p codec \<Rightarrow> ('w, 'p) env \<Rightarrow> error \<Rightarrow> ('w, 'p, bool \<times> error option) act" where
  "hold_unknown cx ev err = do {
     s \<leftarrow> ledger_state;
     set_ledger (s\<lparr>s_phase := ''reconciling'', s_reason := ''outcome_unknown''\<rparr>);
     e \<leftarrow> save_tx cx ev;
     case e of Some x \<Rightarrow> finish (False, Some x) | None \<Rightarrow> finish (False, Some err)
   }"

text \<open>\<open>reconcile\<close> for the pending attempt \<open>p\<close>; \<open>True\<close> permits a fresh submission.\<close>

definition reconcile :: "'p codec \<Rightarrow> ('w, 'p) env \<Rightarrow> 'p pending \<Rightarrow> ('w, 'p, bool \<times> error option) act" where
  "reconcile cx ev p = do {
     s \<leftarrow> ledger_state;
     note_call (\<lambda>_. CReconcile p);
     r \<leftarrow> ask (ev_reconcile ev (s_scope s) p);
     case r of (turn, found, err) \<Rightarrow>
       if found \<and> err = None then do { e \<leftarrow> book_receipt cx ev turn; finish (False, e) }
       else case err of
         Some e \<Rightarrow> hold_unknown cx ev e
       | None \<Rightarrow> do {
           n \<leftarrow> ask (ev_never ev (s_scope s) p);
           note_call (\<lambda>_. CNever p n);
           case n of
             Inl e \<Rightarrow> hold_unknown cx ev e
           | Inr never \<Rightarrow>
               if never then do {
                 set_ledger (if s_cancelled s then s\<lparr>s_phase := ''cancelled'', s_pending := None\<rparr> else s);
                 t \<leftarrow> ledger_state;
                 e \<leftarrow> save_tx cx ev;
                 finish (s_pending t \<noteq> None, e)
               }
               else hold_unknown cx ev (Err ''automatic submission requires reconciliation'')
         }
   }"

definition ReconcileLocked :: "'p codec \<Rightarrow> ('w, 'p) env \<Rightarrow> ('w, 'p, error option) act" where
  "ReconcileLocked cx ev = do {
     e \<leftarrow> checkBoundary cx ev;
     case e of
       Some x \<Rightarrow> finish (Some x)
     | None \<Rightarrow> do {
         s \<leftarrow> ledger_state;
         case s_pending s of
           None \<Rightarrow> finish None
         | Some p \<Rightarrow>
             if Uncertain s then do { r \<leftarrow> reconcile cx ev p; finish (snd r) } else finish None
       }
   }"

subsection \<open>Sending the continuation\<close>

definition preflight :: "'p codec \<Rightarrow> ('w, 'p) env \<Rightarrow> ('w, 'p, error option) act" where
  "preflight cx ev = do {
     s \<leftarrow> ledger_state;
     set_ledger (fst (PreflightAccepted cx s));
     case snd (PreflightAccepted cx s) of
       None \<Rightarrow> finish None
     | Some err \<Rightarrow>
         if errors_is err ErrSnapshotCapacity then do {
           t \<leftarrow> ledger_state;
           set_ledger (t\<lparr>s_handled := (case s_pending t of Some p \<Rightarrow> pd_failure p | None \<Rightarrow> s_handled t),
                         s_phase := ''blocked'', s_reason := ''settings_unproven'', s_cancelled := True, s_deadline := 0\<rparr>);
           e \<leftarrow> save_tx cx ev;
           case e of Some x \<Rightarrow> finish (Some x) | None \<Rightarrow> finish (Some err)
         }
         else finish (Some err)
   }"

definition dispatch :: "'p codec \<Rightarrow> ('w, 'p) env \<Rightarrow> 'p pending \<Rightarrow> ('w, 'p, error option) act" where
  "dispatch cx ev p = do {
     s \<leftarrow> ledger_state;
     note_call (CContinue p);
     r \<leftarrow> ask (ev_continue ev (s_scope s) p);
     case r of
       Inr turn \<Rightarrow> book_receipt cx ev turn
     | Inl err \<Rightarrow> do {
         refused \<leftarrow>
           (if errors_is err UnknownSendOutcome then finish False
            else do {
              n \<leftarrow> ask (ev_never ev (s_scope s) p);
              note_call (\<lambda>_. CNever p n);
              finish (n = Inr True)
            });
         set_ledger (if refused then s\<lparr>s_phase := ''blocked'', s_reason := ''dispatch_refused'', s_pending := None\<rparr>
                     else s\<lparr>s_phase := ''reconciling'', s_reason := ''outcome_unknown''\<rparr>);
         e \<leftarrow> save_tx cx ev;
         case e of Some x \<Rightarrow> finish (Some x) | None \<Rightarrow> finish (Some err)
       }
   }"

text \<open>\<open>decision\<close>: no policy authority, no decision.\<close>

definition decision_for :: "('w, 'p) env \<Rightarrow> 'p rstate \<Rightarrow> ('w, 'p, error + decision) act" where
  "decision_for ev s = (if ev_policy ev then ask (ev_decide ev s) else finish (Inl ErrPolicyUnavailable))"

text \<open>A failed settings check holds admission: the reason is saved, the error returned.\<close>

definition hold_admission :: "'p codec \<Rightarrow> ('w, 'p) env \<Rightarrow> error \<Rightarrow> ('w, 'p, error option) act" where
  "hold_admission cx ev err = do {
     s \<leftarrow> ledger_state;
     set_ledger (s\<lparr>s_reason := ''admission_held''\<rparr>);
     e \<leftarrow> save_tx cx ev;
     case e of Some x \<Rightarrow> finish (Some x) | None \<Rightarrow> finish (Some err)
   }"

text \<open>Save the intent, then send it: the common end of both delivery paths of \<open>Step\<close>.\<close>

definition save_and_send :: "'p codec \<Rightarrow> ('w, 'p) env \<Rightarrow> ('w, 'p, error option) act" where
  "save_and_send cx ev = do {
     e \<leftarrow> save_tx cx ev;
     case e of
       Some x \<Rightarrow> finish (Some x)
     | None \<Rightarrow> do {
         s \<leftarrow> ledger_state;
         case s_pending s of None \<Rightarrow> finish None | Some p \<Rightarrow> dispatch cx ev p
       }
   }"

definition renew_and_send :: "'p codec \<Rightarrow> ('w, 'p) env \<Rightarrow> decision \<Rightarrow> ('w, 'p, error option) act" where
  "renew_and_send cx ev d = do {
     s \<leftarrow> ledger_state;
     now \<leftarrow> ask (ev_clock ev);
     set_ledger (fst (ReserveUnsubmitted now d s));
     case snd (ReserveUnsubmitted now d s) of
       Some x \<Rightarrow> finish (Some x)
     | None \<Rightarrow> save_and_send cx ev
   }"

text \<open>The uncertain branch of \<open>Step\<close>: the same attempt again, only with positive proof.\<close>

definition step_uncertain :: "'p codec \<Rightarrow> ('w, 'p) env \<Rightarrow> scope \<Rightarrow> 'p pending \<Rightarrow> ('w, 'p, error option) act" where
  "step_uncertain cx ev c p0 = do {
     r \<leftarrow> reconcile cx ev p0;
     if snd r \<noteq> None \<or> \<not> fst r then finish (snd r)
     else do {
       s \<leftarrow> ledger_state;
       dr \<leftarrow> decision_for ev s;
       case dr of
         Inl e \<Rightarrow> finish (Some e)
       | Inr d \<Rightarrow>
           if \<not> Allows d s then do {
             set_ledger ((Cancel ''disabled'' s)\<lparr>s_phase := ''cancelled''\<rparr>);
             save_tx cx ev
           }
           else case s_pending s of
             None \<Rightarrow> finish None
           | Some p \<Rightarrow> do {
               ce \<leftarrow> ask (ev_check ev c (pd_snapshot p));
               case ce of
                 Some e \<Rightarrow> hold_admission cx ev e
               | None \<Rightarrow> do {
                   pe \<leftarrow> preflight cx ev;
                   case pe of Some e \<Rightarrow> finish (Some e) | None \<Rightarrow> renew_and_send cx ev d
                 }
             }
     }
   }"

text \<open>The last part of \<open>Step\<close>: a due attempt is reconciled, begun, saved and sent.\<close>

definition begin_and_send :: "'p codec \<Rightarrow> ('w, 'p) env \<Rightarrow> decision \<Rightarrow> ('w, 'p, error option) act" where
  "begin_and_send cx ev d = do {
     s \<leftarrow> ledger_state;
     now \<leftarrow> ask (ev_clock ev);
     set_ledger (fst (Begin now d s));
     case snd (Begin now d s) of
       Some x \<Rightarrow> finish (Some x)
     | None \<Rightarrow> save_and_send cx ev
   }"

definition step_due :: "'p codec \<Rightarrow> ('w, 'p) env \<Rightarrow> scope \<Rightarrow> decision \<Rightarrow> 'p pending \<Rightarrow> ('w, 'p, error option) act" where
  "step_due cx ev c d p = do {
     ce \<leftarrow> ask (ev_check ev c (pd_snapshot p));
     case ce of
       Some e \<Rightarrow> hold_admission cx ev e
     | None \<Rightarrow> do {
         r \<leftarrow> reconcile cx ev p;
         if snd r \<noteq> None \<or> \<not> fst r then finish (snd r)
         else do {
           pe \<leftarrow> preflight cx ev;
           case pe of Some e \<Rightarrow> finish (Some e) | None \<Rightarrow> begin_and_send cx ev d
         }
       }
   }"


subsection \<open>One step of the controller\<close>

definition step_schedule :: "'p codec \<Rightarrow> ('w, 'p) env \<Rightarrow> scope \<Rightarrow> decision \<Rightarrow> observation \<Rightarrow> ('w, 'p, error option) act" where
  "step_schedule cx ev c d ob = do {
     s0 \<leftarrow> ledger_state;
     now \<leftarrow> ask (ev_clock ev);
     random \<leftarrow> ask (ev_random ev);
     ent \<leftarrow> ask (ev_entropy ev);
     set_ledger (fst (Observe cx ob now random d ent s0));
     case snd (Observe cx ob now random d ent s0) of
       Some x \<Rightarrow> finish (Some x)
     | None \<Rightarrow> do {
         e \<leftarrow> save_tx cx ev;
         case e of
           Some x \<Rightarrow> finish (Some x)
         | None \<Rightarrow> do {
             s \<leftarrow> ledger_state;
             now2 \<leftarrow> ask (ev_clock ev);
             ke \<leftarrow> ask (ev_checkpoint ev s None now2 (s_chain s0 \<noteq> s_chain s));
             case ke of
               Some x \<Rightarrow> finish (Some x)
             | None \<Rightarrow> (case s_pending s of
                 None \<Rightarrow> finish None
               | Some p \<Rightarrow>
                   if s_phase s \<noteq> ''scheduled'' \<or> \<not> Allows d s then finish None
                   else do {
                     now3 \<leftarrow> ask (ev_clock ev);
                     set_ledger (snd (Now now3 s));
                     if fst (Now now3 s) < s_deadline s then finish None else step_due cx ev c d p
                   })
           }
       }
   }"

text \<open>Failures of the proof engine: a missing proof settles a failed turn as blocked.\<close>

definition block_unproven :: "'p codec \<Rightarrow> ('w, 'p) env \<Rightarrow> observation \<Rightarrow> bool \<Rightarrow> error \<Rightarrow> ('w, 'p, error option) act" where
  "block_unproven cx ev ob handled err = do {
     s \<leftarrow> ledger_state;
     set_ledger (s\<lparr>s_phase := ''blocked'', s_reason := ''settings_unproven'',
                   s_handled := (if handled then o_turn ob else s_handled s)\<rparr>);
     e \<leftarrow> save_tx cx ev;
     case e of Some x \<Rightarrow> finish (Some x) | None \<Rightarrow> finish (Some err)
   }"

definition step_prove :: "'p codec \<Rightarrow> ('w, 'p) env \<Rightarrow> scope \<Rightarrow> decision \<Rightarrow> observation \<Rightarrow> ('w, 'p, error option) act" where
  "step_prove cx ev c d ob = do {
     s \<leftarrow> ledger_state;
     if o_status ob = ''failed'' \<and> Eligible d s ob \<and> o_turn ob \<noteq> s_handled s \<and>
        (o_turn ob \<noteq> s_baseline s \<or> s_baseline_active s)
     then do {
       pr \<leftarrow> ask (ev_prove ev c (o_turn ob) s);
       set_ledger (snd pr);
       case fst pr of
         Some err \<Rightarrow> block_unproven cx ev ob (errors_is err ErrMissingProof) err
       | None \<Rightarrow> step_schedule cx ev c d ob
     }
     else step_schedule cx ev c d ob
   }"

definition advance_tx :: "('w, 'p) env \<Rightarrow> scope \<Rightarrow> string \<Rightarrow> ('w, 'p, error option) act" where
  "advance_tx ev c turn = State (\<lambda>r.
     case ev_advance ev c turn (tx_state (rn_tx r), rn_disk r) (rn_world r) of ((e, s, d), w) \<Rightarrow>
       (e, r\<lparr>rn_world := w, rn_tx := (rn_tx r)\<lparr>tx_state := s\<rparr>, rn_disk := d\<rparr>))"

definition step_observed :: "'p codec \<Rightarrow> ('w, 'p) env \<Rightarrow> scope \<Rightarrow> decision \<Rightarrow> observation \<Rightarrow> ('w, 'p, error option) act" where
  "step_observed cx ev c d ob = do {
     s \<leftarrow> ledger_state;
     now \<leftarrow> ask (ev_clock ev);
     ke \<leftarrow> ask (ev_checkpoint ev s (Some ob) now False);
     case ke of
       Some x \<Rightarrow> finish (Some x)
     | None \<Rightarrow>
         if (o_status ob = ''inProgress'' \<or> o_status ob = ''failed'') \<and> o_turn ob \<noteq> s_handled s
         then do {
           ae \<leftarrow> advance_tx ev c (o_turn ob);
           case ae of
             Some err \<Rightarrow>
               if errors_is err ErrMissingProof \<and> o_status ob = ''failed''
               then block_unproven cx ev ob True err else finish (Some err)
           | None \<Rightarrow> step_prove cx ev c d ob
         }
         else step_prove cx ev c d ob
   }"

definition step_enroll :: "'p codec \<Rightarrow> ('w, 'p) env \<Rightarrow> scope \<Rightarrow> observation \<Rightarrow> ('w, 'p, error option) act" where
  "step_enroll cx ev c ob = do {
     s \<leftarrow> ledger_state;
     set_ledger (Enroll ob s);
     e \<leftarrow> save_tx cx ev;
     case e of
       Some x \<Rightarrow> finish (Some x)
     | None \<Rightarrow> do {
         ar \<leftarrow> ask (ev_observe ev c);
         case ar of
           Inl x \<Rightarrow> finish (Some x)
         | Inr after \<Rightarrow> do {
             t \<leftarrow> ledger_state;
             set_ledger (if ob \<noteq> after then t\<lparr>s_baseline := o_turn after, s_baseline_active := False\<rparr> else t);
             save_tx cx ev
           }
       }
   }"

definition step_settled :: "'p codec \<Rightarrow> ('w, 'p) env \<Rightarrow> scope \<Rightarrow> decision \<Rightarrow> ('w, 'p, error option) act" where
  "step_settled cx ev c d = do {
     ro \<leftarrow> ask (ev_observe ev c);
     case ro of
       Inl x \<Rightarrow> finish (Some x)
     | Inr ob \<Rightarrow> do {
         s \<leftarrow> ledger_state;
         set_ledger (fst (RetireObsoleteProofs (o_turn ob) s));
         e \<leftarrow> (if snd (RetireObsoleteProofs (o_turn ob) s) then save_tx cx ev else finish None);
         case e of
           Some x \<Rightarrow> finish (Some x)
         | None \<Rightarrow> do {
             t \<leftarrow> ledger_state;
             if \<not> s_enrolled t then step_enroll cx ev c ob else step_observed cx ev c d ob
           }
       }
   }"

text \<open>A pending attempt the policy no longer allows is cancelled and kept.\<close>

definition stop_disallowed :: "'p codec \<Rightarrow> ('w, 'p) env \<Rightarrow> decision \<Rightarrow> ('w, 'p, error option) act" where
  "stop_disallowed cx ev d = do {
     s \<leftarrow> ledger_state;
     if s_pending s \<noteq> None \<and> \<not> s_cancelled s \<and> \<not> Allows d s
     then do {
       set_ledger ((Cancel ''disabled'' s)\<lparr>s_pending := s_pending s\<rparr>);
       e \<leftarrow> save_tx cx ev;
       case e of
         Some x \<Rightarrow> finish (Some x)
       | None \<Rightarrow> do { checkpoint_quietly ev; finish None }
     }
     else finish None
   }"

definition step_locked :: "'p codec \<Rightarrow> ('w, 'p) env \<Rightarrow> scope \<Rightarrow> ('w, 'p, error option) act" where
  "step_locked cx ev c = do {
     be \<leftarrow> checkBoundary cx ev;
     case be of
       Some x \<Rightarrow> finish (Some x)
     | None \<Rightarrow> do {
         s \<leftarrow> ledger_state;
         case (if Uncertain s then s_pending s else None) of
           Some p \<Rightarrow> step_uncertain cx ev c p
         | None \<Rightarrow> do {
             dr \<leftarrow> decision_for ev s;
             case dr of
               Inl x \<Rightarrow> finish (Some x)
             | Inr d \<Rightarrow> do {
                 now \<leftarrow> ask (ev_clock ev);
                 ke \<leftarrow> ask (ev_checkpoint ev s None now False);
                 case ke of
                   Some x \<Rightarrow> finish (Some x)
                 | None \<Rightarrow> do {
                     se \<leftarrow> stop_disallowed cx ev d;
                     case se of Some x \<Rightarrow> finish (Some x) | None \<Rightarrow> step_settled cx ev c d
                   }
               }
           }
       }
   }"

definition locked_run :: "'w \<Rightarrow> 'p transaction \<Rightarrow> 'p rstate option \<Rightarrow> 'p call list \<Rightarrow> ('w, 'p) run" where
  "locked_run w t disk lg = \<lparr>rn_world = w, rn_tx = t, rn_disk = disk, rn_log = lg\<rparr>"

text \<open>
  \<open>Step\<close> and \<open>ReconcileOnly\<close> over the durable record and the call log; \<open>None\<close> while the admission
  fence is not granted.
\<close>

definition with_lock ::
  "'p codec \<Rightarrow> store \<Rightarrow> ('w, 'p) env \<Rightarrow> scope \<Rightarrow> ('w, 'p, error option) act
   \<Rightarrow> 'w \<times> 'p rstate option \<times> 'p call list \<Rightarrow> (error option \<times> 'w \<times> 'p rstate option \<times> 'p call list) option" where
  "with_lock cx st ev c act x =
     (case x of (w, disk, lg) \<Rightarrow>
      case ev_lock ev w of (io, w1) \<Rightarrow>
      case Lock cx st c io disk of
        None \<Rightarrow> None
      | Some (Inl e, d) \<Rightarrow> Some (Some e, w1, d, lg)
      | Some (Inr t, d) \<Rightarrow>
          (case run_state act (locked_run w1 t d lg) of (e, r) \<Rightarrow> Some (e, rn_world r, rn_disk r, rn_log r)))"

definition Step ::
  "'p codec \<Rightarrow> store \<Rightarrow> ('w, 'p) env \<Rightarrow> scope
   \<Rightarrow> 'w \<times> 'p rstate option \<times> 'p call list \<Rightarrow> (error option \<times> 'w \<times> 'p rstate option \<times> 'p call list) option" where
  "Step cx st ev c x = with_lock cx st ev c (step_locked cx ev c) x"

definition ReconcileOnly ::
  "'p codec \<Rightarrow> store \<Rightarrow> ('w, 'p) env \<Rightarrow> scope
   \<Rightarrow> 'w \<times> 'p rstate option \<times> 'p call list \<Rightarrow> (error option \<times> 'w \<times> 'p rstate option \<times> 'p call list) option" where
  "ReconcileOnly cx st ev c x =
     (case x of (w, disk, lg) \<Rightarrow>
      case ev_load ev w of (view, w1) \<Rightarrow>
      case Load cx st c view of
        Inl e \<Rightarrow> Some (if errors_is e ErrNotExist then None else Some e, w1, disk, lg)
      | Inr _ \<Rightarrow> with_lock cx st ev c (ReconcileLocked cx ev) (w1, disk, lg))"

text \<open>For evaluation: each operation on the ledger is computed once.\<close>

lemma shared_code [code]:
  "book_receipt cx ev turn = do {
     s \<leftarrow> ledger_state;
     now \<leftarrow> ask (ev_clock ev);
     case Accepted cx turn now s of (t, x) \<Rightarrow> do {
       set_ledger t;
       case x of
         Some e \<Rightarrow> finish (Some e)
       | None \<Rightarrow> do {
           e \<leftarrow> save_tx cx ev;
           case e of Some x \<Rightarrow> finish (Some x)
           | None \<Rightarrow> do { checkpoint_quietly ev; finish None }
         }
     }
   }"
  "preflight cx ev = do {
     s \<leftarrow> ledger_state;
     case PreflightAccepted cx s of (u, x) \<Rightarrow> do {
       set_ledger u;
       case x of
         None \<Rightarrow> finish None
       | Some err \<Rightarrow>
           if errors_is err ErrSnapshotCapacity then do {
             t \<leftarrow> ledger_state;
             set_ledger (t\<lparr>s_handled := (case s_pending t of Some p \<Rightarrow> pd_failure p | None \<Rightarrow> s_handled t),
                           s_phase := ''blocked'', s_reason := ''settings_unproven'', s_cancelled := True, s_deadline := 0\<rparr>);
             e \<leftarrow> save_tx cx ev;
             case e of Some x \<Rightarrow> finish (Some x) | None \<Rightarrow> finish (Some err)
           }
           else finish (Some err)
     }
   }"
  "begin_and_send cx ev d = do {
     s \<leftarrow> ledger_state;
     now \<leftarrow> ask (ev_clock ev);
     case Begin now d s of (t, x) \<Rightarrow> do {
       set_ledger t;
       case x of Some y \<Rightarrow> finish (Some y) | None \<Rightarrow> save_and_send cx ev
     }
   }"
  unfolding book_receipt_def preflight_def begin_and_send_def by (simp_all add: split_beta)

subsection \<open>Which programs cannot send\<close>

fun is_continue :: "'p call \<Rightarrow> bool" where
  "is_continue (CContinue p d) = True"
| "is_continue _ = False"

definition quiet :: "('w, 'p) run \<Rightarrow> ('w, 'p) run \<Rightarrow> bool" where
  "quiet r r' \<longleftrightarrow> tx_scope (rn_tx r') = tx_scope (rn_tx r) \<and> (\<exists>m. rn_log r' = m @ rn_log r \<and> \<not> list_ex is_continue m)"

lemma quiet_refl: "reflp quiet"
  by (auto simp: reflp_def quiet_def intro: exI [of _ "[]"])

lemma quiet_trans: "transp quiet"
proof (rule transpI)
  fix r s t :: "('w, 'p) run"
  assume "quiet r s" "quiet s t"
  then obtain m n where "tx_scope (rn_tx t) = tx_scope (rn_tx r)" "rn_log s = m @ rn_log r" "\<not> list_ex is_continue m" "rn_log t = n @ rn_log s" "\<not> list_ex is_continue n"
    by (auto simp: quiet_def)
  then show "quiet r t" unfolding quiet_def by (intro conjI exI [of _ "n @ m"]) simp_all
qed

lemma quiet_same_log: "rn_log r' = rn_log r \<Longrightarrow> tx_scope (rn_tx r') = tx_scope (rn_tx r) \<Longrightarrow> quiet r r'"
  by (auto simp: quiet_def intro: exI [of _ "[]"])

lemma Save_scope: "Save cx io t disk = (e, t', d) \<Longrightarrow> tx_scope t' = tx_scope t"
  by (erule Save_cases) simp_all

lemma quiet_prims:
  "steady quiet (ask f)" "steady quiet ledger_state" "steady quiet (set_ledger s)" "steady quiet (save_tx cx ev)"
  "steady quiet (advance_tx ev c turn)"
  by (auto simp: steady_def ask_def ledger_state_def set_ledger_def save_tx_def advance_tx_def
      intro!: quiet_same_log dest: Save_scope split: prod.splits)

lemma quiet_note: "(\<And>d. \<not> is_continue (c d)) \<Longrightarrow> steady quiet (note_call c)"
  by (auto simp: steady_def note_call_def quiet_def)

lemmas quiet_rules = quiet_prims steady_bind [OF quiet_trans] steady_return [OF quiet_refl] steady_if steady_option
  steady_sum steady_pair

lemma quiet_checkBoundary: "steady quiet (checkBoundary cx ev)"
  unfolding checkBoundary_def by (intro quiet_rules)

lemma quiet_book_receipt: "steady quiet (book_receipt cx ev turn)"
  unfolding book_receipt_def checkpoint_quietly_def by (intro quiet_rules)

lemma quiet_hold_unknown: "steady quiet (hold_unknown cx ev e)"
  unfolding hold_unknown_def by (intro quiet_rules)

lemma quiet_reconcile: "steady quiet (reconcile cx ev p)"
  unfolding reconcile_def by (intro quiet_rules quiet_book_receipt quiet_hold_unknown quiet_note) simp_all

lemma quiet_ReconcileLocked: "steady quiet (ReconcileLocked cx ev)"
  unfolding ReconcileLocked_def by (intro quiet_rules quiet_checkBoundary quiet_reconcile)

lemma quiet_preflight: "steady quiet (preflight cx ev)"
  unfolding preflight_def by (intro quiet_rules)

lemma quiet_parts:
  "steady quiet (hold_admission cx ev e)" "steady quiet (stop_disallowed cx ev d)" "steady quiet (step_enroll cx ev c ob)"
  "steady quiet (block_unproven cx ev ob h e)" "steady quiet (decision_for ev s)"
  unfolding hold_admission_def stop_disallowed_def step_enroll_def block_unproven_def decision_for_def checkpoint_quietly_def
  by (intro quiet_rules)+

lemma with_lock_quiet:
  assumes "steady quiet act" and "with_lock cx st ev c act (w, disk, lg) = Some (e, w', disk', lg')"
  shows "\<exists>m. lg' = m @ lg \<and> \<not> list_ex is_continue m"
proof -
  from assms(2) consider "lg' = lg"
    | w1 t d r where "run_state act (locked_run w1 t d lg) = (e, r)" "lg' = rn_log r"
    by (auto simp: with_lock_def split: prod.splits option.splits sum.splits)
  then show ?thesis
  proof cases
    case 1
    then show ?thesis by simp
  next
    case (2 w1 t d r)
    from steadyD [OF assms(1) 2(1)] 2(2) show ?thesis by (simp add: quiet_def locked_run_def)
  qed
qed

text \<open>
  C39. Reconciliation alone never sends: whatever the backend answers, \<open>ReconcileOnly\<close> adds no
  \<open>Continue\<close> call to the log.
\<close>

theorem ReconcileOnly_never_sends:
  "ReconcileOnly cx st ev c (w, disk, lg) = Some (e, w', disk', lg') \<Longrightarrow>
   \<exists>m. lg' = m @ lg \<and> \<not> list_ex is_continue m"
  by (auto simp: ReconcileOnly_def split: prod.splits sum.splits dest: with_lock_quiet [OF quiet_ReconcileLocked])


subsection \<open>When a continuation is sent\<close>

definition proved_unsent :: "'p call list \<Rightarrow> 'p pending \<Rightarrow> ('w, 'p) run \<Rightarrow> bool" where
  "proved_unsent lg q r \<longleftrightarrow> (\<exists>m. rn_log r = CNever q (Inr True) # m @ lg \<and> \<not> list_ex is_continue m)"

definition decided :: "('w, 'p) env \<Rightarrow> decision \<Rightarrow> bool" where
  "decided ev d \<longleftrightarrow> (\<exists>s w w'. ev_decide ev s w = (Inr d, w'))"

text \<open>
  A justified call of \<open>Continue\<close>: the record durable at that moment holds exactly this attempt as an
  unanswered submission, is valid, and is allowed by a decision of the policy authority; right
  before, the backend positively denied that the attempt was ever submitted.
\<close>

definition justified_send :: "'p codec \<Rightarrow> ('w, 'p) env \<Rightarrow> scope \<Rightarrow> 'p pending \<Rightarrow> 'p rstate \<Rightarrow> 'p pending \<Rightarrow> bool" where
  "justified_send cx ev c p u q \<longleftrightarrow>
     pd_id q = pd_id p \<and> s_pending u = Some p \<and> Uncertain u \<and> validate cx c u = None \<and>
     (\<exists>d. decided ev d \<and> Allows d u)"

definition sends_once :: "'p codec \<Rightarrow> ('w, 'p) env \<Rightarrow> scope \<Rightarrow> 'p call list \<Rightarrow> 'p call list \<Rightarrow> bool" where
  "sends_once cx ev c lg lg' \<longleftrightarrow>
     (\<exists>m. lg' = m @ lg \<and> \<not> list_ex is_continue m) \<or>
     (\<exists>m1 m2 p u q. lg' = m1 @ CContinue p (Some u) # CNever q (Inr True) # m2 @ lg \<and>
        \<not> list_ex is_continue m1 \<and> \<not> list_ex is_continue m2 \<and> justified_send cx ev c p u q)"

lemma quiet_sends: "quiet r r' \<Longrightarrow> \<exists>m. rn_log r = m @ lg \<and> \<not> list_ex is_continue m \<Longrightarrow> sends_once cx ev c lg (rn_log r')"
  unfolding quiet_def sends_once_def by (metis append.assoc list_ex_append)

lemma dispatch_log:
  assumes "run_state (dispatch cx ev p) r = (e, r')"
  shows "\<exists>m. rn_log r' = m @ CContinue p (rn_disk r) # rn_log r \<and> \<not> list_ex is_continue m"
proof -
  let ?rest = "\<lambda>s. do {
     a \<leftarrow> ask (ev_continue ev (s_scope s) p);
     case a of
       Inr turn \<Rightarrow> book_receipt cx ev turn
     | Inl err \<Rightarrow> do {
         refused \<leftarrow>
           (if errors_is err UnknownSendOutcome then finish False
            else do {
              n \<leftarrow> ask (ev_never ev (s_scope s) p);
              note_call (\<lambda>_. CNever p n);
              finish (n = Inr True)
            });
         set_ledger (if refused then s\<lparr>s_phase := ''blocked'', s_reason := ''dispatch_refused'', s_pending := None\<rparr>
                     else s\<lparr>s_phase := ''reconciling'', s_reason := ''outcome_unknown''\<rparr>);
         e \<leftarrow> save_tx cx ev;
         case e of Some x \<Rightarrow> finish (Some x) | None \<Rightarrow> finish (Some err)
       }
   }"
  let ?r1 = "r\<lparr>rn_log := CContinue p (rn_disk r) # rn_log r\<rparr>"
  have "steady quiet (?rest s)" for s
    by (intro quiet_rules quiet_book_receipt quiet_note) simp
  moreover have "run_state (?rest (tx_state (rn_tx r))) ?r1 = (e, r')"
    using assms unfolding dispatch_def by (simp add: ledger_state_def note_call_def)
  ultimately have "quiet ?r1 r'" by (rule steadyD)
  then show ?thesis by (simp add: quiet_def)
qed

lemma save_tx_ok:
  assumes "run_state (save_tx cx ev) r = (None, r')"
  shows "tx_state (rn_tx r') = (tx_state (rn_tx r))\<lparr>s_schema := Schema\<rparr>" "rn_disk r' = Some (tx_state (rn_tx r'))"
    "rn_log r' = rn_log r" "validate cx (tx_scope (rn_tx r)) (tx_state (rn_tx r')) = None"
    "tx_scope (rn_tx r') = tx_scope (rn_tx r)"
proof -
  from assms obtain io w t d where r': "r' = r\<lparr>rn_world := w, rn_tx := t, rn_disk := d\<rparr>"
    and "Save cx io (rn_tx r) (rn_disk r) = (None, t, d)"
    by (auto simp: save_tx_def split: prod.splits)
  from this(2) show "tx_state (rn_tx r') = (tx_state (rn_tx r))\<lparr>s_schema := Schema\<rparr>" "rn_disk r' = Some (tx_state (rn_tx r'))"
    "rn_log r' = rn_log r" "validate cx (tx_scope (rn_tx r)) (tx_state (rn_tx r')) = None"
    "tx_scope (rn_tx r') = tx_scope (rn_tx r)"
    by (cases rule: Save_cases; simp add: r' record_ok_def)+
qed

lemma Allows_schema [simp]: "Allows d (s\<lparr>s_schema := k\<rparr>) = Allows d s"
  by (simp add: Allows_def)

lemma Uncertain_schema [simp]: "Uncertain (s\<lparr>s_schema := k\<rparr>) = Uncertain s"
  by (simp add: Uncertain_def)

lemma save_and_send_ok:
  assumes run: "run_state (save_and_send cx ev) r = (e, r')" and unsent: "proved_unsent lg q r"
    and scope: "tx_scope (rn_tx r) = c" and d: "decided ev d"
    and ready: "\<And>p. s_pending (tx_state (rn_tx r)) = Some p \<Longrightarrow>
        Uncertain (tx_state (rn_tx r)) \<and> Allows d (tx_state (rn_tx r)) \<and> pd_id q = pd_id p"
  shows "sends_once cx ev c lg (rn_log r')"
proof -
  obtain e1 r1 where s: "run_state (save_tx cx ev) r = (e1, r1)" by fastforce
  have q1: "quiet r r1" using quiet_prims(4) s by (rule steadyD)
  from unsent obtain m where m: "rn_log r = CNever q (Inr True) # m @ lg" "\<not> list_ex is_continue m"
    by (auto simp: proved_unsent_def)
  then have pre: "\<exists>m. rn_log r = m @ lg \<and> \<not> list_ex is_continue m"
    by (intro exI [of _ "CNever q (Inr True) # m"]) simp
  show ?thesis
  proof (cases "e1 = None \<and> s_pending (tx_state (rn_tx r1)) \<noteq> None")
    case False
    with run s have "r' = r1" by (auto simp: save_and_send_def ledger_state_def split: option.splits)
    then show ?thesis using quiet_sends [OF q1 pre] by simp
  next
    case True
    then obtain p where p: "s_pending (tx_state (rn_tx r1)) = Some p" and e1: "e1 = None" by blast
    note ok = save_tx_ok [OF s [unfolded e1]]
    from run s e1 p have "run_state (dispatch cx ev p) r1 = (e, r')"
      by (simp add: save_and_send_def ledger_state_def)
    from dispatch_log [OF this] obtain m1 where
      m1: "rn_log r' = m1 @ CContinue p (rn_disk r1) # rn_log r1" "\<not> list_ex is_continue m1" by blast
    have "s_pending (tx_state (rn_tx r)) = Some p" using p ok(1) by simp
    from ready [OF this] have "justified_send cx ev c p (tx_state (rn_tx r1)) q"
      using ok(1,4) p d scope by (auto simp: justified_send_def)
    then show ?thesis unfolding sends_once_def using m1 m ok(2,3) by force
  qed
qed


lemma ask_run: "run_state (ask f) r = (x, r') \<Longrightarrow> \<exists>w. f (rn_world r) = (x, w) \<and> r' = r\<lparr>rn_world := w\<rparr>"
  by (auto simp: ask_def split: prod.splits)

lemma Reserve_keeps:
  assumes "snd (ReserveUnsubmitted now d s) = None" and "s_pending s = Some q" and "s_pending (fst (ReserveUnsubmitted now d s)) = Some p"
  shows "pd_id p = pd_id q \<and> Allows d (fst (ReserveUnsubmitted now d s)) \<and>
         s_phase (fst (ReserveUnsubmitted now d s)) = s_phase s"
  using assms by (auto simp: ReserveUnsubmitted_def Now_eq Let_def Allows_def split: if_splits)

lemma renew_and_send_ok:
  assumes run: "run_state (renew_and_send cx ev d) r = (e, r')" and unsent: "proved_unsent lg q r"
    and scope: "tx_scope (rn_tx r) = c" and d: "decided ev d" and u: "Uncertain (tx_state (rn_tx r))"
    and q: "s_pending (tx_state (rn_tx r)) = Some q'" "pd_id q = pd_id q'"
  shows "sends_once cx ev c lg (rn_log r')"
proof -
  let ?s = "tx_state (rn_tx r)"
  obtain now w where now: "ev_clock ev (rn_world r) = (now, w)" by fastforce
  let ?t = "fst (ReserveUnsubmitted now d ?s)"
  let ?r = "r\<lparr>rn_world := w, rn_tx := (rn_tx r)\<lparr>tx_state := ?t\<rparr>\<rparr>"
  show ?thesis
  proof (cases "snd (ReserveUnsubmitted now d ?s)")
    case (Some x)
    with run now have "rn_log r' = rn_log r"
      by (auto simp: renew_and_send_def ledger_state_def ask_def set_ledger_def)
    then show ?thesis using unsent by (auto simp: sends_once_def proved_unsent_def intro: exI [of _ "CNever q (Inr True) # _"])
  next
    case None
    with run now have send: "run_state (save_and_send cx ev) ?r = (e, r')"
      by (auto simp: renew_and_send_def ledger_state_def ask_def set_ledger_def)
    show ?thesis
    proof (rule save_and_send_ok [OF send _ _ d])
      show "proved_unsent lg q ?r" using unsent by (simp add: proved_unsent_def)
      show "tx_scope (rn_tx ?r) = c" using scope by simp
      fix p assume "s_pending (tx_state (rn_tx ?r)) = Some p"
      then have "s_pending ?t = Some p" by simp
      with Reserve_keeps [OF None q(1)] u q(2)
      show "Uncertain (tx_state (rn_tx ?r)) \<and> Allows d (tx_state (rn_tx ?r)) \<and> pd_id q = pd_id p"
        by (auto simp: Uncertain_def)
    qed
  qed
qed

lemma Begin_keeps:
  assumes "snd (Begin now d s) = None" and "s_pending s = Some q" and "s_pending (fst (Begin now d s)) = Some p"
  shows "pd_id p = pd_id q \<and> Allows d (fst (Begin now d s)) \<and> Uncertain (fst (Begin now d s))"
proof -
  let ?s = "snd (Now now s)"
  let ?r = "ReserveUnsubmitted now d ?s"
  have q: "s_pending ?s = Some q" using assms(2) by (simp add: Now_eq)
  from assms(1) have none: "snd ?r = None" and due: "due now d s"
    by (auto simp: Begin_def due_Now split: prod.splits option.splits if_splits)
  have "s_pending (fst ?r) = Some p"
    using assms(1,3) by (auto simp: Begin_def Let_def split: prod.splits option.splits if_splits)
  from Reserve_keeps [OF none q this] have id: "pd_id p = pd_id q" and al: "Allows d (fst ?r)" by auto
  have "s_pending (fst (Begin now d s)) = s_pending (fst ?r) \<and> s_class (fst (Begin now d s)) = s_class (fst ?r) \<and>
      s_cancelled (fst (Begin now d s)) = s_cancelled (fst ?r) \<and> s_chain (fst (Begin now d s)) = s_chain (fst ?r) \<and>
      s_phase (fst (Begin now d s)) = ''submitting''"
    using assms(1,3) by (auto simp: Begin_def Let_def split: prod.splits option.splits if_splits)
  with id al assms(3) show ?thesis by (simp add: Allows_def Uncertain_def)
qed

lemma begin_and_send_ok:
  assumes run: "run_state (begin_and_send cx ev d) r = (e, r')" and unsent: "proved_unsent lg q r"
    and scope: "tx_scope (rn_tx r) = c" and d: "decided ev d"
    and q: "s_pending (tx_state (rn_tx r)) = Some q'" "pd_id q = pd_id q'"
  shows "sends_once cx ev c lg (rn_log r')"
proof -
  let ?s = "tx_state (rn_tx r)"
  obtain now w where now: "ev_clock ev (rn_world r) = (now, w)" by fastforce
  let ?t = "fst (Begin now d ?s)"
  let ?r = "r\<lparr>rn_world := w, rn_tx := (rn_tx r)\<lparr>tx_state := ?t\<rparr>\<rparr>"
  show ?thesis
  proof (cases "snd (Begin now d ?s)")
    case (Some x)
    with run now have "rn_log r' = rn_log r"
      by (auto simp: begin_and_send_def ledger_state_def ask_def set_ledger_def)
    then show ?thesis using unsent by (auto simp: sends_once_def proved_unsent_def intro: exI [of _ "CNever q (Inr True) # _"])
  next
    case None
    with run now have send: "run_state (save_and_send cx ev) ?r = (e, r')"
      by (auto simp: begin_and_send_def ledger_state_def ask_def set_ledger_def)
    show ?thesis
    proof (rule save_and_send_ok [OF send _ _ d])
      show "proved_unsent lg q ?r" using unsent by (simp add: proved_unsent_def)
      show "tx_scope (rn_tx ?r) = c" using scope by simp
      fix p assume "s_pending (tx_state (rn_tx ?r)) = Some p"
      then have "s_pending ?t = Some p" by simp
      with Begin_keeps [OF None q(1) this] q(2)
      show "Uncertain (tx_state (rn_tx ?r)) \<and> Allows d (tx_state (rn_tx ?r)) \<and> pd_id q = pd_id p" by simp
    qed
  qed
qed

text \<open>A positive reconciliation leaves the attempt as it was, with the denial as the last call.\<close>

lemma reconcile_unsubmitted:
  assumes run: "run_state (reconcile cx ev p) r = ((b, None), r')" and b: b
    and lg: "\<exists>m. rn_log r = m @ lg \<and> \<not> list_ex is_continue m"
  shows "proved_unsent lg p r' \<and> tx_state (rn_tx r') = (tx_state (rn_tx r))\<lparr>s_schema := Schema\<rparr> \<and>
         tx_scope (rn_tx r') = tx_scope (rn_tx r)"
proof -
  let ?s = "tx_state (rn_tx r)"
  let ?r1 = "r\<lparr>rn_log := CReconcile p # rn_log r\<rparr>"
  obtain turn found err w where rec: "ev_reconcile ev (s_scope ?s) p (rn_world r) = ((turn, found, err), w)"
    by (metis prod_cases3 surj_pair)
  have nb: "fst (fst (run_state (do { e \<leftarrow> book_receipt cx ev turn; finish (False, e) }) x)) = False" for x :: "('a, 'b) run" and e
    by (simp split: prod.split)
  have nh: "fst (fst (run_state (hold_unknown cx ev x) y)) = False" for x and y :: "('a, 'b) run"
    by (auto simp: hold_unknown_def split: prod.splits option.splits)
  have neither: "err = None \<and> \<not> found"
  proof (rule ccontr)
    assume "\<not> (err = None \<and> \<not> found)"
    then have "fst (fst (run_state (reconcile cx ev p) r)) = False"
      using nb nh by (cases err) (auto simp: reconcile_def ledger_state_def note_call_def ask_def rec split: prod.splits)
    with run b show False by simp
  qed
  obtain n w2 where nev: "ev_never ev (s_scope ?s) p w = (n, w2)" by fastforce
  have n: "n = Inr True"
  proof (rule ccontr)
    assume "n \<noteq> Inr True"
    then have "fst (fst (run_state (reconcile cx ev p) r)) = False"
      using nh neither by (cases n) (auto simp: reconcile_def ledger_state_def note_call_def ask_def rec nev)
    with run b show False by simp
  qed
  let ?t = "if s_cancelled ?s then ?s\<lparr>s_phase := ''cancelled'', s_pending := None\<rparr> else ?s"
  let ?r2 = "r\<lparr>rn_world := w2, rn_log := CNever p n # CReconcile p # rn_log r, rn_tx := (rn_tx r)\<lparr>tx_state := ?t\<rparr>\<rparr>"
  obtain e r3 where sv: "run_state (save_tx cx ev) ?r2 = (e, r3)" by fastforce
  have out: "(b, None) = (s_pending ?t \<noteq> None, e) \<and> r' = r3"
    using run neither n sv
    by (simp add: reconcile_def ledger_state_def note_call_def ask_def set_ledger_def rec nev split: if_splits)
  then have "\<not> s_cancelled ?s" and e: "e = None" using b by (auto split: if_splits)
  note ok = save_tx_ok [OF sv [unfolded e]]
  from lg obtain m where "rn_log r = m @ lg" "\<not> list_ex is_continue m" by blast
  with ok(3) out n have "proved_unsent lg p r'"
    unfolding proved_unsent_def by (intro exI [of _ "CReconcile p # m"]) simp
  with ok(1,5) out \<open>\<not> s_cancelled ?s\<close> show ?thesis by simp
qed

lemma preflight_None:
  assumes "run_state (preflight cx ev) r = (None, r')"
  shows "s_pending (tx_state (rn_tx r')) = s_pending (tx_state (rn_tx r)) \<and> s_phase (tx_state (rn_tx r')) = s_phase (tx_state (rn_tx r)) \<and>
         tx_scope (rn_tx r') = tx_scope (rn_tx r) \<and> rn_log r' = rn_log r"
proof -
  let ?s = "tx_state (rn_tx r)"
  have none: "snd (PreflightAccepted cx ?s) = None"
  proof (rule ccontr)
    assume "snd (PreflightAccepted cx ?s) \<noteq> None"
    with assms show False
      by (auto simp: preflight_def ledger_state_def set_ledger_def split: if_splits option.splits prod.splits)
  qed
  with assms have "r' = r\<lparr>rn_tx := (rn_tx r)\<lparr>tx_state := fst (PreflightAccepted cx ?s)\<rparr>\<rparr>"
    by (simp add: preflight_def ledger_state_def set_ledger_def)
  moreover have "s_pending (fst (PreflightAccepted cx ?s)) = s_pending ?s \<and> s_phase (fst (PreflightAccepted cx ?s)) = s_phase ?s"
    by (auto simp: PreflightAccepted_def Let_def split: option.splits prod.splits)
  ultimately show ?thesis by simp
qed


definition clean_since :: "'p call list \<Rightarrow> ('w, 'p) run \<Rightarrow> bool" where
  "clean_since lg r \<longleftrightarrow> (\<exists>m. rn_log r = m @ lg \<and> \<not> list_ex is_continue m)"

lemma clean_quiet: "clean_since lg r \<Longrightarrow> quiet r r' \<Longrightarrow> clean_since lg r'"
  unfolding clean_since_def quiet_def by (metis append.assoc list_ex_append)

lemma clean_sends: "clean_since lg r \<Longrightarrow> sends_once cx ev c lg (rn_log r)"
  by (auto simp: clean_since_def sends_once_def)

lemma unsent_clean: "proved_unsent lg q r \<Longrightarrow> clean_since lg r"
  unfolding proved_unsent_def clean_since_def by (metis append_Cons is_continue.simps(3) list_ex_iff set_ConsD)

lemma unsent_log: "proved_unsent lg q r \<Longrightarrow> rn_log r' = rn_log r \<Longrightarrow> proved_unsent lg q r'"
  by (simp add: proved_unsent_def)

text \<open>Reconcile, check, renew: the uncertain attempt.\<close>

lemma step_uncertain_ok:
  assumes run: "run_state (step_uncertain cx ev c p) r = (e, r')" and lg: "clean_since lg r"
    and scope: "tx_scope (rn_tx r) = c" and u: "Uncertain (tx_state (rn_tx r))" "s_pending (tx_state (rn_tx r)) = Some p"
  shows "sends_once cx ev c lg (rn_log r')"
proof -
  obtain b e1 r1 where rec: "run_state (reconcile cx ev p) r = ((b, e1), r1)" by (metis surj_pair)
  have c1: "clean_since lg r1" using lg steadyD [OF quiet_reconcile rec] by (rule clean_quiet)
  show ?thesis
  proof (cases "e1 = None \<and> b")
    case False
    with run rec have "r' = r1" by (auto simp: step_uncertain_def)
    then show ?thesis using clean_sends [OF c1] by simp
  next
    case True
    with rec have rec': "run_state (reconcile cx ev p) r = ((b, None), r1)" and b by auto
    note pos = reconcile_unsubmitted [OF rec' \<open>b\<close> lg [unfolded clean_since_def]]
    let ?s = "tx_state (rn_tx r1)"
    have s1: "Uncertain ?s" "s_pending ?s = Some p" "tx_scope (rn_tx r1) = c" "proved_unsent lg p r1"
      using pos u scope by auto
    obtain dr r2 where dec: "run_state (decision_for ev ?s) r1 = (dr, r2)" by fastforce
    have r2: "rn_tx r2 = rn_tx r1" "rn_log r2 = rn_log r1" and dd: "\<And>d. dr = Inr d \<Longrightarrow> decided ev d"
      using dec by (auto simp: decision_for_def ask_def decided_def split: if_splits prod.splits)
    show ?thesis
    proof (cases "\<exists>d. dr = Inr d \<and> Allows d ?s")
      case False
      have "quiet r2 r'"
      proof (cases dr)
        case (Inl x)
        with run rec' dec \<open>b\<close> have "r' = r2" by (simp add: step_uncertain_def ledger_state_def)
        then show ?thesis by (simp add: quiet_same_log)
      next
        case (Inr d)
        let ?m = "do { set_ledger ((Cancel ''disabled'' ?s)\<lparr>s_phase := ''cancelled''\<rparr>); save_tx cx ev }"
        from run rec' dec \<open>b\<close> Inr False have "run_state ?m r2 = (e, r')" by (simp add: step_uncertain_def ledger_state_def)
        moreover have "steady quiet ?m" by (intro quiet_rules)
        ultimately show ?thesis by (blast intro: steadyD)
      qed
      moreover have "clean_since lg r2" using c1 r2 by (simp add: clean_since_def)
      ultimately show ?thesis by (blast intro: clean_quiet clean_sends)
    next
      case True
      then obtain d where d: "dr = Inr d" "Allows d ?s" by blast
      obtain ce w where chk: "ev_check ev c (pd_snapshot p) (rn_world r2) = (ce, w)" by fastforce
      let ?r3 = "r2\<lparr>rn_world := w\<rparr>"
      have c3: "clean_since lg ?r3" using c1 r2 by (simp add: clean_since_def)
      show ?thesis
      proof (cases ce)
        case (Some x)
        with run rec' dec \<open>b\<close> d s1(2) chk have "run_state (hold_admission cx ev x) ?r3 = (e, r')"
          by (simp add: step_uncertain_def ledger_state_def ask_def)
        from clean_quiet [OF c3 steadyD [OF quiet_parts(1) this]] show ?thesis by (rule clean_sends)
      next
        case None
        obtain pe r4 where pf: "run_state (preflight cx ev) ?r3 = (pe, r4)" by fastforce
        have c4: "clean_since lg r4" using c3 steadyD [OF quiet_preflight pf] by (rule clean_quiet)
        show ?thesis
        proof (cases pe)
          case (Some x)
          with None run rec' dec \<open>b\<close> d s1(2) chk pf have "r' = r4"
            by (simp add: step_uncertain_def ledger_state_def ask_def)
          then show ?thesis using clean_sends [OF c4] by simp
        next
          case pe: None
          with None run rec' dec \<open>b\<close> d s1(2) chk pf have send: "run_state (renew_and_send cx ev d) r4 = (e, r')"
            by (simp add: step_uncertain_def ledger_state_def ask_def)
          from preflight_None [OF pf [unfolded pe]] r2 s1
          show ?thesis
            by (intro renew_and_send_ok [OF send unsent_log [OF s1(4)] _ dd [OF d(1)], where q' = p]) (auto simp: Uncertain_def)
        qed
      qed
    qed
  qed
qed

lemma step_due_ok:
  assumes run: "run_state (step_due cx ev c d p) r = (e, r')" and lg: "clean_since lg r"
    and scope: "tx_scope (rn_tx r) = c" and p: "s_pending (tx_state (rn_tx r)) = Some p" and d: "decided ev d"
  shows "sends_once cx ev c lg (rn_log r')"
proof -
  obtain ce w where chk: "ev_check ev c (pd_snapshot p) (rn_world r) = (ce, w)" by fastforce
  let ?r1 = "r\<lparr>rn_world := w\<rparr>"
  have c1: "clean_since lg ?r1" using lg by (simp add: clean_since_def)
  obtain b e1 r2 where rec: "run_state (reconcile cx ev p) ?r1 = ((b, e1), r2)" by (metis surj_pair)
  have c2: "clean_since lg r2" using c1 steadyD [OF quiet_reconcile rec] by (rule clean_quiet)
  obtain pe r3 where pf: "run_state (preflight cx ev) r2 = (pe, r3)" by fastforce
  have c3: "clean_since lg r3" using c2 steadyD [OF quiet_preflight pf] by (rule clean_quiet)
  consider (held) x where "ce = Some x" | (answered) "ce = None" "\<not> (e1 = None \<and> b)"
    | (full) x where "ce = None" "e1 = None" b "pe = Some x" | (send) "ce = None" "e1 = None" b "pe = None"
    by (cases ce; cases pe) auto
  then show ?thesis
  proof cases
    case (held x)
    with run chk have "run_state (hold_admission cx ev x) ?r1 = (e, r')" by (simp add: step_due_def ask_def)
    from clean_quiet [OF c1 steadyD [OF quiet_parts(1) this]] show ?thesis by (rule clean_sends)
  next
    case answered
    with run chk rec have "r' = r2" by (auto simp: step_due_def ask_def)
    then show ?thesis using clean_sends [OF c2] by simp
  next
    case (full x)
    with run chk rec pf have "r' = r3" by (simp add: step_due_def ask_def)
    then show ?thesis using clean_sends [OF c3] by simp
  next
    case send
    with rec have rec': "run_state (reconcile cx ev p) ?r1 = ((b, None), r2)" by simp
    note pos = reconcile_unsubmitted [OF rec' \<open>b\<close> c1 [unfolded clean_since_def]]
    from send run chk rec pf have "run_state (begin_and_send cx ev d) r3 = (e, r')" by (simp add: step_due_def ask_def)
    then show ?thesis
      using preflight_None [OF pf [unfolded send(4)]] pos p scope unsent_log [of lg p r2 r3] d
      by (intro begin_and_send_ok [of cx ev d r3 e r' lg p c p]) auto
  qed
qed


subsection \<open>The whole step\<close>

text \<open>A program after which the log has grown by at most one, justified, \<open>Continue\<close>.\<close>

definition sender :: "'p codec \<Rightarrow> ('w, 'p) env \<Rightarrow> scope \<Rightarrow> ('w, 'p, 'a) act \<Rightarrow> bool" where
  "sender cx ev c m \<longleftrightarrow>
     (\<forall>r e r' lg. run_state m r = (e, r') \<longrightarrow> tx_scope (rn_tx r) = c \<longrightarrow> clean_since lg r \<longrightarrow> sends_once cx ev c lg (rn_log r'))"

lemma sender_quiet: "steady quiet m \<Longrightarrow> sender cx ev c m"
  unfolding sender_def by (blast intro: clean_quiet clean_sends steadyD)

lemma sender_bind:
  assumes "steady quiet m" and "\<And>x r r1. run_state m r = (x, r1) \<Longrightarrow> sender cx ev c (f x)"
  shows "sender cx ev c (State_Monad.bind m f)"
  unfolding sender_def
proof (intro allI impI)
  fix r e r' lg
  assume run: "run_state (State_Monad.bind m f) r = (e, r')" and c: "tx_scope (rn_tx r) = c" and lg: "clean_since lg r"
  obtain x r1 where m: "run_state m r = (x, r1)" by fastforce
  from steadyD [OF assms(1) m] have q: "quiet r r1" .
  from run m have "run_state (f x) r1 = (e, r')" by simp
  moreover have "tx_scope (rn_tx r1) = c" using q c by (simp add: quiet_def)
  moreover have "clean_since lg r1" using lg q by (rule clean_quiet)
  ultimately show "sends_once cx ev c lg (rn_log r')" using assms(2) [OF m] by (auto simp: sender_def)
qed

lemma sender_cases:
  "(b \<Longrightarrow> sender cx ev c m) \<Longrightarrow> (\<not> b \<Longrightarrow> sender cx ev c n) \<Longrightarrow> sender cx ev c (if b then m else n)"
  "(x = None \<Longrightarrow> sender cx ev c m) \<Longrightarrow> (\<And>y. x = Some y \<Longrightarrow> sender cx ev c (f y)) \<Longrightarrow>
   sender cx ev c (case x of None \<Rightarrow> m | Some y \<Rightarrow> f y)"
  "(\<And>y. z = Inl y \<Longrightarrow> sender cx ev c (g y)) \<Longrightarrow> (\<And>y. z = Inr y \<Longrightarrow> sender cx ev c (h y)) \<Longrightarrow>
   sender cx ev c (case z of Inl y \<Rightarrow> g y | Inr y \<Rightarrow> h y)"
  by (auto split: option.split sum.split)

lemma sender_finish: "sender cx ev c (finish x)"
  by (rule sender_quiet) (rule steady_return [OF quiet_refl])

lemma sender_due:
  assumes "decided ev d" and "s_pending s = Some p"
  shows "sender cx ev c (do {
           now3 \<leftarrow> ask (ev_clock ev);
           set_ledger (snd (Now now3 s));
           if fst (Now now3 s) < s_deadline s then finish None else step_due cx ev c d p
         })"
  unfolding sender_def
proof (intro allI impI)
  fix r e r' lg
  assume run: "run_state (do {
           now3 \<leftarrow> ask (ev_clock ev);
           set_ledger (snd (Now now3 s));
           if fst (Now now3 s) < s_deadline s then finish None else step_due cx ev c d p
         }) r = (e, r')" and c: "tx_scope (rn_tx r) = c" and lg: "clean_since lg r"
  obtain now w where now: "ev_clock ev (rn_world r) = (now, w)" by fastforce
  let ?r = "r\<lparr>rn_world := w, rn_tx := (rn_tx r)\<lparr>tx_state := snd (Now now s)\<rparr>\<rparr>"
  have c1: "clean_since lg ?r" using lg by (simp add: clean_since_def)
  show "sends_once cx ev c lg (rn_log r')"
  proof (cases "fst (Now now s) < s_deadline s")
    case True
    with run now have "r' = ?r" by (simp add: ask_def set_ledger_def)
    then show ?thesis using clean_sends [OF c1] by simp
  next
    case False
    with run now have "run_state (step_due cx ev c d p) ?r = (e, r')" by (simp add: ask_def set_ledger_def)
    then show ?thesis by (rule step_due_ok [OF _ c1 _ _ assms(1)]) (simp_all add: c assms(2) Now_eq)
  qed
qed

lemmas sender_rules = sender_bind sender_cases sender_finish quiet_prims

lemma sender_schedule: "decided ev d \<Longrightarrow> sender cx ev c (step_schedule cx ev c d ob)"
  unfolding step_schedule_def by (intro sender_due sender_rules)

lemma sender_prove: "decided ev d \<Longrightarrow> sender cx ev c (step_prove cx ev c d ob)"
  unfolding step_prove_def by (intro sender_rules sender_schedule sender_quiet [OF quiet_parts(4)])

lemma sender_observed: "decided ev d \<Longrightarrow> sender cx ev c (step_observed cx ev c d ob)"
  unfolding step_observed_def by (intro sender_rules sender_prove sender_quiet [OF quiet_parts(4)])

lemma sender_settled: "decided ev d \<Longrightarrow> sender cx ev c (step_settled cx ev c d)"
  unfolding step_settled_def
  by (intro sender_rules sender_observed sender_quiet [OF quiet_parts(3)] steady_if steady_return [OF quiet_refl])

lemma decision_decided: "run_state (decision_for ev s) r = (Inr d, r1) \<Longrightarrow> decided ev d"
  by (auto simp: decision_for_def ask_def decided_def split: if_splits prod.splits)


lemma sender_locked: "sender cx ev c (step_locked cx ev c)"
  unfolding sender_def
proof (intro allI impI)
  fix r e r' lg
  assume run: "run_state (step_locked cx ev c) r = (e, r')" and c: "tx_scope (rn_tx r) = c" and lg: "clean_since lg r"
  obtain be r1 where cb: "run_state (checkBoundary cx ev) r = (be, r1)" by fastforce
  from steadyD [OF quiet_checkBoundary cb] have q: "quiet r r1" .
  have c1: "clean_since lg r1" using lg q by (rule clean_quiet)
  have sc1: "tx_scope (rn_tx r1) = c" using q c by (simp add: quiet_def)
  let ?s = "tx_state (rn_tx r1)"
  show "sends_once cx ev c lg (rn_log r')"
  proof (cases be)
    case (Some x)
    with run cb have "r' = r1" by (simp add: step_locked_def)
    then show ?thesis using clean_sends [OF c1] by simp
  next
    case None
    show ?thesis
    proof (cases "if Uncertain ?s then s_pending ?s else None")
      case (Some p)
      with None run cb have "run_state (step_uncertain cx ev c p) r1 = (e, r')"
        by (simp add: step_locked_def ledger_state_def)
      then show ?thesis by (rule step_uncertain_ok [OF _ c1 sc1]) (use Some in \<open>auto split: if_splits\<close>)
    next
      case calm: None
      let ?m = "do { dr \<leftarrow> decision_for ev ?s;
             case dr of
               Inl x \<Rightarrow> finish (Some x)
             | Inr d \<Rightarrow> do {
                 now \<leftarrow> ask (ev_clock ev);
                 ke \<leftarrow> ask (ev_checkpoint ev ?s None now False);
                 case ke of
                   Some x \<Rightarrow> finish (Some x)
                 | None \<Rightarrow> do {
                     se \<leftarrow> stop_disallowed cx ev d;
                     case se of Some x \<Rightarrow> finish (Some x) | None \<Rightarrow> step_settled cx ev c d
                   }
               } }"
      from None calm run cb have "run_state ?m r1 = (e, r')" by (simp add: step_locked_def ledger_state_def)
      moreover have "sender cx ev c ?m"
        by (intro sender_rules quiet_parts sender_settled) (auto dest: decision_decided)
      ultimately show ?thesis using c1 sc1 by (simp add: sender_def)
    qed
  qed
qed

lemma Lock_scope: "Lock cx st c io disk = Some (Inr t, d) \<Longrightarrow> tx_scope t = c"
  by (auto simp: Lock_def lock_def Let_def split: if_splits option.splits sum.splits prod.splits dest!: Save_scope)

text \<open>
  C1. One \<open>Step\<close> sends at most one continuation, and only a justified one: the attempt is durable as
  an unanswered submission of a valid ledger, its settings and quota were saved first, the policy
  authority allows it (so it is neither cancelled nor suppressed), and the backend has just given
  positive proof that the same attempt was never submitted. No backend, policy, clock or file
  system behaviour makes it send otherwise.
\<close>

theorem Step_sends_at_most_once:
  "Step cx st ev c (w, disk, lg) = Some (e, w', disk', lg') \<Longrightarrow> sends_once cx ev c lg lg'"
proof -
  assume "Step cx st ev c (w, disk, lg) = Some (e, w', disk', lg')"
  then consider "lg' = lg" | w1 io t d r where "Lock cx st c io disk = Some (Inr t, d)"
      "run_state (step_locked cx ev c) (locked_run w1 t d lg) = (e, r)" "lg' = rn_log r"
    by (auto simp: Step_def with_lock_def split: prod.splits option.splits sum.splits)
  then show ?thesis
  proof cases
    case 1
    then show ?thesis by (simp add: sends_once_def)
  next
    case (2 w1 io t d r)
    have "tx_scope (rn_tx (locked_run w1 t d lg)) = c" using Lock_scope [OF 2(1)] by (simp add: locked_run_def)
    moreover have "clean_since lg (locked_run w1 t d lg)" by (simp add: clean_since_def locked_run_def)
    ultimately show ?thesis using sender_locked [of cx ev c] 2(2,3) by (simp add: sender_def)
  qed
qed


subsection \<open>Sample runs\<close>

definition sample_store :: store where
  "sample_store = \<lparr>st_root = ''/r'', st_workspace = ''/w''\<rparr>"

definition sample_lock_io :: "unit lock_io" where
  "sample_lock_io = \<lparr>li_ctx = None, li_mkdir = None, li_dir_ok = True, li_openlock = None, li_flock = [WouldBlock None, Acquired],
     li_view = plain_view ''record'' sample_owner, li_guard = None, li_guard_flock = None, li_entries = Inr 1, li_save = io_success\<rparr>"

definition sample_failure :: observation where
  "sample_failure = \<lparr>o_turn = ''turn-1'', o_status = ''failed'', o_code = ''serverOverloaded''\<rparr>"

definition sample_env :: "(unit, unit) env" where
  "sample_env =
     \<lparr>ev_observe = (\<lambda>_ w. (Inr sample_failure, w)), ev_boundary = (\<lambda>_ w. (Inr ''i'', w)),
      ev_advance = (\<lambda>_ _ x w. ((None, x), w)), ev_prove = (\<lambda>_ _ s w. ((None, s), w)), ev_check = (\<lambda>_ _ w. (None, w)),
      ev_reconcile = (\<lambda>_ _ w. (([], False, None), w)), ev_continue = (\<lambda>_ _ w. (Inr ''turn-2'', w)),
      ev_never = (\<lambda>_ _ w. (Inr True, w)), ev_policy = True, ev_decide = (\<lambda>_ w. (Inr sample_decision, w)),
      ev_checkpoint = (\<lambda>_ _ _ _ w. (None, w)), ev_clock = (\<lambda>w. (2000, w)), ev_random = (\<lambda>w. (0, w)),
      ev_entropy = (\<lambda>w. (Inr (replicate 16 0), w)), ev_lock = (\<lambda>w. (sample_lock_io, w)),
      ev_load = (\<lambda>w. (plain_view ''record'' sample_owner, w)), ev_replace = (\<lambda>w. (io_success, w))\<rparr>"


text \<open>
  A submission whose outcome is unknown: the step proves that it never happened, renews the attempt, saves it,
  sends it and books the receipt.
\<close>

definition uncertain_owner :: "unit rstate" where "uncertain_owner = sample_owner\<lparr>s_phase := ''submitting''\<rparr>"

definition uncertain_env :: "(unit, unit) env" where
  "uncertain_env = sample_env\<lparr>ev_lock := (\<lambda>w. (sample_lock_io\<lparr>li_view := plain_view ''record'' uncertain_owner\<rparr>, w))\<rparr>"

theorem Step_sends_at_most_once_witness:
  "\<exists>e w d lg. Step sample_codec sample_store uncertain_env sample_scope ((), Some uncertain_owner, []) = Some (e, w, d, lg) \<and>
     list_ex is_continue lg \<and> map_option s_phase d = Some ''running'' \<and>
     sends_once sample_codec uncertain_env sample_scope [] lg"
proof -
  have "case Step sample_codec sample_store uncertain_env sample_scope ((), Some uncertain_owner, []) of
          Some (e, w, d, lg) \<Rightarrow> e = None \<and> list_ex is_continue lg \<and> map_option s_phase d = Some ''running'' | None \<Rightarrow> False"
    by code_simp
  then obtain e w d lg where r: "Step sample_codec sample_store uncertain_env sample_scope ((), Some uncertain_owner, []) = Some (e, w, d, lg)"
    and "list_ex is_continue lg" "map_option s_phase d = Some ''running''"
    by (auto split: option.splits)
  then show ?thesis using Step_sends_at_most_once [OF r] by blast
qed

text \<open>An attempt whose outcome is unknown and which the backend now reports as never submitted.\<close>

theorem ReconcileOnly_never_sends_witness:
  "\<exists>e w d lg m. ReconcileOnly sample_codec sample_store
       uncertain_env
       sample_scope ((), Some sample_owner, []) = Some (e, w, d, lg) \<and>
     length lg = 2 \<and> lg = m @ [] \<and> \<not> list_ex is_continue m" (is "\<exists>e w d lg m. ?run = Some (e, w, d, lg) \<and> _")
proof -
  have "case ?run of Some (e, w, d, lg) \<Rightarrow> length lg = 2 | None \<Rightarrow> False"
    by code_simp
  then obtain e w d lg where r: "?run = Some (e, w, d, lg)" and "length lg = 2"
    by (auto split: option.splits)
  then show ?thesis using ReconcileOnly_never_sends [OF r] by auto
qed


end
