(* ===== verification/Retry_Lifecycle.thy ===== *)
theory Retry_Lifecycle
  imports Retry_Controller
begin

text \<open>
  \<open>Store.CancelSession\<close> of \<open>portal/internal/turnretry/store.go\<close>: a stopped or archived session
  cancels every retry record it has.
\<close>

subsection \<open>Cancelling the records of a session\<close>

text \<open>Recovering the receipt of an uncertain attempt, when a backend is at hand.\<close>

definition cancel_reconcile :: "'p codec \<Rightarrow> ('w, 'p) env \<Rightarrow> scope \<Rightarrow> 'p rstate \<Rightarrow> 'p pending \<Rightarrow> ('w, 'p, error option) act" where
  "cancel_reconcile cx ev c s p = do {
     r \<leftarrow> ask (ev_reconcile ev c p);
     case r of (turn, found, err) \<Rightarrow>
       if err = None \<and> found then do {
         now \<leftarrow> ask (ev_clock ev);
         set_ledger (fst (Accepted cx turn now s));
         finish (snd (Accepted cx turn now s))
       }
       else if err = None then do {
         n \<leftarrow> ask (ev_never ev c p);
         set_ledger (if n = Inr True then s\<lparr>s_phase := ''cancelled'', s_pending := None\<rparr> else s);
         finish None
       }
       else finish None
   }"

definition cancel_locked :: "'p codec \<Rightarrow> bool \<Rightarrow> ('w, 'p) env \<Rightarrow> scope \<Rightarrow> ('w, 'p, error option \<times> bool) act" where
  "cancel_locked cx backend ev c = do {
     s0 \<leftarrow> ledger_state;
     set_ledger ((Cancel ''lifecycle'' s0)\<lparr>s_binding := None, s_managed := None\<rparr>);
     s \<leftarrow> ledger_state;
     e \<leftarrow> (case (if Uncertain s \<and> backend then s_pending s else None) of
             None \<Rightarrow> finish None
           | Some p \<Rightarrow> cancel_reconcile cx ev c s p);
     case e of
       Some x \<Rightarrow> finish (Some x, False)
     | None \<Rightarrow> do {
         se \<leftarrow> save_tx cx ev;
         u \<leftarrow> ledger_state;
         finish (se, Uncertain u)
       }
   }"

text \<open>
  The loop over the session's record files: each header is the scope the file names (\<open>Inl\<close>: reading
  failed; \<open>None\<close>: no JSON object). The result keeps the last unresolved submission as the error.
\<close>

fun cancel_records ::
  "'p codec \<Rightarrow> store \<Rightarrow> bool \<Rightarrow> ('w, 'p) env \<Rightarrow> string \<Rightarrow> string \<Rightarrow> string \<Rightarrow> (error + scope option) list \<Rightarrow> error option
   \<Rightarrow> 'w \<Rightarrow> (scope \<Rightarrow> 'p rstate option) \<Rightarrow> (error option \<times> 'w \<times> (scope \<Rightarrow> 'p rstate option)) option" where
  "cancel_records cx st backend ev slug sroot socket [] unresolved w disks = Some (unresolved, w, disks)"
| "cancel_records cx st backend ev slug sroot socket (h # hs) unresolved w disks =
     (case h of
        Inl e \<Rightarrow> Some (Some e, w, disks)
      | Inr None \<Rightarrow> Some (Some (Err ''retry session identity changed''), w, disks)
      | Inr (Some c) \<Rightarrow>
          if sc_slug c \<noteq> slug \<or> sc_root c \<noteq> sroot \<or> sc_socket c \<noteq> socket
          then Some (Some (Err ''retry session identity changed''), w, disks)
          else (case ev_lock ev w of (io, w1) \<Rightarrow>
                case Lock cx st c io (disks c) of
                  None \<Rightarrow> None
                | Some (Inl e, d) \<Rightarrow> Some (Some e, w1, disks(c := d))
                | Some (Inr t, d) \<Rightarrow>
                    (case run_state (cancel_locked cx backend ev c) (locked_run w1 t d []) of
                       ((Some e, _), r) \<Rightarrow> Some (Some e, rn_world r, disks(c := rn_disk r))
                     | ((None, uncertain), r) \<Rightarrow>
                         cancel_records cx st backend ev slug sroot socket hs
                           (if uncertain then Some (ErrWrap (sc_thread c) (Err ''unresolved automatic submission'')) else unresolved)
                           (rn_world r) (disks(c := rn_disk r)))))"

definition CancelSession ::
  "'p codec \<Rightarrow> store \<Rightarrow> bool \<Rightarrow> ('w, 'p) env \<Rightarrow> string \<Rightarrow> string \<Rightarrow> string \<Rightarrow> error + (error + scope option) list
   \<Rightarrow> 'w \<Rightarrow> (scope \<Rightarrow> 'p rstate option) \<Rightarrow> (error option \<times> 'w \<times> (scope \<Rightarrow> 'p rstate option)) option" where
  "CancelSession cx st backend ev slug sroot socket paths w disks =
     (case paths of
        Inl e \<Rightarrow> Some (Some e, w, disks)
      | Inr hs \<Rightarrow> cancel_records cx st backend ev slug sroot socket hs None w disks)"


definition lifecycle_cancelled :: "'p rstate option \<Rightarrow> bool" where
  "lifecycle_cancelled d \<longleftrightarrow> (\<exists>u. d = Some u \<and> s_cancelled u \<and> s_binding u = None \<and> s_managed u = None)"

lemma settle_result_keeps:
  "s_cancelled s \<Longrightarrow> s_cancelled (fst (settle_result cx turn s))"
  "s_binding (fst (settle_result cx turn s)) = s_binding s \<and> s_managed (fst (settle_result cx turn s)) = s_managed s"
proof -
  have keep: "s_cancelled t = s_cancelled u \<and> s_binding t = s_binding u \<and> s_managed t = s_managed u"
    if "RetainSnapshot cx snap ct u = (t, e)" for snap ct u t e
  proof -
    have "\<exists>xs. t = u\<lparr>s_snapshots := xs\<rparr>"
    proof (cases e)
      case None
      then show ?thesis using that retainSnapshot_ok(1) [of cx snap ct True 0 u t] by (auto simp: RetainSnapshot_def)
    next
      case (Some x)
      then have "t = u\<lparr>s_snapshots := s_snapshots u\<rparr>"
        using that retainSnapshot_error [of cx snap ct True 0 u t x] by (simp add: RetainSnapshot_def)
      then show ?thesis by blast
    qed
    then show ?thesis by auto
  qed
  show "s_cancelled s \<Longrightarrow> s_cancelled (fst (settle_result cx turn s))"
    and "s_binding (fst (settle_result cx turn s)) = s_binding s \<and> s_managed (fst (settle_result cx turn s)) = s_managed s"
    by (auto simp: settle_result_def Let_def SuppressTurn_def dest: keep split: option.splits prod.splits)
qed

lemma accept_charges_keeps:
  "accept_charges i now cs s = (ds, t, found) \<Longrightarrow>
     s_cancelled t = s_cancelled s \<and> s_binding t = s_binding s \<and> s_managed t = s_managed s"
proof (induction cs arbitrary: s ds t found)
  case Nil
  then show ?case by simp
next
  case (Cons c cs)
  then show ?case by (fastforce simp: Now_eq split: if_splits prod.splits)
qed

lemma Accepted_keeps:
  assumes "s_cancelled s" "s_binding s = None" "s_managed s = None"
  shows "s_cancelled (fst (Accepted cx turn now s)) \<and> s_binding (fst (Accepted cx turn now s)) = None \<and>
         s_managed (fst (Accepted cx turn now s)) = None"
proof (cases "s_pending s")
  case None
  with assms show ?thesis by (simp add: Accepted_def)
next
  case (Some p)
  obtain cs t found where r: "accept_charges (pd_id p) now (s_cyber s) s = (cs, t, found)" by (metis prod_cases3)
  from accept_charges_keeps [OF r] assms
  have t: "s_cancelled (t\<lparr>s_cyber := cs\<rparr>)" "s_binding (t\<lparr>s_cyber := cs\<rparr>) = None" "s_managed (t\<lparr>s_cyber := cs\<rparr>) = None" by simp_all
  show ?thesis
    using assms t settle_result_keeps(1) [of s cx turn] settle_result_keeps(2) [of cx turn s]
      settle_result_keeps(1) [of "t\<lparr>s_cyber := cs\<rparr>" cx turn] settle_result_keeps(2) [of cx turn "t\<lparr>s_cyber := cs\<rparr>"]
    by (simp add: Accepted_def Some r Let_def)
qed


lemma triple_ask: "(\<And>x w r. P r \<Longrightarrow> Q x (r\<lparr>rn_world := w\<rparr>)) \<Longrightarrow> triple P (ask f) Q"
  by (auto simp: triple_def ask_def split: prod.splits)

lemma triple_set_ledger: "(\<And>r. P r \<Longrightarrow> Q () (r\<lparr>rn_tx := (rn_tx r)\<lparr>tx_state := s\<rparr>\<rparr>)) \<Longrightarrow> triple P (set_ledger s) Q"
  by (auto simp: triple_def set_ledger_def)

lemma run_ledger_state: "run_state ledger_state r = (tx_state (rn_tx r), r)"
  by (simp add: ledger_state_def)

lemma run_set_ledger: "run_state (set_ledger s) r = ((), r\<lparr>rn_tx := (rn_tx r)\<lparr>tx_state := s\<rparr>\<rparr>)"
  by (simp add: set_ledger_def)

definition unbound_cancelled :: "'p rstate \<Rightarrow> bool" where
  "unbound_cancelled s \<longleftrightarrow> s_cancelled s \<and> s_binding s = None \<and> s_managed s = None"

lemma cancel_reconcile_keeps:
  assumes s: "unbound_cancelled s"
  shows "triple (\<lambda>r. tx_state (rn_tx r) = s) (cancel_reconcile cx ev c s p) (\<lambda>_ r. unbound_cancelled (tx_state (rn_tx r)))"
proof -
  let ?P = "\<lambda>r. tx_state (rn_tx r) = s"
  have acc: "unbound_cancelled (fst (Accepted cx turn now s))" for turn now
    using s Accepted_keeps [of s cx turn now] by (simp add: unbound_cancelled_def)
  show ?thesis
    unfolding cancel_reconcile_def
    by (rule triple_bind [where R = "\<lambda>_. ?P"], rule triple_ask, simp, intro triple_cases)
       (rule triple_bind [where R = "\<lambda>_. ?P"], rule triple_ask, simp,
        rule triple_bind [where R = "\<lambda>_ r. unbound_cancelled (tx_state (rn_tx r))"], rule triple_set_ledger,
        simp add: acc, rule triple_return, simp,
        rule triple_bind [where R = "\<lambda>_. ?P"], rule triple_ask, simp,
        rule triple_bind [where R = "\<lambda>_ r. unbound_cancelled (tx_state (rn_tx r))"], rule triple_set_ledger,
        use s in \<open>simp add: unbound_cancelled_def\<close>, rule triple_return, simp, rule triple_return, use s in simp)
qed

lemma cancel_locked_done:
  assumes run: "run_state (cancel_locked cx backend ev c) r = ((None, unc), r')"
  shows "lifecycle_cancelled (rn_disk r') \<and> (unc \<longleftrightarrow> (\<exists>u. rn_disk r' = Some u \<and> Uncertain u))"
proof -
  let ?s = "(Cancel ''lifecycle'' (tx_state (rn_tx r)))\<lparr>s_binding := None, s_managed := None\<rparr>"
  let ?r = "r\<lparr>rn_tx := (rn_tx r)\<lparr>tx_state := ?s\<rparr>\<rparr>"
  let ?m = "case (if Uncertain ?s \<and> backend then s_pending ?s else None) of None \<Rightarrow> finish None
            | Some p \<Rightarrow> cancel_reconcile cx ev c ?s p"
  have base: "unbound_cancelled ?s" by (simp add: unbound_cancelled_def Cancel_fields)
  obtain e r1 where m: "run_state ?m ?r = (e, r1)" by fastforce
  have "triple (\<lambda>r. tx_state (rn_tx r) = ?s) ?m (\<lambda>_ r. unbound_cancelled (tx_state (rn_tx r)))"
    using base by (intro triple_cases triple_return cancel_reconcile_keeps) auto
  from tripleD [OF this _ m] have r1: "unbound_cancelled (tx_state (rn_tx r1))" by simp
  have tx: "tx_state (rn_tx ?r) = ?s" by simp
  have step: "run_state (cancel_locked cx backend ev c) r =
      run_state (case e of Some x \<Rightarrow> finish (Some x, False)
        | None \<Rightarrow> do { se \<leftarrow> save_tx cx ev; u \<leftarrow> ledger_state; finish (se, Uncertain u) }) r1"
    unfolding cancel_locked_def run_state_bind run_ledger_state run_set_ledger prod.case
    by (simp only: tx m prod.case)
  obtain x r2 where s1: "run_state (save_tx cx ev) r1 = (x, r2)" by fastforce
  have "e = None" using run unfolding step by (cases e) simp_all
  then have "((x, Uncertain (tx_state (rn_tx r2))), r2) = ((None, unc), r')"
    using run unfolding step by (auto simp: s1 run_ledger_state)
  then have s2: "run_state (save_tx cx ev) r1 = (None, r2)" and u: "unc = Uncertain (tx_state (rn_tx r2))" "r' = r2"
    using s1 by auto
  note ok = save_tx_ok [OF s2]
  from ok(1) r1 have "unbound_cancelled (tx_state (rn_tx r2))" by (simp add: unbound_cancelled_def)
  with ok(2) u show ?thesis by (simp add: lifecycle_cancelled_def unbound_cancelled_def)
qed

lemma cancel_records_done:
  "cancel_records cx st backend ev slug sroot socket hs unresolved w disks = Some (None, w', disks') \<Longrightarrow>
   unresolved = None \<and> (\<forall>c. lifecycle_cancelled (disks c) \<and> \<not> (\<exists>u. disks c = Some u \<and> Uncertain u) \<or> Inr (Some c) \<in> set hs \<longrightarrow>
      lifecycle_cancelled (disks' c) \<and> \<not> (\<exists>u. disks' c = Some u \<and> Uncertain u)) \<and>
   (\<forall>h \<in> set hs. \<exists>c. h = Inr (Some c) \<and> sc_slug c = slug \<and> sc_root c = sroot \<and> sc_socket c = socket)"
proof (induction hs arbitrary: unresolved w disks)
  case Nil
  then show ?case by simp
next
  case (Cons h hs)
  from Cons.prems obtain c io w1 t d unc r where h: "h = Inr (Some c)" "sc_slug c = slug" "sc_root c = sroot" "sc_socket c = socket"
    and run: "run_state (cancel_locked cx backend ev c) (locked_run w1 t d []) = ((None, unc), r)"
    and rest: "cancel_records cx st backend ev slug sroot socket hs
        (if unc then Some (ErrWrap (sc_thread c) (Err ''unresolved automatic submission'')) else unresolved)
        (rn_world r) (disks(c := rn_disk r)) = Some (None, w', disks')"
    by (auto split: sum.splits option.splits prod.splits if_splits)
  note ih = Cons.IH [OF rest]
  from ih have unc: "\<not> unc" "unresolved = None" by (auto split: if_splits)
  from cancel_locked_done [OF run] unc have fin: "lifecycle_cancelled (rn_disk r)" "\<not> (\<exists>u. rn_disk r = Some u \<and> Uncertain u)"
    by auto
  have "lifecycle_cancelled (disks' x) \<and> \<not> (\<exists>u. disks' x = Some u \<and> Uncertain u)"
    if "lifecycle_cancelled (disks x) \<and> \<not> (\<exists>u. disks x = Some u \<and> Uncertain u) \<or> Inr (Some x) \<in> set (h # hs)" for x
  proof -
    have "lifecycle_cancelled ((disks(c := rn_disk r)) x) \<and> \<not> (\<exists>u. (disks(c := rn_disk r)) x = Some u \<and> Uncertain u) \<or>
        Inr (Some x) \<in> set hs"
      using that fin h(1) by (cases "x = c") auto
    then show ?thesis using ih by blast
  qed
  with ih unc(2) h show ?case by (metis set_ConsD)
qed

text \<open>
  C24. When cancelling a session's records succeeds, every record the session has is durably
  cancelled, unbound from its loaded settings, and holds no submission of unknown outcome; a record
  that names another slug, root or socket makes it fail.
\<close>

theorem CancelSession_cancels:
  assumes "CancelSession cx st backend ev slug sroot socket (Inr hs) w disks = Some (None, w', disks')"
    and "h \<in> set hs"
  shows "\<exists>c u. h = Inr (Some c) \<and> sc_slug c = slug \<and> sc_root c = sroot \<and> sc_socket c = socket \<and>
           disks' c = Some u \<and> s_cancelled u \<and> s_binding u = None \<and> s_managed u = None \<and> \<not> Uncertain u"
proof -
  from assms(1) have "cancel_records cx st backend ev slug sroot socket hs None w disks = Some (None, w', disks')"
    by (simp add: CancelSession_def)
  note r = cancel_records_done [OF this]
  with assms(2) obtain c where c: "h = Inr (Some c)" "sc_slug c = slug" "sc_root c = sroot" "sc_socket c = socket" by blast
  with assms(2) r have "lifecycle_cancelled (disks' c)" "\<not> (\<exists>u. disks' c = Some u \<and> Uncertain u)" by auto
  with c show ?thesis by (auto simp: lifecycle_cancelled_def)
qed

theorem CancelSession_cancels_witness:
  "\<exists>w d. CancelSession sample_codec sample_store False sample_env ''s'' ''r'' ''/k'' (Inr [Inr (Some sample_scope)]) ()
       (\<lambda>_. Some sample_owner) = Some (None, w, d) \<and> \<not> s_cancelled sample_owner \<and>
     (\<exists>u. d sample_scope = Some u \<and> s_cancelled u)"
proof -
  let ?run = "CancelSession sample_codec sample_store False sample_env ''s'' ''r'' ''/k'' (Inr [Inr (Some sample_scope)]) ()
       (\<lambda>_. Some sample_owner)"
  have "case ?run of Some (None, w, d) \<Rightarrow> True | _ \<Rightarrow> False"
    by code_simp
  then obtain w d where r: "?run = Some (None, w, d)"
    by (auto split: option.splits)
  from CancelSession_cancels [OF r, of "Inr (Some sample_scope)"] have "\<exists>u. d sample_scope = Some u \<and> s_cancelled u" by auto
  moreover have "\<not> s_cancelled sample_owner" by (simp add: sample_owner_def New_def)
  ultimately show ?thesis using r by blast
qed

end
