(* ===== verification/Session_Base.thy ===== *)
theory Session_Base
  imports Go_Files Go_Json
begin

text \<open>
  What the parts of \<open>portal/internal/session\<close> share: the names and coordinates a session is known by
  (\<open>manifest.go\<close>: \<open>ValidSlug\<close>, \<open>validSocketPath\<close>, \<open>clientVersionPattern\<close>), the strict reading of YAML
  and JSON files, and the values of \<open>runtime-contract.json\<close> that the package projects (\<open>contract.go\<close>).
\<close>

subsection \<open>Names\<close>

definition alnum :: "char \<Rightarrow> bool" where
  "alnum c \<longleftrightarrow> (let b = byte_of c in 48 \<le> b \<and> b \<le> 57 \<or> 65 \<le> b \<and> b \<le> 90 \<or> 97 \<le> b \<and> b \<le> 122)"

definition digit :: "char \<Rightarrow> bool" where
  "digit c \<longleftrightarrow> (let b = byte_of c in 48 \<le> b \<and> b \<le> 57)"

text \<open>\<open>slugPattern\<close>.\<close>

definition ValidSlug :: "string \<Rightarrow> bool" where
  "ValidSlug s = (case s of [] \<Rightarrow> False | c # cs \<Rightarrow> alnum c \<and> list_all (\<lambda>x. alnum x \<or> x = CHR ''_'' \<or> x = CHR ''-'') cs)"

definition socketPathPattern :: "string \<Rightarrow> bool" where
  "socketPathPattern s = (case s of [] \<Rightarrow> False | c # cs \<Rightarrow> c = CHR ''/'' \<and> cs \<noteq> [] \<and> list_all (\<lambda>x. alnum x \<or> x \<in> set ''._/-'') cs)"

definition validSocketPath :: "string \<Rightarrow> bool" where
  "validSocketPath p \<longleftrightarrow> length p \<le> 4096 \<and> socketPathPattern p \<and> Clean p = p"

definition clientVersionPattern :: "string \<Rightarrow> bool" where
  "clientVersionPattern s =
     (case s of [] \<Rightarrow> False | c # cs \<Rightarrow> alnum c \<and> length cs \<le> 127 \<and> list_all (\<lambda>x. alnum x \<or> x \<in> set ''._+-'') cs)"

definition isLowerHex :: "string \<Rightarrow> nat \<Rightarrow> bool" where
  "isLowerHex v n \<longleftrightarrow> length v = n \<and> list_all lower_hex v"

definition TrimSuffix :: "string \<Rightarrow> string \<Rightarrow> string" where
  "TrimSuffix s sfx = (if HasSuffix s sfx then take (length s - length sfx) s else s)"

text \<open>The UUID pattern of \<open>service_cleanup.go\<close>.\<close>

definition serviceCleanupUUID :: "string \<Rightarrow> bool" where
  "serviceCleanupUUID v =
     (case split_on (CHR ''-'') v of
        [a, b, c, d, e] \<Rightarrow> isLowerHex a 8 \<and> isLowerHex b 4 \<and> isLowerHex c 4 \<and> isLowerHex d 4 \<and> isLowerHex e 12
      | _ \<Rightarrow> False)"

definition validLifecycleJournalID :: "string \<Rightarrow> bool" where
  "validLifecycleJournalID v \<longleftrightarrow> length v = 64 \<and> list_all lower_hex v"

definition nl :: string where "nl = [CHR 0x0A]"

subsection \<open>Strict YAML\<close>

fun first_key_error :: "string list \<Rightarrow> yaml list \<Rightarrow> error option" where
  "first_key_error seen [] = None"
| "first_key_error seen (k # ks) =
     (if y_kind k \<noteq> ScalarNode \<or> y_tag k \<noteq> ''!!str'' then Some (Err ''mapping keys must be strings'')
      else if y_value k \<in> set seen then Some (Err (''duplicate mapping key '' @ y_value k))
      else first_key_error (y_value k # seen) ks)"

fun rejectAliasesAndDuplicateKeys :: "yaml \<Rightarrow> error option" where
  "rejectAliasesAndDuplicateKeys (YNode k tagged tag v content) =
     (if k = AliasNode then Some (Err ''YAML aliases are not supported'')
      else if tagged then Some (Err ''explicit YAML tags are not supported'')
      else case (if k = MappingNode then first_key_error [] (evens content) else None) of
        Some e \<Rightarrow> Some e
      | None \<Rightarrow> first_error (map rejectAliasesAndDuplicateKeys content))"

text \<open>The nodes of a tree; a tree that is accepted has no alias, no tag and no repeated key anywhere.\<close>

fun nodes :: "yaml \<Rightarrow> yaml set" where
  "nodes (YNode k t g v content) = insert (YNode k t g v content) (\<Union> (set (map nodes content)))"

definition plain_node :: "yaml \<Rightarrow> bool" where
  "plain_node n \<longleftrightarrow> y_kind n \<noteq> AliasNode \<and> \<not> y_tagged n \<and>
     (y_kind n = MappingNode \<longrightarrow>
        distinct (map y_value (evens (y_content n))) \<and>
        list_all (\<lambda>k. y_kind k = ScalarNode \<and> y_tag k = ''!!str'') (evens (y_content n)))"

lemma first_key_error_None:
  "first_key_error seen ks = None \<longleftrightarrow>
     list_all (\<lambda>k. y_kind k = ScalarNode \<and> y_tag k = ''!!str'' \<and> y_value k \<notin> set seen) ks \<and> distinct (map y_value ks)"
proof (induction ks arbitrary: seen)
  case (Cons k ks)
  show ?case by (auto simp: Cons.IH list_all_iff image_iff)
qed simp

text \<open>The walk accepts exactly the trees whose every node is plain.\<close>

lemma strict_yaml_accepts: "rejectAliasesAndDuplicateKeys n = None \<longleftrightarrow> (\<forall>m \<in> nodes n. plain_node m)"
proof (induction n rule: rejectAliasesAndDuplicateKeys.induct)
  case (1 k tagged tag v content)
  show ?case
  proof (cases "k = AliasNode \<or> tagged \<or> (k = MappingNode \<and> first_key_error [] (evens content) \<noteq> None)")
    case True
    then show ?thesis
      by (auto simp: plain_node_def first_key_error_None list_all_iff split: option.splits)
  next
    case False
    then have "rejectAliasesAndDuplicateKeys (YNode k tagged tag v content) = first_error (map rejectAliasesAndDuplicateKeys content)"
      by auto
    moreover have "plain_node (YNode k tagged tag v content)"
      using False by (auto simp: plain_node_def first_key_error_None list_all_iff)
    ultimately show ?thesis using "1.IH" False by (auto simp: first_error_None list_all_iff)
  qed
qed

subsection \<open>JSON without HTML escaping\<close>

text \<open>\<open>SetEscapeHTML(false)\<close>: as \<open>esc_string\<close>, except that the three HTML characters stand for themselves.\<close>

function esc_plain :: "string \<Rightarrow> string" where
  "esc_plain s =
     (if s = [] then []
      else if byte_of (hd s) = 60 \<or> byte_of (hd s) = 62 \<or> byte_of (hd s) = 38 then hd s # esc_plain (tl s)
      else if byte_of (hd s) < 128 then esc_ascii (hd s) @ esc_plain (tl s)
      else if rune_width s = 0 then bslash # ''ufffd'' @ esc_plain (tl s)
      else if take 3 s = map char_of [226, 128, 168 :: nat] then bslash # ''u2028'' @ esc_plain (drop 3 s)
      else if take 3 s = map char_of [226, 128, 169 :: nat] then bslash # ''u2029'' @ esc_plain (drop 3 s)
      else take (rune_width s) s @ esc_plain (drop (rune_width s) s))"
  by pat_completeness auto
termination
  by (relation "measure length") auto

declare esc_plain.simps [simp del]

definition plain_string :: "string \<Rightarrow> string" where
  "plain_string s = CHR 0x22 # esc_plain s @ [CHR 0x22]"

subsection \<open>The runtime contract\<close>

record lifecycle_journal =
  lj_name :: string
  lj_command :: string

text \<open>The \<open>lifecycleJournals\<close> of \<open>runtime-contract.json\<close>.\<close>

definition LifecycleJournals :: "lifecycle_journal list" where
  "LifecycleJournals =
     [\<lparr>lj_name = ''archive'', lj_command = ''archive''\<rparr>, \<lparr>lj_name = ''removal'', lj_command = ''delete''\<rparr>,
      \<lparr>lj_name = ''revive'', lj_command = ''revive''\<rparr>]"

text \<open>The checks of \<open>mustLoadRuntimeContract\<close> on the journals: a panic is \<open>Some\<close>.\<close>

fun check_journals :: "string list \<Rightarrow> string list \<Rightarrow> lifecycle_journal list \<Rightarrow> error option" where
  "check_journals names commands [] =
     (if length commands \<noteq> 3 then Some (Err ''workspace runtime contract must map every lifecycle command'') else None)"
| "check_journals names commands (j # js) =
     (if \<not> ValidSlug (lj_name j) \<or> lj_command j \<notin> {''archive'', ''delete'', ''revive''}
      then Some (Err ''workspace runtime contract has an invalid lifecycle journal'')
      else if lj_name j \<in> set names then Some (Err ''workspace runtime contract repeats a lifecycle journal'')
      else if lj_command j \<in> set commands then Some (Err ''workspace runtime contract repeats a lifecycle command'')
      else check_journals (lj_name j # names) (lj_command j # commands) js)"

lemma journals_accepted: "check_journals [] [] LifecycleJournals = None"
  by code_simp

definition MaxMessageBytes :: nat where "MaxMessageBytes = 20000"

end
