(* ===== verification/Communication_History.thy ===== *)
theory Communication_History
  imports Communication "HOL-Library.Code_Target_Nat"
begin

text \<open>
  What the communication service does to its durable registry and to the recipients: the registry is
  an append-only history, and a message is handed to the transport at most once per \<open>Dispatch\<close> under
  an active grant. The writing programs are followed with \<open>steady\<close> (theory \<open>Go_Monad\<close>) over three
  relations between runs: \<open>writes P\<close>, \<open>grows\<close> and \<open>hushed\<close>.
\<close>

subsection \<open>What a write may change\<close>

definition final :: "string \<Rightarrow> bool" where
  "final s \<longleftrightarrow> s = ''delivered'' \<or> s = ''canceled''"

definition message_evolves :: "('p, 'r) message \<Rightarrow> ('p, 'r) message \<Rightarrow> bool" where
  "message_evolves m n \<longleftrightarrow>
     m_id n = m_id m \<and> m_grant n = m_grant m \<and> m_from n = m_from m \<and> m_to n = m_to m \<and> m_text n = m_text m \<and>
     m_reply n = m_reply m \<and> m_created n = m_created m \<and> m_envelope n = m_envelope m \<and>
     (final (m_status m) \<longrightarrow> n = m) \<and> (m_options m \<noteq> None \<longrightarrow> m_options n = m_options m)"

definition grant_evolves :: "grant \<Rightarrow> grant \<Rightarrow> bool" where
  "grant_evolves g h \<longleftrightarrow>
     g_id h = g_id g \<and> g_a h = g_a g \<and> g_b h = g_b g \<and> g_approved_by h = g_approved_by g \<and>
     g_approval h = g_approval g \<and> g_created h = g_created g \<and> (g_revoked g \<noteq> None \<longrightarrow> h = g)"

definition extends_by :: "('a \<Rightarrow> 'a \<Rightarrow> bool) \<Rightarrow> 'a list \<Rightarrow> 'a list \<Rightarrow> bool" where
  "extends_by R xs ys \<longleftrightarrow> (\<exists>zs new. ys = zs @ new \<and> list_all2 R xs zs)"

definition evolves :: "('p, 'r) comm_state \<Rightarrow> ('p, 'r) comm_state \<Rightarrow> bool" where
  "evolves st st' \<longleftrightarrow> cs_schema st' = cs_schema st \<and> cs_workspace st' = cs_workspace st \<and>
     extends_by grant_evolves (cs_grants st) (cs_grants st') \<and> extends_by message_evolves (cs_messages st) (cs_messages st')"

lemma message_evolves_refl [simp]: "message_evolves m m"
  by (simp add: message_evolves_def)

lemma grant_evolves_refl [simp]: "grant_evolves g g"
  by (simp add: grant_evolves_def)

lemma message_evolves_trans: "message_evolves m n \<Longrightarrow> message_evolves n k \<Longrightarrow> message_evolves m k"
  by (auto simp: message_evolves_def)

lemma grant_evolves_trans: "grant_evolves m n \<Longrightarrow> grant_evolves n k \<Longrightarrow> grant_evolves m k"
  by (auto simp: grant_evolves_def)

lemma extends_by_all2: "list_all2 R xs ys \<Longrightarrow> extends_by R xs ys"
  by (auto simp: extends_by_def)

lemma extends_by_refl [simp]: "(\<And>x. R x x) \<Longrightarrow> extends_by R xs xs"
  by (auto intro!: extends_by_all2 simp: list_all2_same)

lemma extends_by_append [simp]: "(\<And>x. R x x) \<Longrightarrow> extends_by R xs (xs @ ys)"
  unfolding extends_by_def using list_all2_same by blast

lemma extends_by_update: "(\<And>x. R x x) \<Longrightarrow> i < length xs \<Longrightarrow> R (xs ! i) y \<Longrightarrow> extends_by R xs (xs[i := y])"
  by (rule extends_by_all2) (auto simp: list_all2_conv_all_nth nth_list_update)

lemma extends_by_map: "(\<And>x. R x (f x)) \<Longrightarrow> extends_by R xs (map f xs)"
  by (rule extends_by_all2) (simp add: list_all2_conv_all_nth)

lemma extends_by_trans:
  assumes "extends_by R xs ys" and "extends_by R ys zs" and "\<And>x y z. R x y \<Longrightarrow> R y z \<Longrightarrow> R x z"
  shows "extends_by R xs zs"
proof -
  from assms(1) obtain us a where ys: "ys = us @ a" and 1: "list_all2 R xs us" by (auto simp: extends_by_def)
  from assms(2) obtain vs b where zs: "zs = vs @ b" and 2: "list_all2 R ys vs" by (auto simp: extends_by_def)
  from 2 ys obtain vs1 vs2 where vs: "vs = vs1 @ vs2" and 3: "list_all2 R us vs1"
    by (auto simp: list_all2_append1)
  from 1 3 have "list_all2 R xs vs1" by (rule list_all2_trans [rotated 1]) (use assms(3) in blast)
  then show ?thesis unfolding extends_by_def zs vs by auto
qed

lemma evolves_refl [simp]: "evolves st st"
  by (simp add: evolves_def)

lemma evolves_trans: "evolves a b \<Longrightarrow> evolves b c \<Longrightarrow> evolves a c"
  unfolding evolves_def
  by (auto intro: extends_by_trans message_evolves_trans grant_evolves_trans)

text \<open>Revoking evolves the registry: only open messages of the grant are cancelled.\<close>

lemma revoke_message_evolves: "message_evolves m (revoke_message gid reason m)"
  by (auto simp: revoke_message_def message_evolves_def final_def)

lemma revoke_evolves:
  assumes "i < length (cs_grants st)" and "g_revoked (cs_grants st ! i) = None"
  shows "evolves st (revoke i reason now st)"
  using assms unfolding evolves_def revoke_def Let_def
  by (auto intro!: extends_by_update extends_by_map revoke_message_evolves simp: grant_evolves_def)

lemma put_message_evolves:
  assumes "i < length (cs_messages st)" and "message_evolves (cs_messages st ! i) m"
  shows "evolves st (put_message i m st)"
  using assms by (auto simp: evolves_def put_message_def intro!: extends_by_update)

subsection \<open>Programs and the durable registry\<close>

text \<open>Every write of the program satisfies \<open>P\<close>, and it logs no delivery.\<close>

definition writes :: "(('p, 'r) comm_state \<Rightarrow> bool) \<Rightarrow> ('w, 'p, 'r) comm_run \<Rightarrow> ('w, 'p, 'r) comm_run \<Rightarrow> bool" where
  "writes P r r' \<longleftrightarrow> cr_disk r' = cr_disk r \<or> (\<exists>st. cr_disk r' = Some st \<and> P st)"

lemma writes_refl: "reflp (writes P)"
  by (simp add: reflp_def writes_def)

lemma writes_trans: "transp (writes P)"
  by (auto simp: transp_def writes_def)

lemma comm_save_cases:
  assumes "comm_save cc io st disk = (e, d)"
  shows "d = disk \<or> d = Some st" and "e = None \<Longrightarrow> d = Some st"
  using assms atomic_replace_old_or_new [of "snd io" st disk] atomic_replace_ok [of "snd io" st disk]
  by (auto simp: comm_save_def split: if_splits option.splits)

lemma writes_save: "P st \<Longrightarrow> steady (writes P) (save_state cc cv st)"
  using comm_save_cases(1) [of cc _ st]
  by (fastforce simp: steady_def save_state_def writes_def split: prod.splits)

lemma writes_admit: "P st \<Longrightarrow> steady (writes P) (admit_state cc cv st)"
  using comm_save_cases(1) [of cc _ st]
  by (fastforce simp: steady_def admit_state_def admit_def writes_def split: prod.splits if_splits)

lemma writes_prims: "steady (writes P) (query f)" "steady (writes P) (log_call c)" "steady (writes P) (open_store cv ws b)"
  by (auto simp: steady_def query_def log_call_def open_store_def writes_def split: prod.splits)

lemmas writes_rules = writes_prims steady_bind [OF writes_trans] steady_return [OF writes_refl] steady_if steady_option
  steady_sum steady_pair

lemma writes_lock_each: "steady (writes P) (lock_each cv held slugs)"
proof (induction slugs arbitrary: held)
  case Nil
  show ?case by (simp add: steady_return [OF writes_refl])
next
  case (Cons slug slugs)
  show ?case unfolding lock_each.simps by (intro writes_rules Cons.IH)
qed

lemma writes_lockSessions: "steady (writes P) (lockSessions cv slugs)"
  unfolding lockSessions_def by (rule writes_lock_each)


lemma writes_Read: "steady (writes P) (Read cv ws caller)"
  unfolding Read_def by (intro writes_rules)

lemma find_index_nth: "find_index Q xs = Some i \<Longrightarrow> i < length xs \<and> Q (xs ! i)"
  using find_index_Some by blast

lemma writes_run_locked: "steady (writes (evolves st)) (run_locked cc cv caller peer rq st)"
proof -
  have g: "steady (writes (evolves st)) (run_allow cc cv caller peer rq st gi)" for gi
    unfolding run_allow_def by (intro writes_rules writes_admit) (simp add: evolves_def)
  have s: "steady (writes (evolves st)) (run_send cc cv caller peer rq st gi)" for gi
    unfolding run_send_def by (intro writes_rules writes_admit) (simp add: evolves_def)
  have r: "steady (writes (evolves st)) (run_revoke cc cv st (active_grant caller peer st))"
    unfolding run_revoke_def active_grant_def
    by (cases "find_index (\<lambda>g. g_revoked g = None \<and> between g caller peer) (cs_grants st)")
       (auto intro!: writes_rules writes_save revoke_evolves dest!: find_index_nth)
  show ?thesis unfolding run_locked_def Let_def by (intro steady_if g s r)
qed

text \<open>The writing programs of the service, given the state they read under the lock.\<close>

lemma confirmDelivery_evolves: "\<not> final (m_status m) \<Longrightarrow> message_evolves m (confirmDelivery cc receipt m)"
  by (simp add: confirmDelivery_def message_evolves_def)

lemma status_evolves:
  "\<not> final (m_status m) \<Longrightarrow> message_evolves m (m\<lparr>m_status := x, m_detail := y\<rparr>)"
  "\<not> final (m_status m) \<Longrightarrow> message_evolves m (m\<lparr>m_detail := y\<rparr>)"
  by (simp_all add: message_evolves_def)

lemma writes_submit:
  assumes "i < length (cs_messages st)" and "message_evolves (cs_messages st ! i) m" and "\<not> final (m_status m)"
  shows "steady (writes (evolves st)) (submit cc cv i m st)"
proof -
  let ?m = "m\<lparr>m_status := ''submitting'', m_detail := []\<rparr>"
  have m1: "message_evolves (cs_messages st ! i) ?m"
    by (rule message_evolves_trans [OF assms(2) status_evolves(1) [OF assms(3)]])
  have nf: "\<not> final (m_status ?m)" by (simp add: final_def)
  have m2: "message_evolves (cs_messages st ! i) (case x of Inl _ \<Rightarrow> ?m\<lparr>m_detail := unconfirmed\<rparr> | Inr receipt \<Rightarrow> confirmDelivery cc receipt ?m)" for x
    using message_evolves_trans [OF m1 status_evolves(2) [OF nf]] message_evolves_trans [OF m1 confirmDelivery_evolves [OF nf]]
    by (cases x) auto
  show ?thesis
    unfolding submit_def Let_def
    by (intro writes_rules writes_save put_message_evolves [OF assms(1)] m1 m2)
qed

lemma writes_deliver:
  assumes "i < length (cs_messages st)" and "m = cs_messages st ! i" and "\<not> final (m_status m)"
  shows "steady (writes (evolves st)) (deliver cc cv i m g allowed st)"
proof -
  have hold: "steady (writes (evolves st)) (hold_message cc cv i m st d)" for d
    unfolding hold_message_def using assms by (intro writes_save put_message_evolves) (auto intro: status_evolves)
  have opt: "message_evolves (cs_messages st ! i) (m\<lparr>m_options := Some x\<rparr>)" if "m_options m = None" for x
    using assms that by (simp add: message_evolves_def)
  have prep: "steady (writes (evolves st)) (prepare_and_submit cc cv i m h st)" for h
    unfolding prepare_and_submit_def Let_def
    by (cases "m_options m")
       (auto intro!: writes_rules hold writes_submit assms(1) opt simp: assms(3), simp add: assms(2))
  show ?thesis
    unfolding deliver_def Let_def
    by (intro writes_rules writes_save hold prep put_message_evolves assms(1)) (use assms in \<open>auto intro: status_evolves\<close>)
qed

lemma writes_dispatch_locked: "steady (writes (evolves st)) (dispatch_locked cc cv mid st)"
proof (cases "find_index (\<lambda>m. m_id m = mid) (cs_messages st)")
  case None
  then show ?thesis by (simp add: dispatch_locked_def steady_return [OF writes_refl])
next
  case (Some i)
  let ?m = "cs_messages st ! i"
  from find_index_nth [OF Some] have i: "i < length (cs_messages st)" by blast
  show ?thesis
  proof (cases "final (m_status ?m)")
    case True
    then show ?thesis using Some by (auto simp: dispatch_locked_def final_def Let_def intro: steady_return [OF writes_refl])
  next
    case False
    note d = writes_deliver [OF i refl False]
    have sv: "steady (writes (evolves st)) (save_state cc cv (put_message i (confirmDelivery cc x ?m) st))"
      "steady (writes (evolves st)) (save_state cc cv (put_message i (?m\<lparr>m_detail := y\<rparr>) st))" for x y
      by (intro writes_save put_message_evolves i confirmDelivery_evolves status_evolves False)+
    from False have nf: "\<not> (m_status ?m = ''delivered'' \<or> m_status ?m = ''canceled'')" by (simp add: final_def)
    show ?thesis
      unfolding dispatch_locked_def Some option.case Let_def if_not_P [OF nf]
      by (intro writes_rules d sv)
  qed
qed

lemma writes_expire_from:
  "\<forall>i \<in> set ixs. i < length (cs_grants st) \<Longrightarrow> evolves st0 st \<Longrightarrow>
   run_state (expire_from cv slug ixs st) r = (st', r') \<Longrightarrow> evolves st0 st' \<and> cr_disk r' = cr_disk r"
proof (induction ixs arbitrary: st r)
  case Nil
  then show ?case by simp
next
  case (Cons i ixs)
  let ?g = "cs_grants st ! i"
  show ?case
  proof (cases "g_revoked ?g = None \<and> (id_slug (g_a ?g) = slug \<or> id_slug (g_b ?g) = slug)")
    case False
    with Cons.prems have "run_state (expire_from cv slug ixs st) r = (st', r')" by (simp add: Let_def)
    from Cons.IH [OF _ Cons.prems(2) this] Cons.prems(1) show ?thesis by simp
  next
    case True
    let ?st = "revoke i ''Session archived or deleted'' (fst (cv_now cv (cr_world r))) st"
    have run: "run_state (expire_from cv slug ixs ?st) (r\<lparr>cr_world := snd (cv_now cv (cr_world r))\<rparr>) = (st', r')"
      using Cons.prems(3) True by (simp add: Let_def query_def split: prod.splits)
    have "evolves st0 ?st"
      by (rule evolves_trans [OF Cons.prems(2) revoke_evolves]) (use Cons.prems(1) True in auto)
    moreover have "length (cs_grants ?st) = length (cs_grants st)" by (simp add: revoke_def Let_def)
    ultimately have "evolves st0 st' \<and> cr_disk r' = cr_disk (r\<lparr>cr_world := snd (cv_now cv (cr_world r))\<rparr>)"
      using Cons.IH [OF _ _ run] Cons.prems(1) by simp
    then show ?thesis by simp
  qed
qed


subsection \<open>The history only grows\<close>

text \<open>What is durable, and what the file system promises: a read that succeeds returns it.\<close>

definition durable_state :: "string \<Rightarrow> ('p, 'r) comm_state option \<Rightarrow> ('p, 'r) comm_state" where
  "durable_state ws d = (case d of Some st \<Rightarrow> st | None \<Rightarrow> empty_state ws)"

definition honest_reads :: "('w, 'p, 'r) comm_env \<Rightarrow> string \<Rightarrow> bool" where
  "honest_reads cv ws \<longleftrightarrow>
     (\<forall>d w io w' b st. cv_store cv d w = (io, w') \<longrightarrow> locked ws b io = Some (Inr st) \<longrightarrow> st = durable_state ws d)"

definition grows :: "string \<Rightarrow> ('w, 'p, 'r) comm_run \<Rightarrow> ('w, 'p, 'r) comm_run \<Rightarrow> bool" where
  "grows ws r r' \<longleftrightarrow> cr_disk r' = cr_disk r \<or> (\<exists>st. cr_disk r' = Some st \<and> evolves (durable_state ws (cr_disk r)) st)"

lemma grows_refl: "reflp (grows ws)"
  by (simp add: reflp_def grows_def)

lemma grows_trans: "transp (grows ws)"
proof (rule transpI)
  fix r s t :: "('w, 'p, 'r) comm_run"
  assume "grows ws r s" "grows ws s t"
  then show "grows ws r t"
    unfolding grows_def by (auto simp: durable_state_def intro: evolves_trans)
qed

lemma writes_False_disk: "steady (writes (\<lambda>_. False)) m \<Longrightarrow> run_state m r = (x, r') \<Longrightarrow> cr_disk r' = cr_disk r"
  by (drule (1) steadyD) (simp add: writes_def)

lemma grows_by_writes: "steady (writes (\<lambda>_. False)) m \<Longrightarrow> steady (grows ws) m"
  by (auto simp: steady_def writes_def grows_def)

text \<open>Opening the store and running a program on what was read.\<close>

lemma grows_open:
  assumes h: "honest_reads cv ws" and f: "\<And>st. steady (writes (evolves st)) (f st)"
    and n: "steady (writes (\<lambda>_. False)) n" and e: "\<And>x. steady (writes (\<lambda>_. False)) (g x)"
  shows "steady (grows ws) (State_Monad.bind (open_store cv ws b)
     (\<lambda>os. case os of None \<Rightarrow> n | Some (Inl x) \<Rightarrow> g x | Some (Inr st) \<Rightarrow> f st))"
  unfolding steady_def
proof (intro allI impI)
  fix r x r'
  assume run: "run_state (State_Monad.bind (open_store cv ws b)
     (\<lambda>os. case os of None \<Rightarrow> n | Some (Inl x) \<Rightarrow> g x | Some (Inr st) \<Rightarrow> f st)) r = (x, r')"
  obtain io w where io: "cv_store cv (cr_disk r) (cr_world r) = (io, w)" by fastforce
  let ?r = "r\<lparr>cr_world := w\<rparr>"
  have step: "run_state (case locked ws b io of None \<Rightarrow> n | Some (Inl x) \<Rightarrow> g x | Some (Inr st) \<Rightarrow> f st) ?r = (x, r')"
    using run io by (simp add: open_store_def)
  show "grows ws r r'"
  proof (cases "locked ws b io")
    case None
    with step writes_False_disk [OF n, of ?r] show ?thesis by (simp add: grows_def)
  next
    case (Some y)
    show ?thesis
    proof (cases y)
      case (Inl z)
      with Some step writes_False_disk [OF e, of z ?r] show ?thesis by (simp add: grows_def)
    next
      case (Inr st)
      from h io Some Inr have st: "st = durable_state ws (cr_disk r)" unfolding honest_reads_def by blast
      from Inr Some step have "run_state (f st) ?r = (x, r')" by simp
      from steadyD [OF f this] st show ?thesis by (auto simp: writes_def grows_def)
    qed
  qed
qed

lemma grows_Dispatch:
  assumes h: "honest_reads cv ws"
  shows "steady (grows ws) (Dispatch cc cv ws mid)"
proof -
  have inner: "steady (grows ws) (State_Monad.bind (open_store cv ws True)
      (\<lambda>os. case os of None \<Rightarrow> finish None | Some (Inl e) \<Rightarrow> finish (Some (Some e))
       | Some (Inr st) \<Rightarrow> do { e \<leftarrow> dispatch_locked cc cv mid st; finish (Some e) }))"
    by (rule grows_open [OF h]) (intro writes_rules writes_dispatch_locked)+
  note rules = steady_bind [OF grows_trans] steady_return [OF grows_refl] steady_option steady_sum
    grows_by_writes [OF writes_prims(3)] grows_by_writes [OF writes_lockSessions]
  show ?thesis unfolding Dispatch_def by (intro rules inner)
qed

lemma grows_Expire:
  assumes h: "honest_reads cv ws"
  shows "steady (grows ws) (Expire cc cv ws slug)"
proof -
  have "steady (writes (evolves st)) (do {
         st1 \<leftarrow> expire_from cv slug [0 ..< length (cs_grants st)] st;
         e \<leftarrow> save_state cc cv st1;
         finish (Some e)
       })" for st
    unfolding steady_def
  proof (intro allI impI)
    fix r x r'
    assume run: "run_state (do {
         st1 \<leftarrow> expire_from cv slug [0 ..< length (cs_grants st)] st;
         e \<leftarrow> save_state cc cv st1;
         finish (Some e)
       }) r = (x, r')"
    obtain st1 r1 where ex: "run_state (expire_from cv slug [0 ..< length (cs_grants st)] st) r = (st1, r1)" by fastforce
    have ev: "evolves st st1" "cr_disk r1 = cr_disk r" using writes_expire_from [OF _ evolves_refl ex] by auto
    have "steady (writes (evolves st)) (do { e \<leftarrow> save_state cc cv st1; finish (Some e) })"
      by (intro writes_rules writes_save ev)
    moreover have "run_state (do { e \<leftarrow> save_state cc cv st1; finish (Some e) }) r1 = (x, r')"
      using run ex by simp
    ultimately have "writes (evolves st) r1 r'" by (rule steadyD)
    with ev show "writes (evolves st) r r'" by (simp add: writes_def)
  qed
  then show ?thesis unfolding Expire_def by (intro grows_open [OF h] steady_return [OF writes_refl])
qed

lemma grows_Run:
  assumes h: "honest_reads cv ws"
  shows "steady (grows ws) (Run cc cv ws caller rq)"
proof -
  have rd: "steady (grows ws) (Read cv ws caller)" by (rule grows_by_writes [OF writes_Read])
  have inner: "steady (grows ws) (run_opened cc cv ws caller rq peer)" for peer
    unfolding run_opened_def by (rule grows_open [OF h]) (intro writes_rules writes_run_locked writes_Read)+
  note rules = steady_bind [OF grows_trans] steady_return [OF grows_refl] steady_option steady_sum steady_if
    grows_by_writes [OF writes_prims(1)] grows_by_writes [OF writes_lockSessions]
  show ?thesis unfolding Run_def run_resolved_def by (intro rules rd inner)
qed

text \<open>The operations of the service as steps of a run; the environment may change between them.\<close>

inductive comm_step :: "('p, 'r) comm_codec \<Rightarrow> string \<Rightarrow> ('w, 'p, 'r) comm_run \<Rightarrow> ('w, 'p, 'r) comm_run \<Rightarrow> bool"
  for cc ws where
  step_run: "honest_reads cv ws \<Longrightarrow> run_state (Run cc cv ws caller rq) r = (x, r') \<Longrightarrow> comm_step cc ws r r'"
| step_dispatch: "honest_reads cv ws \<Longrightarrow> run_state (Dispatch cc cv ws mid) r = (y, r') \<Longrightarrow> comm_step cc ws r r'"
| step_expire: "honest_reads cv ws \<Longrightarrow> run_state (Expire cc cv ws slug) r = (y, r') \<Longrightarrow> comm_step cc ws r r'"

lemma comm_step_grows: "comm_step cc ws r r' \<Longrightarrow> grows ws r r'"
  by (cases rule: comm_step.cases) (auto intro: steadyD grows_Run grows_Dispatch grows_Expire)

subsection \<open>A sample service\<close>

definition comm_sample_codec :: "(unit, unit) comm_codec" where
  "comm_sample_codec = \<lparr>cc_options = (\<lambda>_. JObj []), cc_receipt = (\<lambda>_. JObj []), cc_time = (\<lambda>_. ''2026-01-01T00:00:00Z'')\<rparr>"

definition comm_sample_store :: "(unit, unit) comm_state option \<Rightarrow> unit \<Rightarrow> (unit, unit) store_io \<times> unit" where
  "comm_sample_store d w =
     (\<lparr>si_mkdir = None, si_open = None, si_flock = [WouldBlock None, Acquired], si_ctx = None,
       si_view = (case d of None \<Rightarrow> missing_view (empty_state ''/w'') | Some st \<Rightarrow> plain_view ''state'' st)\<rparr>, w)"

definition comm_sample_identity :: "string \<Rightarrow> identity" where
  "comm_sample_identity slug = \<lparr>id_slug = slug, id_thread = slug @ ''-thread'', id_incarnation = ''one''\<rparr>"

definition comm_sample_env :: "(unit, unit, unit) comm_env" where
  "comm_sample_env =
     \<lparr>cv_resolve = (\<lambda>slug w. (Inr (comm_sample_identity slug), w)), cv_lock = (\<lambda>_ w. (None, w)), cv_ready = (\<lambda>_ w. (Inr [], w)),
      cv_prepare = (\<lambda>_ w. (Inr \<lparr>opt_model = [], opt_effort = [], opt_policy = (), opt_context = None\<rparr>, w)),
      cv_send = (\<lambda>_ w. (Inr (), w)), cv_reconcile = (\<lambda>_ w. (((), False, None), w)), cv_store = comm_sample_store,
      cv_replace = (\<lambda>w. ((None, io_success), w)), cv_now = (\<lambda>w. (1, w)), cv_entropy = (\<lambda>w. (replicate 16 0, w))\<rparr>"

definition comm_sample_allow :: request where
  "comm_sample_allow = \<lparr>rq_action = ''allow'', rq_peer = ''bob'', rq_approval = ''user said so'', rq_message = [],
                        rq_message_id = [], rq_reply_to = []\<rparr>"

definition comm_sample_id :: string where
  "comm_sample_id = replicate 32 (CHR ''a'')"

definition comm_sample_send :: request where
  "comm_sample_send = \<lparr>rq_action = ''send'', rq_peer = ''bob'', rq_approval = [], rq_message = ''hello'',
                       rq_message_id = comm_sample_id, rq_reply_to = []\<rparr>"

abbreviation comm_sample_run :: "request \<Rightarrow> (unit, unit, unit) comm_run \<Rightarrow> (unit, unit, unit) comm_run" where
  "comm_sample_run rq r \<equiv> snd (run_state (Run comm_sample_codec comm_sample_env ''/w'' (comm_sample_identity ''alice'') rq) r)"

definition comm_sample_start :: "(unit, unit, unit) comm_run" where
  "comm_sample_start = \<lparr>cr_world = (), cr_disk = None, cr_log = []\<rparr>"

definition comm_sample_sent :: "(unit, unit, unit) comm_run" where
  "comm_sample_sent = comm_sample_run comm_sample_send (comm_sample_run comm_sample_allow comm_sample_start)"

lemma locked_granted:
  assumes "si_mkdir io = None" "si_open io = None" "flock_wait (si_flock io) = Some None" "si_ctx io = None"
  shows "locked w b io = Some (read_state w (si_view io))"
  using assms by (cases b) (simp_all add: locked_def)

lemma read_state_decoded: "read_state w f = Inr st \<Longrightarrow> fv_open f = None \<Longrightarrow> fv_decode f = Inr st"
  unfolding read_state_def by (auto split: if_splits option.splits sum.splits)

lemma comm_sample_honest: "honest_reads comm_sample_env ''/w''"
  unfolding honest_reads_def
proof (intro allI impI)
  fix d w io w' b st
  assume st: "cv_store comm_sample_env d w = (io, w')" and l: "locked ''/w'' b io = Some (Inr st)"
  let ?v = "case d of None \<Rightarrow> missing_view (empty_state ''/w'') | Some st \<Rightarrow> plain_view ''state'' st"
  from st have io: "io = \<lparr>si_mkdir = None, si_open = None, si_flock = [WouldBlock None, Acquired], si_ctx = None, si_view = ?v\<rparr>"
    by (simp add: comm_sample_env_def comm_sample_store_def)
  have "locked ''/w'' b io = Some (read_state ''/w'' ?v)" unfolding io by (subst locked_granted) simp_all
  with l have r: "read_state ''/w'' ?v = Inr st" by simp
  show "st = durable_state ''/w'' d"
  proof (cases d)
    case None
    with r show ?thesis by (simp add: read_state_def missing_view_def plain_view_def durable_state_def)
  next
    case (Some x)
    with r read_state_decoded [of "''/w''" "plain_view ''state'' x" st] show ?thesis
      by (simp add: plain_view_def durable_state_def)
  qed
qed

lemma comm_sample_step: "comm_step comm_sample_codec ''/w'' r (comm_sample_run rq r)"
  by (rule step_run [OF comm_sample_honest], rule prod.collapse [symmetric])

lemma registry_grows: "(comm_step cc ws)\<^sup>*\<^sup>* r r' \<Longrightarrow> grows ws r r'"
proof (induction rule: rtranclp_induct)
  case base
  then show ?case by (simp add: grows_def)
next
  case (step s t)
  from step.IH comm_step_grows [OF step.hyps(2)] show ?case by (rule transpD [OF grows_trans])
qed

text \<open>
  C18. The registry is an append-only history: whatever the service is asked to do, and whichever
  system call fails, the durable grants and messages stay in place and in order; a delivered or
  cancelled message and a revoked grant never change again, the identity, text and first settings of
  a message never change at all.
\<close>

theorem registry_history_grows:
  "(comm_step cc ws)\<^sup>*\<^sup>* r r' \<Longrightarrow> grows ws r r'"
  by (rule registry_grows)

theorem registry_history_grows_witness:
  "(comm_step comm_sample_codec ''/w'')\<^sup>*\<^sup>* comm_sample_start comm_sample_sent \<and>
   grows ''/w'' comm_sample_start comm_sample_sent \<and>
   (case cr_disk comm_sample_sent of None \<Rightarrow> False | Some st \<Rightarrow> length (cs_grants st) = 1 \<and> map m_status (cs_messages st) = [''pending''])"
proof -
  have "(comm_step comm_sample_codec ''/w'')\<^sup>*\<^sup>* comm_sample_start comm_sample_sent"
    unfolding comm_sample_sent_def by (meson comm_sample_step rtranclp.rtrancl_into_rtrancl rtranclp.rtrancl_refl)
  moreover from this have "grows ''/w'' comm_sample_start comm_sample_sent" by (rule registry_history_grows)
  moreover have "case cr_disk comm_sample_sent of None \<Rightarrow> False
      | Some st \<Rightarrow> length (cs_grants st) = 1 \<and> map m_status (cs_messages st) = [''pending'']"
    by code_simp
  ultimately show ?thesis by blast
qed


subsection \<open>When a message is sent\<close>

fun is_send :: "('p, 'r) comm_call \<Rightarrow> bool" where
  "is_send (CSend m d) = True"
| "is_send (CReady i x) = False"

definition hushed :: "('w, 'p, 'r) comm_run \<Rightarrow> ('w, 'p, 'r) comm_run \<Rightarrow> bool" where
  "hushed r r' \<longleftrightarrow> (\<exists>l. cr_log r' = l @ cr_log r \<and> \<not> list_ex is_send l)"

lemma hushed_refl: "reflp hushed"
  by (auto simp: reflp_def hushed_def intro: exI [of _ "[]"])

lemma hushed_trans: "transp hushed"
  unfolding transp_def hushed_def by (metis append.assoc list_ex_append)

lemma hushed_same: "cr_log r' = cr_log r \<Longrightarrow> hushed r r'"
  by (auto simp: hushed_def intro: exI [of _ "[]"])

lemma hushed_prims:
  "steady hushed (query f)" "steady hushed (save_state cc cv st)" "steady hushed (open_store cv ws b)"
  by (auto simp: steady_def query_def save_state_def open_store_def intro!: hushed_same split: prod.splits)

lemmas hushed_rules = hushed_prims steady_bind [OF hushed_trans] steady_return [OF hushed_refl] steady_if steady_option
  steady_sum steady_pair

lemma hushed_lockSessions: "steady hushed (lockSessions cv slugs)"
proof -
  have "steady hushed (lock_each cv held slugs)" for held slugs
  proof (induction slugs arbitrary: held)
    case Nil
    show ?case by (simp add: steady_return [OF hushed_refl])
  next
    case (Cons slug slugs)
    show ?case unfolding lock_each.simps by (intro hushed_rules Cons.IH)
  qed
  then show ?thesis by (simp add: lockSessions_def)
qed

lemma hushed_hold: "steady hushed (hold_message cc cv i m st d)"
  unfolding hold_message_def by (rule hushed_prims)

text \<open>
  An authorised delivery: the durable registry holds this very message as a submission, under a grant
  that is active there for exactly this pair; the identities were just resolved to the saved ones and
  the recipient was just reported ready.
\<close>

definition authorised_send :: "('w, 'p, 'r) comm_env \<Rightarrow> ('p, 'r) message \<Rightarrow> ('p, 'r) comm_state \<Rightarrow> bool" where
  "authorised_send cv m st \<longleftrightarrow>
     m \<in> set (cs_messages st) \<and> m_status m = ''submitting'' \<and> m_options m \<noteq> None \<and>
     (\<exists>g \<in> set (cs_grants st). g_id g = m_grant m \<and> g_revoked g = None \<and> between g (m_from m) (m_to m)) \<and>
     (\<exists>w w'. cv_resolve cv (id_slug (m_from m)) w = (Inr (m_from m), w')) \<and>
     (\<exists>w w'. cv_resolve cv (id_slug (m_to m)) w = (Inr (m_to m), w')) \<and>
     (\<exists>w w'. cv_ready cv (m_to m) w = (Inr [], w'))"

definition delivers_once :: "('w, 'p, 'r) comm_env \<Rightarrow> string \<Rightarrow> ('p, 'r) comm_call list \<Rightarrow> ('p, 'r) comm_call list \<Rightarrow> bool" where
  "delivers_once cv mid lg lg' \<longleftrightarrow>
     (\<exists>l. lg' = l @ lg \<and> \<not> list_ex is_send l) \<or>
     (\<exists>l m st. lg' = CSend m (Some st) # CReady (m_to m) (Inr []) # l @ lg \<and> \<not> list_ex is_send l \<and>
        m_id m = mid \<and> authorised_send cv m st)"

lemma save_state_ok:
  assumes "run_state (save_state cc cv st) r = (None, r')"
  shows "cr_disk r' = Some st" "cr_log r' = cr_log r"
  using assms comm_save_cases(2) [of cc _ st "cr_disk r"]
  by (auto simp: save_state_def split: prod.splits)

lemma submit_log:
  assumes run: "run_state (submit cc cv i m0 st) r = (e, r')"
  shows "cr_log r' = cr_log r \<or>
    cr_log r' = CSend (m0\<lparr>m_status := ''submitting'', m_detail := []\<rparr>)
                  (Some (put_message i (m0\<lparr>m_status := ''submitting'', m_detail := []\<rparr>) st)) # cr_log r"
proof -
  let ?m = "m0\<lparr>m_status := ''submitting'', m_detail := []\<rparr>"
  obtain e1 r1 where s: "run_state (save_state cc cv (put_message i ?m st)) r = (e1, r1)" by fastforce
  have same: "cr_log r1 = cr_log r" using s by (auto simp: save_state_def split: prod.splits)
  show ?thesis
  proof (cases e1)
    case (Some x)
    with run s same show ?thesis by (simp add: submit_def Let_def)
  next
    case None
    note ok = save_state_ok [OF s [unfolded None]]
    show ?thesis using run s None ok
      by (auto simp: submit_def Let_def log_call_def query_def save_state_def split: prod.splits)
  qed
qed

lemma prepare_log:
  assumes run: "run_state (prepare_and_submit cc cv i m g st) r = (e, r')"
  shows "cr_log r' = cr_log r \<or>
    (\<exists>x. let n = m\<lparr>m_options := Some x, m_status := ''submitting'', m_detail := []\<rparr> in
       cr_log r' = CSend n (Some (put_message i n st)) # cr_log r)"
proof (cases "m_options m")
  case (Some x)
  then have "m\<lparr>m_options := Some x, m_status := ''submitting'', m_detail := []\<rparr> = m\<lparr>m_status := ''submitting'', m_detail := []\<rparr>"
    by simp
  with Some run submit_log [of cc cv i m st r e r'] show ?thesis
    by (metis (no_types, lifting) option.simps(5) prepare_and_submit_def)
next
  case None
  obtain pr w where p: "cv_prepare cv (m_to m) (cr_world r) = (pr, w)" by fastforce
  let ?r = "r\<lparr>cr_world := w\<rparr>"
  have hold: "cr_log r' = cr_log r" if "run_state (hold_message cc cv i m st d) ?r = (e, r')" for d
    using that by (auto simp: hold_message_def save_state_def split: prod.splits)
  show ?thesis
  proof (cases pr)
    case (Inl x)
    with None run p have "run_state (hold_message cc cv i m st ''Recipient settings are unavailable'') ?r = (e, r')"
      by (simp add: prepare_and_submit_def query_def)
    then show ?thesis using hold by blast
  next
    case (Inr o0)
    let ?o = "withAuthorizationContext cc o0 g m"
    show ?thesis
    proof (cases "maxOptionsBytes < json_len (cc_options cc ?o)")
      case True
      with None Inr run p have "run_state (hold_message cc cv i m st ''Recipient settings exceed the delivery limit'') ?r = (e, r')"
        by (simp add: prepare_and_submit_def query_def Let_def)
      then show ?thesis using hold by blast
    next
      case False
      with None Inr run p have "run_state (submit cc cv i (m\<lparr>m_options := Some ?o\<rparr>) st) ?r = (e, r')"
        by (simp add: prepare_and_submit_def query_def Let_def)
      from submit_log [OF this] show ?thesis by (auto simp: Let_def)
    qed
  qed
qed

lemma deliver_log:
  assumes run: "run_state (deliver cc cv i m g allowed st) r = (e, r')"
  shows "(\<exists>l. cr_log r' = l @ cr_log r \<and> \<not> list_ex is_send l) \<or>
    allowed \<and> (\<exists>w w'. cv_ready cv (m_to m) w = (Inr [], w')) \<and> (\<exists>x h. g = Some h \<and> (let n = m\<lparr>m_options := Some x, m_status := ''submitting'', m_detail := []\<rparr> in
       cr_log r' = CSend n (Some (put_message i n st)) # CReady (m_to m) (Inr []) # cr_log r))"
proof (cases "if allowed then g else None")
  case None
  with run have "cr_log r' = cr_log r" by (auto simp: deliver_def save_state_def split: prod.splits)
  then show ?thesis by (intro disjI1 exI [of _ "[]"]) simp
next
  case (Some h)
  then have a: "allowed" "g = Some h" by (auto split: if_splits)
  obtain rr w where rd: "cv_ready cv (m_to m) (cr_world r) = (rr, w)" by fastforce
  let ?r = "r\<lparr>cr_world := w, cr_log := CReady (m_to m) rr # cr_log r\<rparr>"
  let ?reason = "case rr of Inl _ \<Rightarrow> ''Recipient status is unavailable'' | Inr x \<Rightarrow> x"
  show ?thesis
  proof (cases "?reason = []")
    case False
    with run a rd have "run_state (hold_message cc cv i m st ?reason) ?r = (e, r')"
      by (simp add: deliver_def query_def log_call_def Let_def)
    then have "cr_log r' = [CReady (m_to m) rr] @ cr_log r"
      by (auto simp: hold_message_def save_state_def split: prod.splits)
    then show ?thesis by (intro disjI1 exI [of _ "[CReady (m_to m) rr]"]) simp
  next
    case True
    then have rr: "rr = Inr []" by (auto split: sum.splits)
    from True run a rd have "run_state (prepare_and_submit cc cv i m h st) ?r = (e, r')"
      by (simp add: deliver_def query_def log_call_def Let_def)
    from prepare_log [OF this] show ?thesis
    proof
      assume "cr_log r' = cr_log ?r"
      then show ?thesis by (intro disjI1 exI [of _ "[CReady (m_to m) rr]"]) simp
    next
      assume "\<exists>x. let n = m\<lparr>m_options := Some x, m_status := ''submitting'', m_detail := []\<rparr> in
         cr_log r' = CSend n (Some (put_message i n st)) # cr_log ?r"
      then show ?thesis using a rr rd by (intro disjI2) (auto simp: Let_def)
    qed
  qed
qed

lemma find_Some_mem: "List.find P xs = Some x \<Longrightarrow> x \<in> set xs \<and> P x"
  unfolding find_Some_iff by (metis nth_mem)

lemma dispatch_locked_log:
  assumes run: "run_state (dispatch_locked cc cv mid st) r = (e, r')"
  shows "delivers_once cv mid (cr_log r) (cr_log r')"
proof (cases "find_index (\<lambda>m. m_id m = mid) (cs_messages st)")
  case None
  with run show ?thesis by (simp add: dispatch_locked_def delivers_once_def)
next
  case (Some i)
  let ?m = "cs_messages st ! i"
  from find_index_nth [OF Some] have i: "i < length (cs_messages st)" "m_id ?m = mid" by auto
  obtain x w1 where x: "cv_resolve cv (id_slug (m_from ?m)) (cr_world r) = (x, w1)" by fastforce
  obtain y w2 where y: "cv_resolve cv (id_slug (m_to ?m)) w1 = (y, w2)" by fastforce
  let ?g = "List.find (\<lambda>h. g_id h = m_grant ?m) (cs_grants st)"
  let ?al = "delivery_allowed ?g x y ?m"
  have send: "delivers_once cv mid (cr_log r) (cr_log r')"
    if d: "run_state (deliver cc cv i ?m ?g ?al st) r0 = (e, r')" and "cr_log r0 = cr_log r" for r0
  proof -
    let ?n = "\<lambda>o0. ?m\<lparr>m_options := Some o0, m_status := ''submitting'', m_detail := []\<rparr>"
    have ok: "authorised_send cv (?n o0) (put_message i (?n o0) st)" if "?al" and "?g = Some h" and "\<exists>w w'. cv_ready cv (m_to ?m) w = (Inr [], w')" for o0 h
      using that i(1) x y find_Some_mem [OF that(2)]
      by (auto simp: authorised_send_def put_message_def delivery_allowed_def set_update_memI)
    from deliver_log [OF d] show ?thesis
    proof
      assume "\<exists>l. cr_log r' = l @ cr_log r0 \<and> \<not> list_ex is_send l"
      with \<open>cr_log r0 = cr_log r\<close> show ?thesis by (simp add: delivers_once_def)
    next
      assume "?al \<and> (\<exists>w w'. cv_ready cv (m_to ?m) w = (Inr [], w')) \<and> (\<exists>x h. ?g = Some h \<and> (let n = ?n x in
         cr_log r' = CSend n (Some (put_message i n st)) # CReady (m_to ?m) (Inr []) # cr_log r0))"
      then obtain o0 h where "?al" "?g = Some h" "\<exists>w w'. cv_ready cv (m_to ?m) w = (Inr [], w')"
        and "cr_log r' = CSend (?n o0) (Some (put_message i (?n o0) st)) # CReady (m_to (?n o0)) (Inr []) # [] @ cr_log r"
        using \<open>cr_log r0 = cr_log r\<close> by (auto simp: Let_def)
      moreover have "m_id (?n o0) = mid" using i(2) by simp
      ultimately show ?thesis unfolding delivers_once_def
        using ok [of h o0] by (intro disjI2 exI [of _ "[]"] exI [of _ "?n o0"] exI [of _ "put_message i (?n o0) st"]) simp
    qed
  qed
  have quietly: "delivers_once cv mid (cr_log r) (cr_log r')" if "cr_log r' = cr_log r"
    using that by (simp add: delivers_once_def)
  show ?thesis
  proof (cases "m_status ?m = ''delivered'' \<or> m_status ?m = ''canceled''")
    case True
    with run Some have "cr_log r' = cr_log r" by (auto simp: dispatch_locked_def Let_def)
    then show ?thesis by (rule quietly)
  next
    case nf: False
    let ?r2 = "r\<lparr>cr_world := w2\<rparr>"
    show ?thesis
    proof (cases "m_status ?m = ''submitting''")
      case False
      with nf run Some x y have "run_state (deliver cc cv i ?m ?g ?al st) ?r2 = (e, r')"
        by (simp add: dispatch_locked_def Let_def query_def)
      then show ?thesis by (rule send) simp
    next
      case True
      obtain rc fd er w3 where rec: "cv_reconcile cv ?m w2 = ((rc, fd, er), w3)" by (metis prod_cases3 surj_pair)
      let ?r3 = "r\<lparr>cr_world := w3\<rparr>"
      show ?thesis
      proof (cases "er = None \<and> \<not> fd")
        case False
        with True nf run Some x y rec have "cr_log r' = cr_log r"
          by (auto simp: dispatch_locked_def Let_def query_def save_state_def split: prod.splits if_splits)
        then show ?thesis by (rule quietly)
      next
        case absent: True
        with True nf run Some x y rec have "run_state (deliver cc cv i ?m ?g ?al st) ?r3 = (e, r')"
          by (simp add: dispatch_locked_def Let_def query_def)
        then show ?thesis by (rule send) simp
      qed
    qed
  qed
qed


text \<open>Delivery as a relation on runs, and how it composes with quiet steps before and after.\<close>

definition delivering :: "('w, 'p, 'r) comm_env \<Rightarrow> string \<Rightarrow> ('w, 'p, 'r) comm_run \<Rightarrow> ('w, 'p, 'r) comm_run \<Rightarrow> bool" where
  "delivering cv mid r r' \<longleftrightarrow> delivers_once cv mid (cr_log r) (cr_log r')"

lemma delivers_once_after:
  "delivers_once cv mid lg lg' \<Longrightarrow> lg = l @ lg0 \<Longrightarrow> \<not> list_ex is_send l \<Longrightarrow> delivers_once cv mid lg0 lg'"
  unfolding delivers_once_def
  by (elim disjE exE conjE, metis append.assoc list_ex_append, metis append.assoc list_ex_append)

lemma delivering_quiet: "steady hushed m \<Longrightarrow> steady (delivering cv mid) m"
  unfolding steady_def hushed_def delivering_def delivers_once_def by blast

lemma delivering_bind:
  assumes m: "steady hushed m" and f: "\<And>x. steady (delivering cv mid) (f x)"
  shows "steady (delivering cv mid) (State_Monad.bind m f)"
  unfolding steady_def
proof (intro allI impI)
  fix r x r' assume run: "run_state (State_Monad.bind m f) r = (x, r')"
  obtain y r1 where 1: "run_state m r = (y, r1)" by fastforce
  with run have 2: "run_state (f y) r1 = (x, r')" by simp
  from steadyD [OF m 1] obtain l where l: "cr_log r1 = l @ cr_log r" "\<not> list_ex is_send l" by (auto simp: hushed_def)
  from steadyD [OF f 2] have "delivers_once cv mid (cr_log r1) (cr_log r')" by (simp add: delivering_def)
  from delivers_once_after [OF this l] show "delivering cv mid r r'" by (simp add: delivering_def)
qed

lemma delivering_finish: "steady (delivering cv mid) (finish x)"
  by (intro delivering_quiet steady_return [OF hushed_refl])

lemma delivering_locked:
  "steady (delivering cv mid) (do { e \<leftarrow> dispatch_locked cc cv mid st; finish (g e) })"
  using dispatch_locked_log unfolding steady_def delivering_def by (fastforce split: prod.splits)

lemma delivering_Dispatch: "steady (delivering cv mid) (Dispatch cc cv ws mid)"
  unfolding Dispatch_def
  by (intro delivering_bind hushed_prims hushed_lockSessions steady_option steady_sum delivering_finish delivering_locked)

text \<open>
  C5. Delivery of one message: a \<open>Dispatch\<close> calls \<open>Send\<close> at most once, and last among the logged
  calls. It only does so for the message it was asked to deliver, after the recipient was reported
  ready, with the submission durable, a grant for exactly this pair active in the saved registry and
  both session identities resolved to the saved ones.
\<close>

theorem Dispatch_delivers_once:
  assumes "run_state (Dispatch cc cv ws mid) r = (x, r')"
  shows "delivers_once cv mid (cr_log r) (cr_log r')"
  using steadyD [OF delivering_Dispatch assms] by (simp add: delivering_def)

definition comm_sample_held :: "(unit, unit, unit) comm_run" where
  "comm_sample_held =
     \<lparr>cr_world = (), cr_disk = Some \<lparr>cs_schema = 1, cs_workspace = ''/w'',
        cs_grants = [\<lparr>g_id = replicate 32 (CHR ''0''), g_a = comm_sample_identity ''alice'', g_b = comm_sample_identity ''bob'',
          g_approved_by = ''alice'', g_approval = ''user'', g_created = 1, g_revoked = None, g_reason = []\<rparr>],
        cs_messages = [\<lparr>m_id = comm_sample_id, m_grant = replicate 32 (CHR ''0''), m_from = comm_sample_identity ''bob'',
          m_to = comm_sample_identity ''alice'', m_text = ''hello'', m_reply = [], m_created = 1, m_status = ''held'', m_detail = ''busy'',
          m_envelope = ''hello'', m_options = Some \<lparr>opt_model = [], opt_effort = [], opt_policy = (), opt_context = None\<rparr>,
          m_receipt = None\<rparr>]\<rparr>, cr_log = []\<rparr>"

theorem Dispatch_delivers_once_witness:
  "(\<exists>x r'. run_state (Dispatch comm_sample_codec comm_sample_env ''/w'' comm_sample_id) comm_sample_held = (x, r') \<and>
     delivers_once comm_sample_env comm_sample_id (cr_log comm_sample_held) (cr_log r') \<and> list_ex is_send (cr_log r'))"
proof -
  let ?d = "run_state (Dispatch comm_sample_codec comm_sample_env ''/w'' comm_sample_id) comm_sample_held"
  have "list_ex is_send (cr_log (snd ?d))" by code_simp
  moreover have "delivers_once comm_sample_env comm_sample_id (cr_log comm_sample_held) (cr_log (snd ?d))"
    by (rule Dispatch_delivers_once) (rule prod.collapse [symmetric])
  ultimately show ?thesis by (metis prod.collapse)
qed

end
