(* ===== verification/Communication_Valid.thy ===== *)
theory Communication_Valid
  imports Communication_History
begin

text \<open>
  The communication registry stays valid: every write of the service is a registry the next \<open>read\<close>
  accepts. Then the operations one by one: what \<open>Expire\<close>, a send and the session locks do.
\<close>

subsection \<open>Validation as a predicate\<close>

lemma check_grants_None:
  "check_grants seen gs = None \<longleftrightarrow> list_all (\<lambda>g. grant_ok g \<and> g_id g \<notin> set seen) gs \<and> distinct (map g_id gs)"
proof (induction gs arbitrary: seen)
  case (Cons g gs)
  show ?case by (auto simp: Cons.IH list_all_iff image_iff)
qed simp

lemma check_messages_None:
  "check_messages gs seen ms = None \<longleftrightarrow>
     list_all (\<lambda>m. message_ok gs m \<and> m_id m \<notin> set seen \<and> status_check m = None) ms \<and> distinct (map m_id ms)"
proof (induction ms arbitrary: seen)
  case (Cons m ms)
  show ?case by (auto simp: Cons.IH list_all_iff image_iff split: option.splits)
qed simp

text \<open>A registry that passes \<open>validate\<close> and whose messages can be submitted.\<close>

definition sound :: "('p, 'r) comm_state \<Rightarrow> bool" where
  "sound st \<longleftrightarrow> comm_validate st = None \<and> list_all (\<lambda>m. m_envelope m \<noteq> []) (cs_messages st)"

lemma sound_iff:
  "sound st \<longleftrightarrow> list_all grant_ok (cs_grants st) \<and> distinct (map g_id (cs_grants st)) \<and>
     list_all (\<lambda>m. message_ok (cs_grants st) m \<and> status_check m = None \<and> m_envelope m \<noteq> []) (cs_messages st) \<and>
     distinct (map m_id (cs_messages st))"
proof -
  have "comm_validate st = None \<longleftrightarrow>
      check_grants [] (cs_grants st) = None \<and> check_messages (cs_grants st) [] (cs_messages st) = None"
    by (auto simp: comm_validate_def split: option.splits)
  then show ?thesis by (auto simp: sound_def check_grants_None check_messages_None list_all_iff)
qed

lemma sound_empty [simp]: "sound (empty_state ws)"
  by (simp add: sound_iff empty_state_def)

subsection \<open>Changes that keep a registry sound\<close>

lemma evolves_all2:
  assumes "list_all2 R xs ys" and "\<And>x y. R x y \<Longrightarrow> f y = f x"
  shows "map f ys = map f xs"
  using assms(1) by (induction rule: list_all2_induct) (auto simp: assms(2))

lemma grant_ok_evolves: "grant_evolves g h \<Longrightarrow> grant_ok g \<Longrightarrow> grant_ok h"
  by (simp add: grant_evolves_def grant_ok_def)

lemma find_grant_evolves:
  "list_all2 grant_evolves gs hs \<Longrightarrow>
   rel_option grant_evolves (List.find (\<lambda>g. g_id g = k) gs) (List.find (\<lambda>g. g_id g = k) hs)"
  by (induction rule: list_all2_induct) (auto simp: grant_evolves_def)

lemma message_ok_evolves:
  assumes "list_all2 grant_evolves gs hs" and "message_evolves m n" and "message_ok gs m"
  shows "message_ok hs n"
  using find_grant_evolves [OF assms(1), of "m_grant m"] assms(2,3)
  by (auto simp: message_ok_def message_evolves_def grant_evolves_def between_def option_rel_Some1 split: option.splits)

lemma sound_evolves:
  assumes st: "sound st" and g: "list_all2 grant_evolves (cs_grants st) (cs_grants st')"
    and m: "list_all2 message_evolves (cs_messages st) (cs_messages st')"
    and s: "list_all (\<lambda>m. status_check m = None) (cs_messages st')"
  shows "sound st'"
proof -
  have ids: "map g_id (cs_grants st') = map g_id (cs_grants st)" "map m_id (cs_messages st') = map m_id (cs_messages st)"
    by (rule evolves_all2 [OF g] evolves_all2 [OF m], simp add: grant_evolves_def message_evolves_def)+
  have "list_all grant_ok (cs_grants st')"
    using g st unfolding sound_iff list_all_length list_all2_conv_all_nth by (metis grant_ok_evolves)
  moreover have "list_all (message_ok (cs_grants st')) (cs_messages st')"
    using m st unfolding sound_iff list_all_length list_all2_conv_all_nth [of message_evolves] by (metis message_ok_evolves [OF g])
  moreover have "list_all (\<lambda>m. m_envelope m \<noteq> []) (cs_messages st')"
    using m st by (auto simp: sound_iff list_all_length list_all2_conv_all_nth message_evolves_def)
  ultimately show ?thesis using st s ids by (simp add: sound_iff list_all_iff)
qed

lemma sound_put:
  assumes "sound st" and "i < length (cs_messages st)" and "message_evolves (cs_messages st ! i) m" and "status_check m = None"
  shows "sound (put_message i m st)"
  using assms
  by (intro sound_evolves [OF assms(1)])
     (auto simp: put_message_def list_all2_conv_all_nth nth_list_update sound_iff list_all_length)

lemma status_check_revoke: "status_check m = None \<Longrightarrow> status_check (revoke_message gid reason m) = None"
  by (cases "m_grant m = gid \<and> (m_status m = ''pending'' \<or> m_status m = ''held'')")
     (simp add: revoke_message_def status_check_def, auto simp: revoke_message_def)

lemma sound_revoke:
  assumes "sound st" and "i < length (cs_grants st)" and "g_revoked (cs_grants st ! i) = None"
  shows "sound (revoke i reason now st)"
  using assms
  by (intro sound_evolves [OF assms(1)])
     (auto simp: revoke_def Let_def list_all2_conv_all_nth nth_list_update sound_iff list_all_length grant_evolves_def
       revoke_message_evolves status_check_revoke)

lemma message_ok_append: "message_ok gs m \<Longrightarrow> message_ok (gs @ hs) m"
proof -
  have "List.find P (gs @ hs) = (case List.find P gs of None \<Rightarrow> List.find P hs | Some x \<Rightarrow> Some x)" for P
    by (induction gs) auto
  then show "message_ok gs m \<Longrightarrow> message_ok (gs @ hs) m" by (auto simp: message_ok_def split: option.splits)
qed

lemma sound_allow:
  assumes "sound st" and "grant_ok g" and "g_id g \<notin> g_id ` set (cs_grants st)"
  shows "sound (st\<lparr>cs_grants := cs_grants st @ [g]\<rparr>)"
  using assms by (auto simp: sound_iff list_all_iff message_ok_append)

lemma sound_send:
  assumes "sound st" and "message_ok (cs_grants st) m" and "m_status m = ''pending''" and "m_envelope m \<noteq> []"
    and "m_id m \<notin> m_id ` set (cs_messages st)"
  shows "sound (st\<lparr>cs_messages := cs_messages st @ [m]\<rparr>)"
  using assms by (auto simp: sound_iff list_all_iff status_check_def)

lemma find_distinct_id:
  "distinct (map f xs) \<Longrightarrow> i < length xs \<Longrightarrow> List.find (\<lambda>x. f x = f (xs ! i)) xs = Some (xs ! i)"
  by (induction xs arbitrary: i) (auto simp: nth_Cons split: nat.splits)


lemma status_check_simps:
  "status_check (m\<lparr>m_status := ''held''\<rparr>) = None"
  "status_check (m\<lparr>m_status := ''canceled''\<rparr>) = None"
  "status_check (m\<lparr>m_detail := d\<rparr>) = status_check m"
  "m_envelope m \<noteq> [] \<Longrightarrow> m_options m \<noteq> None \<Longrightarrow> status_check (m\<lparr>m_status := ''submitting''\<rparr>) = None"
  "m_envelope m \<noteq> [] \<Longrightarrow> m_options m \<noteq> None \<Longrightarrow> status_check (confirmDelivery cc x m) = None"
  by (simp_all add: status_check_def confirmDelivery_def)

lemma submitting_has_options: "status_check m = None \<Longrightarrow> m_status m = ''submitting'' \<Longrightarrow> m_options m \<noteq> None"
  by (auto simp: status_check_def split: if_splits)

subsection \<open>Every write is sound\<close>

lemma sound_submit:
  assumes st: "sound st" "i < length (cs_messages st)" and m: "message_evolves (cs_messages st ! i) m" "\<not> final (m_status m)"
    and opt: "m_options m \<noteq> None" "m_envelope m \<noteq> []"
  shows "steady (writes sound) (submit cc cv i m st)"
proof -
  let ?m = "m\<lparr>m_status := ''submitting'', m_detail := []\<rparr>"
  have m1: "message_evolves (cs_messages st ! i) ?m"
    by (rule message_evolves_trans [OF m(1) status_evolves(1) [OF m(2)]])
  have nf: "\<not> final (m_status ?m)" by (simp add: final_def)
  have a: "sound (put_message i ?m st)"
    using opt by (intro sound_put st m1) (simp add: status_check_simps)
  have b: "sound (put_message i (case x of Inl _ \<Rightarrow> ?m\<lparr>m_detail := unconfirmed\<rparr> | Inr y \<Rightarrow> confirmDelivery cc y ?m) st)" for x
    using opt message_evolves_trans [OF m1 status_evolves(2) [OF nf]] message_evolves_trans [OF m1 confirmDelivery_evolves [OF nf]]
    by (intro sound_put st) (auto split: sum.splits simp: status_check_simps)
  show ?thesis unfolding submit_def Let_def by (intro writes_rules writes_save a b)
qed

lemma sound_deliver:
  assumes st: "sound st" "i < length (cs_messages st)" and m: "m = cs_messages st ! i" "\<not> final (m_status m)"
  shows "steady (writes sound) (deliver cc cv i m g allowed st)"
proof -
  have env: "m_envelope m \<noteq> []" using st m(1) by (simp add: sound_iff list_all_length)
  have hold: "steady (writes sound) (hold_message cc cv i m st d)" for d
    unfolding hold_message_def using m by (intro writes_save sound_put st) (auto intro: status_evolves simp: status_check_simps)
  have cancel: "steady (writes sound) (save_state cc cv (put_message i (m\<lparr>m_status := ''canceled'', m_detail := d\<rparr>) st))" for d
    using m by (intro writes_save sound_put st) (auto intro: status_evolves simp: status_check_simps)
  have prep: "steady (writes sound) (prepare_and_submit cc cv i m h st)" for h
  proof (cases "m_options m")
    case None
    with m have ev: "message_evolves (cs_messages st ! i) (m\<lparr>m_options := Some x\<rparr>)" for x
      by (simp add: message_evolves_def)
    have "steady (writes sound) (submit cc cv i (m\<lparr>m_options := Some x\<rparr>) st)" for x
      using m env by (intro sound_submit st ev) simp_all
    with None show ?thesis unfolding prepare_and_submit_def Let_def by (auto intro!: writes_rules hold)
  next
    case (Some x)
    with sound_submit [OF st _ m(2) _ env] m(1) show ?thesis by (simp add: prepare_and_submit_def)
  qed
  show ?thesis unfolding deliver_def Let_def by (intro writes_rules cancel hold prep)
qed

lemma sound_dispatch_locked:
  assumes st: "sound st"
  shows "steady (writes sound) (dispatch_locked cc cv mid st)"
proof (cases "find_index (\<lambda>m. m_id m = mid) (cs_messages st)")
  case None
  then show ?thesis by (simp add: dispatch_locked_def steady_return [OF writes_refl])
next
  case (Some i)
  let ?m = "cs_messages st ! i"
  from find_index_nth [OF Some] have i: "i < length (cs_messages st)" by blast
  have ok: "status_check ?m = None" "m_envelope ?m \<noteq> []" using st i by (simp_all add: sound_iff list_all_length)
  show ?thesis
  proof (cases "final (m_status ?m)")
    case True
    then show ?thesis using Some by (auto simp: dispatch_locked_def final_def Let_def intro: steady_return [OF writes_refl])
  next
    case False
    note d = sound_deliver [OF st i refl False]
    from False have nf: "\<not> (m_status ?m = ''delivered'' \<or> m_status ?m = ''canceled'')" by (simp add: final_def)
    have und: "steady (writes sound) (save_state cc cv (put_message i (?m\<lparr>m_detail := y\<rparr>) st))" for y
      by (intro writes_save sound_put st i status_evolves(2) [OF False]) (simp add: status_check_simps(3) ok)
    have conf: "steady (writes sound) (save_state cc cv (put_message i (confirmDelivery cc x ?m) st))"
      if "m_status ?m = ''submitting''" for x
      using ok submitting_has_options [OF ok(1) that]
      by (intro writes_save sound_put st i confirmDelivery_evolves False) (simp add: status_check_simps(5))
    show ?thesis
      unfolding dispatch_locked_def Some option.case Let_def if_not_P [OF nf]
      by (cases "m_status ?m = ''submitting''") (simp_all, (intro writes_rules d und conf, assumption?)+)
  qed
qed


lemma sound_expire_from:
  "\<forall>i \<in> set ixs. i < length (cs_grants st) \<Longrightarrow> sound st \<Longrightarrow>
   run_state (expire_from cv slug ixs st) r = (st', r') \<Longrightarrow> sound st'"
proof (induction ixs arbitrary: st r)
  case Nil
  then show ?case by simp
next
  case (Cons i ixs)
  let ?g = "cs_grants st ! i"
  show ?case
  proof (cases "g_revoked ?g = None \<and> (id_slug (g_a ?g) = slug \<or> id_slug (g_b ?g) = slug)")
    case False
    with Cons.prems have "run_state (expire_from cv slug ixs st) r = (st', r')" by (simp add: Let_def)
    from Cons.IH [OF _ Cons.prems(2) this] Cons.prems(1) show ?thesis by simp
  next
    case True
    let ?st = "revoke i ''Session archived or deleted'' (fst (cv_now cv (cr_world r))) st"
    have run: "run_state (expire_from cv slug ixs ?st) (r\<lparr>cr_world := snd (cv_now cv (cr_world r))\<rparr>) = (st', r')"
      using Cons.prems(3) True by (simp add: Let_def query_def split: prod.splits)
    have "sound ?st" using Cons.prems(1,2) True by (intro sound_revoke) auto
    moreover have "length (cs_grants ?st) = length (cs_grants st)" by (simp add: revoke_def Let_def)
    ultimately show ?thesis using Cons.IH [OF _ _ run] Cons.prems(1) by simp
  qed
qed

subsection \<open>What the environment promises\<close>

text \<open>
  The resolver answers for the slug it was asked about and knows the thread and the incarnation of
  a session it resolves (\<open>IdentityFor\<close>); the clock is not at the zero instant; \<open>rand.Read\<close> fills its
  sixteen bytes; a new identifier is none of those already used.
\<close>

definition lawful_env :: "('w, 'p, 'r) comm_env \<Rightarrow> bool" where
  "lawful_env cv \<longleftrightarrow>
     (\<forall>slug w i. fst (cv_resolve cv slug w) = Inr i \<longrightarrow> id_slug i = slug \<and> id_thread i \<noteq> [] \<and> id_incarnation i \<noteq> []) \<and>
     (\<forall>w. \<not> IsZero (fst (cv_now cv w))) \<and> (\<forall>w. length (fst (cv_entropy cv w)) = 16)"

definition fresh_ids :: "('w, 'p, 'r) comm_env \<Rightarrow> ('p, 'r) comm_state \<Rightarrow> bool" where
  "fresh_ids cv st \<longleftrightarrow> (\<forall>w. newID (fst (cv_entropy cv w)) \<notin> g_id ` set (cs_grants st))"

lemma messageID_newID: "length b = 16 \<Longrightarrow> messageID (newID b)"
  by (simp add: messageID_def newID_def hex_run_def hex_encode_lower)

lemma envelope_nonempty: "envelope x y mid txt \<noteq> []"
  by (simp add: envelope_def)

text \<open>Facts about a request that passed its checks and about the resolved pair.\<close>

definition pair_ok :: "identity \<Rightarrow> identity \<Rightarrow> bool" where
  "pair_ok caller peer \<longleftrightarrow> validIdentity caller \<and> validIdentity peer \<and> id_slug caller \<noteq> id_slug peer"

lemma writes_query:
  assumes "\<And>w. steady (writes P) (f (fst (q w)))"
  shows "steady (writes P) (State_Monad.bind (query q) f)"
  unfolding steady_def
proof (intro allI impI)
  fix r x r' assume run: "run_state (State_Monad.bind (query q) f) r = (x, r')"
  obtain y w where q: "q (cr_world r) = (y, w)" by fastforce
  with run have "run_state (f y) (r\<lparr>cr_world := w\<rparr>) = (x, r')" by (simp add: query_def)
  moreover have "steady (writes P) (f y)" using assms [of "cr_world r"] q by simp
  ultimately have "writes P (r\<lparr>cr_world := w\<rparr>) r'" by (rule steadyD [rotated])
  then show "writes P r r'" by (simp add: writes_def)
qed

lemma sound_run_allow:
  assumes st: "sound st" and law: "lawful_env cv" and fresh: "fresh_ids cv st"
    and rq: "request_check caller rq = None" "rq_action rq = ''allow''" and pair: "pair_ok caller peer"
  shows "steady (writes sound) (run_allow cc cv caller peer rq st gi)"
proof -
  have ap: "TrimSpace (rq_approval rq) \<noteq> []" using rq by (auto simp: request_check_def split: if_splits)
  have "grant_ok (new_grant caller peer rq b now)" if "length b = 16" "\<not> IsZero now" for b now
    using pair ap that by (auto simp: grant_ok_def new_grant_def pair_ok_def messageID_newID)
  moreover have "newID (fst (cv_entropy cv w)) \<notin> g_id ` set (cs_grants st)" for w using fresh by (simp add: fresh_ids_def)
  ultimately have "sound (st\<lparr>cs_grants := cs_grants st @ [new_grant caller peer rq (fst (cv_entropy cv w)) (fst (cv_now cv w'))]\<rparr>)" for w w'
    using law by (intro sound_allow st) (auto simp: lawful_env_def new_grant_def)
  then show ?thesis unfolding run_allow_def
    by (intro steady_option steady_return [OF writes_refl] writes_query writes_admit)
qed

lemma sound_run_revoke: "sound st \<Longrightarrow> steady (writes sound) (run_revoke cc cv st (active_grant caller peer st))"
  unfolding run_revoke_def active_grant_def
  by (cases "find_index (\<lambda>g. g_revoked g = None \<and> between g caller peer) (cs_grants st)")
     (auto intro!: writes_rules writes_save sound_revoke dest!: find_index_nth)

lemma request_message_ok:
  assumes "request_check caller rq = None" and "rq_action rq = ''send'' \<or> rq_action rq = ''reply''"
  shows "messageID (rq_message_id rq) \<and> TrimSpace (rq_message rq) \<noteq> [] \<and> length (rq_message rq) \<le> MaxMessageBytes \<and> ValidString (rq_message rq)"
  using assms by (auto simp: request_check_def split: if_splits)

lemma sound_run_send:
  assumes st: "sound st" and law: "lawful_env cv" and gi: "gi = active_grant caller peer st"
    and rq: "request_check caller rq = None" "rq_action rq = ''send'' \<or> rq_action rq = ''reply''"
  shows "steady (writes sound) (run_send cc cv caller peer rq st gi)"
proof (cases "List.find (\<lambda>m. m_id m = rq_message_id rq) (cs_messages st)")
  case (Some m)
  then show ?thesis by (auto simp: run_send_def intro!: writes_rules)
next
  case new: None
  show ?thesis
  proof (cases gi)
    case None
    with new show ?thesis by (auto simp: run_send_def intro!: writes_rules)
  next
    case (Some i)
    let ?g = "cs_grants st ! i"
    from Some gi have i: "i < length (cs_grants st)" "between ?g caller peer"
      using find_index_nth [of "\<lambda>g. g_revoked g = None \<and> between g caller peer"] by (auto simp: active_grant_def)
    have "List.find (\<lambda>g. g_id g = g_id ?g) (cs_grants st) = Some ?g"
      using st i by (intro find_distinct_id) (auto simp: sound_iff)
    then have "message_ok (cs_grants st) (new_message caller peer rq (g_id ?g) (fst (cv_now cv w)))" for w
      using law request_message_ok [OF rq] i by (simp add: message_ok_def new_message_def lawful_env_def)
    then have "sound (st\<lparr>cs_messages := cs_messages st @ [new_message caller peer rq (g_id ?g) (fst (cv_now cv w))]\<rparr>)" for w
      using new by (intro sound_send st) (auto simp: new_message_def envelope_nonempty find_None_iff)
    then show ?thesis unfolding run_send_def new Some option.case
      by (intro steady_if steady_return [OF writes_refl] writes_query writes_admit)
  qed
qed

lemma sound_run_locked:
  assumes "sound st" and "lawful_env cv" and "fresh_ids cv st" and rq: "request_check caller rq = None" and "pair_ok caller peer"
  shows "steady (writes sound) (run_locked cc cv caller peer rq st)"
proof -
  from rq consider "rq_action rq = ''allow''" | "rq_action rq = ''revoke''" | "rq_action rq = ''send'' \<or> rq_action rq = ''reply''"
    by (auto simp: request_check_def split: if_splits)
  then show ?thesis
  proof cases
    case 1
    with sound_run_allow [OF assms(1-4) _ assms(5)] show ?thesis by (simp add: run_locked_def Let_def)
  next
    case 2
    with sound_run_revoke [OF assms(1)] show ?thesis by (simp add: run_locked_def Let_def)
  next
    case 3
    with sound_run_send [OF assms(1,2) refl rq 3] show ?thesis by (auto simp: run_locked_def Let_def)
  qed
qed

subsection \<open>The registry stays readable\<close>

definition sound_after :: "string \<Rightarrow> ('p, 'r) comm_state option \<Rightarrow> ('w, 'p, 'r) comm_run \<Rightarrow> bool" where
  "sound_after ws d r \<longleftrightarrow> cr_disk r = d \<or> sound (durable_state ws (cr_disk r))"

abbreviation on_disk :: "('p, 'r) comm_state option \<Rightarrow> ('w, 'p, 'r) comm_run \<Rightarrow> bool" where
  "on_disk d r \<equiv> cr_disk r = d"

lemma triple_idle: "steady (writes (\<lambda>_. False)) m \<Longrightarrow> triple (on_disk d) m (\<lambda>_. on_disk d)"
  by (auto simp: triple_def steady_def writes_def)

lemma triple_sound: "steady (writes sound) m \<Longrightarrow> triple (on_disk d) m (\<lambda>_. sound_after ws d)"
  unfolding triple_def steady_def writes_def sound_after_def durable_state_def
  by (metis option.simps(5))

lemma triple_pure: "(A \<Longrightarrow> triple P m Q) \<Longrightarrow> triple (\<lambda>r. P r \<and> A) m Q"
  by (auto simp: triple_def)

lemma lock_each_valid:
  "run_state (lock_each cv held slugs) r = (Inr h, r') \<Longrightarrow> h = held @ slugs \<and> list_all ValidSlug slugs"
proof (induction slugs arbitrary: held r)
  case (Cons s slugs)
  from Cons.prems show ?case
    by (auto simp: query_def split: if_splits prod.splits option.splits dest: Cons.IH)
qed simp

lemma triple_lockSessions:
  "triple (on_disk d) (lockSessions cv slugs) (\<lambda>x r. on_disk d r \<and> (\<forall>h. x = Inr h \<longrightarrow> list_all ValidSlug slugs))"
  using lock_each_valid [of cv "[]" "remdups_adj (sort slugs)"] writes_lockSessions [of "\<lambda>_. False" cv slugs]
  by (auto simp: triple_def steady_def writes_def lockSessions_def list_all_iff)

lemma triple_resolve:
  assumes "lawful_env cv"
  shows "triple (on_disk d) (query (cv_resolve cv slug))
     (\<lambda>x r. on_disk d r \<and> (\<forall>i. x = Inr i \<longrightarrow> id_slug i = slug \<and> (ValidSlug slug \<longrightarrow> validIdentity i)))"
proof (rule tripleI)
  fix r x t assume d: "on_disk d r" and run: "run_state (query (cv_resolve cv slug)) r = (x, t)"
  then have "on_disk d t" and "x = fst (cv_resolve cv slug (cr_world r))" by (auto simp: query_def split: prod.splits)
  with assms show "on_disk d t \<and> (\<forall>i. x = Inr i \<longrightarrow> id_slug i = slug \<and> (ValidSlug slug \<longrightarrow> validIdentity i))"
    by (auto simp: lawful_env_def validIdentity_def)
qed

lemma triple_open:
  "honest_reads cv ws \<Longrightarrow> triple (on_disk d) (open_store cv ws b)
     (\<lambda>x r. on_disk d r \<and> (\<forall>st. x = Some (Inr st) \<longrightarrow> st = durable_state ws d))"
  unfolding triple_def open_store_def honest_reads_def by (auto split: prod.splits)


lemma triple_opened:
  assumes h: "honest_reads cv ws" and n: "triple (on_disk d) n Q" and e: "\<And>e. triple (on_disk d) (g e) Q"
    and f: "triple (on_disk d) (f (durable_state ws d)) Q"
  shows "triple (on_disk d) (State_Monad.bind (open_store cv ws b)
     (\<lambda>os. case os of None \<Rightarrow> n | Some (Inl x) \<Rightarrow> g x | Some (Inr st) \<Rightarrow> f st)) Q"
proof (rule triple_bind [OF triple_open [OF h]], rule triple_pure)
  fix os :: "(error + ('b, 'c) comm_state) option" assume os: "\<forall>st. os = Some (Inr st) \<longrightarrow> st = durable_state ws d"
  show "triple (on_disk d) (case os of None \<Rightarrow> n | Some (Inl x) \<Rightarrow> g x | Some (Inr st) \<Rightarrow> f st) Q"
  proof (intro triple_option triple_sum)
    fix x y assume "os = Some x" "x = Inr y"
    with os f show "triple (on_disk d) (f y) Q" by simp
  qed (rule n e)+
qed

lemma sound_after_same: "on_disk d r \<Longrightarrow> sound_after ws d r"
  by (simp add: sound_after_def)

lemma finish_same: "triple (on_disk d) (finish x) (\<lambda>_. sound_after ws d)"
  by (rule triple_return) (rule sound_after_same)

lemma sound_run_opened:
  assumes "honest_reads cv ws" and "sound (durable_state ws d)" and "lawful_env cv" and "fresh_ids cv (durable_state ws d)"
    and "request_check caller rq = None" and "pair_ok caller peer"
  shows "triple (on_disk d) (run_opened cc cv ws caller rq peer) (\<lambda>_. sound_after ws d)"
proof -
  have "steady (writes sound) (do {
      e \<leftarrow> run_locked cc cv caller peer rq (durable_state ws d);
      case e of Some x \<Rightarrow> finish (Some (Inl x)) | None \<Rightarrow> Read cv ws caller })"
    by (intro writes_rules writes_Read sound_run_locked assms)
  note body = triple_sound [OF this]
  show ?thesis unfolding run_opened_def
    by (intro triple_opened finish_same body assms(1))
qed

lemma sound_Run:
  assumes h: "honest_reads cv ws" and law: "lawful_env cv" and st: "sound (durable_state ws d)" "fresh_ids cv (durable_state ws d)"
  shows "triple (on_disk d) (Run cc cv ws caller rq) (\<lambda>_. sound_after ws d)"
proof -
  have read: "triple (on_disk d) (Read cv ws caller) (\<lambda>_. sound_after ws d)"
    by (rule triple_post [OF triple_idle [OF writes_Read]]) (rule sound_after_same)
  have resolved: "triple (on_disk d) (run_resolved cc cv ws caller rq) (\<lambda>_. sound_after ws d)"
    if rq: "request_check caller rq = None" and v: "ValidSlug (id_slug caller)" "ValidSlug (rq_peer rq)"
  proof -
    have ne: "id_slug caller \<noteq> rq_peer rq" using rq by (auto simp: request_check_def split: if_splits)
    have peer: "triple (on_disk d) (do { pr \<leftarrow> query (cv_resolve cv (rq_peer rq));
        case pr of Inl e \<Rightarrow> finish (Some (Inl e)) | Inr peer \<Rightarrow> run_opened cc cv ws caller rq peer }) (\<lambda>_. sound_after ws d)"
      if "validIdentity caller"
      by (rule triple_bind [OF triple_resolve [OF law]], rule triple_pure)
         (use ne v that in \<open>auto simp: finish_same pair_ok_def intro!: sound_run_opened h st law rq split: sum.split\<close>)
    show ?thesis unfolding run_resolved_def
      by (rule triple_bind [OF triple_resolve [OF law]], rule triple_pure) (use v in \<open>auto simp: finish_same intro!: peer\<close>)
  qed
  have locks: "triple (on_disk d) (do { l \<leftarrow> lockSessions cv [id_slug caller, rq_peer rq];
      case l of Inl e \<Rightarrow> finish (Some (Inl e)) | Inr _ \<Rightarrow> run_resolved cc cv ws caller rq }) (\<lambda>_. sound_after ws d)"
    if "request_check caller rq = None"
    by (rule triple_bind [OF triple_lockSessions], rule triple_pure)
       (use that in \<open>auto simp: finish_same intro!: resolved split: sum.split\<close>)
  then show ?thesis unfolding Run_def using read by (auto simp: finish_same split: option.split)
qed

lemma sound_Dispatch:
  assumes h: "honest_reads cv ws" and st: "sound (durable_state ws d)"
  shows "triple (on_disk d) (Dispatch cc cv ws mid) (\<lambda>_. sound_after ws d)"
proof -
  have "steady (writes sound) (do { e \<leftarrow> dispatch_locked cc cv mid (durable_state ws d); finish (Some e) })"
    by (intro writes_rules sound_dispatch_locked st)
  note body = triple_sound [OF this]
  have locked: "triple (on_disk d) (do { o2 \<leftarrow> open_store cv ws True;
        case o2 of None \<Rightarrow> finish None | Some (Inl e) \<Rightarrow> finish (Some (Some e))
        | Some (Inr st) \<Rightarrow> do { e \<leftarrow> dispatch_locked cc cv mid st; finish (Some e) } }) (\<lambda>_. sound_after ws d)"
    by (intro triple_opened finish_same body h)
  show ?thesis unfolding Dispatch_def
    by (intro triple_bind [OF triple_idle] writes_prims writes_lockSessions triple_option triple_sum finish_same locked)
qed

lemma sound_Expire:
  assumes h: "honest_reads cv ws" and st: "sound (durable_state ws d)"
  shows "triple (on_disk d) (Expire cc cv ws slug) (\<lambda>_. sound_after ws d)"
proof -
  let ?st = "durable_state ws d"
  have ex: "triple (on_disk d) (expire_from cv slug [0 ..< length (cs_grants ?st)] ?st) (\<lambda>st1 r. on_disk d r \<and> sound st1)"
  proof (rule tripleI)
    fix r st1 r' assume d: "on_disk d r" and run: "run_state (expire_from cv slug [0 ..< length (cs_grants ?st)] ?st) r = (st1, r')"
    have "sound st1" by (rule sound_expire_from [OF _ st run]) simp
    moreover have "cr_disk r' = cr_disk r" using writes_expire_from [OF _ evolves_refl run] by simp
    ultimately show "on_disk d r' \<and> sound st1" using d by simp
  qed
  have save: "triple (on_disk d) (do { e \<leftarrow> save_state cc cv st1; finish (Some e) }) (\<lambda>_. sound_after ws d)" if "sound st1" for st1
    by (rule triple_sound) (intro writes_rules writes_save that)
  show ?thesis unfolding Expire_def
    by (intro triple_opened finish_same h triple_bind [OF ex] triple_pure save)
qed

text \<open>
  The operations as steps, each in an environment that reads the registry honestly, resolves sessions
  to complete identities and draws unused identifiers.
\<close>

inductive lawful_step :: "('p, 'r) comm_codec \<Rightarrow> string \<Rightarrow> ('w, 'p, 'r) comm_run \<Rightarrow> ('w, 'p, 'r) comm_run \<Rightarrow> bool"
  for cc ws where
  lawful_run: "honest_reads cv ws \<Longrightarrow> lawful_env cv \<Longrightarrow> fresh_ids cv (durable_state ws (cr_disk r)) \<Longrightarrow>
     run_state (Run cc cv ws caller rq) r = (x, r') \<Longrightarrow> lawful_step cc ws r r'"
| lawful_dispatch: "honest_reads cv ws \<Longrightarrow> run_state (Dispatch cc cv ws mid) r = (y, r') \<Longrightarrow> lawful_step cc ws r r'"
| lawful_expire: "honest_reads cv ws \<Longrightarrow> run_state (Expire cc cv ws slug) r = (y, r') \<Longrightarrow> lawful_step cc ws r r'"

lemma sound_afterD: "sound_after ws (cr_disk r) r' \<Longrightarrow> sound (durable_state ws (cr_disk r)) \<Longrightarrow> sound (durable_state ws (cr_disk r'))"
  by (auto simp: sound_after_def)

lemma lawful_step_sound:
  "lawful_step cc ws r r' \<Longrightarrow> sound (durable_state ws (cr_disk r)) \<Longrightarrow> sound (durable_state ws (cr_disk r'))"
proof (induction rule: lawful_step.induct)
  case (lawful_run cv r caller rq x r')
  from tripleD [OF sound_Run [OF lawful_run(1,2,5,3)] refl lawful_run(4)] lawful_run(5) show ?case by (rule sound_afterD)
next
  case (lawful_dispatch cv mid r y r')
  from tripleD [OF sound_Dispatch [OF lawful_dispatch(1,3)] refl lawful_dispatch(2)] lawful_dispatch(3) show ?case by (rule sound_afterD)
next
  case (lawful_expire cv slug r y r')
  from tripleD [OF sound_Expire [OF lawful_expire(1,3)] refl lawful_expire(2)] lawful_expire(3) show ?case by (rule sound_afterD)
qed

text \<open>Whatever is written fits the bound of a read: both \<open>save\<close> and \<open>admit\<close> refuse a larger registry.\<close>

definition fitting :: "('p, 'r) comm_codec \<Rightarrow> ('w, 'p, 'r) comm_run \<Rightarrow> ('w, 'p, 'r) comm_run \<Rightarrow> bool" where
  "fitting cc r r' \<longleftrightarrow> cr_disk r' = cr_disk r \<or> (\<exists>st. cr_disk r' = Some st \<and> json_len (comm_json cc st) \<le> maxStateBytes)"

lemma fitting_refl: "reflp (fitting cc)"
  by (simp add: reflp_def fitting_def)

lemma fitting_trans: "transp (fitting cc)"
  by (auto simp: transp_def fitting_def)

lemma comm_save_fits: "comm_save cc io st d = (e, d') \<Longrightarrow> d' = d \<or> d' = Some st \<and> json_len (comm_json cc st) \<le> maxStateBytes"
  using atomic_replace_old_or_new [of "snd io" st d] by (auto simp: comm_save_def not_less split: if_splits option.splits)

lemma fitting_prims:
  "steady (fitting cc) (query f)" "steady (fitting cc) (log_call c)" "steady (fitting cc) (open_store cv ws b)"
  "steady (fitting cc) (save_state cc cv st)" "steady (fitting cc) (admit_state cc cv st)"
proof -
  show "steady (fitting cc) (save_state cc cv st)"
    using comm_save_fits [of cc _ st] by (fastforce simp: steady_def save_state_def fitting_def split: prod.splits)
  show "steady (fitting cc) (admit_state cc cv st)"
    using comm_save_fits [of cc _ st] by (fastforce simp: steady_def admit_state_def admit_def fitting_def split: prod.splits if_splits)
qed (auto simp: steady_def query_def log_call_def open_store_def fitting_def split: prod.splits)

lemmas fitting_rules = fitting_prims steady_bind [OF fitting_trans] steady_return [OF fitting_refl] steady_if steady_option
  steady_sum steady_pair

lemma fitting_writes: "steady (writes (\<lambda>_. False)) m \<Longrightarrow> steady (fitting cc) m"
  by (auto simp: steady_def writes_def fitting_def)

lemma fitting_expire_from: "steady (fitting cc) (expire_from cv slug ixs st)"
proof (induction ixs arbitrary: st)
  case Nil
  show ?case by (simp add: steady_return [OF fitting_refl])
next
  case (Cons i ixs)
  show ?case unfolding expire_from.simps Let_def by (intro fitting_rules Cons.IH)
qed

lemma fitting_submit: "steady (fitting cc) (submit cc cv i m st)"
  unfolding submit_def Let_def by (intro fitting_rules)

lemma fitting_deliver: "steady (fitting cc) (deliver cc cv i m g allowed st)"
  unfolding deliver_def hold_message_def prepare_and_submit_def Let_def by (intro fitting_rules fitting_submit)

lemma fitting_dispatch_locked: "steady (fitting cc) (dispatch_locked cc cv mid st)"
  unfolding dispatch_locked_def Let_def by (intro fitting_rules fitting_deliver)

lemma fitting_run_locked: "steady (fitting cc) (run_locked cc cv caller peer rq st)"
  unfolding run_locked_def run_allow_def run_revoke_def run_send_def Let_def by (intro fitting_rules)

lemma fitting_operations:
  "steady (fitting cc) (Run cc cv ws caller rq)" "steady (fitting cc) (Dispatch cc cv ws mid)" "steady (fitting cc) (Expire cc cv ws slug)"
  unfolding Run_def run_resolved_def run_opened_def Dispatch_def Expire_def
  by (intro fitting_rules fitting_run_locked fitting_dispatch_locked fitting_expire_from fitting_writes [OF writes_lockSessions]
      fitting_writes [OF writes_Read])+

lemma lawful_step_fits: "lawful_step cc ws r r' \<Longrightarrow> fitting cc r r'"
  by (cases rule: lawful_step.cases) (auto intro: steadyD fitting_operations)

lemma lawful_step_step: "lawful_step cc ws r r' \<Longrightarrow> comm_step cc ws r r'"
  by (cases rule: lawful_step.cases) (auto intro: comm_step.intros)

text \<open>
  What a later read sees of the durable registry: no file, or the regular private file that \<open>save\<close>
  renamed into place, with the bytes of its JSON text, which decodes to what was encoded.
\<close>

definition shows_registry :: "('p, 'r) comm_codec \<Rightarrow> ('p, 'r) comm_state file_view \<Rightarrow> ('p, 'r) comm_state option \<Rightarrow> bool" where
  "shows_registry cc f d \<longleftrightarrow>
     (case d of
        None \<Rightarrow> fv_open f = Some ErrNotExist
      | Some st \<Rightarrow> fv_open f = None \<and> fv_stat f = None \<and> fv_regular f \<and> fv_perm f = perm_0600 \<and>
          fv_size f = int (json_len (comm_json cc st)) \<and> fv_decode f = Inr st \<and> \<not> fv_trailing f)"

text \<open>
  C6. The registry never becomes unreadable through its own service: from an absent registry, any
  sequence of requests, deliveries and expiries, whichever of their system calls fail, leaves a
  durable registry that the next \<open>read\<close> accepts and returns, every check included: the size of the file, the
  schema, the workspace and the validation of grants and messages.
\<close>

theorem registry_stays_readable:
  assumes "(lawful_step cc ws)\<^sup>*\<^sup>* r r'" and "cr_disk r = None" and "shows_registry cc f (cr_disk r')"
  shows "read_state ws f = Inr (durable_state ws (cr_disk r'))"
proof (cases "cr_disk r'")
  case None
  with assms(3) show ?thesis by (simp add: shows_registry_def read_state_def durable_state_def)
next
  case (Some st)
  from assms(1,2) have "sound (durable_state ws (cr_disk r'))"
    by (induction rule: rtranclp_induct) (auto simp: durable_state_def [of _ None] intro: lawful_step_sound)
  moreover have "\<forall>st. cr_disk r' = Some st \<longrightarrow> json_len (comm_json cc st) \<le> maxStateBytes"
    using assms(1,2) by (induction rule: rtranclp_induct) (auto simp: fitting_def dest!: lawful_step_fits)
  moreover have "grows ws r r'"
    by (rule registry_grows) (use assms(1) in \<open>auto elim: rtranclp_mono [THEN predicate2D, rotated] intro: lawful_step_step\<close>)
  ultimately show ?thesis
    using assms(2,3) Some by (auto simp: shows_registry_def read_state_def durable_state_def sound_def grows_def evolves_def empty_state_def)
qed

lemma comm_sample_lawful: "lawful_env comm_sample_env"
  by (auto simp: lawful_env_def comm_sample_env_def comm_sample_identity_def IsZero_def)

definition comm_sample_registry :: "(unit, unit) comm_state option \<Rightarrow> (unit, unit) comm_state file_view" where
  "comm_sample_registry d = (case d of None \<Rightarrow> missing_view (empty_state ''/w'')
     | Some st \<Rightarrow> plain_view (json_enc (comm_json comm_sample_codec st)) st)"

lemma comm_sample_shows: "shows_registry comm_sample_codec (comm_sample_registry d) d"
  by (cases d) (simp_all add: shows_registry_def comm_sample_registry_def missing_view_def plain_view_def json_len_def)

theorem registry_stays_readable_witness:
  "(lawful_step comm_sample_codec ''/w'')\<^sup>*\<^sup>* comm_sample_start (comm_sample_run comm_sample_allow comm_sample_start) \<and>
   (\<exists>st. cr_disk (comm_sample_run comm_sample_allow comm_sample_start) = Some st \<and> length (cs_grants st) = 1 \<and>
      read_state ''/w'' (comm_sample_registry (Some st)) = Inr st)"
proof -
  let ?r = "comm_sample_run comm_sample_allow comm_sample_start"
  have none: "cr_disk comm_sample_start = None" by (simp add: comm_sample_start_def)
  have "lawful_step comm_sample_codec ''/w'' comm_sample_start ?r"
    by (rule lawful_run [OF comm_sample_honest comm_sample_lawful _ prod.collapse [symmetric]])
       (simp add: none durable_state_def fresh_ids_def empty_state_def)
  then have steps: "(lawful_step comm_sample_codec ''/w'')\<^sup>*\<^sup>* comm_sample_start ?r" ..
  have "case cr_disk ?r of None \<Rightarrow> False | Some st \<Rightarrow> length (cs_grants st) = 1" by code_simp
  then obtain st where st: "cr_disk ?r = Some st" "length (cs_grants st) = 1" by (auto split: option.splits)
  from registry_stays_readable [OF steps none comm_sample_shows] st(1)
  have "read_state ''/w'' (comm_sample_registry (Some st)) = Inr st" by (simp add: durable_state_def)
  with steps st show ?thesis by blast
qed

subsection \<open>Expiry as a specification\<close>

definition active_of :: "string \<Rightarrow> grant \<Rightarrow> bool" where
  "active_of slug g \<longleftrightarrow> g_revoked g = None \<and> (id_slug (g_a g) = slug \<or> id_slug (g_b g) = slug)"

definition cancel_open :: "string set \<Rightarrow> string \<Rightarrow> ('p, 'r) message \<Rightarrow> ('p, 'r) message" where
  "cancel_open ids reason m =
     (if m_grant m \<in> ids \<and> (m_status m = ''pending'' \<or> m_status m = ''held'')
      then m\<lparr>m_status := ''canceled'', m_detail := reason\<rparr> else m)"

definition expired_grant :: "string \<Rightarrow> grant \<Rightarrow> grant \<Rightarrow> bool" where
  "expired_grant reason g h \<longleftrightarrow> (\<exists>t. h = g\<lparr>g_revoked := Some t, g_reason := reason\<rparr>)"

abbreviation archived :: string where "archived \<equiv> ''Session archived or deleted''"

text \<open>The registry after the grants at the indices \<open>D\<close> were considered.\<close>

definition expired_at :: "string \<Rightarrow> nat set \<Rightarrow> ('p, 'r) comm_state \<Rightarrow> ('p, 'r) comm_state \<Rightarrow> bool" where
  "expired_at slug D st st' \<longleftrightarrow>
     length (cs_grants st') = length (cs_grants st) \<and>
     (\<forall>i < length (cs_grants st).
        if i \<in> D \<and> active_of slug (cs_grants st ! i) then expired_grant archived (cs_grants st ! i) (cs_grants st' ! i)
        else cs_grants st' ! i = cs_grants st ! i) \<and>
     cs_messages st' = map (cancel_open {g_id (cs_grants st ! i) |i. i \<in> D \<and> active_of slug (cs_grants st ! i)} archived) (cs_messages st)"

lemma cancel_open_revoke: "cancel_open A reason (revoke_message k reason m) = cancel_open (insert k A) reason m"
  unfolding cancel_open_def revoke_message_def by auto

lemma cancel_open_empty [simp]: "cancel_open {} reason m = m"
  by (simp add: cancel_open_def)

lemma expired_at_step:
  assumes "expired_at slug D (revoke i archived now st) st'" and "i < length (cs_grants st)" and "active_of slug (cs_grants st ! i)"
    and "i \<notin> D" and "D \<subseteq> {..< length (cs_grants st)}"
  shows "expired_at slug (insert i D) st st'"
proof -
  let ?st = "revoke i archived now st"
  have gs: "cs_grants ?st ! j = (if j = i then (cs_grants st ! i)\<lparr>g_revoked := Some now, g_reason := archived\<rparr> else cs_grants st ! j)"
    if "j < length (cs_grants st)" for j using that by (simp add: revoke_def Let_def nth_list_update)
  have act: "active_of slug (cs_grants ?st ! j) \<longleftrightarrow> j \<noteq> i \<and> active_of slug (cs_grants st ! j)" if "j < length (cs_grants st)" for j
    using gs [OF that] by (auto simp: active_of_def)
  have len: "length (cs_grants ?st) = length (cs_grants st)" by (simp add: revoke_def Let_def)
  have ids: "insert (g_id (cs_grants st ! i)) {g_id (cs_grants ?st ! j) |j. j \<in> D \<and> active_of slug (cs_grants ?st ! j)} =
      {g_id (cs_grants st ! j) |j. j \<in> insert i D \<and> active_of slug (cs_grants st ! j)}" (is "insert _ ?A = _")
    using assms(3-5) act gs by (auto simp: subset_eq) metis+
  have "cs_messages st' = map (cancel_open ?A archived) (map (revoke_message (g_id (cs_grants st ! i)) archived) (cs_messages st))"
    using assms(1) by (simp add: expired_at_def revoke_def Let_def)
  then have "cs_messages st' = map (cancel_open {g_id (cs_grants st ! j) |j. j \<in> insert i D \<and> active_of slug (cs_grants st ! j)} archived) (cs_messages st)"
    unfolding ids [symmetric] by (simp add: cancel_open_revoke)
  moreover have "if j \<in> insert i D \<and> active_of slug (cs_grants st ! j) then expired_grant archived (cs_grants st ! j) (cs_grants st' ! j)
      else cs_grants st' ! j = cs_grants st ! j" if j: "j < length (cs_grants st)" for j
    using assms(1,3,4) j gs [OF j] act [OF j] unfolding expired_at_def len
    by (cases "j = i") (auto simp: expired_grant_def)
  ultimately show ?thesis using assms(1) len by (simp add: expired_at_def)
qed


lemma expire_from_expires:
  "distinct ixs \<Longrightarrow> set ixs \<subseteq> {..< length (cs_grants st)} \<Longrightarrow>
   run_state (expire_from cv slug ixs st) r = (st', r') \<Longrightarrow> expired_at slug (set ixs) st st'"
proof (induction ixs arbitrary: st r)
  case Nil
  then show ?case by (simp add: expired_at_def map_idI)
next
  case (Cons i ixs)
  show ?case
  proof (cases "active_of slug (cs_grants st ! i)")
    case False
    with Cons.prems have "expired_at slug (set ixs) st st'" by (auto simp: Let_def active_of_def intro!: Cons.IH)
    moreover have "(j \<in> set (i # ixs) \<and> active_of slug (cs_grants st ! j)) = (j \<in> set ixs \<and> active_of slug (cs_grants st ! j))" for j
      using False by auto
    ultimately show ?thesis unfolding expired_at_def by presburger
  next
    case True
    let ?st = "revoke i archived (fst (cv_now cv (cr_world r))) st"
    have run: "run_state (expire_from cv slug ixs ?st) (r\<lparr>cr_world := snd (cv_now cv (cr_world r))\<rparr>) = (st', r')"
      using Cons.prems(3) True by (simp add: Let_def query_def active_of_def split: prod.splits)
    have "length (cs_grants ?st) = length (cs_grants st)" by (simp add: revoke_def Let_def)
    with Cons.prems(1,2) Cons.IH [OF _ _ run] have "expired_at slug (set ixs) ?st st'" by simp
    from expired_at_step [OF this _ True] Cons.prems(1,2) show ?thesis by simp
  qed
qed

definition expired :: "string \<Rightarrow> ('p, 'r) comm_state \<Rightarrow> ('p, 'r) comm_state \<Rightarrow> bool" where
  "expired slug st st' \<longleftrightarrow>
     list_all2 (\<lambda>g h. if active_of slug g then expired_grant archived g h else h = g) (cs_grants st) (cs_grants st') \<and>
     cs_messages st' = map (cancel_open (g_id ` {g \<in> set (cs_grants st). active_of slug g}) archived) (cs_messages st)"

lemma expired_at_all: "expired_at slug (set [0 ..< length (cs_grants st)]) st st' \<Longrightarrow> expired slug st st'"
proof -
  have "{g_id (cs_grants st ! i) |i. i \<in> set [0 ..< length (cs_grants st)] \<and> active_of slug (cs_grants st ! i)} =
      g_id ` {g \<in> set (cs_grants st). active_of slug g}"
    by (auto simp: in_set_conv_nth)
  then show "expired_at slug (set [0 ..< length (cs_grants st)]) st st' \<Longrightarrow> expired slug st st'"
    by (auto simp: expired_at_def expired_def list_all2_conv_all_nth)
qed

text \<open>
  C26. Expiring a session: when \<open>Expire\<close> reports success, the durable registry is the previous one in
  which exactly the active grants of the session are revoked, with the reason recorded, and exactly
  the messages under those grants that were not yet handed to the transport are cancelled.
\<close>

theorem Expire_revokes_all:
  assumes "honest_reads cv ws" and "run_state (Expire cc cv ws slug) r = (Some None, r')"
  shows "\<exists>st'. cr_disk r' = Some st' \<and> expired slug (durable_state ws (cr_disk r)) st'"
proof -
  let ?st = "durable_state ws (cr_disk r)"
  let ?ixs = "[0 ..< length (cs_grants ?st)]"
  obtain io w where io: "cv_store cv (cr_disk r) (cr_world r) = (io, w)" by fastforce
  from assms(2) io obtain st where l: "locked ws True io = Some (Inr st)"
    by (auto simp: Expire_def open_store_def split: option.splits sum.splits)
  with assms(1) io have st: "st = ?st" unfolding honest_reads_def by blast
  obtain st1 r1 where ex: "run_state (expire_from cv slug ?ixs ?st) (r\<lparr>cr_world := w\<rparr>) = (st1, r1)" by fastforce
  from assms(2) io l st ex have "run_state (save_state cc cv st1) r1 = (None, r')"
    by (auto simp: Expire_def open_store_def split: prod.splits)
  then have "cr_disk r' = Some st1" by (rule save_state_ok)
  moreover have "expired_at slug (set ?ixs) ?st st1" by (rule expire_from_expires [OF _ _ ex]) auto
  then have "expired slug ?st st1" by (rule expired_at_all)
  ultimately show ?thesis by blast
qed


theorem Expire_revokes_all_witness:
  "\<exists>r'. run_state (Expire comm_sample_codec comm_sample_env ''/w'' ''bob'') comm_sample_held = (Some None, r') \<and>
     (\<exists>st'. cr_disk r' = Some st' \<and> expired ''bob'' (durable_state ''/w'' (cr_disk comm_sample_held)) st' \<and>
        map m_status (cs_messages st') = [''canceled''])"
proof -
  let ?e = "run_state (Expire comm_sample_codec comm_sample_env ''/w'' ''bob'') comm_sample_held"
  have ok: "fst ?e = Some None" by code_simp
  have st: "case cr_disk (snd ?e) of None \<Rightarrow> False | Some st \<Rightarrow> map m_status (cs_messages st) = [''canceled'']" by code_simp
  from ok have run: "?e = (Some None, snd ?e)" by (metis prod.collapse)
  from Expire_revokes_all [OF comm_sample_honest run] obtain st'
    where d: "cr_disk (snd ?e) = Some st'" and x: "expired ''bob'' (durable_state ''/w'' (cr_disk comm_sample_held)) st'" by blast
  have "map m_status (cs_messages st') = [''canceled'']" using st unfolding d option.case .
  with run d x show ?thesis by (intro exI conjI)
qed

subsection \<open>Session locks\<close>

lemma sorted_remdups_adj_distinct: "sorted xs \<Longrightarrow> distinct (remdups_adj xs)"
  for xs :: "'a :: linorder list"
  by (induction xs rule: remdups_adj.induct) auto

lemma lockSessions_ascending:
  assumes "run_state (lockSessions cv slugs) r = (Inr held, r')"
  shows "sorted_wrt (<) held \<and> set held = set slugs \<and> list_all ValidSlug held"
proof -
  from lock_each_valid [of cv "[]" "remdups_adj (sort slugs)" r held r'] assms
  have held: "held = remdups_adj (sort slugs)" "list_all ValidSlug held" by (simp_all add: lockSessions_def)
  have "sorted held" "distinct held" unfolding held(1) by (simp_all add: sorted_remdups_adj_distinct)
  then show ?thesis using held by (simp add: strict_sorted_iff)
qed

text \<open>
  A call of \<open>lockSessions\<close> that is blocked: the lock of the session \<open>wanted\<close> is not granted, the world
  records the locks granted before it. \<open>waiting_at\<close> is the state in which the call waits.
\<close>

definition blocked :: error where
  "blocked = Err ''blocked''"

definition blocked_at :: "string \<Rightarrow> (string list, 'p, 'r) comm_env \<Rightarrow> (string list, 'p, 'r) comm_env" where
  "blocked_at wanted cv = cv\<lparr>cv_lock := (\<lambda>slug granted. if slug = wanted then (Some blocked, granted) else (None, granted @ [slug]))\<rparr>"

definition waiting_at :: "(string list, 'p, 'r) comm_env \<Rightarrow> string list \<Rightarrow> string list \<Rightarrow> string \<Rightarrow> bool" where
  "waiting_at cv slugs held wanted \<longleftrightarrow>
     (\<exists>r r'. cr_world r = [] \<and> run_state (lockSessions (blocked_at wanted cv) slugs) r = (Inl blocked, r') \<and> cr_world r' = held)"

lemma lock_each_blocked:
  "run_state (lock_each (blocked_at wanted cv) held ss) r = (Inl blocked, r') \<Longrightarrow>
   \<exists>pre post. ss = pre @ wanted # post \<and> cr_world r' = cr_world r @ pre"
proof (induction ss arbitrary: held r)
  case (Cons s ss)
  show ?case
  proof (cases "s = wanted")
    case True
    with Cons.prems show ?thesis
      by (auto simp: blocked_at_def query_def blocked_def split: if_splits intro: exI [of _ "[]"])
  next
    case False
    with Cons.prems have "run_state (lock_each (blocked_at wanted cv) (held @ [s]) ss) (r\<lparr>cr_world := cr_world r @ [s]\<rparr>) = (Inl blocked, r')"
      by (auto simp: blocked_at_def query_def blocked_def split: if_splits)
    from Cons.IH [OF this] show ?thesis by (auto intro: exI [of _ "s # _"])
  qed
qed simp

lemma waiting_above:
  assumes "waiting_at cv slugs held wanted" and "s \<in> set held"
  shows "s < wanted"
proof -
  from assms(1) obtain r r' where run: "run_state (lock_each (blocked_at wanted cv) [] (remdups_adj (sort slugs))) r = (Inl blocked, r')"
    and w: "cr_world r = []" "cr_world r' = held" by (auto simp: waiting_at_def lockSessions_def)
  from lock_each_blocked [OF run] w obtain post where ss: "remdups_adj (sort slugs) = held @ wanted # post" by auto
  have "sorted (remdups_adj (sort slugs))" "distinct (remdups_adj (sort slugs))" by (simp_all add: sorted_remdups_adj_distinct)
  with ss assms(2) show ?thesis by (auto simp: sorted_append order_less_le)
qed

text \<open>
  C38. Services cannot deadlock on the runtime locks of sessions: whatever pairs of sessions any number of
  concurrent calls of \<open>lockSessions\<close> were given, in whichever order they name them, the calls that wait for a
  lock held by another such call never form a cycle.
\<close>

theorem no_lock_cycle:
  assumes "\<And>i. i \<in> S \<Longrightarrow> waiting_at cv (slugs i) (held i) (wanted i)"
  shows "acyclic {(i, j). i \<in> S \<and> j \<in> S \<and> wanted i \<in> set (held j)}"
proof -
  let ?W = "{(i, j). i \<in> S \<and> j \<in> S \<and> wanted i \<in> set (held j)}"
  have "wanted i < wanted j" if "(i, j) \<in> ?W\<^sup>+" for i j
    using that by (induction rule: trancl.induct) (auto intro: waiting_above [OF assms] less_trans)
  then show ?thesis unfolding acyclic_def by blast
qed

definition lock_sample_env :: "(string list, unit, unit) comm_env" where
  "lock_sample_env =
     \<lparr>cv_resolve = (\<lambda>slug w. (Inl ErrNotExist, w)), cv_lock = (\<lambda>_ w. (None, w)), cv_ready = (\<lambda>_ w. (Inr [], w)),
      cv_prepare = (\<lambda>_ w. (Inl ErrNotExist, w)), cv_send = (\<lambda>_ w. (Inr (), w)), cv_reconcile = (\<lambda>_ w. (((), False, None), w)),
      cv_store = (\<lambda>d w. (\<lparr>si_mkdir = None, si_open = None, si_flock = [Acquired], si_ctx = None, si_view = missing_view (empty_state [])\<rparr>, w)),
      cv_replace = (\<lambda>w. ((None, io_success), w)), cv_now = (\<lambda>w. (1, w)), cv_entropy = (\<lambda>w. ([], w))\<rparr>"

text \<open>Two services that name the same pair in opposite orders: one holds the first lock, both wait.\<close>

theorem no_lock_cycle_witness:
  "waiting_at lock_sample_env [''bob'', ''alice''] [''alice''] ''bob'' \<and> waiting_at lock_sample_env [''alice'', ''bob''] [] ''alice'' \<and>
   acyclic {(i, j). i \<in> {0, 1 :: nat} \<and> j \<in> {0, 1 :: nat} \<and>
     (if i = 0 then ''bob'' else ''alice'') \<in> set (if j = 0 then [''alice''] else [])}"
proof -
  let ?r = "\<lparr>cr_world = [], cr_disk = None, cr_log = []\<rparr> :: (string list, unit, unit) comm_run"
  have "fst (run_state (lockSessions (blocked_at ''bob'' lock_sample_env) [''bob'', ''alice'']) ?r) = Inl blocked \<and>
    cr_world (snd (run_state (lockSessions (blocked_at ''bob'' lock_sample_env) [''bob'', ''alice'']) ?r)) = [''alice'']" by code_simp
  then have 1: "waiting_at lock_sample_env [''bob'', ''alice''] [''alice''] ''bob''"
    unfolding waiting_at_def by (intro exI [of _ ?r] exI conjI) (auto intro: prod_eqI)
  have "fst (run_state (lockSessions (blocked_at ''alice'' lock_sample_env) [''alice'', ''bob'']) ?r) = Inl blocked \<and>
    cr_world (snd (run_state (lockSessions (blocked_at ''alice'' lock_sample_env) [''alice'', ''bob'']) ?r)) = []" by code_simp
  then have 2: "waiting_at lock_sample_env [''alice'', ''bob''] [] ''alice''"
    unfolding waiting_at_def by (intro exI [of _ ?r] exI conjI) (auto intro: prod_eqI)
  have "acyclic {(i, j). i \<in> {0, 1 :: nat} \<and> j \<in> {0, 1} \<and>
     (if i = 0 then ''bob'' else ''alice'') \<in> set (if j = 0 then [''alice''] else [])}"
    by (rule no_lock_cycle [where slugs = "\<lambda>i. if i = 0 then [''bob'', ''alice''] else [''alice'', ''bob'']" and cv = lock_sample_env])
       (use 1 2 in auto)
  with 1 2 show ?thesis by blast
qed

subsection \<open>Sending and replying\<close>

text \<open>The message a send request adds under an active grant, and the request's message on record.\<close>

definition appended :: "identity \<Rightarrow> request \<Rightarrow> ('p, 'r) comm_state \<Rightarrow> ('p, 'r) comm_state \<Rightarrow> bool" where
  "appended caller rq st st' \<longleftrightarrow>
     (\<forall>m \<in> set (cs_messages st). m_id m \<noteq> rq_message_id rq) \<and>
     (\<exists>g \<in> set (cs_grants st). \<exists>peer now. g_revoked g = None \<and> between g caller peer \<and>
        (rq_reply_to rq = [] \<or> (\<exists>m \<in> set (cs_messages st). m_id m = rq_reply_to rq \<and> m_grant m = g_id g)) \<and>
        st' = st\<lparr>cs_messages := cs_messages st @ [new_message caller peer rq (g_id g) now]\<rparr>)"

definition recorded :: "identity \<Rightarrow> request \<Rightarrow> ('p, 'r) comm_state \<Rightarrow> bool" where
  "recorded caller rq st \<longleftrightarrow>
     (\<exists>m \<in> set (cs_messages st). m_id m = rq_message_id rq \<and> m_from m = caller \<and> m_text m = rq_message rq \<and> m_reply m = rq_reply_to rq)"

definition send_outcome :: "string \<Rightarrow> identity \<Rightarrow> request \<Rightarrow> ('p, 'r) comm_state option \<Rightarrow> bool \<Rightarrow> ('w, 'p, 'r) comm_run \<Rightarrow> bool" where
  "send_outcome ws caller rq d ok r' \<longleftrightarrow>
     (cr_disk r' = d \<or> (\<exists>st'. cr_disk r' = Some st' \<and> appended caller rq (durable_state ws d) st')) \<and>
     (ok \<longrightarrow> recorded caller rq (durable_state ws (cr_disk r')))"

lemma admit_state_result:
  assumes "run_state (admit_state cc cv st) r = (e, r')"
  shows "cr_disk r' = cr_disk r \<or> cr_disk r' = Some st" and "e = None \<Longrightarrow> cr_disk r' = Some st"
proof -
  obtain io w where io: "cv_replace cv (cr_world r) = (io, w)" by fastforce
  obtain e1 d1 where sv: "comm_save cc io st (cr_disk r) = (e1, d1)" by fastforce
  note c = comm_save_cases [OF sv]
  show "cr_disk r' = cr_disk r \<or> cr_disk r' = Some st" "e = None \<Longrightarrow> cr_disk r' = Some st"
    using assms io sv c by (auto simp: admit_state_def admit_def split: if_splits)
qed

lemma triple_run_send:
  "triple (on_disk d) (run_send cc cv caller peer rq (durable_state ws d) (active_grant caller peer (durable_state ws d)))
     (\<lambda>e. send_outcome ws caller rq d (e = None))"
proof (rule tripleI)
  let ?st = "durable_state ws d" and ?gi = "active_grant caller peer (durable_state ws d)"
  fix r e r' assume d: "on_disk d r" and run: "run_state (run_send cc cv caller peer rq ?st ?gi) r = (e, r')"
  show "send_outcome ws caller rq d (e = None) r'"
  proof (cases "List.find (\<lambda>m. m_id m = rq_message_id rq) (cs_messages ?st)")
    case (Some m)
    from find_Some_mem [OF Some] have m: "m \<in> set (cs_messages ?st)" "m_id m = rq_message_id rq" by simp_all
    from run Some d have "cr_disk r' = d"
      and "e = None \<longrightarrow> m_from m = caller \<and> m_text m = rq_message rq \<and> m_reply m = rq_reply_to rq"
      by (auto simp: run_send_def split: if_splits)
    with m show ?thesis by (auto simp: send_outcome_def recorded_def)
  next
    case new: None
    show ?thesis
    proof (cases "?gi = None \<or> \<not> reply_known rq (g_id (cs_grants ?st ! the ?gi)) ?st")
      case True
      with run new d have "cr_disk r' = d" "e \<noteq> None" by (auto simp: run_send_def split: option.splits if_splits)
      then show ?thesis by (auto simp: send_outcome_def)
    next
      case False
      then obtain i where i: "?gi = Some i" and k: "reply_known rq (g_id (cs_grants ?st ! i)) ?st" by auto
      let ?g = "cs_grants ?st ! i"
      let ?st' = "?st\<lparr>cs_messages := cs_messages ?st @ [new_message caller peer rq (g_id ?g) (fst (cv_now cv (cr_world r)))]\<rparr>"
      from i have g: "?g \<in> set (cs_grants ?st)" "g_revoked ?g = None" "between ?g caller peer"
        using find_index_nth [of "\<lambda>g. g_revoked g = None \<and> between g caller peer"] by (auto simp: active_grant_def)
      have "run_state (admit_state cc cv ?st') (r\<lparr>cr_world := snd (cv_now cv (cr_world r))\<rparr>) = (e, r')"
        using run new i k by (simp add: run_send_def query_def split: prod.splits)
      note res = admit_state_result [OF this]
      have "appended caller rq ?st ?st'"
        unfolding appended_def using g k new by (auto simp: reply_known_def list_ex_iff find_None_iff)
      moreover have "recorded caller rq ?st'" by (simp add: recorded_def new_message_def)
      ultimately show ?thesis using res d by (auto simp: send_outcome_def durable_state_def)
    qed
  qed
qed

text \<open>
  C25. Sending is idempotent and needs the user's approval: a send or reply changes the durable registry
  in at most one way, by appending one pending message from the caller under an active grant of the
  pair, with an identifier not used before and, for a reply, to a message of the same exchange. A
  request that succeeds has its message on record with exactly the requested text, so that repeating
  it changes nothing.
\<close>

theorem send_appends_once:
  assumes h: "honest_reads cv ws" and act: "rq_action rq = ''send'' \<or> rq_action rq = ''reply''"
    and run: "run_state (Run cc cv ws caller rq) r = (x, r')"
  shows "send_outcome ws caller rq (cr_disk r) (\<exists>v. x = Some (Inr v)) r'"
proof -
  let ?d = "cr_disk r"
  let ?Q = "\<lambda>x. send_outcome ws caller rq ?d (\<exists>v. x = Some (Inr v))"
  have fin: "triple (on_disk ?d) (finish x) ?Q" if "\<nexists>v. x = Some (Inr v)" for x :: "(error + ('b, 'c) view) option"
    using that by (auto intro!: triple_return simp: send_outcome_def)
  have keep: "triple (\<lambda>r. send_outcome ws caller rq ?d True r) (Read cv ws caller) ?Q"
    using writes_Read [of "\<lambda>_. False" cv ws caller]
    by (auto simp: triple_def steady_def writes_def send_outcome_def)
  have fail: "triple (\<lambda>r. send_outcome ws caller rq ?d False r) (finish (Some (Inl e))) ?Q" for e
    by (rule triple_return) simp
  let ?st = "durable_state ws ?d"
  have "run_locked cc cv caller peer rq ?st = run_send cc cv caller peer rq ?st (active_grant caller peer ?st)" for peer
    using act by (auto simp: run_locked_def Let_def)
  then have body: "triple (on_disk ?d) (do { e \<leftarrow> run_locked cc cv caller peer rq ?st;
        case e of Some x \<Rightarrow> finish (Some (Inl x)) | None \<Rightarrow> Read cv ws caller }) ?Q" for peer
    using keep fail by (auto intro!: triple_bind [OF triple_run_send] split: option.split)
  have opened: "triple (on_disk ?d) (run_opened cc cv ws caller rq peer) ?Q" for peer
    unfolding run_opened_def by (intro triple_opened h body fin) auto
  have "triple (on_disk ?d) (Run cc cv ws caller rq) ?Q"
  proof (cases "request_check caller rq")
    case (Some e)
    with act fin show ?thesis by (auto simp: Run_def)
  next
    case None
    have "\<not> (rq_action rq = ''list'' \<or> rq_action rq = ''history'')" using act by auto
    note not_read = if_not_P [OF this]
    show ?thesis unfolding Run_def run_resolved_def not_read None option.case
      by (intro triple_bind [OF triple_idle] writes_prims writes_lockSessions triple_option triple_sum triple_if opened fin) auto
  qed
  from tripleD [OF this refl run] show ?thesis .
qed


theorem send_appends_once_witness:
  "\<exists>x r'. run_state (Run comm_sample_codec comm_sample_env ''/w'' (comm_sample_identity ''alice'') (comm_sample_send\<lparr>rq_action := ''reply'',
       rq_message_id := replicate 32 (CHR ''b''), rq_reply_to := comm_sample_id\<rparr>)) comm_sample_held = (x, r') \<and>
     send_outcome ''/w'' (comm_sample_identity ''alice'') (comm_sample_send\<lparr>rq_action := ''reply'',
       rq_message_id := replicate 32 (CHR ''b''), rq_reply_to := comm_sample_id\<rparr>) (cr_disk comm_sample_held) (\<exists>v. x = Some (Inr v)) r' \<and>
     (case cr_disk r' of None \<Rightarrow> False | Some st \<Rightarrow> map m_status (cs_messages st) = [''held'', ''pending''])"
proof -
  let ?rq = "comm_sample_send\<lparr>rq_action := ''reply'', rq_message_id := replicate 32 (CHR ''b''), rq_reply_to := comm_sample_id\<rparr>"
  let ?e = "run_state (Run comm_sample_codec comm_sample_env ''/w'' (comm_sample_identity ''alice'') ?rq) comm_sample_held"
  have "rq_action ?rq = ''send'' \<or> rq_action ?rq = ''reply''" by simp
  note once = send_appends_once [OF comm_sample_honest this prod.collapse [of ?e, symmetric]]
  have "case cr_disk (snd ?e) of None \<Rightarrow> False | Some st \<Rightarrow> map m_status (cs_messages st) = [''held'', ''pending'']" by code_simp
  with once prod.collapse [of ?e, symmetric] show ?thesis by (intro exI conjI)
qed

end
