(* ===== verification/Session_Recovery.thy ===== *)
theory Session_Recovery
  imports Session_Base "HOL-Library.Code_Target_Nat"
begin

text \<open>
  Execution permission (\<open>portal/internal/session/recovery.go\<close>): a private record per session that says
  which threads may run on the App Server generation it names. The record's store takes the outcome
  of every system call as an argument; the durable record is the argument \<open>disk\<close>.
\<close>

subsection \<open>The record\<close>

record recovery_continuation =
  cn_request :: string
  cn_prompt :: bool

text \<open>\<open>rc_active\<close> is \<open>None\<close> for a nil slice.\<close>

record recovery =
  rc_schema :: int
  rc_workspace :: string
  rc_slug :: string
  rc_thread :: string
  rc_socket :: string
  rc_epoch :: string
  rc_automatic :: bool
  rc_active :: "string list option"
  rc_continuation :: "recovery_continuation option"

definition continuation_json :: "recovery_continuation \<Rightarrow> json" where
  "continuation_json c = JObj [(''request_id'', JStr (cn_request c)), (''prompt'', JBool (cn_prompt c))]"

definition recovery_json :: "recovery \<Rightarrow> json" where
  "recovery_json r = JObj
     ([(''schema'', JInt (rc_schema r)), (''workspace'', JStr (rc_workspace r)), (''slug'', JStr (rc_slug r)),
       (''thread_id'', JStr (rc_thread r)), (''socket_path'', JStr (rc_socket r)), (''socket_identity'', JStr (rc_epoch r)),
       (''automatic'', JBool (rc_automatic r)), (''active_threads'', JOpt (\<lambda>ts. JArr (map JStr ts)) (rc_active r))]
      @ (case rc_continuation r of None \<Rightarrow> [] | Some c \<Rightarrow> [(''continuation'', continuation_json c)]))"

definition zero_recovery :: recovery where
  "zero_recovery = \<lparr>rc_schema = 0, rc_workspace = [], rc_slug = [], rc_thread = [], rc_socket = [], rc_epoch = [],
                    rc_automatic = False, rc_active = None, rc_continuation = None\<rparr>"

text \<open>The members of \<open>ActiveThreads\<close>.\<close>

definition threads_of :: "recovery \<Rightarrow> string list" where
  "threads_of r = (case rc_active r of None \<Rightarrow> [] | Some ts \<Rightarrow> ts)"

definition Active :: "recovery \<Rightarrow> string \<Rightarrow> string \<Rightarrow> bool" where
  "Active r thread epoch \<longleftrightarrow> epoch \<noteq> [] \<and> rc_epoch r = epoch \<and> thread \<in> set (threads_of r)"

subsection \<open>The store\<close>

record recovery_store =
  rs_root :: string
  rs_workspace :: string

definition recovery_path :: "(string \<Rightarrow> string) \<Rightarrow> recovery_store \<Rightarrow> string \<Rightarrow> error + string" where
  "recovery_path sha st slug =
     (if \<not> ValidSlug slug \<or> \<not> IsAbs (rs_root st) \<or> \<not> IsAbs (rs_workspace st)
      then Inl (Err ''invalid session recovery scope'')
      else Inr (Join [Join [rs_root st, ''session-recovery'', sha (rs_workspace st)], slug @ ''.json'']))"

definition maxRecoveryBytes :: nat where "maxRecoveryBytes = 65536"

fun check_active :: "string list \<Rightarrow> string list \<Rightarrow> error option" where
  "check_active seen [] = None"
| "check_active seen (t # ts) =
     (if t = [] \<or> 4096 < length t \<or> t \<in> set seen then Some (Err ''session recovery contains invalid active threads'')
      else check_active (t # seen) ts)"

definition recovery_validate :: "recovery_store \<Rightarrow> string \<Rightarrow> recovery \<Rightarrow> error option" where
  "recovery_validate st slug r =
     (if rc_schema r \<noteq> 1 \<or> rc_workspace r \<noteq> rs_workspace st \<or> rc_slug r \<noteq> slug \<or>
         rc_thread r = [] \<or> rc_epoch r = [] \<or> \<not> validSocketPath (rc_socket r) \<or> rc_active r = None
      then Some (Err ''session recovery identity is invalid'')
      else case check_active [] (threads_of r) of
        Some e \<Rightarrow> Some e
      | None \<Rightarrow>
          (case rc_continuation r of
             Some c \<Rightarrow> if cn_request c = [] then Some (Err ''session recovery continuation has no request identity'') else None
           | None \<Rightarrow> None))"

definition recovery_load ::
  "(string \<Rightarrow> string) \<Rightarrow> recovery_store \<Rightarrow> string \<Rightarrow> recovery file_view \<Rightarrow> error + recovery" where
  "recovery_load sha st slug f =
     (case recovery_path sha st slug of
        Inl e \<Rightarrow> Inl e
      | Inr _ \<Rightarrow> (case first_error [fv_open f, fv_stat f, fv_fstat f] of
          Some e \<Rightarrow> Inl e
        | None \<Rightarrow>
            if \<not> fv_regular f \<or> fv_perm f \<noteq> perm_0600 \<or> \<not> fv_owned f \<or> int maxRecoveryBytes < fv_size f
            then Inl (Err ''session recovery must be a private file of at most 64 KiB'')
            else case fv_read f of
              Inl e \<Rightarrow> Inl e
            | Inr _ \<Rightarrow> (case fv_yaml f of
                Inl e \<Rightarrow> Inl e
              | Inr syntax \<Rightarrow> (case rejectAliasesAndDuplicateKeys syntax of
                  Some e \<Rightarrow> Inl e
                | None \<Rightarrow> (case fv_decode f of
                    Inl e \<Rightarrow> Inl e
                  | Inr r \<Rightarrow>
                      if fv_trailing f then Inl (Err ''session recovery has trailing data'')
                      else case recovery_validate st slug r of Some e \<Rightarrow> Inl e | None \<Rightarrow> Inr r)))))"

subsection \<open>Update\<close>

definition retireRecovery :: error where
  "retireRecovery = Err ''retire session recovery record''"

record recovery_io =
  ri_mkdir :: "error option"
  ri_openlock :: "error option"
  ri_flock :: "flock_attempt list"
  ri_view :: "recovery file_view"
  ri_remove :: "error option"
  ri_opendir :: "error option"
  ri_syncdir :: "error option"
  ri_replace :: replace_io

text \<open>The part of \<open>Update\<close> that publishes a changed record.\<close>

definition recovery_put ::
  "recovery_store \<Rightarrow> string \<Rightarrow> replace_io \<Rightarrow> recovery \<Rightarrow> recovery option \<Rightarrow> error option \<times> recovery option" where
  "recovery_put st slug io r disk =
     (case recovery_validate st slug r of
        Some e \<Rightarrow> (Some e, disk)
      | None \<Rightarrow>
          if maxRecoveryBytes < json_len (recovery_json r) then (Some (Err ''session recovery exceeds 64 KiB''), disk)
          else atomic_replace io r disk)"

text \<open>A change is the callback: its error and the record it leaves.\<close>

type_synonym recovery_change = "recovery \<Rightarrow> error option \<times> recovery"

definition apply_change ::
  "recovery_store \<Rightarrow> string \<Rightarrow> recovery_change \<Rightarrow> recovery_io \<Rightarrow> recovery \<Rightarrow> recovery option \<Rightarrow> error option \<times> recovery option" where
  "apply_change st slug change io r disk =
     (case change r of
        (Some e, _) \<Rightarrow>
          if errors_is e retireRecovery then
            (case ri_remove io of
               Some x \<Rightarrow> if errors_is x ErrNotExist then (first_error [ri_opendir io, ri_syncdir io], None) else (Some x, disk)
             | None \<Rightarrow> (first_error [ri_opendir io, ri_syncdir io], None))
          else (Some e, disk)
      | (None, r1) \<Rightarrow> recovery_put st slug (ri_replace io) r1 disk)"

text \<open>\<open>None\<close> while the record's lock is not granted.\<close>

definition recovery_update ::
  "(string \<Rightarrow> string) \<Rightarrow> recovery_store \<Rightarrow> string \<Rightarrow> recovery_change \<Rightarrow> recovery_io \<Rightarrow> recovery option
   \<Rightarrow> (error option \<times> recovery option) option" where
  "recovery_update sha st slug change io disk =
     (case recovery_path sha st slug of
        Inl e \<Rightarrow> Some (Some e, disk)
      | Inr _ \<Rightarrow> (case first_error [ri_mkdir io, ri_openlock io] of
          Some e \<Rightarrow> Some (Some e, disk)
        | None \<Rightarrow> (case flock_wait (ri_flock io) of
            None \<Rightarrow> None
          | Some (Some e) \<Rightarrow> Some (Some e, disk)
          | Some None \<Rightarrow> (case recovery_load sha st slug (ri_view io) of
              Inr r \<Rightarrow> Some (apply_change st slug change io r disk)
            | Inl e \<Rightarrow>
                if errors_is e ErrNotExist then Some (apply_change st slug change io zero_recovery disk)
                else Some (Some e, disk)))))"

subsection \<open>Retire and Set\<close>

definition identity_changed :: error where
  "identity_changed = Err ''retained recovery identity changed''"

definition retire_change :: "string \<Rightarrow> string \<Rightarrow> bool \<Rightarrow> recovery_change" where
  "retire_change root_thread socket remove r =
     (if rc_schema r = 0 then (Some retireRecovery, r)
      else if rc_thread r \<noteq> root_thread \<or> rc_socket r \<noteq> socket then (Some identity_changed, r)
      else if remove then (Some retireRecovery, r)
      else (None, r\<lparr>rc_automatic := False, rc_active := Some [], rc_continuation := None\<rparr>))"

definition Retire where
  "Retire sha st slug root_thread socket remove = recovery_update sha st slug (retire_change root_thread socket remove)"

record socket_view =
  sv_stat :: "error + (bool \<times> nat \<times> nat \<times> int \<times> int)"
  sv_boot :: "error + string"

text \<open>The last byte of the boot identifier is cut off; an empty file is a slice out of range.\<close>

definition SocketIdentity :: "socket_view \<Rightarrow> error + string" where
  "SocketIdentity v =
     (case sv_stat v of
        Inl e \<Rightarrow> Inl e
      | Inr (sock, dev, ino, sec, nsec) \<Rightarrow>
          if \<not> sock then Inl (Err ''Codex endpoint is not a socket'')
          else case sv_boot v of
            Inl e \<Rightarrow> Inl e
          | Inr boot \<Rightarrow>
              if boot = [] then Inl (Err ''slice bounds out of range'')
              else Inr (join_with '':'' [butlast boot, dec_nat dev, dec_nat ino, dec_int sec, dec_int nsec]))"

definition new_generation :: "string \<Rightarrow> recovery \<Rightarrow> recovery" where
  "new_generation epoch r = (if rc_epoch r \<noteq> epoch then r\<lparr>rc_active := Some [], rc_continuation := None\<rparr> else r)"

definition set_change ::
  "recovery_store \<Rightarrow> string \<Rightarrow> string \<Rightarrow> string \<Rightarrow> string \<Rightarrow> bool \<Rightarrow> bool \<Rightarrow> recovery_change" where
  "set_change st slug root_thread socket epoch automatic activate r =
     (if rc_schema r \<noteq> 0 \<and> (rc_thread r \<noteq> root_thread \<or> rc_socket r \<noteq> socket) then (Some identity_changed, r)
      else
        (let r1 = new_generation epoch r;
             r2 = r1\<lparr>rc_schema := 1, rc_workspace := rs_workspace st, rc_slug := slug, rc_thread := root_thread,
                     rc_socket := socket, rc_epoch := epoch, rc_automatic := automatic, rc_active := Some (threads_of r1)\<rparr>;
             r3 = (if activate \<and> root_thread \<notin> set (threads_of r2)
                   then r2\<lparr>rc_active := Some (threads_of r2 @ [root_thread])\<rparr> else r2);
             r4 = (if automatic then r3 else r3\<lparr>rc_active := Some [], rc_continuation := None\<rparr>)
         in (None, r4)))"

definition Set_permission where
  "Set_permission sha st slug root_thread socket automatic activate sv io disk =
     (case SocketIdentity sv of
        Inl e \<Rightarrow> Some (Some e, disk)
      | Inr epoch \<Rightarrow> recovery_update sha st slug (set_change st slug root_thread socket epoch automatic activate) io disk)"


subsection \<open>Validation and publication\<close>

lemma check_active_None:
  "check_active seen ts = None \<longleftrightarrow> list_all (\<lambda>t. t \<noteq> [] \<and> length t \<le> 4096 \<and> t \<notin> set seen) ts \<and> distinct ts"
proof (induction ts arbitrary: seen)
  case (Cons t ts)
  show ?case by (auto simp: Cons.IH list_all_iff)
qed simp

lemma recovery_validate_None:
  "recovery_validate st slug r = None \<longleftrightarrow>
     rc_schema r = 1 \<and> rc_workspace r = rs_workspace st \<and> rc_slug r = slug \<and> rc_thread r \<noteq> [] \<and> rc_epoch r \<noteq> [] \<and>
     validSocketPath (rc_socket r) \<and> rc_active r \<noteq> None \<and> check_active [] (threads_of r) = None \<and>
     (\<forall>c. rc_continuation r = Some c \<longrightarrow> cn_request c \<noteq> [])"
  by (auto simp: recovery_validate_def split: option.splits)

definition recovery_ok :: "recovery_store \<Rightarrow> string \<Rightarrow> recovery \<Rightarrow> bool" where
  "recovery_ok st slug r \<longleftrightarrow> recovery_validate st slug r = None \<and> json_len (recovery_json r) \<le> maxRecoveryBytes"

lemma recovery_put_cases:
  assumes "recovery_put st slug io r disk = (e, d)"
  shows "d = disk \<and> e \<noteq> None \<or> d = Some r \<and> recovery_ok st slug r"
  using assms atomic_replace_old_or_new [of io r disk] atomic_replace_ok [of io r disk]
  by (auto simp: recovery_put_def recovery_ok_def not_less split: option.splits if_splits)

interpretation recovery_file: durable_store "recovery_ok st slug" "\<lambda>r. r" "recovery_put st slug" for st slug
proof
  fix io :: replace_io and v old e d
  assume "recovery_put st slug io v old = (e, d)"
  then show "d = old \<or> d = Some v \<and> recovery_ok st slug v" by (auto dest: recovery_put_cases)
next
  fix io :: replace_io and v old d
  assume "recovery_put st slug io v old = (None, d)"
  then show "d = Some v" by (auto dest: recovery_put_cases)
qed

text \<open>What a reader of the record's file sees: the durable record, or its absence.\<close>

definition shows_record :: "(string \<Rightarrow> string) \<Rightarrow> recovery_store \<Rightarrow> string \<Rightarrow> recovery file_view \<Rightarrow> recovery option \<Rightarrow> bool" where
  "shows_record sha st slug f d \<longleftrightarrow>
     (case recovery_load sha st slug f of
        Inr r \<Rightarrow> d = Some r
      | Inl e \<Rightarrow> errors_is e ErrNotExist \<longrightarrow> d = None)"

definition seen_record :: "recovery option \<Rightarrow> recovery" where
  "seen_record d = (case d of Some r \<Rightarrow> r | None \<Rightarrow> zero_recovery)"

lemma update_cases:
  assumes run: "recovery_update sha st slug change io d = Some (e, d')"
    and seen: "shows_record sha st slug (ri_view io) d"
  shows "d' = d \<and> e \<noteq> None \<or>
     d' = None \<and> (\<exists>x y. change (seen_record d) = (Some x, y) \<and> errors_is x retireRecovery) \<or>
     (\<exists>r. change (seen_record d) = (None, r) \<and> d' = Some r \<and> recovery_ok st slug r)"
proof -
  have ap: ?thesis if "apply_change st slug change io (seen_record d) d = (e, d')"
  proof (cases "change (seen_record d)")
    case (Pair x r)
    show ?thesis
    proof (cases x)
      case None
      with that Pair have "recovery_put st slug (ri_replace io) r d = (e, d')" by (simp add: apply_change_def)
      from recovery_put_cases [OF this] None Pair show ?thesis by auto
    next
      case (Some y)
      with that Pair have "if errors_is y retireRecovery then d' = None \<or> d' = d \<and> e \<noteq> None else d' = d \<and> e \<noteq> None"
        by (simp add: apply_change_def split: if_splits option.splits) metis+
      with Some Pair show ?thesis by (auto split: if_splits)
    qed
  qed
  show ?thesis
  proof (cases "recovery_load sha st slug (ri_view io)")
    case (Inr r)
    with seen have "seen_record d = r" by (simp add: shows_record_def seen_record_def)
    with run Inr ap show ?thesis by (auto simp: recovery_update_def split: option.splits sum.splits)
  next
    case (Inl x)
    with seen have "errors_is x ErrNotExist \<Longrightarrow> seen_record d = zero_recovery" by (simp add: shows_record_def seen_record_def)
    with run Inl ap show ?thesis by (auto simp: recovery_update_def split: option.splits sum.splits if_splits)
  qed
qed

subsection \<open>Permission\<close>

lemma set_change_active:
  assumes "set_change st slug root_thread socket epoch automatic activate r = (None, r')" and "epoch \<noteq> []"
  shows "Active r' t e \<longleftrightarrow> automatic \<and> e = epoch \<and> (activate \<and> t = root_thread \<or> Active r t epoch)"
  using assms
  by (auto simp: set_change_def Let_def Active_def threads_of_def new_generation_def split: if_splits option.splits)

lemma zero_not_active [simp]: "\<not> Active zero_recovery t e"
  by (simp add: Active_def threads_of_def zero_recovery_def)

definition permits :: "recovery option \<Rightarrow> string \<Rightarrow> string \<Rightarrow> bool" where
  "permits d t e = (case d of None \<Rightarrow> False | Some r \<Rightarrow> Active r t e)"

lemma permits_simps [simp]: "permits (Some r) t e = Active r t e" "\<not> permits None t e"
  by (simp_all add: permits_def)

lemma permits_seen: "Active (seen_record d) t e \<longleftrightarrow> permits d t e"
  by (cases d) (simp_all add: permits_def seen_record_def)

text \<open>
  C21. Setting a session's permission: when \<open>Set\<close> succeeds, a thread may run exactly on the server
  generation that was current, and only if automatic execution is on and the thread is the root just
  activated or was already permitted on this same generation. Nothing carries over from another
  generation, and turning automatic execution off withdraws every thread.
\<close>

theorem Set_permission_exact:
  assumes "SocketIdentity sv = Inr epoch" and "shows_record sha st slug (ri_view io) d"
    and "Set_permission sha st slug root_thread socket automatic activate sv io d = Some (None, d')"
  shows "permits d' t e \<longleftrightarrow> automatic \<and> e = epoch \<and> (activate \<and> t = root_thread \<or> permits d t epoch)"
proof -
  let ?c = "set_change st slug root_thread socket epoch automatic activate"
  from assms(1,3) have "recovery_update sha st slug ?c io d = Some (None, d')" by (simp add: Set_permission_def)
  from update_cases [OF this assms(2)] obtain r where r: "?c (seen_record d) = (None, r)" "d' = Some r" "recovery_ok st slug r"
    by (auto simp: set_change_def Let_def identity_changed_def retireRecovery_def split: if_splits)
  from r(1) have "rc_epoch r = epoch" by (auto simp: set_change_def Let_def split: if_splits)
  with r(3) have "epoch \<noteq> []" by (auto simp: recovery_ok_def recovery_validate_None)
  from set_change_active [OF r(1) this] r(2) show ?thesis by (simp add: permits_def permits_seen)
qed

text \<open>
  Retiring a session's record withdraws the permission of every thread on every generation; with
  \<open>remove\<close> the record itself is gone.
\<close>

theorem Retire_withdraws:
  assumes "shows_record sha st slug (ri_view io) d"
    and "Retire sha st slug root_thread socket remove io d = Some (None, d')"
  shows "\<not> permits d' t e \<and> (remove \<longrightarrow> d' = None)"
proof -
  let ?c = "retire_change root_thread socket remove"
  from assms(2) have "recovery_update sha st slug ?c io d = Some (None, d')" by (simp add: Retire_def)
  from update_cases [OF this assms(1)] show ?thesis
    by (auto simp: retire_change_def permits_def Active_def threads_of_def split: if_splits option.splits)
qed

subsection \<open>Reading back\<close>

definition recovery_bytes :: "recovery \<Rightarrow> string" where
  "recovery_bytes r = json_enc (recovery_json r) @ [CHR 0x0A]"

text \<open>The record's file after a successful update, as its readers see it.\<close>

abbreviation recovery_file_of :: "recovery \<Rightarrow> recovery file_view" where
  "recovery_file_of r \<equiv> plain_view (recovery_bytes r) r"

lemma load_published:
  assumes "recovery_ok st slug r" and "recovery_path sha st slug = Inr p"
  shows "recovery_load sha st slug (recovery_file_of r) =
    (if json_len (recovery_json r) < maxRecoveryBytes then Inr r
     else Inl (Err ''session recovery must be a private file of at most 64 KiB''))"
  using assms by (auto simp: recovery_load_def plain_view_def recovery_bytes_def recovery_ok_def json_len_def)

lemma update_published:
  assumes "recovery_update sha st slug change io d = Some (None, Some r)" and "shows_record sha st slug (ri_view io) d"
  shows "recovery_ok st slug r \<and> (\<exists>p. recovery_path sha st slug = Inr p)"
  using update_cases [OF assms] assms(1) by (auto simp: recovery_update_def split: sum.splits)

text \<open>
  A published record is accepted when it is read, provided its JSON is shorter than 64 KiB (and decodes to
  what was written: the decoder appears by its result); at exactly 64 KiB the update succeeds but every
  later load refuses the file, because the bound is checked before the newline is appended.
\<close>

lemma recovery_reads_back:
  assumes "recovery_update sha st slug change io d = Some (None, Some r)" and "shows_record sha st slug (ri_view io) d"
  shows "recovery_load sha st slug (recovery_file_of r) =
    (if json_len (recovery_json r) < maxRecoveryBytes then Inr r
     else Inl (Err ''session recovery must be a private file of at most 64 KiB''))"
  using load_published update_published [OF assms] by blast

subsection \<open>Samples\<close>

definition rec_store :: recovery_store where
  "rec_store = \<lparr>rs_root = ''/s'', rs_workspace = ''/w''\<rparr>"

definition rec_socket :: socket_view where
  "rec_socket = \<lparr>sv_stat = Inr (True, 5, 77, 12, 0), sv_boot = Inr ''boot-1.''\<rparr>"

definition rec_io :: "recovery option \<Rightarrow> recovery_io" where
  "rec_io d = \<lparr>ri_mkdir = None, ri_openlock = None, ri_flock = [WouldBlock None, Acquired],
     ri_view = (case d of None \<Rightarrow> missing_view zero_recovery | Some r \<Rightarrow> recovery_file_of r),
     ri_remove = None, ri_opendir = None, ri_syncdir = None, ri_replace = io_success\<rparr>"

abbreviation rec_sha :: "string \<Rightarrow> string" where
  "rec_sha \<equiv> \<lambda>_. ''00''"

definition rec_active :: recovery where
  "rec_active = \<lparr>rc_schema = 1, rc_workspace = ''/w'', rc_slug = ''demo'', rc_thread = ''t1'', rc_socket = ''/run/codex.sock'',
     rc_epoch = ''boot-1:5:77:12:0'', rc_automatic = True, rc_active = Some [''t1''], rc_continuation = None\<rparr>"

lemma rec_shows_none: "shows_record rec_sha rec_store ''demo'' (ri_view (rec_io None)) None"
  by code_simp

lemma rec_shows_active: "shows_record rec_sha rec_store ''demo'' (ri_view (rec_io (Some rec_active))) (Some rec_active)"
  by code_simp

lemma rec_epoch: "SocketIdentity rec_socket = Inr ''boot-1:5:77:12:0''"
  by code_simp

lemma rec_set: "Set_permission rec_sha rec_store ''demo'' ''t1'' ''/run/codex.sock'' True True rec_socket (rec_io None) None = Some (None, Some rec_active)"
  by code_simp

theorem Set_permission_exact_witness:
  "Set_permission rec_sha rec_store ''demo'' ''t1'' ''/run/codex.sock'' True True rec_socket (rec_io None) None = Some (None, Some rec_active) \<and>
   (\<forall>t e. permits (Some rec_active) t e \<longleftrightarrow> e = ''boot-1:5:77:12:0'' \<and> t = ''t1'')"
  using rec_set Set_permission_exact [OF rec_epoch rec_shows_none rec_set] by auto

theorem Retire_withdraws_witness:
  "\<exists>d'. Retire rec_sha rec_store ''demo'' ''t1'' ''/run/codex.sock'' False (rec_io (Some rec_active)) (Some rec_active) = Some (None, d') \<and>
     d' \<noteq> None \<and> (\<forall>t e. \<not> permits d' t e)"
proof -
  let ?d = "Some (rec_active\<lparr>rc_automatic := False, rc_active := Some []\<rparr>)"
  have r: "Retire rec_sha rec_store ''demo'' ''t1'' ''/run/codex.sock'' False (rec_io (Some rec_active)) (Some rec_active) = Some (None, ?d)"
    by code_simp
  have "?d \<noteq> None" "\<forall>t e. \<not> permits ?d t e" using Retire_withdraws [OF rec_shows_active r] by simp_all
  with r show ?thesis by (intro exI conjI)
qed

lemma esc_string_safe: "list_all (\<lambda>c. byte_of c < 128 \<and> esc_ascii c = [c]) s \<Longrightarrow> esc_string s = s"
  by (induction s) (auto simp: esc_string.simps)

lemma esc_string_replicate: "esc_string (replicate n (CHR ''a'')) = replicate n (CHR ''a'')"
proof (rule esc_string_safe)
  have "byte_of (CHR ''a'') < 128 \<and> esc_ascii (CHR ''a'') = [CHR ''a'']" by code_simp
  then show "list_all (\<lambda>c. byte_of c < 128 \<and> esc_ascii c = [c]) (replicate n (CHR ''a''))" by (simp add: list_all_iff)
qed

definition with_request :: "string \<Rightarrow> recovery" where
  "with_request q = rec_active\<lparr>rc_continuation := Some \<lparr>cn_request = q, cn_prompt = True\<rparr>\<rparr>"

lemma json_len_request:
  "json_len (recovery_json (with_request q)) = json_len (recovery_json (with_request [])) + length (esc_string q)"
  by (simp add: json_len_def recovery_json_def with_request_def rec_active_def continuation_json_def json_string_def)

text \<open>The boundary case: a continuation whose request identity fills the record to 64 KiB exactly.\<close>

definition full_recovery :: recovery where
  "full_recovery = with_request (replicate 65319 (CHR ''a''))"

lemma full_recovery_len: "json_len (recovery_json full_recovery) = maxRecoveryBytes"
proof -
  have "json_len (recovery_json (with_request [])) = 217" by code_simp
  then show ?thesis by (simp add: full_recovery_def json_len_request [of "replicate _ _"] esc_string_replicate maxRecoveryBytes_def)
qed

lemma full_recovery_ok: "recovery_ok rec_store ''demo'' full_recovery"
proof -
  have "recovery_validate rec_store ''demo'' rec_active = None" by code_simp
  then show ?thesis
    by (auto simp: recovery_ok_def recovery_validate_None full_recovery_len, auto simp: full_recovery_def with_request_def threads_of_def)
qed

lemma rec_path: "recovery_path rec_sha rec_store ''demo'' = Inr ''/s/session-recovery/00/demo.json''"
  by code_simp

text \<open>
  C37. The size bound of \<open>Update\<close> and that of \<open>Load\<close> differ by one byte: a valid record of exactly 64 KiB
  of JSON is published successfully and can then never be loaded, updated or retired again, because
  the file holds one newline more.
\<close>

theorem recovery_limit_unreadable:
  "recovery_update rec_sha rec_store ''demo'' (\<lambda>r. (None, full_recovery)) (rec_io None) None = Some (None, Some full_recovery) \<and>
   recovery_load rec_sha rec_store ''demo'' (recovery_file_of full_recovery) =
     Inl (Err ''session recovery must be a private file of at most 64 KiB'') \<and>
   (\<forall>change d. recovery_update rec_sha rec_store ''demo'' change ((rec_io None)\<lparr>ri_view := recovery_file_of full_recovery\<rparr>) d =
      Some (Some (Err ''session recovery must be a private file of at most 64 KiB''), d))"
proof -
  have load: "recovery_load rec_sha rec_store ''demo'' (recovery_file_of full_recovery) =
     Inl (Err ''session recovery must be a private file of at most 64 KiB'')"
    using load_published [OF full_recovery_ok rec_path] by (simp add: full_recovery_len)
  have absent: "recovery_load rec_sha rec_store ''demo'' (missing_view zero_recovery) = Inl ErrNotExist"
    by (simp add: recovery_load_def rec_path missing_view_def plain_view_def)
  have "recovery_put rec_store ''demo'' io_success full_recovery None = (None, Some full_recovery)"
    using full_recovery_ok by (simp add: recovery_put_def recovery_ok_def)
  then show ?thesis using load absent
    by (simp add: recovery_update_def rec_path rec_io_def apply_change_def)
qed

end
