(* ===== verification/Session_Lifecycle.thy ===== *)
theory Session_Lifecycle
  imports Session_Base "HOL-Library.List_Lexorder" "HOL-Library.Char_ord" "HOL-Library.Code_Target_Nat"
begin

text \<open>
  Lifecycle journals (\<open>portal/internal/session/lifecycle.go\<close>, \<open>service_cleanup.go\<close>): which archive, delete
  or revive owns a session slug, and how far it got. The portal only reads the journals; the files
  under \<open>worktrees/.locks\<close> are the argument \<open>fs\<close>. The decoders and \<open>time.Parse\<close> appear by their results
  on the file's bytes; a decoded JSON object is its members in key order, as \<open>json.Marshal\<close> of the
  decoded map writes them.
\<close>

subsection \<open>Progress\<close>

record lifecycle_progress =
  lp_prelude :: bool
  lp_prelude_evidence :: string
  lp_operation :: string
  lp_phase :: string
  lp_mode :: string
  lp_force :: bool
  lp_journal :: string
  lp_evidence :: string
  lp_retained :: "string option"
  lp_root_recorded :: bool
  lp_updated :: int

definition maxLifecycleJournalBytes :: nat where "maxLifecycleJournalBytes = 64 * 1024"

definition lifecyclePhases :: "(string \<times> string list) list" where
  "lifecyclePhases =
     [(''archive'', [''prepared'', ''quiesced'', ''clusters_released'', ''tracking_archived'', ''tracking_committed'',
                     ''tracking_saved'', ''thread_retired'', ''runtime_retired'', ''archived'']),
      (''delete'', [''prepared'', ''validated'', ''thread_retiring'', ''thread_retired'', ''clusters_released'',
                    ''worktrees_removed'', ''runtime_retired'', ''tracking_preserved'', ''tracking_committed'', ''removed'']),
      (''revive'', [''prepared'', ''tracking_restored'', ''tracking_committed'', ''tracking_saved'', ''runtime_starting'',
                    ''runtime_started'', ''revived''])]"

definition ValidLifecyclePhase :: "string \<Rightarrow> string \<Rightarrow> bool" where
  "ValidLifecyclePhase operation phase =
     (case map_of lifecyclePhases operation of None \<Rightarrow> False | Some ps \<Rightarrow> phase \<in> set ps)"

subsection \<open>The files\<close>

record dir_view =
  dv_lstat :: "error option"
  dv_dir :: bool

record stat_view =
  sx_lstat :: "error option"
  sx_regular :: bool
  sx_owned :: bool
  sx_perm :: nat
  sx_size :: int

record journal_payload =
  jp_slug :: string
  jp_workspace :: string
  jp_phase :: string
  jp_mode :: string
  jp_force :: "bool option"
  jp_operation_id :: string

record journal_view =
  jv_file :: "journal_payload file_view"
  jv_object :: "error + (string \<times> json) list"
  jv_mtime :: int

record prelude_payload =
  pp_schema :: int
  pp_workspace :: string
  pp_slug :: string
  pp_registry :: string
  pp_retained :: "string option"
  pp_dev :: "u64 option"
  pp_ino :: "u64 option"
  pp_operation :: string
  pp_operation_id :: string
  pp_mode :: "string option"
  pp_force :: "bool option"
  pp_automatic :: "bool option"
  pp_resources :: "string list option"
  pp_phase :: string
  pp_created :: string
  pp_updated :: string

text \<open>\<open>pv_zone\<close>: the zone offset of a text that \<open>time.Parse(time.RFC3339Nano, \<dots>)\<close> accepts.\<close>

record prelude_view =
  pv_file :: "prelude_payload file_view"
  pv_object :: "error + (string \<times> json) list"
  pv_zone :: "string \<Rightarrow> int option"
  pv_mtime :: int

record lifecycle_fs =
  lf_root :: dir_view
  lf_entries :: "error + string list"
  lf_stat :: "string \<Rightarrow> string \<Rightarrow> stat_view"
  lf_journal :: "string \<Rightarrow> string \<Rightarrow> journal_view"
  lf_prelude :: "string \<Rightarrow> prelude_view"

subsection \<open>One journal\<close>

definition mutable_keys :: "string \<Rightarrow> string list" where
  "mutable_keys operation =
     (if operation = ''delete'' then [''phase'', ''state'', ''force'', ''git_tracked'', ''worktrees'', ''worktrees_sealed''] else [''phase''])"

definition without :: "string list \<Rightarrow> (string \<times> json) list \<Rightarrow> (string \<times> json) list" where
  "without ks ms = filter (\<lambda>m. fst m \<notin> set ks) ms"

definition evidence :: "(string \<Rightarrow> string) \<Rightarrow> (string \<times> json) list \<Rightarrow> string" where
  "evidence sha ms = sha (json_enc (JObj ms))"

text \<open>The retained root: whether it is recorded, and which thread.\<close>

definition retained_root :: "(string \<times> json) list \<Rightarrow> error + (bool \<times> string option)" where
  "retained_root ms =
     (case map_of ms ''retained_thread_id'' of
        None \<Rightarrow> Inr (False, None)
      | Some JNull \<Rightarrow> Inr (True, None)
      | Some (JStr v) \<Rightarrow> if v = [] then Inl (Err ''lifecycle journal has an invalid retained root'') else Inr (True, Some v)
      | Some _ \<Rightarrow> Inl (Err ''lifecycle journal has an invalid retained root''))"

definition archive_mode :: "string \<Rightarrow> bool" where
  "archive_mode m \<longleftrightarrow> m = ''complete'' \<or> m = ''abandoned'' \<or> m = ''archived''"

definition check_payload :: "string \<Rightarrow> string \<Rightarrow> string \<Rightarrow> journal_payload \<Rightarrow> error option" where
  "check_payload slug workspace operation p =
     (if jp_slug p \<noteq> slug \<or> jp_workspace p \<noteq> workspace then Some (Err ''lifecycle journal progress has the wrong session identity'')
      else if \<not> ValidLifecyclePhase operation (jp_phase p) then Some (Err (''lifecycle journal has an invalid '' @ operation @ '' phase''))
      else if operation = ''archive'' \<and> \<not> archive_mode (jp_mode p) then Some (Err ''archive journal progress has an invalid mode'')
      else if operation = ''delete'' \<and> jp_force p = None then Some (Err ''delete journal progress has no force setting'')
      else if \<not> validLifecycleJournalID (jp_operation_id p) then Some (Err ''lifecycle journal has an invalid operation identity'')
      else None)"

definition readLifecycleProgressFile ::
  "(string \<Rightarrow> string) \<Rightarrow> journal_view \<Rightarrow> string \<Rightarrow> string \<Rightarrow> string \<Rightarrow> error + lifecycle_progress option" where
  "readLifecycleProgressFile sha v slug workspace operation =
     (let f = jv_file v in
      case fv_open f of
        Some e \<Rightarrow> if errors_is e ErrNotExist then Inr None else Inl (ErrWrap ''open lifecycle journal progress'' e)
      | None \<Rightarrow> (case fv_stat f of
          Some e \<Rightarrow> Inl (ErrWrap ''inspect open lifecycle journal progress'' e)
        | None \<Rightarrow>
            if \<not> fv_regular f \<or> \<not> fv_owned f \<or> fv_perm f \<noteq> perm_0600 \<or> int maxLifecycleJournalBytes < fv_size f
            then Inl (Err ''open lifecycle journal progress is unsafe'')
            else case fv_read f of
              Inl e \<Rightarrow> Inl (ErrWrap ''read lifecycle journal progress'' e)
            | Inr data \<Rightarrow>
                if maxLifecycleJournalBytes < length data then Inl (Err ''lifecycle journal progress exceeds 64 KiB'')
                else case fv_decode f of
                  Inl e \<Rightarrow> Inl (ErrWrap ''decode lifecycle journal progress'' e)
                | Inr p \<Rightarrow> (case check_payload slug workspace operation p of
                    Some e \<Rightarrow> Inl e
                  | None \<Rightarrow> (case jv_object v of
                      Inl e \<Rightarrow> Inl e
                    | Inr ms \<Rightarrow>
                        (let immutable = without (mutable_keys operation) ms in
                         case retained_root immutable of
                           Inl e \<Rightarrow> Inl e
                         | Inr (recorded, retained) \<Rightarrow>
                             Inr (Some \<lparr>lp_prelude = False, lp_prelude_evidence = [], lp_operation = operation,
                               lp_phase = jp_phase p, lp_mode = jp_mode p, lp_force = (jp_force p = Some True),
                               lp_journal = jp_operation_id p, lp_evidence = evidence sha immutable,
                               lp_retained = retained, lp_root_recorded = recorded, lp_updated = jv_mtime v\<rparr>))))))"

subsection \<open>The service cleanup prelude\<close>

definition prelude_identity_ok :: "string \<Rightarrow> string \<Rightarrow> (string \<times> string) list \<Rightarrow> prelude_payload \<Rightarrow> bool" where
  "prelude_identity_ok workspace slug raws p \<longleftrightarrow>
     length raws = 15 \<and> map_of raws ''retained_thread_id'' \<noteq> None \<and> map_of raws ''mode'' \<noteq> None \<and> map_of raws ''force'' \<noteq> None \<and>
     pp_schema p = 1 \<and> pp_workspace p = workspace \<and> pp_slug p = slug \<and> serviceCleanupUUID (pp_registry p) \<and>
     validLifecycleJournalID (pp_operation_id p) \<and> pp_automatic p \<noteq> None \<and> pp_dev p \<noteq> None \<and> pp_ino p \<noteq> None \<and>
     pp_retained p \<noteq> Some [] \<and> pp_resources p \<noteq> None \<and> (case pp_resources p of None \<Rightarrow> True | Some rs \<Rightarrow> length rs \<le> 256) \<and>
     (pp_phase p = ''services_pending'' \<or> pp_phase p = ''services_stopped'')"

text \<open>Mode and force, by operation.\<close>

definition prelude_policy :: "prelude_payload \<Rightarrow> error + (string \<times> bool)" where
  "prelude_policy p =
     (if pp_operation p = ''archive'' then
        (case (pp_mode p, pp_force p) of
           (Some m, None) \<Rightarrow> if archive_mode m then Inr (m, False) else Inl (Err ''service cleanup archive mode is invalid'')
         | _ \<Rightarrow> Inl (Err ''service cleanup archive policy is invalid''))
      else if pp_operation p = ''delete'' then
        (case (pp_mode p, pp_force p) of
           (None, Some b) \<Rightarrow> Inr ([], b)
         | _ \<Rightarrow> Inl (Err ''service cleanup delete policy is invalid''))
      else Inl (Err ''service cleanup operation is invalid''))"

definition resources_ok :: "string list \<Rightarrow> bool" where
  "resources_ok rs \<longleftrightarrow> sorted rs \<and> list_all serviceCleanupUUID rs \<and> (\<forall>i < length rs. 0 < i \<longrightarrow> rs ! i \<noteq> rs ! (i - 1))"

fun times_error :: "(string \<Rightarrow> int option) \<Rightarrow> string list \<Rightarrow> error option" where
  "times_error zone [] = None"
| "times_error zone (t # ts) =
     (case zone t of
        None \<Rightarrow> Some (Err ''service cleanup time is invalid'')
      | Some offset \<Rightarrow> if offset \<noteq> 0 then Some (Err ''service cleanup time is not UTC'') else times_error zone ts)"

definition prelude_mutable :: "string \<Rightarrow> string list" where
  "prelude_mutable operation = [''phase'', ''updated_at''] @ (if operation = ''delete'' then [''force''] else [])"

definition readServiceCleanupProgress ::
  "(string \<Rightarrow> string) \<Rightarrow> prelude_view \<Rightarrow> string \<Rightarrow> string \<Rightarrow> error + lifecycle_progress option" where
  "readServiceCleanupProgress sha v workspace slug =
     (let f = pv_file v in
      case fv_open f of
        Some e \<Rightarrow> if errors_is e ErrNotExist then Inr None else Inl e
      | None \<Rightarrow> (case fv_stat f of
          Some e \<Rightarrow> Inl e
        | None \<Rightarrow>
            if \<not> fv_regular f \<or> \<not> fv_owned f \<or> fv_perm f \<noteq> perm_0600 \<or> int maxLifecycleJournalBytes < fv_size f
            then Inl (Err ''service cleanup prelude is unsafe'')
            else if (case fv_read f of Inl _ \<Rightarrow> True | Inr raw \<Rightarrow> maxLifecycleJournalBytes < length raw)
            then Inl (Err ''service cleanup prelude cannot be read'')
            else case fv_decode f of
              Inl e \<Rightarrow> Inl (ErrWrap ''decode service cleanup prelude'' e)
            | Inr p \<Rightarrow>
                if fv_trailing f then Inl (Err ''service cleanup prelude has trailing data'')
                else case fv_yaml f of
                  Inl e \<Rightarrow> Inl e
                | Inr tree \<Rightarrow> (case rejectAliasesAndDuplicateKeys tree of
                    Some e \<Rightarrow> Inl e
                  | None \<Rightarrow> (case fv_fields f of
                      Inl e \<Rightarrow> Inl e
                    | Inr raws \<Rightarrow>
                        if \<not> prelude_identity_ok workspace slug raws p
                        then Inl (Err ''service cleanup prelude has invalid ownership or state'')
                        else case prelude_policy p of
                          Inl e \<Rightarrow> Inl e
                        | Inr (mode, force) \<Rightarrow>
                            if \<not> resources_ok (the (pp_resources p)) then Inl (Err ''service cleanup resource identities are invalid'')
                            else case times_error (pv_zone v) [pp_created p, pp_updated p] of
                              Some e \<Rightarrow> Inl e
                            | None \<Rightarrow> (case pv_object v of
                                Inl e \<Rightarrow> Inl e
                              | Inr ms \<Rightarrow>
                                  Inr (Some \<lparr>lp_prelude = True, lp_prelude_evidence = [], lp_operation = pp_operation p,
                                    lp_phase = pp_phase p, lp_mode = mode, lp_force = force, lp_journal = pp_operation_id p,
                                    lp_evidence = evidence sha (without (prelude_mutable (pp_operation p)) ms),
                                    lp_retained = pp_retained p, lp_root_recorded = True, lp_updated = pv_mtime v\<rparr>))))))"

definition conflicting_cleanup :: "string \<Rightarrow> error" where
  "conflicting_cleanup slug = Err (''conflicting service cleanup and lifecycle journals reserve session '' @ slug)"

definition same_root :: "lifecycle_progress \<Rightarrow> lifecycle_progress \<Rightarrow> bool" where
  "same_root p q \<longleftrightarrow> \<not> lp_root_recorded p \<or> lp_retained p = lp_retained q"

definition combineServiceCleanup ::
  "lifecycle_progress option \<Rightarrow> lifecycle_progress option \<Rightarrow> string \<Rightarrow> error + lifecycle_progress option" where
  "combineServiceCleanup progress prelude slug =
     (case (progress, prelude) of
        (p, None) \<Rightarrow> Inr p
      | (None, Some q) \<Rightarrow> Inr (Some q)
      | (Some p, Some q) \<Rightarrow>
          if lp_operation p \<noteq> lp_operation q \<or> lp_journal p \<noteq> lp_journal q \<or> lp_mode p \<noteq> lp_mode q \<or> \<not> same_root p q \<or>
             lp_operation p = ''delete'' \<and> lp_force q \<and> \<not> lp_force p
          then Inl (conflicting_cleanup slug)
          else Inr (Some (p\<lparr>lp_prelude_evidence := lp_evidence q\<rparr>)))"

subsection \<open>The owner of a session\<close>

definition conflicting :: "string \<Rightarrow> error" where
  "conflicting slug = Err (''conflicting lifecycle journals reserve session '' @ slug)"

text \<open>The journal directory: absent, or usable.\<close>

definition journal_root :: "dir_view \<Rightarrow> error + bool" where
  "journal_root d =
     (case dv_lstat d of
        Some e \<Rightarrow> if errors_is e ErrNotExist then Inr False else Inl (ErrWrap ''inspect lifecycle journal directory'' e)
      | None \<Rightarrow> if dv_dir d then Inr True else Inl (Err ''lifecycle journal directory is unsafe''))"

fun journal_progress ::
  "(string \<Rightarrow> string) \<Rightarrow> lifecycle_fs \<Rightarrow> string \<Rightarrow> string \<Rightarrow> lifecycle_progress option \<Rightarrow> lifecycle_journal list
   \<Rightarrow> error + lifecycle_progress option" where
  "journal_progress sha fs workspace slug progress [] = Inr progress"
| "journal_progress sha fs workspace slug progress (j # js) =
     (case readLifecycleProgressFile sha (lf_journal fs slug (lj_name j)) slug workspace (lj_command j) of
        Inl e \<Rightarrow> Inl e
      | Inr None \<Rightarrow> journal_progress sha fs workspace slug progress js
      | Inr (Some p) \<Rightarrow>
          if progress \<noteq> None then Inl (conflicting slug) else journal_progress sha fs workspace slug (Some p) js)"

definition PendingLifecycleProgress ::
  "(string \<Rightarrow> string) \<Rightarrow> lifecycle_fs \<Rightarrow> string \<Rightarrow> string \<Rightarrow> error + lifecycle_progress option" where
  "PendingLifecycleProgress sha fs workspace slug =
     (if \<not> ValidSlug slug then Inl (Err ''invalid session slug'')
      else case journal_root (lf_root fs) of
        Inl e \<Rightarrow> Inl e
      | Inr False \<Rightarrow> Inr None
      | Inr True \<Rightarrow> (case journal_progress sha fs workspace slug None LifecycleJournals of
          Inl e \<Rightarrow> Inl e
        | Inr progress \<Rightarrow> (case readServiceCleanupProgress sha (lf_prelude fs slug) workspace slug of
            Inl e \<Rightarrow> Inl e
          | Inr prelude \<Rightarrow> combineServiceCleanup progress prelude slug)))"

fun journal_owner :: "lifecycle_fs \<Rightarrow> string \<Rightarrow> string \<Rightarrow> lifecycle_journal list \<Rightarrow> error + string" where
  "journal_owner fs slug operation [] = Inr operation"
| "journal_owner fs slug operation (j # js) =
     (let x = lf_stat fs slug (lj_name j) in
      case sx_lstat x of
        Some e \<Rightarrow>
          if errors_is e ErrNotExist then journal_owner fs slug operation js else Inl (ErrWrap ''inspect lifecycle journal'' e)
      | None \<Rightarrow>
          if \<not> sx_regular x \<or> \<not> sx_owned x \<or> sx_perm x \<noteq> perm_0600 \<or> 64 * 1024 < sx_size x
          then Inl (Err (''lifecycle journal is unsafe: '' @ slug @ ''.'' @ lj_name j @ ''.json''))
          else if operation \<noteq> [] \<and> operation \<noteq> lj_command j then Inl (conflicting slug)
          else journal_owner fs slug (lj_command j) js)"

definition PendingLifecycle :: "(string \<Rightarrow> string) \<Rightarrow> lifecycle_fs \<Rightarrow> string \<Rightarrow> string \<Rightarrow> error + string" where
  "PendingLifecycle sha fs workspace slug =
     (if \<not> ValidSlug slug then Inl (Err ''invalid session slug'')
      else case journal_root (lf_root fs) of
        Inl e \<Rightarrow> Inl e
      | Inr False \<Rightarrow> Inr []
      | Inr True \<Rightarrow> (case journal_owner fs slug [] LifecycleJournals of
          Inl e \<Rightarrow> Inl e
        | Inr operation \<Rightarrow> (case readServiceCleanupProgress sha (lf_prelude fs slug) workspace slug of
            Inl e \<Rightarrow> Inl e
          | Inr None \<Rightarrow> Inr operation
          | Inr (Some q) \<Rightarrow>
              (case (if operation \<noteq> [] then PendingLifecycleProgress sha fs workspace slug else Inr None) of
                 Inl e \<Rightarrow> Inl e
               | Inr _ \<Rightarrow>
                   if operation \<noteq> [] \<and> operation \<noteq> lp_operation q then Inl (conflicting slug) else Inr (lp_operation q)))))"

subsection \<open>All pending operations\<close>

definition serviceCleanupSuffix :: string where "serviceCleanupSuffix = ''.services-cleanup.json''"

definition journal_suffixes :: "string list" where
  "journal_suffixes = serviceCleanupSuffix # map (\<lambda>j. ''.'' @ lj_name j @ ''.json'') LifecycleJournals"

definition candidate_slugs :: "string \<Rightarrow> string list" where
  "candidate_slugs entry = filter ValidSlug (map (TrimSuffix entry) (filter (HasSuffix entry) journal_suffixes))"

fun collect_progress ::
  "(string \<Rightarrow> string) \<Rightarrow> lifecycle_fs \<Rightarrow> string \<Rightarrow> string list \<Rightarrow> error + (string \<times> lifecycle_progress) list" where
  "collect_progress sha fs workspace [] = Inr []"
| "collect_progress sha fs workspace (slug # slugs) =
     (case PendingLifecycleProgress sha fs workspace slug of
        Inl e \<Rightarrow> Inl e
      | Inr p \<Rightarrow> (case collect_progress sha fs workspace slugs of
          Inl e \<Rightarrow> Inl e
        | Inr ps \<Rightarrow> Inr ((case p of None \<Rightarrow> [] | Some x \<Rightarrow> [(slug, x)]) @ ps)))"

definition PendingLifecycles ::
  "(string \<Rightarrow> string) \<Rightarrow> lifecycle_fs \<Rightarrow> string \<Rightarrow> error + (string \<times> lifecycle_progress) list" where
  "PendingLifecycles sha fs workspace =
     (case journal_root (lf_root fs) of
        Inl e \<Rightarrow> Inl e
      | Inr False \<Rightarrow> Inr []
      | Inr True \<Rightarrow> (case lf_entries fs of
          Inl e \<Rightarrow> Inl (ErrWrap ''read lifecycle journal directory'' e)
        | Inr entries \<Rightarrow> collect_progress sha fs workspace (remdups (concat (map candidate_slugs entries)))))"


subsection \<open>What is read is well formed\<close>

definition well_formed_progress :: "lifecycle_progress \<Rightarrow> bool" where
  "well_formed_progress p \<longleftrightarrow>
     (if lp_prelude p then lp_operation p \<in> {''archive'', ''delete''} \<and> lp_phase p \<in> {''services_pending'', ''services_stopped''}
      else ValidLifecyclePhase (lp_operation p) (lp_phase p)) \<and>
     validLifecycleJournalID (lp_journal p) \<and> (lp_operation p = ''archive'' \<longrightarrow> archive_mode (lp_mode p)) \<and> lp_retained p \<noteq> Some []"

lemma read_journal:
  assumes "readLifecycleProgressFile sha v slug workspace operation = Inr (Some p)"
  shows "lp_operation p = operation" "well_formed_progress p" "\<not> lp_prelude p" "fv_open (jv_file v) = None"
    "fv_regular (jv_file v)" "fv_owned (jv_file v)" "fv_perm (jv_file v) = perm_0600" "fv_size (jv_file v) \<le> 64 * 1024"
  using assms
  by (auto simp: readLifecycleProgressFile_def Let_def well_formed_progress_def check_payload_def retained_root_def
      maxLifecycleJournalBytes_def split: option.splits sum.splits if_splits json.splits)

lemma read_journal_absent:
  "readLifecycleProgressFile sha v slug workspace operation = Inr None \<Longrightarrow>
   \<exists>e. fv_open (jv_file v) = Some e \<and> errors_is e ErrNotExist"
  by (auto simp: readLifecycleProgressFile_def Let_def split: option.splits sum.splits if_splits)

lemma prelude_policy_ok:
  assumes "prelude_policy p = Inr (mode, force)"
  shows "pp_operation p \<in> {''archive'', ''delete''} \<and> (pp_operation p = ''archive'' \<longrightarrow> archive_mode mode)"
proof (cases "pp_operation p = ''archive'' \<or> pp_operation p = ''delete''")
  case True
  with assms show ?thesis
    by (cases "pp_mode p"; cases "pp_force p") (auto simp: prelude_policy_def split: if_splits)
qed (use assms in \<open>simp add: prelude_policy_def\<close>)

lemma read_prelude:
  assumes "readServiceCleanupProgress sha v workspace slug = Inr (Some q)"
  shows "well_formed_progress q \<and> lp_prelude q"
proof -
  from assms obtain p raws mode force where id: "prelude_identity_ok workspace slug raws p" and po: "prelude_policy p = Inr (mode, force)"
    and q: "lp_prelude q" "lp_operation q = pp_operation p" "lp_phase q = pp_phase p" "lp_mode q = mode"
      "lp_journal q = pp_operation_id p" "lp_retained q = pp_retained p"
    unfolding readServiceCleanupProgress_def Let_def by (fastforce split: option.split_asm sum.split_asm if_split_asm prod.split_asm)
  from id have "pp_phase p \<in> {''services_pending'', ''services_stopped''}" "validLifecycleJournalID (pp_operation_id p)" "pp_retained p \<noteq> Some []"
    unfolding prelude_identity_ok_def by blast+
  with prelude_policy_ok [OF po] q show ?thesis unfolding well_formed_progress_def by simp
qed

lemma combine_cases:
  assumes "combineServiceCleanup progress prelude slug = Inr r"
  shows "r = (case progress of None \<Rightarrow> prelude | Some p \<Rightarrow>
      (case prelude of None \<Rightarrow> Some p | Some q \<Rightarrow> Some (p\<lparr>lp_prelude_evidence := lp_evidence q\<rparr>)))"
    and "progress = Some p \<Longrightarrow> prelude = Some q \<Longrightarrow> lp_operation p = lp_operation q \<and> lp_journal p = lp_journal q"
  using assms by (auto simp: combineServiceCleanup_def split: option.splits if_splits)

text \<open>What holds of every journal and of every prelude, however they are combined, holds of what is pending.\<close>

lemma journal_progress_induct:
  "journal_progress sha fs workspace slug p0 js = Inr (Some p) \<Longrightarrow> (\<And>x. p0 = Some x \<Longrightarrow> P x) \<Longrightarrow>
   (\<And>v operation q. readLifecycleProgressFile sha v slug workspace operation = Inr (Some q) \<Longrightarrow> P q) \<Longrightarrow> P p"
proof (induction js arbitrary: p0)
  case (Cons j js)
  from Cons.prems(1,2) show ?case
    by (auto split: sum.splits option.splits if_splits intro: Cons.IH Cons.prems(3) dest: Cons.prems(3))
qed auto

lemma pending_induct:
  assumes "PendingLifecycleProgress sha fs workspace slug = Inr (Some p)"
    and journal: "\<And>v operation q. readLifecycleProgressFile sha v slug workspace operation = Inr (Some q) \<Longrightarrow> P q"
    and prelude: "\<And>v q. readServiceCleanupProgress sha v workspace slug = Inr (Some q) \<Longrightarrow> P q"
    and combined: "\<And>q e. P q \<Longrightarrow> P (q\<lparr>lp_prelude_evidence := e\<rparr>)"
  shows "P p"
proof -
  from assms(1) obtain progress pre
    where j: "journal_progress sha fs workspace slug None LifecycleJournals = Inr progress"
      and s: "readServiceCleanupProgress sha (lf_prelude fs slug) workspace slug = Inr pre"
      and c: "combineServiceCleanup progress pre slug = Inr (Some p)"
    by (auto simp: PendingLifecycleProgress_def split: sum.splits if_splits bool.splits)
  show ?thesis
  proof (cases progress)
    case None
    with combine_cases(1) [OF c] s show ?thesis by (auto intro: prelude)
  next
    case (Some x)
    with j have "P x" by (auto intro: journal_progress_induct journal)
    with combine_cases(1) [OF c] Some show ?thesis by (auto intro: combined split: option.splits)
  qed
qed

lemma read_journal_evidence:
  "readLifecycleProgressFile sha v slug workspace operation = Inr (Some p) \<Longrightarrow> lp_evidence p \<in> range sha"
  by (auto simp: readLifecycleProgressFile_def Let_def evidence_def split: option.split_asm sum.split_asm if_split_asm)

lemma read_prelude_evidence:
  "readServiceCleanupProgress sha v workspace slug = Inr (Some p) \<Longrightarrow> lp_evidence p \<in> range sha"
  unfolding readServiceCleanupProgress_def Let_def evidence_def
  by (auto split: option.split_asm sum.split_asm if_split_asm prod.split_asm)

lemma pending_formed:
  assumes "PendingLifecycleProgress sha fs workspace slug = Inr (Some p)"
  shows "well_formed_progress p \<and> lp_evidence p \<in> range sha"
proof -
  have keep: "well_formed_progress (q\<lparr>lp_prelude_evidence := e\<rparr>) = well_formed_progress q" for q e
    by (simp add: well_formed_progress_def)
  from assms show ?thesis
    by (rule pending_induct) (simp_all add: keep read_journal(2) read_prelude read_journal_evidence read_prelude_evidence)
qed

text \<open>
  Progress that is reported is well formed: its phase belongs to its operation, the archive mode is
  one of the known ones, the journal's identity is 64 lower-case hexadecimal digits and a recorded
  root thread is not empty.
\<close>

theorem progress_well_formed:
  assumes "PendingLifecycleProgress sha fs workspace slug = Inr (Some p)"
  shows "well_formed_progress p"
  using pending_formed [OF assms] by blast

subsection \<open>The quick check and the full reading agree\<close>

text \<open>\<open>Lstat\<close> and \<open>Open\<close> of one journal look at the same file.\<close>

definition coherent :: "stat_view \<Rightarrow> 'a file_view \<Rightarrow> bool" where
  "coherent x f \<longleftrightarrow>
     (case fv_open f of
        Some e \<Rightarrow> errors_is e ErrNotExist \<longrightarrow> (case sx_lstat x of None \<Rightarrow> False | Some e' \<Rightarrow> errors_is e' ErrNotExist)
      | None \<Rightarrow> sx_lstat x = None \<and> sx_regular x = fv_regular f \<and> sx_owned x = fv_owned f \<and> sx_perm x = fv_perm f \<and>
                sx_size x = fv_size f)"

definition coherent_journals :: "lifecycle_fs \<Rightarrow> string \<Rightarrow> bool" where
  "coherent_journals fs slug \<longleftrightarrow>
     list_all (\<lambda>j. coherent (lf_stat fs slug (lj_name j)) (jv_file (lf_journal fs slug (lj_name j)))) LifecycleJournals"

definition owner_of :: "lifecycle_progress option \<Rightarrow> string" where
  "owner_of p = (case p of None \<Rightarrow> [] | Some x \<Rightarrow> lp_operation x)"

lemma journal_owner_agrees:
  assumes "journal_progress sha fs workspace slug p0 js = Inr p"
    and "list_all (\<lambda>j. coherent (lf_stat fs slug (lj_name j)) (jv_file (lf_journal fs slug (lj_name j)))) js"
  shows "journal_owner fs slug (owner_of p0) js = Inr (owner_of p)"
  using assms
proof (induction js arbitrary: p0)
  case Nil
  then show ?case by simp
next
  case (Cons j js)
  let ?v = "lf_journal fs slug (lj_name j)" and ?x = "lf_stat fs slug (lj_name j)"
  from Cons.prems(2) have co: "coherent ?x (jv_file ?v)" by simp
  from Cons.prems(1) obtain r where r: "readLifecycleProgressFile sha ?v slug workspace (lj_command j) = Inr r"
    by (auto split: sum.splits)
  show ?case
  proof (cases r)
    case None
    with r obtain e where "fv_open (jv_file ?v) = Some e" "errors_is e ErrNotExist" using read_journal_absent by blast
    with co obtain e' where "sx_lstat ?x = Some e'" "errors_is e' ErrNotExist"
      by (auto simp: coherent_def split: option.splits)
    with Cons r None show ?thesis by simp
  next
    case (Some q)
    note q = read_journal [OF r [unfolded Some]]
    from Cons.prems(1) r Some have p0: "p0 = None" and rest: "journal_progress sha fs workspace slug (Some q) js = Inr p"
      by (auto split: if_splits)
    from co q have "sx_lstat ?x = None" "sx_regular ?x" "sx_owned ?x" "sx_perm ?x = perm_0600" "\<not> 64 * 1024 < sx_size ?x"
      by (auto simp: coherent_def)
    with p0 q(1) Cons.IH [OF rest] Cons.prems(2) show ?thesis by (simp add: owner_of_def Let_def)
  qed
qed

text \<open>
  C22. Admission and presentation agree: whenever the journals can be read in full, the quick check that
  guards browser mutations reports exactly the operation of that reading, and no owner exactly when
  nothing is pending.
\<close>

theorem pending_lifecycle_agrees:
  assumes "coherent_journals fs slug" and full: "PendingLifecycleProgress sha fs workspace slug = Inr r"
  shows "PendingLifecycle sha fs workspace slug = Inr (owner_of r)"
proof (cases "journal_root (lf_root fs) = Inr True")
  case False
  with full show ?thesis
    by (auto simp: PendingLifecycleProgress_def PendingLifecycle_def owner_of_def split: sum.splits bool.splits if_splits)
next
  case True
  with full obtain progress prelude where v: "ValidSlug slug"
      and j: "journal_progress sha fs workspace slug None LifecycleJournals = Inr progress"
      and s: "readServiceCleanupProgress sha (lf_prelude fs slug) workspace slug = Inr prelude"
      and c: "combineServiceCleanup progress prelude slug = Inr r"
    by (auto simp: PendingLifecycleProgress_def split: sum.splits if_splits)
  have "journal_owner fs slug [] LifecycleJournals = Inr (owner_of progress)"
    using journal_owner_agrees [OF j] assms(1) by (simp add: coherent_journals_def owner_of_def)
  then have pl: "PendingLifecycle sha fs workspace slug =
      (case prelude of None \<Rightarrow> Inr (owner_of progress)
       | Some q \<Rightarrow> if owner_of progress \<noteq> [] \<and> owner_of progress \<noteq> lp_operation q then Inl (conflicting slug) else Inr (lp_operation q))"
    using True v s full unfolding PendingLifecycle_def by (simp split: option.split)
  show ?thesis
  proof (cases prelude)
    case None
    with pl combine_cases(1) [OF c] show ?thesis by (cases progress) simp_all
  next
    case (Some q)
    with pl combine_cases [OF c] show ?thesis by (cases progress) (simp_all add: owner_of_def)
  qed
qed

subsection \<open>At most one journal\<close>

definition journal_present :: "lifecycle_fs \<Rightarrow> string \<Rightarrow> lifecycle_journal \<Rightarrow> bool" where
  "journal_present fs slug j =
     (case fv_open (jv_file (lf_journal fs slug (lj_name j))) of None \<Rightarrow> True | Some e \<Rightarrow> \<not> errors_is e ErrNotExist)"

lemma journal_progress_present:
  "journal_progress sha fs workspace slug p0 js = Inr p \<Longrightarrow>
   (if p0 = None then length (filter (journal_present fs slug) js) \<le> 1 \<and> (p = None \<longleftrightarrow> filter (journal_present fs slug) js = [])
    else filter (journal_present fs slug) js = [] \<and> p = p0)"
proof (induction js arbitrary: p0)
  case (Cons j js)
  let ?v = "lf_journal fs slug (lj_name j)"
  from Cons.prems obtain r where r: "readLifecycleProgressFile sha ?v slug workspace (lj_command j) = Inr r"
    by (auto split: sum.splits)
  show ?case
  proof (cases r)
    case None
    with r have "\<not> journal_present fs slug j" using read_journal_absent by (fastforce simp: journal_present_def)
    with Cons.prems r None Cons.IH [of p0] show ?thesis by (cases "p0 = None") simp_all
  next
    case (Some q)
    with r have here: "journal_present fs slug j" using read_journal(4) by (fastforce simp: journal_present_def)
    from Cons.prems r Some have "p0 = None" and rest: "journal_progress sha fs workspace slug (Some q) js = Inr p"
      by (auto split: if_splits)
    with here Cons.IH [OF rest] show ?thesis by simp
  qed
qed simp

text \<open>
  C36. Reading fails closed: it succeeds only when at most one lifecycle journal of the session exists,
  and it reports nothing pending only when there is no journal and no service cleanup prelude.
\<close>

theorem progress_is_exclusive:
  assumes "PendingLifecycleProgress sha fs workspace slug = Inr r" and "journal_root (lf_root fs) = Inr True"
  shows "length (filter (journal_present fs slug) LifecycleJournals) \<le> 1 \<and>
    (r = None \<longleftrightarrow> filter (journal_present fs slug) LifecycleJournals = [] \<and>
                 readServiceCleanupProgress sha (lf_prelude fs slug) workspace slug = Inr None)"
proof -
  from assms obtain progress prelude
    where j: "journal_progress sha fs workspace slug None LifecycleJournals = Inr progress"
      and s: "readServiceCleanupProgress sha (lf_prelude fs slug) workspace slug = Inr prelude"
      and c: "combineServiceCleanup progress prelude slug = Inr r"
    by (auto simp: PendingLifecycleProgress_def split: sum.splits if_splits)
  from journal_progress_present [OF j] s combine_cases(1) [OF c] show ?thesis
    by (cases progress; cases prelude) simp_all
qed

subsection \<open>The catalogue of pending operations\<close>

lemma TrimSuffix_iff: "HasSuffix e x \<and> TrimSuffix e x = s \<longleftrightarrow> e = s @ x"
  by (auto simp: TrimSuffix_def HasSuffix_def suffix_def)

lemma candidate_slugs_iff: "s \<in> set (candidate_slugs e) \<longleftrightarrow> ValidSlug s \<and> (\<exists>x \<in> set journal_suffixes. e = s @ x)"
proof -
  have "s \<in> set (candidate_slugs e) \<longleftrightarrow> ValidSlug s \<and> (\<exists>x \<in> set journal_suffixes. HasSuffix e x \<and> TrimSuffix e x = s)"
    by (auto simp: candidate_slugs_def)
  also have "\<dots> \<longleftrightarrow> ValidSlug s \<and> (\<exists>x \<in> set journal_suffixes. e = s @ x)"
    by (simp only: TrimSuffix_iff)
  finally show ?thesis .
qed

lemma collect_progress_map_of:
  "collect_progress sha fs workspace slugs = Inr ps \<Longrightarrow> distinct slugs \<Longrightarrow>
   map_of ps slug = (if slug \<in> set slugs then (case PendingLifecycleProgress sha fs workspace slug of Inr p \<Rightarrow> p | Inl _ \<Rightarrow> None) else None)
   \<and> fst ` set ps \<subseteq> set slugs"
proof (induction slugs arbitrary: ps)
  case (Cons s slugs)
  from Cons.prems(1) obtain p qs where p: "PendingLifecycleProgress sha fs workspace s = Inr p"
    and qs: "collect_progress sha fs workspace slugs = Inr qs" and ps: "ps = (case p of None \<Rightarrow> [] | Some x \<Rightarrow> [(s, x)]) @ qs"
    by (auto split: sum.splits)
  from Cons.IH [OF qs] Cons.prems(2) have ih: "map_of qs slug = (if slug \<in> set slugs then
      (case PendingLifecycleProgress sha fs workspace slug of Inr p \<Rightarrow> p | Inl _ \<Rightarrow> None) else None)" "fst ` set qs \<subseteq> set slugs" by simp_all
  show ?case
  proof (cases p)
    case None
    with ih ps p Cons.prems(2) show ?thesis by (auto split: sum.splits)
  next
    case (Some x)
    with ih ps p Cons.prems(2) show ?thesis by auto
  qed
qed simp

text \<open>
  C35. The catalogue of pending operations is exact: it lists a session precisely when a journal or a
  cleanup prelude of that name lies in the journal directory and the reading of it is pending, with
  that very progress; a session whose tracked directory is already gone is found as well.
\<close>

theorem PendingLifecycles_exact:
  assumes "PendingLifecycles sha fs workspace = Inr ps" and "journal_root (lf_root fs) = Inr True"
  shows "\<exists>entries. lf_entries fs = Inr entries \<and>
    (map_of ps slug = Some p \<longleftrightarrow>
       ValidSlug slug \<and> (\<exists>x \<in> set journal_suffixes. slug @ x \<in> set entries) \<and>
       PendingLifecycleProgress sha fs workspace slug = Inr (Some p))"
proof -
  from assms obtain entries where e: "lf_entries fs = Inr entries"
    and c: "collect_progress sha fs workspace (remdups (concat (map candidate_slugs entries))) = Inr ps"
    by (auto simp: PendingLifecycles_def split: sum.splits)
  have "slug \<in> set (remdups (concat (map candidate_slugs entries))) \<longleftrightarrow>
      ValidSlug slug \<and> (\<exists>x \<in> set journal_suffixes. slug @ x \<in> set entries)"
    by (auto simp: candidate_slugs_iff)
  with collect_progress_map_of [OF c, of slug] e show ?thesis by (auto split: sum.splits)
qed

subsection \<open>Samples\<close>

definition jid :: string where "jid = replicate 64 (CHR ''a'')"

definition no_journal :: journal_view where
  "no_journal = \<lparr>jv_file = missing_view \<lparr>jp_slug = [], jp_workspace = [], jp_phase = [], jp_mode = [], jp_force = None, jp_operation_id = []\<rparr>,
                 jv_object = Inr [], jv_mtime = 0\<rparr>"

definition archive_journal :: journal_view where
  "archive_journal =
     \<lparr>jv_file = plain_view ''journal'' \<lparr>jp_slug = ''demo'', jp_workspace = ''/w'', jp_phase = ''quiesced'', jp_mode = ''complete'',
        jp_force = None, jp_operation_id = jid\<rparr>,
      jv_object = Inr [(''phase'', JStr ''quiesced''), (''retained_thread_id'', JStr ''t1'')], jv_mtime = 7\<rparr>"

definition no_prelude :: prelude_view where
  "no_prelude = \<lparr>pv_file = missing_view \<lparr>pp_schema = 0, pp_workspace = [], pp_slug = [], pp_registry = [], pp_retained = None, pp_dev = None,
      pp_ino = None, pp_operation = [], pp_operation_id = [], pp_mode = None, pp_force = None, pp_automatic = None, pp_resources = None,
      pp_phase = [], pp_created = [], pp_updated = []\<rparr>, pv_object = Inr [], pv_zone = (\<lambda>_. Some 0), pv_mtime = 0\<rparr>"

definition archiving_fs :: lifecycle_fs where
  "archiving_fs =
     \<lparr>lf_root = \<lparr>dv_lstat = None, dv_dir = True\<rparr>, lf_entries = Inr [''demo.lock'', ''demo.archive.json''],
      lf_stat = (\<lambda>s n. if s = ''demo'' \<and> n = ''archive'' then \<lparr>sx_lstat = None, sx_regular = True, sx_owned = True, sx_perm = perm_0600, sx_size = 7\<rparr>
                 else \<lparr>sx_lstat = Some ErrNotExist, sx_regular = False, sx_owned = False, sx_perm = 0, sx_size = 0\<rparr>),
      lf_journal = (\<lambda>s n. if s = ''demo'' \<and> n = ''archive'' then archive_journal else no_journal),
      lf_prelude = (\<lambda>_. no_prelude)\<rparr>"

definition archiving :: lifecycle_progress where
  "archiving = \<lparr>lp_prelude = False, lp_prelude_evidence = [], lp_operation = ''archive'', lp_phase = ''quiesced'', lp_mode = ''complete'',
     lp_force = False, lp_journal = jid, lp_evidence = ''digest'', lp_retained = Some ''t1'', lp_root_recorded = True, lp_updated = 7\<rparr>"

abbreviation some_sha :: "string \<Rightarrow> string" where "some_sha \<equiv> \<lambda>_. ''digest''"

lemma archiving_progress: "PendingLifecycleProgress some_sha archiving_fs ''/w'' ''demo'' = Inr (Some archiving)"
  by code_simp

lemma archiving_root: "journal_root (lf_root archiving_fs) = Inr True"
  by code_simp

lemma archiving_coherent: "coherent_journals archiving_fs ''demo''"
  by code_simp

theorem pending_lifecycle_agrees_witness:
  "coherent_journals archiving_fs ''demo'' \<and> PendingLifecycle some_sha archiving_fs ''/w'' ''demo'' = Inr ''archive''"
  using archiving_coherent pending_lifecycle_agrees [OF archiving_coherent archiving_progress]
  by (simp add: owner_of_def archiving_def)

theorem progress_well_formed_witness:
  "PendingLifecycleProgress some_sha archiving_fs ''/w'' ''demo'' = Inr (Some archiving) \<and> well_formed_progress archiving"
  using archiving_progress progress_well_formed [OF archiving_progress] by simp

theorem progress_is_exclusive_witness:
  "PendingLifecycleProgress some_sha archiving_fs ''/w'' ''demo'' = Inr (Some archiving) \<and>
   filter (journal_present archiving_fs ''demo'') LifecycleJournals \<noteq> [] \<and>
   length (filter (journal_present archiving_fs ''demo'') LifecycleJournals) \<le> 1"
proof -
  have "filter (journal_present archiving_fs ''demo'') LifecycleJournals \<noteq> []" by code_simp
  with archiving_progress progress_is_exclusive [OF archiving_progress archiving_root] show ?thesis by blast
qed

theorem PendingLifecycles_exact_witness:
  "PendingLifecycles some_sha archiving_fs ''/w'' = Inr [(''demo'', archiving)] \<and>
   (\<exists>entries. lf_entries archiving_fs = Inr entries \<and> (\<exists>x \<in> set journal_suffixes. ''demo'' @ x \<in> set entries))"
proof -
  have c: "PendingLifecycles some_sha archiving_fs ''/w'' = Inr [(''demo'', archiving)]" by code_simp
  with PendingLifecycles_exact [OF c archiving_root, of "''demo''" archiving] show ?thesis by auto
qed

end
