(* ===== verification/Session_Authority.thy ===== *)
theory Session_Authority
  imports Session_Base "HOL-Library.Code_Target_Nat"
begin

text \<open>
  Runtime authority (\<open>portal/internal/session/authority.go\<close>) and the checks that a session's runtime is
  what the portal retained, or is absent (\<open>observation.go\<close>). The outcome of every system call and the
  output of \<open>tmux\<close> are arguments.
\<close>

subsection \<open>The record\<close>

record runtime_authority =
  ra_schema :: int
  ra_state :: string
  ra_slug :: string
  ra_workspace :: string
  ra_tmux_socket :: string
  ra_tmux_session :: string
  ra_tmux_identity :: string
  ra_thread :: string
  ra_codex_socket :: string
  ra_codex_version :: string

definition authorityMaxSize :: nat where "authorityMaxSize = 64 * 1024"

text \<open>A sigil followed by digits, as tmux names sessions and panes.\<close>

definition tmux_id :: "char \<Rightarrow> string \<Rightarrow> bool" where
  "tmux_id sigil s \<longleftrightarrow> 2 \<le> length s \<and> hd s = sigil \<and> list_all digit (tl s)"

definition authority_Validate :: "runtime_authority \<Rightarrow> string \<Rightarrow> string \<Rightarrow> error option" where
  "authority_Validate a slug workspace =
     (if ra_schema a \<noteq> 1 \<or> (ra_state a \<noteq> ''creating'' \<and> ra_state a \<noteq> ''ready'') \<or> ra_slug a \<noteq> slug \<or> ra_workspace a \<noteq> workspace \<or>
         \<not> validSocketPath (ra_tmux_socket a) \<or> \<not> tmux_id (CHR ''$'') (ra_tmux_session a) \<or>
         (ra_tmux_identity a \<noteq> [] \<and> \<not> isLowerHex (ra_tmux_identity a) 64)
      then Some (Err ''invalid runtime authority identity'')
      else
        (let codexCount = length (filter (\<lambda>v. v \<noteq> []) [ra_thread a, ra_codex_socket a, ra_codex_version a]) in
         if codexCount \<noteq> 0 \<and> (codexCount \<noteq> 3 \<or> \<not> validSocketPath (ra_codex_socket a) \<or> \<not> clientVersionPattern (ra_codex_version a))
         then Some (Err ''invalid runtime Codex authority'') else None))"

subsection \<open>The authority directory, locks and files\<close>

text \<open>What \<open>open\<close> and \<open>fstat\<close> report of a directory or a lock file.\<close>

record fd_view =
  fd_open :: "error option"
  fd_fstat :: "error option"
  fd_kind_ok :: bool
  fd_owned :: bool
  fd_perm :: nat

definition openAuthorityDirectory :: "fd_view \<Rightarrow> error option" where
  "openAuthorityDirectory v =
     (case fd_open v of
        Some e \<Rightarrow> Some (ErrWrap ''open runtime authority directory'' e)
      | None \<Rightarrow> (case fd_fstat v of
          Some e \<Rightarrow> Some (ErrWrap ''inspect runtime authority directory'' e)
        | None \<Rightarrow>
            if \<not> fd_kind_ok v \<or> \<not> fd_owned v \<or> fd_perm v \<noteq> perm_0700
            then Some (Err ''runtime authority directory must be owned by the portal uid with mode 0700'') else None))"

definition openOwnedLock :: "fd_view \<Rightarrow> error option" where
  "openOwnedLock v =
     (case first_error [fd_open v, fd_fstat v] of
        Some e \<Rightarrow> Some e
      | None \<Rightarrow>
          if \<not> fd_kind_ok v \<or> \<not> fd_owned v \<or> fd_perm v \<noteq> perm_0600
          then Some (Err ''runtime lock must be a portal-uid mode-0600 regular file'') else None)"

text \<open>
  One round of the lock loop: the context before the attempt, the attempt, the context after it was
  granted, and whether the context ended during the pause. Without a context the first two and the
  last are never consulted.
\<close>

datatype flock_result = Granted | Busy error | Broken error

record lock_round =
  lr_before :: "error option"
  lr_flock :: flock_result
  lr_after :: "error option"
  lr_pause :: "error option"

fun lock_loop :: "bool \<Rightarrow> lock_round list \<Rightarrow> error option option" where
  "lock_loop ctx [] = None"
| "lock_loop ctx (r # rs) =
     (case (if ctx then lr_before r else None) of
        Some e \<Rightarrow> Some (Some e)
      | None \<Rightarrow> (case lr_flock r of
          Granted \<Rightarrow> Some (if ctx then lr_after r else None)
        | Broken e \<Rightarrow> Some (Some (ErrWrap ''session is changing'' e))
        | Busy e \<Rightarrow>
            if \<not> ctx then Some (Some (ErrWrap ''session is changing'' e))
            else (case lr_pause r of Some x \<Rightarrow> Some (Some x) | None \<Rightarrow> lock_loop ctx rs)))"

record runtime_lock_io =
  rl_dir :: fd_view
  rl_lock :: fd_view
  rl_rounds :: "lock_round list"

text \<open>\<open>None\<close> while the lock is waited for, \<open>Some None\<close> when it is held.\<close>

definition lockRuntimeContext :: "bool \<Rightarrow> string \<Rightarrow> string \<Rightarrow> runtime_lock_io \<Rightarrow> error option option" where
  "lockRuntimeContext ctx directory slug io =
     (if directory = [] \<or> \<not> ValidSlug slug then Some (Some (Err ''runtime locking is not configured''))
      else case openAuthorityDirectory (rl_dir io) of
        Some e \<Rightarrow> Some (Some e)
      | None \<Rightarrow> (case openOwnedLock (rl_lock io) of
          Some e \<Rightarrow> Some (Some (ErrWrap ''open runtime session lock'' e))
        | None \<Rightarrow> lock_loop ctx (rl_rounds io)))"

definition lockRuntime where "lockRuntime = lockRuntimeContext False"

subsection \<open>Reading the authority\<close>

record authority_view =
  av_dir :: fd_view
  av_file :: "runtime_authority file_view"
  av_fields :: "error + (string \<times> json) list"

text \<open>\<open>json.Unmarshal\<close> of a raw value into a string.\<close>

definition text_of :: "json \<Rightarrow> string option" where
  "text_of j = (case j of JStr t \<Rightarrow> Some t | JNull \<Rightarrow> Some [] | _ \<Rightarrow> None)"

definition codexKeys :: "string list" where
  "codexKeys = [''codex_thread_id'', ''codex_socket_path'', ''codex_client_version'']"

definition codex_keys_error :: "(string \<times> json) list \<Rightarrow> error option" where
  "codex_keys_error ms =
     (let present = filter (\<lambda>k. map_of ms k \<noteq> None) codexKeys in
      if list_ex (\<lambda>k. (case text_of (the (map_of ms k)) of None \<Rightarrow> True | Some t \<Rightarrow> t = [])) present \<or>
         (length present \<noteq> 0 \<and> length present \<noteq> length codexKeys)
      then Some (Err ''invalid runtime Codex authority'') else None)"

definition tmux_identity_error :: "(string \<times> json) list \<Rightarrow> error option" where
  "tmux_identity_error ms =
     (case map_of ms ''tmux_identity'' of
        None \<Rightarrow> None
      | Some v \<Rightarrow> (case text_of v of
          None \<Rightarrow> Some (Err ''invalid runtime tmux identity'')
        | Some t \<Rightarrow> if isLowerHex t 64 then None else Some (Err ''invalid runtime tmux identity'')))"

definition LoadRuntimeAuthority :: "string \<Rightarrow> string \<Rightarrow> string \<Rightarrow> authority_view \<Rightarrow> error + runtime_authority" where
  "LoadRuntimeAuthority directory slug workspace v =
     (let f = av_file v in
      if directory = [] \<or> \<not> ValidSlug slug then Inl (Err ''runtime authority is not configured'')
      else case openAuthorityDirectory (av_dir v) of
        Some e \<Rightarrow> Inl e
      | None \<Rightarrow> (case fv_open f of
          Some e \<Rightarrow> Inl (ErrWrap ''open runtime authority'' e)
        | None \<Rightarrow> (case fv_fstat f of
            Some e \<Rightarrow> Inl (ErrWrap ''inspect runtime authority'' e)
          | None \<Rightarrow>
              if \<not> fv_regular f \<or> \<not> fv_owned f \<or> fv_perm f \<noteq> perm_0600
              then Inl (Err ''runtime authority must be a portal-uid mode-0600 regular file'')
              else case fv_read f of
                Inl e \<Rightarrow> Inl (ErrWrap ''read runtime authority'' e)
              | Inr data \<Rightarrow>
                  if authorityMaxSize < length data then Inl (Err ''runtime authority exceeds 64 KiB'')
                  else case fv_decode f of
                    Inl e \<Rightarrow> Inl (ErrWrap ''decode runtime authority'' e)
                  | Inr a \<Rightarrow>
                      if fv_trailing f then Inl (Err ''runtime authority contains trailing JSON data'')
                      else case av_fields v of
                        Inl e \<Rightarrow> Inl (ErrWrap ''decode runtime authority fields'' e)
                      | Inr ms \<Rightarrow> (case first_error [codex_keys_error ms, tmux_identity_error ms, authority_Validate a slug workspace] of
                          Some e \<Rightarrow> Inl e
                        | None \<Rightarrow> Inr a))))"

subsection \<open>The live tmux session\<close>

definition tmux_fields :: "string \<Rightarrow> string list" where
  "tmux_fields out = split_on (CHR 0x09) (TrimSuffix out nl)"

definition tmux_match :: "runtime_authority \<Rightarrow> string list \<Rightarrow> bool" where
  "tmux_match a fs \<longleftrightarrow>
     length fs = 12 \<and> (fs ! 6 = ra_tmux_socket a \<or> ra_tmux_identity a \<noteq> [] \<and> fs ! 11 = ra_tmux_identity a) \<and>
     fs ! 0 = ra_tmux_session a \<and> fs ! 1 = ra_slug a \<and> fs ! 2 = ''1'' \<and> fs ! 3 = ra_slug a \<and> fs ! 4 = ra_workspace a \<and>
     fs ! 5 = ra_slug a \<and> fs ! 7 = ra_thread a \<and> fs ! 8 = ra_codex_socket a \<and> fs ! 9 = ra_codex_version a \<and>
     (ra_thread a \<noteq> [] \<longrightarrow> tmux_id (CHR ''%'') (fs ! 10)) \<and> (ra_thread a = [] \<longrightarrow> fs ! 10 = []) \<and>
     (fs ! 11 \<noteq> [] \<longrightarrow> isLowerHex (fs ! 11) 64) \<and> (ra_tmux_identity a \<noteq> [] \<longrightarrow> fs ! 11 = ra_tmux_identity a)"

text \<open>What \<open>tmux -S socket display-message -t target\<close> prints, by socket and target.\<close>

type_synonym tmux_display = "string \<Rightarrow> string \<Rightarrow> error + string"

definition tmuxFields :: "runtime_authority \<Rightarrow> tmux_display \<Rightarrow> error + string list" where
  "tmuxFields a out =
     (case out (ra_tmux_socket a) (ra_tmux_session a @ '':'') of
        Inl e \<Rightarrow> Inl (ErrWrap ''inspect live tmux session'' e)
      | Inr text \<Rightarrow>
          if tmux_match a (tmux_fields text) then Inr (tmux_fields text)
          else Inl (Err ''live tmux session does not match runtime authority''))"

definition VerifyTmux :: "runtime_authority \<Rightarrow> tmux_display \<Rightarrow> error option" where
  "VerifyTmux a out = (case tmuxFields a out of Inl e \<Rightarrow> Some e | Inr _ \<Rightarrow> None)"

text \<open>\<open>filepath.Base\<close>.\<close>

definition Base :: "string \<Rightarrow> string" where
  "Base p =
     (if p = [] then ''.''
      else
        (let q = rev (dropWhile (\<lambda>c. c = CHR ''/'') (rev p)) in
         if q = [] then ''/'' else last (split_on (CHR ''/'') q)))"

definition VerifyStoppedPane :: "runtime_authority \<Rightarrow> tmux_display \<Rightarrow> tmux_display \<Rightarrow> error option" where
  "VerifyStoppedPane a out paneOut =
     (case tmuxFields a out of
        Inl e \<Rightarrow> Some e
      | Inr fs \<Rightarrow> (case paneOut (ra_tmux_socket a) (fs ! 10) of
          Inl e \<Rightarrow> Some (ErrWrap ''inspect managed Codex pane'' e)
        | Inr text \<Rightarrow>
            (let pane = tmux_fields text in
             if length pane \<noteq> 5 \<or> pane ! 0 \<noteq> fs ! 10 \<or> pane ! 1 \<noteq> ra_tmux_session a
             then Some (Err ''managed Codex pane identity changed'')
             else if pane ! 2 = ''1'' then None
             else if pane ! 2 \<noteq> ''0'' \<or> pane ! 4 = [] \<or> pane ! 3 \<noteq> Base (pane ! 4)
             then Some (Err ''managed Codex terminal is running; leave it idle at its shell before sending new input'')
             else None)))"

subsection \<open>Retained tracking\<close>

record codex_ref =
  cx_thread :: string
  cx_socket :: string
  cx_version :: string

record creation =
  crn_state :: string
  crn_sent :: bool
  crn_attempted :: "bool option"
  crn_goal :: string
  crn_origin :: string
  crn_plan :: string
  crn_state_sha :: string

record repository =
  rp_name :: string
  rp_project :: string
  rp_github :: string
  rp_branch :: string
  rp_default :: string
  rp_base :: string
  rp_head :: string

record artifact =
  ar_label :: string
  ar_path :: string

text \<open>\<open>None\<close> is a nil slice of repositories or artifacts.\<close>

record manifest =
  mf_sensitive :: bool
  mf_creation_present :: bool
  mf_scope_explicit :: bool
  mf_schema :: int
  mf_slug :: string
  mf_forked :: string
  mf_codex :: codex_ref
  mf_creation :: creation
  mf_repositories :: "repository list option"
  mf_artifacts :: "artifact list option"
  mf_archive_operation :: string
  mf_finalized :: string

record session_summary = manifest +
  sm_archived :: bool
  sm_root :: string

definition zero_creation :: creation where
  "zero_creation = \<lparr>crn_state = [], crn_sent = False, crn_attempted = None, crn_goal = [], crn_origin = [], crn_plan = [], crn_state_sha = []\<rparr>"

definition HasCreation :: "'a manifest_scheme \<Rightarrow> bool" where
  "HasCreation m \<longleftrightarrow> mf_creation_present m \<or> mf_creation m \<noteq> zero_creation"

definition RequireRetainedReady :: "'a manifest_scheme option \<Rightarrow> string \<Rightarrow> error option" where
  "RequireRetainedReady s socket =
     (case s of
        None \<Rightarrow> Some (Err ''retained root and selected endpoint must be explicit'')
      | Some m \<Rightarrow>
          if cx_thread (mf_codex m) = [] \<or> cx_socket (mf_codex m) \<noteq> socket \<or> \<not> validSocketPath socket \<or> cx_version (mf_codex m) = []
          then Some (Err ''retained root and selected endpoint must be explicit'')
          else if HasCreation m then
            (if crn_state (mf_creation m) \<noteq> ''ready'' \<or> crn_goal (mf_creation m) \<noteq> [] \<and> \<not> crn_sent (mf_creation m)
             then Some (Err ''present session creation evidence is unfinished'') else None)
          else if (mf_schema m \<noteq> 1 \<and> mf_schema m \<noteq> 3) \<or> mf_forked m \<noteq> [] \<or>
                  \<not> mf_scope_explicit m \<and> (mf_repositories m = None \<or> mf_artifacts m = None)
          then Some (Err ''creation-less retained tracking requires explicit ordinary scope'')
          else None)"

subsection \<open>Absence of a runtime\<close>

text \<open>What is seen of the tmux server behind a socket: \<open>Lstat\<close> of the socket and \<open>tmux -S socket list-sessions\<close>.\<close>

record tmux_view =
  tv_socket :: "error option"
  tv_list :: "error + string"

text \<open>The lines of \<open>tmux list-sessions\<close>, in order.\<close>

fun inventory_error :: "string \<Rightarrow> string \<Rightarrow> string list \<Rightarrow> error option" where
  "inventory_error slug expected [] = None"
| "inventory_error slug expected (l # ls) =
     (let fs = split_on (CHR 0x09) l in
      if length fs \<noteq> 2 \<or> \<not> HasPrefix (fs ! 0) ''$'' \<or> fs ! 1 = [] then Some (Err ''selected tmux inventory cannot be verified'')
      else if fs ! 1 = slug \<or> expected \<noteq> [] \<and> fs ! 0 = expected then Some (Err ''live tmux contradicts threadless tracking'')
      else inventory_error slug expected ls)"

definition requireNoTmuxRuntime :: "string \<Rightarrow> string \<Rightarrow> string \<Rightarrow> (string \<Rightarrow> tmux_view) \<Rightarrow> error option" where
  "requireNoTmuxRuntime slug tmuxSocket expected v =
     (if \<not> ValidSlug slug \<or> \<not> validSocketPath tmuxSocket then Some (Err ''selected threadless runtime coordinates are unavailable'')
      else case tv_socket (v tmuxSocket) of
        Some e \<Rightarrow> if errors_is e ErrNotExist then None else Some e
      | None \<Rightarrow> (case tv_list (v tmuxSocket) of
          Inl _ \<Rightarrow> Some (Err ''selected tmux absence cannot be verified'')
        | Inr out \<Rightarrow>
            if 64 * 1024 < length out then Some (Err ''selected tmux inventory is too large'')
            else inventory_error slug expected (split_on (CHR 0x0A) (TrimSuffix out nl))))"

text \<open>\<open>rv_file\<close> is \<open>Lstat\<close> of the session's authority file.\<close>

record runtime_view =
  rv_dir :: fd_view
  rv_file :: "error option"
  rv_tmux :: "string \<Rightarrow> tmux_view"

definition absent :: "error option \<Rightarrow> bool" where
  "absent x = (case x of None \<Rightarrow> False | Some e \<Rightarrow> errors_is e ErrNotExist)"

definition RequireNoRuntime :: "string \<Rightarrow> string \<Rightarrow> runtime_view \<Rightarrow> error option" where
  "RequireNoRuntime slug tmuxSocket v =
     (if \<not> ValidSlug slug \<or> \<not> validSocketPath tmuxSocket then Some (Err ''selected threadless runtime coordinates are unavailable'')
      else
        (let dir = openAuthorityDirectory (rv_dir v) in
         if dir \<noteq> None \<and> \<not> absent dir then dir
         else if \<not> absent (rv_file v) then Some (Err ''runtime authority contradicts threadless tracking'')
         else requireNoTmuxRuntime slug tmuxSocket [] (rv_tmux v)))"

definition RequireThreadlessArchiveRuntime ::
  "string \<Rightarrow> string \<Rightarrow> string \<Rightarrow> string \<Rightarrow> authority_view \<Rightarrow> tmux_display \<Rightarrow> runtime_view \<Rightarrow> error option" where
  "RequireThreadlessArchiveRuntime workspace slug authorityDir tmuxSocket av tmuxOut v =
     (case LoadRuntimeAuthority authorityDir slug workspace av of
        Inl e \<Rightarrow> if errors_is e ErrNotExist then RequireNoRuntime slug tmuxSocket v else Some e
      | Inr a \<Rightarrow>
          if ra_state a \<noteq> ''ready'' \<or> ra_tmux_socket a \<noteq> tmuxSocket \<or> ra_tmux_identity a = [] \<or>
             ra_thread a \<noteq> [] \<or> ra_codex_socket a \<noteq> [] \<or> ra_codex_version a \<noteq> []
          then Some (Err ''runtime authority contradicts threadless archive'')
          else if VerifyTmux a tmuxOut = None then None
          else requireNoTmuxRuntime slug tmuxSocket (ra_tmux_session a) (rv_tmux v))"


subsection \<open>What a loaded authority says\<close>

text \<open>The Codex part of an authority is complete or absent.\<close>

definition codex_complete :: "runtime_authority \<Rightarrow> bool" where
  "codex_complete a \<longleftrightarrow> ra_thread a \<noteq> [] \<and> validSocketPath (ra_codex_socket a) \<and> clientVersionPattern (ra_codex_version a)"

definition codex_absent :: "runtime_authority \<Rightarrow> bool" where
  "codex_absent a \<longleftrightarrow> ra_thread a = [] \<and> ra_codex_socket a = [] \<and> ra_codex_version a = []"

definition authority_wf :: "string \<Rightarrow> string \<Rightarrow> runtime_authority \<Rightarrow> bool" where
  "authority_wf slug workspace a \<longleftrightarrow>
     ra_schema a = 1 \<and> ra_state a \<in> {''creating'', ''ready''} \<and> ra_slug a = slug \<and> ra_workspace a = workspace \<and>
     validSocketPath (ra_tmux_socket a) \<and> tmux_id (CHR ''$'') (ra_tmux_session a) \<and>
     (ra_tmux_identity a = [] \<or> isLowerHex (ra_tmux_identity a) 64) \<and> (codex_complete a \<or> codex_absent a)"

lemma codex_count:
  "(let n = length (filter (\<lambda>v. v \<noteq> []) [ra_thread a, ra_codex_socket a, ra_codex_version a]) in
      n \<noteq> 0 \<and> (n \<noteq> 3 \<or> \<not> validSocketPath (ra_codex_socket a) \<or> \<not> clientVersionPattern (ra_codex_version a)))
   \<longleftrightarrow> \<not> (codex_complete a \<or> codex_absent a)"
proof -
  have "validSocketPath (ra_codex_socket a) \<Longrightarrow> ra_codex_socket a \<noteq> []" "clientVersionPattern (ra_codex_version a) \<Longrightarrow> ra_codex_version a \<noteq> []"
    by (auto simp: validSocketPath_def socketPathPattern_def clientVersionPattern_def)
  then show ?thesis
    by (cases "ra_thread a = []"; cases "ra_codex_socket a = []"; cases "ra_codex_version a = []")
       (simp_all add: codex_complete_def codex_absent_def Let_def, blast+)
qed

definition authority_identity :: "string \<Rightarrow> string \<Rightarrow> runtime_authority \<Rightarrow> bool" where
  "authority_identity slug workspace a \<longleftrightarrow>
     ra_schema a = 1 \<and> ra_state a \<in> {''creating'', ''ready''} \<and> ra_slug a = slug \<and> ra_workspace a = workspace \<and>
     validSocketPath (ra_tmux_socket a) \<and> tmux_id (CHR ''$'') (ra_tmux_session a) \<and>
     (ra_tmux_identity a = [] \<or> isLowerHex (ra_tmux_identity a) 64)"

lemma authority_Validate_iff: "authority_Validate a slug workspace = None \<longleftrightarrow> authority_wf slug workspace a"
proof -
  have "authority_Validate a slug workspace =
     (if \<not> authority_identity slug workspace a then Some (Err ''invalid runtime authority identity'')
      else if \<not> (codex_complete a \<or> codex_absent a) then Some (Err ''invalid runtime Codex authority'') else None)"
    unfolding authority_Validate_def authority_identity_def Let_def codex_count [unfolded Let_def]
    by (rule if_cong) (blast, rule refl, rule refl)
  then show ?thesis unfolding authority_wf_def authority_identity_def by (simp split: if_splits)
qed

text \<open>
  An authority that loads is well formed for the session and workspace asked for: a tmux session
  identifier, a normalised socket, and a Codex identity that is either complete or entirely absent; it
  came from a private regular file of at most 64 KiB in a private directory.
\<close>

theorem LoadRuntimeAuthority_wf:
  assumes "LoadRuntimeAuthority directory slug workspace v = Inr a"
  shows "authority_wf slug workspace a \<and> ValidSlug slug \<and> fd_perm (av_dir v) = perm_0700 \<and> fd_owned (av_dir v) \<and>
    fv_regular (av_file v) \<and> fv_owned (av_file v) \<and> fv_perm (av_file v) = perm_0600"
  using assms
  by (auto simp: LoadRuntimeAuthority_def openAuthorityDirectory_def authority_Validate_iff [symmetric] Let_def
      split: if_splits option.splits sum.splits)

subsection \<open>The runtime lock\<close>

definition waits :: "bool \<Rightarrow> lock_round \<Rightarrow> bool" where
  "waits ctx r \<longleftrightarrow> ctx \<and> lr_before r = None \<and> (case lr_flock r of Busy _ \<Rightarrow> True | _ \<Rightarrow> False) \<and> lr_pause r = None"

lemma lock_loop_waits: "waits ctx r \<Longrightarrow> lock_loop ctx (r # rs) = lock_loop ctx rs"
  by (auto simp: waits_def split: flock_result.splits)

lemma lock_loop_decides: "\<not> waits ctx r \<Longrightarrow> \<exists>x. lock_loop ctx (r # rs) = Some x"
  by (cases ctx) (auto simp: waits_def split: flock_result.splits option.splits)

text \<open>
  Waiting for the runtime lock ends: the loop returns as soon as one attempt does not merely find
  the lock busy with the caller still interested; without a context it returns after one attempt. It
  reports the lock as held only after an attempt that was granted and, with a context, only while the
  caller is still interested after the grant.
\<close>

theorem runtime_lock_returns:
  "(lock_loop ctx rs = None \<longleftrightarrow> list_all (waits ctx) rs) \<and> (rs \<noteq> [] \<longrightarrow> lock_loop False rs \<noteq> None) \<and>
   (lock_loop ctx rs = Some None \<longrightarrow>
      (\<exists>pre r post. rs = pre @ r # post \<and> list_all (waits ctx) pre \<and> lr_flock r = Granted \<and>
         (ctx \<longrightarrow> lr_before r = None \<and> lr_after r = None)))"
proof (induction rs)
  case Nil
  show ?case by simp
next
  case (Cons r rs)
  have nil: "lock_loop False (r # rs) \<noteq> None" using lock_loop_decides [of False r rs] by (auto simp: waits_def)
  show ?case
  proof (cases "waits ctx r")
    case True
    then have "lock_loop ctx (r # rs) = lock_loop ctx rs" by (rule lock_loop_waits)
    moreover have "\<exists>pre q post. r # rs = pre @ q # post \<and> list_all (waits ctx) pre \<and> lr_flock q = Granted \<and>
         (ctx \<longrightarrow> lr_before q = None \<and> lr_after q = None)" if "lock_loop ctx rs = Some None"
      using Cons.IH that True by (metis append_Cons list.pred_inject(2))
    ultimately show ?thesis using Cons.IH True nil by simp
  next
    case False
    then obtain x where x: "lock_loop ctx (r # rs) = Some x" using lock_loop_decides by blast
    moreover have "lr_flock r = Granted \<and> (ctx \<longrightarrow> lr_before r = None \<and> lr_after r = None)" if "x = None"
      using x that False by (cases ctx) (auto simp: waits_def split: flock_result.splits option.splits)
    ultimately show ?thesis using False nil by (auto intro: exI [of _ "[]"])
  qed
qed

theorem runtime_lock_returns_witness:
  "lock_loop True [\<lparr>lr_before = None, lr_flock = Busy (Err ''busy''), lr_after = None, lr_pause = None\<rparr>,
     \<lparr>lr_before = None, lr_flock = Granted, lr_after = None, lr_pause = None\<rparr>] = Some None \<and>
   lock_loop False [\<lparr>lr_before = None, lr_flock = Busy (Err ''busy''), lr_after = None, lr_pause = None\<rparr>] \<noteq> None"
  using runtime_lock_returns [of False "[\<lparr>lr_before = None, lr_flock = Busy (Err ''busy''), lr_after = None, lr_pause = None\<rparr>]"]
  by simp

subsection \<open>Absence is proved, not assumed\<close>

lemma inventory_None:
  "inventory_error slug expected ls = None \<longleftrightarrow>
     list_all (\<lambda>l. \<exists>sid name. split_on (CHR 0x09) l = [sid, name] \<and> HasPrefix sid ''$'' \<and> name \<noteq> [] \<and> name \<noteq> slug \<and>
        (expected = [] \<or> sid \<noteq> expected)) ls"
proof (induction ls)
  case (Cons l ls)
  have two: "length fs = 2 \<longleftrightarrow> (\<exists>a b. fs = [a, b])" for fs :: "string list"
    by (auto simp: numeral_2_eq_2 length_Suc_conv)
  show ?case by (auto simp: Let_def Cons.IH two)
qed simp

text \<open>No tmux session that is live behind the socket has the name, nor the identifier when one is expected.\<close>

definition tmux_absent :: "string \<Rightarrow> string \<Rightarrow> tmux_view \<Rightarrow> bool" where
  "tmux_absent slug expected v \<longleftrightarrow>
     absent (tv_socket v) \<or>
     (\<exists>out. tv_list v = Inr out \<and>
        (\<forall>l \<in> set (split_on (CHR 0x0A) (TrimSuffix out nl)).
           \<exists>sid name. split_on (CHR 0x09) l = [sid, name] \<and> name \<noteq> slug \<and> (expected = [] \<or> sid \<noteq> expected)))"

lemma requireNoTmux_absent:
  "requireNoTmuxRuntime slug socket expected v = None \<Longrightarrow> tmux_absent slug expected (v socket)"
  by (auto simp: requireNoTmuxRuntime_def tmux_absent_def absent_def inventory_None list_all_iff
      split: if_splits option.splits sum.splits)

text \<open>The authority of a threadless session: ready, on the selected socket, with the identity of its terminal and no conversation.\<close>

definition threadless_authority :: "string \<Rightarrow> string \<Rightarrow> string \<Rightarrow> runtime_authority \<Rightarrow> bool" where
  "threadless_authority slug workspace socket a \<longleftrightarrow>
     authority_wf slug workspace a \<and> codex_absent a \<and> ra_state a = ''ready'' \<and> ra_tmux_socket a = socket \<and> isLowerHex (ra_tmux_identity a) 64"

text \<open>
  C27. A threadless session is archived only when its runtime is provably harmless, on the selected tmux socket.
  Either there is no authority file and behind that socket no session of its name; or its authority is ready,
  names that very socket, the identity of its terminal and no conversation, and either the terminal that
  is live behind the socket answers for the authority field by field, or neither its identifier nor
  its name is live behind the socket. A failed inspection never counts as absence.
\<close>

theorem threadless_archive_safe:
  assumes "RequireThreadlessArchiveRuntime workspace slug directory socket av out v = None"
  shows "ValidSlug slug \<and>
    (absent (rv_file v) \<and> tmux_absent slug [] (rv_tmux v socket) \<and> (\<exists>e. LoadRuntimeAuthority directory slug workspace av = Inl e \<and> errors_is e ErrNotExist) \<or>
     (\<exists>a. LoadRuntimeAuthority directory slug workspace av = Inr a \<and> threadless_authority slug workspace socket a \<and>
        ((\<exists>text. out socket (ra_tmux_session a @ '':'') = Inr text \<and> tmux_match a (tmux_fields text)) \<or>
         tmux_absent slug (ra_tmux_session a) (rv_tmux v socket))))"
proof (cases "LoadRuntimeAuthority directory slug workspace av")
  case (Inl e)
  with assms have r: "RequireNoRuntime slug socket v = None" "errors_is e ErrNotExist"
    by (simp_all add: RequireThreadlessArchiveRuntime_def split: if_splits)
  then have "ValidSlug slug" "absent (rv_file v)" "requireNoTmuxRuntime slug socket [] (rv_tmux v) = None"
    by (auto simp: RequireNoRuntime_def Let_def split: if_splits)
  with Inl r(2) show ?thesis using requireNoTmux_absent by blast
next
  case (Inr a)
  with assms have a: "codex_absent a" "ra_state a = ''ready''" "ra_tmux_socket a = socket" "ra_tmux_identity a \<noteq> []"
    and alt: "VerifyTmux a out = None \<or> requireNoTmuxRuntime slug socket (ra_tmux_session a) (rv_tmux v) = None"
    by (auto simp: RequireThreadlessArchiveRuntime_def codex_absent_def split: if_splits)
  have wf: "authority_wf slug workspace a" "ValidSlug slug"
    using Inr by (auto simp: LoadRuntimeAuthority_def authority_Validate_iff [symmetric] Let_def split: if_splits option.splits sum.splits)
  with a have "threadless_authority slug workspace socket a" by (auto simp: threadless_authority_def authority_wf_def)
  moreover have "(\<exists>text. out socket (ra_tmux_session a @ '':'') = Inr text \<and> tmux_match a (tmux_fields text)) \<or>
      tmux_absent slug (ra_tmux_session a) (rv_tmux v socket)"
    using alt a(3) by (auto simp: VerifyTmux_def tmuxFields_def requireNoTmux_absent split: sum.splits if_splits)
  ultimately show ?thesis using wf(2) Inr by blast
qed


subsection \<open>Samples\<close>

definition private_dir :: fd_view where
  "private_dir = \<lparr>fd_open = None, fd_fstat = None, fd_kind_ok = True, fd_owned = True, fd_perm = perm_0700\<rparr>"

definition shell_authority :: runtime_authority where
  "shell_authority = \<lparr>ra_schema = 1, ra_state = ''ready'', ra_slug = ''demo'', ra_workspace = ''/w'', ra_tmux_socket = ''/run/tmux'',
     ra_tmux_session = ''$3'', ra_tmux_identity = replicate 64 (CHR ''a''), ra_thread = [], ra_codex_socket = [], ra_codex_version = []\<rparr>"

definition shell_view :: authority_view where
  "shell_view = \<lparr>av_dir = private_dir, av_file = plain_view ''authority'' shell_authority,
                 av_fields = Inr [(''tmux_identity'', JStr (replicate 64 (CHR ''a'')))]\<rparr>"

definition idle_runtime :: runtime_view where
  "idle_runtime = \<lparr>rv_dir = private_dir, rv_file = None,
     rv_tmux = (\<lambda>_. \<lparr>tv_socket = None, tv_list = Inr (''$1'' @ [CHR 0x09] @ ''other'' @ nl)\<rparr>)\<rparr>"

definition no_terminal :: tmux_display where "no_terminal socket target = Inl (Err ''no server'')"

lemma shell_loads: "LoadRuntimeAuthority ''/auth'' ''demo'' ''/w'' shell_view = Inr shell_authority"
  by code_simp

theorem LoadRuntimeAuthority_wf_witness:
  "LoadRuntimeAuthority ''/auth'' ''demo'' ''/w'' shell_view = Inr shell_authority \<and> authority_wf ''demo'' ''/w'' shell_authority"
  using shell_loads LoadRuntimeAuthority_wf [OF shell_loads] by simp

theorem threadless_archive_safe_witness:
  "RequireThreadlessArchiveRuntime ''/w'' ''demo'' ''/auth'' ''/run/tmux'' shell_view no_terminal idle_runtime = None \<and>
   tmux_absent ''demo'' (ra_tmux_session shell_authority) (rv_tmux idle_runtime ''/run/tmux'')"
proof -
  have r: "RequireThreadlessArchiveRuntime ''/w'' ''demo'' ''/auth'' ''/run/tmux'' shell_view no_terminal idle_runtime = None"
    by code_simp
  have "\<not> absent (rv_file idle_runtime)" by code_simp
  with threadless_archive_safe [OF r] shell_loads show ?thesis using r by (simp add: no_terminal_def)
qed

end
