(* ===== verification/Communication_Native.thy ===== *)
theory Communication_Native
  imports Communication_Valid Session_Recovery Session_Lifecycle Session_Authority
begin

text \<open>
  The communication service on the portal's own runtime (\<open>portal/internal/communication/native.go\<close>): who
  a session's lead is, when it can be written to, and what is handed to the App Server. What
  \<open>session.Find\<close> and \<open>session.List\<close> return, the replies of the App Server and the member roster are
  arguments; the lifecycle journals, the runtime authority and the execution permission are read by
  the definitions of their own theories.
\<close>

subsection \<open>The identity of a tracked directory\<close>

record observation_view =
  ob_lstat :: "error option"
  ob_resolved :: "error + string"
  ob_dir :: bool
  ob_dev :: nat
  ob_ino :: nat

definition observation_payload :: "string \<Rightarrow> string \<Rightarrow> observation_view \<Rightarrow> string \<Rightarrow> string" where
  "observation_payload workspace slug v root_thread =
     ''['' @ join_with '','' [plain_string ''session-observation-v1'', plain_string workspace, plain_string slug,
       dec_nat (ob_dev v), dec_nat (ob_ino v), if root_thread = [] then ''null'' else plain_string root_thread] @ '']''"

definition ObservationIdentity ::
  "(string \<Rightarrow> string) \<Rightarrow> string \<Rightarrow> string \<Rightarrow> string \<Rightarrow> string \<Rightarrow> observation_view \<Rightarrow> error + string" where
  "ObservationIdentity sha workspace slug directory root_thread v =
     (if ob_lstat v \<noteq> None \<or> ob_resolved v \<noteq> Inr directory \<or> \<not> ob_dir v
      then Inl (Err ''tracking observation identity cannot be verified'')
      else Inr (sha (observation_payload workspace slug v root_thread)))"

subsection \<open>Leads\<close>

record native_fs =
  nf_find :: "string \<Rightarrow> error + session_summary"
  nf_list :: "error + session_summary list"
  nf_lifecycle :: lifecycle_fs
  nf_observe :: "string \<Rightarrow> observation_view"

definition IdentityFor :: "(string \<Rightarrow> string) \<Rightarrow> native_fs \<Rightarrow> string \<Rightarrow> string \<Rightarrow> bool \<Rightarrow> error + identity" where
  "IdentityFor sha nf workspace slug stale =
     (case nf_find nf slug of
        Inl e \<Rightarrow> Inl e
      | Inr s \<Rightarrow>
          if cx_thread (mf_codex s) = [] \<or> sm_archived s \<and> \<not> stale then Inl (Err ''session has no available lead'')
          else if \<not> stale \<and> crn_state (mf_creation s) = ''creating'' then Inl (Err ''session initialization has not finished'')
          else (case (if stale then Inr [] else PendingLifecycle sha (nf_lifecycle nf) workspace slug) of
            Inl e \<Rightarrow> Inl e
          | Inr owner \<Rightarrow>
              if owner \<noteq> [] then Inl (Err ''session lifecycle operation is unfinished'')
              else
                (let directory = Join [workspace, sm_root s, slug] in
                 case ObservationIdentity sha workspace slug directory (cx_thread (mf_codex s)) (nf_observe nf directory) of
                   Inl e \<Rightarrow> Inl e
                 | Inr incarnation \<Rightarrow> Inr \<lparr>id_slug = slug, id_thread = cx_thread (mf_codex s), id_incarnation = incarnation\<rparr>)))"

fun resolve_among ::
  "(string \<Rightarrow> string) \<Rightarrow> native_fs \<Rightarrow> string \<Rightarrow> string \<Rightarrow> identity option \<Rightarrow> session_summary list \<Rightarrow> error + identity option" where
  "resolve_among sha nf workspace thread found [] = Inr found"
| "resolve_among sha nf workspace thread found (s # ss) =
     (if cx_thread (mf_codex s) = thread then
        (if found \<noteq> None then Inl (Err ''ambiguous calling lead'')
         else case IdentityFor sha nf workspace (mf_slug s) False of
           Inl e \<Rightarrow> Inl e
         | Inr i \<Rightarrow> resolve_among sha nf workspace thread (Some i) ss)
      else resolve_among sha nf workspace thread found ss)"

definition ResolveLead :: "(string \<Rightarrow> string) \<Rightarrow> native_fs \<Rightarrow> string \<Rightarrow> string \<Rightarrow> error + identity" where
  "ResolveLead sha nf workspace thread =
     (if thread = [] then Inl (Err ''native caller thread is required'')
      else case nf_list nf of
        Inl e \<Rightarrow> Inl e
      | Inr ss \<Rightarrow> (case resolve_among sha nf workspace thread None ss of
          Inl e \<Rightarrow> Inl e
        | Inr None \<Rightarrow> Inl (Err ''only a current session lead can communicate with other sessions'')
        | Inr (Some i) \<Rightarrow> Inr i))"

subsection \<open>Readiness of the recipient\<close>

record activity =
  ac_wait :: string
  ac_state :: string

record native_view =
  nv_admission :: "identity \<Rightarrow> error option"
  nv_authority :: authority_view
  nv_recovery :: "recovery file_view"
  nv_socket :: socket_view
  nv_metadata :: "error + (string \<times> string)"
  nv_activity :: "error + activity"

record native =
  na_workspace :: string
  na_root :: string
  na_directory :: string
  na_socket :: string

definition native_Ready :: "(string \<Rightarrow> string) \<Rightarrow> native \<Rightarrow> native_view \<Rightarrow> identity \<Rightarrow> error + string" where
  "native_Ready sha n v i =
     (if nv_admission v i \<noteq> None then Inr ''Recipient provider is paused or changing''
      else if (case LoadRuntimeAuthority (na_directory n) (id_slug i) (na_workspace n) (nv_authority v) of
                 Inl _ \<Rightarrow> True
               | Inr a \<Rightarrow> ra_state a \<noteq> ''ready'' \<or> ra_thread a \<noteq> id_thread i \<or> ra_codex_socket a \<noteq> na_socket n)
      then Inr ''Recipient is stopped or unavailable''
      else if (case recovery_load sha \<lparr>rs_root = na_root n, rs_workspace = na_workspace n\<rparr> (id_slug i) (nv_recovery v) of
                 Inl _ \<Rightarrow> True
               | Inr r \<Rightarrow> (case SocketIdentity (nv_socket v) of
                   Inl _ \<Rightarrow> True
                 | Inr epoch \<Rightarrow> rc_thread r \<noteq> id_thread i \<or> rc_socket r \<noteq> na_socket n \<or> \<not> Active r (id_thread i) epoch))
      then Inr ''Recipient execution is held''
      else if nv_metadata v \<noteq> Inr (id_thread i, Join [na_workspace n, ''work'', id_slug i])
      then Inr ''Recipient conversation identity cannot be verified''
      else (case nv_activity v of
        Inl e \<Rightarrow> Inl e
      | Inr a \<Rightarrow>
          if ac_wait a = ''userInput'' \<or> ac_wait a = ''approval'' then Inr ''Recipient is waiting for the user''
          else if ac_state a \<noteq> ''idle'' \<and> ac_state a \<noteq> ''working'' \<and> ac_state a \<noteq> ''waiting'' then Inr ''Recipient activity is unavailable''
          else Inr []))"

subsection \<open>Settings and delivery\<close>

text \<open>
  \<open>policy\<close> is \<open>workspacecodex.LeadThreadPolicy\<close>; \<open>roster\<close> the lead's instructions from the member roster,
  \<open>teamruntime.NewStore\<close> having succeeded or not.
\<close>

definition native_Prepare ::
  "(string \<Rightarrow> string \<Rightarrow> string \<Rightarrow> 'p) \<Rightarrow> native \<Rightarrow> error option \<Rightarrow> error + string \<Rightarrow> identity \<Rightarrow> error + 'p turn_options" where
  "native_Prepare policy n store_error roster i =
     (case store_error of
        Some e \<Rightarrow> Inl e
      | None \<Rightarrow>
          (let options = (\<lambda>instructions. \<lparr>opt_model = [], opt_effort = [], opt_policy = policy (id_slug i) (na_workspace n) instructions,
                 opt_context = None\<rparr>) in
           case roster of
             Inr instructions \<Rightarrow> Inr (options instructions)
           | Inl e \<Rightarrow> if errors_is e ErrNotExist then Inr (options []) else Inl e))"

text \<open>The arguments of \<open>SendWithOptions\<close>; \<open>None\<close> is the nil dereference.\<close>

record 'p native_request =
  nr_thread :: string
  nr_text :: string
  nr_id :: string
  nr_action :: string
  nr_options :: "'p turn_options"

definition native_request_of :: "('p, 'r) message \<Rightarrow> 'p native_request option" where
  "native_request_of m =
     (case m_options m of
        None \<Rightarrow> None
      | Some x \<Rightarrow> Some \<lparr>nr_thread = id_thread (m_to m), nr_text = m_envelope m, nr_id = m_id m,
                         nr_action = ''communication:'' @ m_grant m, nr_options = x\<rparr>)"

definition native_Reconcile ::
  "('p native_request \<Rightarrow> 'r \<times> bool \<times> error option) \<Rightarrow> 'r \<Rightarrow> ('p, 'r) message \<Rightarrow> 'r \<times> bool \<times> error option" where
  "native_Reconcile client zero m =
     (case native_request_of m of
        None \<Rightarrow> (zero, False, Some (Err ''missing saved delivery options''))
      | Some q \<Rightarrow> client q)"

subsection \<open>What a resolved identity guarantees\<close>

text \<open>
  A session resolves to an identity only while it can be written to: it has a root thread, is not
  archived, its creation is over and no lifecycle operation owns it. The identity names exactly that
  session and thread, so the resolver keeps the promise the registry's validity relies on.
\<close>

theorem IdentityFor_available:
  assumes "IdentityFor sha nf workspace slug False = Inr i" and "\<And>t. sha t \<noteq> []"
  shows "id_slug i = slug \<and> id_thread i \<noteq> [] \<and> id_incarnation i \<noteq> [] \<and>
    (\<exists>s. nf_find nf slug = Inr s \<and> cx_thread (mf_codex s) = id_thread i \<and> \<not> sm_archived s \<and>
         crn_state (mf_creation s) \<noteq> ''creating'') \<and>
    PendingLifecycle sha (nf_lifecycle nf) workspace slug = Inr []"
  using assms(1)
  by (auto simp: IdentityFor_def ObservationIdentity_def Let_def assms(2) split: sum.splits if_splits)

definition nat_summary :: session_summary where
  "nat_summary = \<lparr>mf_sensitive = False, mf_creation_present = False, mf_scope_explicit = True, mf_schema = 1, mf_slug = ''demo'', mf_forked = [],
     mf_codex = \<lparr>cx_thread = ''t1'', cx_socket = ''/run/codex.sock'', cx_version = ''1.0''\<rparr>, mf_creation = zero_creation,
     mf_repositories = Some [], mf_artifacts = Some [], mf_archive_operation = [], mf_finalized = [], sm_archived = False, sm_root = ''work''\<rparr>"

definition nat_lifecycle :: lifecycle_fs where
  "nat_lifecycle = archiving_fs\<lparr>lf_root := \<lparr>dv_lstat = Some ErrNotExist, dv_dir = False\<rparr>\<rparr>"

definition nat_fs :: native_fs where
  "nat_fs = \<lparr>nf_find = (\<lambda>s. if s = ''demo'' then Inr nat_summary else Inl ErrNotExist), nf_list = Inr [nat_summary],
     nf_lifecycle = nat_lifecycle,
     nf_observe = (\<lambda>d. \<lparr>ob_lstat = None, ob_resolved = Inr d, ob_dir = True, ob_dev = 1, ob_ino = 2\<rparr>)\<rparr>"

definition nat_identity :: identity where
  "nat_identity = \<lparr>id_slug = ''demo'', id_thread = ''t1'', id_incarnation = ''digest''\<rparr>"

lemma nat_resolves: "IdentityFor some_sha nat_fs ''/w'' ''demo'' False = Inr nat_identity"
  by code_simp

theorem IdentityFor_available_witness:
  "IdentityFor some_sha nat_fs ''/w'' ''demo'' False = Inr nat_identity \<and> id_thread nat_identity \<noteq> [] \<and>
   PendingLifecycle some_sha (nf_lifecycle nat_fs) ''/w'' ''demo'' = Inr []"
  using nat_resolves IdentityFor_available [OF nat_resolves] by simp

lemma resolve_among_unique:
  "resolve_among sha nf workspace thread found ss = Inr r \<Longrightarrow>
   (let hits = filter (\<lambda>s. cx_thread (mf_codex s) = thread) ss in
    case found of
      Some i \<Rightarrow> hits = [] \<and> r = Some i
    | None \<Rightarrow> (case hits of
        [] \<Rightarrow> r = None
      | s # rest \<Rightarrow> rest = [] \<and> (\<exists>i. r = Some i \<and> IdentityFor sha nf workspace (mf_slug s) False = Inr i)))"
proof (induction ss arbitrary: found)
  case Nil
  then show ?case by (auto split: option.splits)
next
  case (Cons s ss)
  show ?case
  proof (cases "cx_thread (mf_codex s) = thread")
    case False
    with Cons show ?thesis by simp
  next
    case True
    with Cons.prems obtain i where f: "found = None" and i: "IdentityFor sha nf workspace (mf_slug s) False = Inr i"
      and rest: "resolve_among sha nf workspace thread (Some i) ss = Inr r"
      by (auto split: if_splits sum.splits)
    from Cons.IH [OF rest] f i True show ?thesis by (auto simp: Let_def)
  qed
qed

text \<open>
  C40. The calling lead is identified without ambiguity: a thread resolves to a lead only when exactly one
  listed session has it as its root, and the identity is that session's own.
\<close>

theorem ResolveLead_unique:
  assumes "ResolveLead sha nf workspace thread = Inr i"
  shows "\<exists>ss s. nf_list nf = Inr ss \<and> filter (\<lambda>s. cx_thread (mf_codex s) = thread) ss = [s] \<and>
    IdentityFor sha nf workspace (mf_slug s) False = Inr i"
proof -
  from assms obtain ss where ss: "nf_list nf = Inr ss" and r: "resolve_among sha nf workspace thread None ss = Inr (Some i)"
    by (auto simp: ResolveLead_def split: if_splits sum.splits option.splits)
  from resolve_among_unique [OF r] show ?thesis
    using ss by (auto simp: Let_def split: list.splits)
qed

theorem ResolveLead_unique_witness:
  "ResolveLead some_sha nat_fs ''/w'' ''t1'' = Inr nat_identity \<and>
   (\<exists>ss s. nf_list nat_fs = Inr ss \<and> filter (\<lambda>s. cx_thread (mf_codex s) = ''t1'') ss = [s])"
proof -
  have r: "ResolveLead some_sha nat_fs ''/w'' ''t1'' = Inr nat_identity" by code_simp
  with ResolveLead_unique [OF r] show ?thesis by blast
qed

definition recipient_ready :: "(string \<Rightarrow> string) \<Rightarrow> native \<Rightarrow> native_view \<Rightarrow> identity \<Rightarrow> bool" where
  "recipient_ready sha n v i \<longleftrightarrow>
     nv_admission v i = None \<and>
     (\<exists>a. LoadRuntimeAuthority (na_directory n) (id_slug i) (na_workspace n) (nv_authority v) = Inr a \<and> ra_state a = ''ready'' \<and>
        ra_thread a = id_thread i \<and> ra_codex_socket a = na_socket n) \<and>
     (\<exists>r epoch. recovery_load sha \<lparr>rs_root = na_root n, rs_workspace = na_workspace n\<rparr> (id_slug i) (nv_recovery v) = Inr r \<and>
        SocketIdentity (nv_socket v) = Inr epoch \<and> rc_thread r = id_thread i \<and> rc_socket r = na_socket n \<and> Active r (id_thread i) epoch) \<and>
     nv_metadata v = Inr (id_thread i, Join [na_workspace n, ''work'', id_slug i]) \<and>
     (\<exists>a. nv_activity v = Inr a \<and> ac_wait a \<noteq> ''userInput'' \<and> ac_wait a \<noteq> ''approval'' \<and>
        ac_state a \<in> {''idle'', ''working'', ''waiting''})"

lemma Ready_iff: "native_Ready sha n v i = Inr [] \<longleftrightarrow> recipient_ready sha n v i"
proof -
  let ?A = "case LoadRuntimeAuthority (na_directory n) (id_slug i) (na_workspace n) (nv_authority v) of
      Inl _ \<Rightarrow> True | Inr a \<Rightarrow> ra_state a \<noteq> ''ready'' \<or> ra_thread a \<noteq> id_thread i \<or> ra_codex_socket a \<noteq> na_socket n"
  let ?R = "case recovery_load sha \<lparr>rs_root = na_root n, rs_workspace = na_workspace n\<rparr> (id_slug i) (nv_recovery v) of
      Inl _ \<Rightarrow> True
    | Inr r \<Rightarrow> (case SocketIdentity (nv_socket v) of
        Inl _ \<Rightarrow> True
      | Inr epoch \<Rightarrow> rc_thread r \<noteq> id_thread i \<or> rc_socket r \<noteq> na_socket n \<or> \<not> Active r (id_thread i) epoch)"
  let ?W = "case nv_activity v of Inl _ \<Rightarrow> True | Inr a \<Rightarrow> ac_wait a = ''userInput'' \<or> ac_wait a = ''approval'' \<or>
      ac_state a \<noteq> ''idle'' \<and> ac_state a \<noteq> ''working'' \<and> ac_state a \<noteq> ''waiting''"
  have A: "\<not> ?A \<longleftrightarrow> (\<exists>a. LoadRuntimeAuthority (na_directory n) (id_slug i) (na_workspace n) (nv_authority v) = Inr a \<and>
      ra_state a = ''ready'' \<and> ra_thread a = id_thread i \<and> ra_codex_socket a = na_socket n)"
    by (cases "LoadRuntimeAuthority (na_directory n) (id_slug i) (na_workspace n) (nv_authority v)") (simp, simp, blast)
  have R: "\<not> ?R \<longleftrightarrow> (\<exists>r epoch. recovery_load sha \<lparr>rs_root = na_root n, rs_workspace = na_workspace n\<rparr> (id_slug i) (nv_recovery v) = Inr r \<and>
      SocketIdentity (nv_socket v) = Inr epoch \<and> rc_thread r = id_thread i \<and> rc_socket r = na_socket n \<and> Active r (id_thread i) epoch)"
    by (cases "recovery_load sha \<lparr>rs_root = na_root n, rs_workspace = na_workspace n\<rparr> (id_slug i) (nv_recovery v)";
        cases "SocketIdentity (nv_socket v)") (simp_all, blast?)
  have W: "\<not> ?W \<longleftrightarrow> (\<exists>a. nv_activity v = Inr a \<and> ac_wait a \<noteq> ''userInput'' \<and> ac_wait a \<noteq> ''approval'' \<and>
      ac_state a \<in> {''idle'', ''working'', ''waiting''})"
    by (cases "nv_activity v") simp_all
  have "native_Ready sha n v i = Inr [] \<longleftrightarrow>
      nv_admission v i = None \<and> \<not> ?A \<and> \<not> ?R \<and> nv_metadata v = Inr (id_thread i, Join [na_workspace n, ''work'', id_slug i]) \<and> \<not> ?W"
    unfolding native_Ready_def by (cases "nv_activity v") simp_all
  then show ?thesis unfolding recipient_ready_def A [symmetric] R [symmetric] W [symmetric] .
qed

text \<open>
  A recipient is reported ready only when everything that could hold it was checked: the provider
  admits it, its runtime authority is ready for this thread and socket, its execution permission is
  active on the current server generation, the conversation is the one of this session's directory and
  it is not waiting for the user.
\<close>

theorem Ready_exact: "native_Ready sha n v i = Inr [] \<longleftrightarrow> recipient_ready sha n v i"
  by (rule Ready_iff)

end
