(* ===== verification/Session_Permission.thy ===== *)
theory Session_Permission
  imports Session_Recovery Session_Authority
begin

text \<open>
  Everything that writes an execution permission: besides \<open>Set\<close> and \<open>Retire\<close> of the command line
  (\<open>Session_Recovery\<close>) the server seeds the record of a live session, accepts a continuation and publishes
  an activation (\<open>internal/web/recovery.go\<close>), and an assignment to a team member activates its thread
  (\<open>internal/workspacecodex/recovery.go\<close>). Each is a callback of \<open>RecoveryStore.Update\<close>. The record's whole
  life is the relation \<open>recovery_run\<close>; what is permitted in it is computed from the history of the calls.
\<close>

subsection \<open>Seeding the record of a live session\<close>

record ready_member =
  qm_thread :: string
  qm_state :: string
  qm_intent :: string

text \<open>
  The outcomes of the calls of \<open>seedLiveRecovery\<close>: the client, \<open>PendingLifecycle\<close>, whether the session is
  interactive, the loaded threads, the socket, the roster (\<open>ErrNotExist\<close> when there is none), the check of a thread.
\<close>

record seed_view =
  sd_controller :: bool
  sd_pending :: "error + string"
  sd_interactive :: bool
  sd_loaded :: "error + string list"
  sd_socket :: socket_view
  sd_roster :: "error + ready_member list"
  sd_verify :: "string \<Rightarrow> error option"

fun seed_members :: "(string \<Rightarrow> error option) \<Rightarrow> string list \<Rightarrow> ready_member list \<Rightarrow> error + string list" where
  "seed_members verify loaded [] = Inr []"
| "seed_members verify loaded (m # ms) =
     (if qm_state m = ''ready'' \<and> qm_intent m = [] \<and> qm_thread m \<in> set loaded
      then (case verify (qm_thread m) of
          Some e \<Rightarrow> Inl e
        | None \<Rightarrow> (case seed_members verify loaded ms of Inl e \<Rightarrow> Inl e | Inr ts \<Rightarrow> Inr (qm_thread m # ts)))
      else seed_members verify loaded ms)"

definition seed_active :: "seed_view \<Rightarrow> string list \<Rightarrow> string \<Rightarrow> error + string list" where
  "seed_active v loaded thread =
     (let active = (if thread \<in> set loaded then [thread] else []) in
      case sd_roster v of
        Inl e \<Rightarrow> if errors_is e ErrNotExist then Inr active else Inl e
      | Inr members \<Rightarrow>
          (case seed_members (sd_verify v) loaded members of Inl e \<Rightarrow> Inl e | Inr ts \<Rightarrow> Inr (active @ ts)))"

definition seed_change :: "recovery_store \<Rightarrow> string \<Rightarrow> string \<Rightarrow> string \<Rightarrow> string \<Rightarrow> string list \<Rightarrow> recovery_change" where
  "seed_change st slug thread socket epoch active r =
     (if rc_schema r \<noteq> 0 then (None, r)
      else (None, \<lparr>rc_schema = 1, rc_workspace = rs_workspace st, rc_slug = slug, rc_thread = thread, rc_socket = socket,
        rc_epoch = epoch, rc_automatic = True, rc_active = Some active, rc_continuation = None\<rparr>))"

definition seedLiveRecovery ::
  "(string \<Rightarrow> string) \<Rightarrow> recovery_store \<Rightarrow> string \<Rightarrow> string \<Rightarrow> string \<Rightarrow> seed_view \<Rightarrow> recovery_io \<Rightarrow> recovery option \<Rightarrow> (error option \<times> recovery option) option" where
  "seedLiveRecovery sha st slug thread socket v io disk =
     (if \<not> sd_controller v then Some (Some (Err ''recovery client is unavailable''), disk)
      else if sd_pending v \<noteq> Inr [] then Some (Some (Err ''session has unfinished lifecycle work''), disk)
      else if \<not> sd_interactive v then Some (Some (Err ''session runtime is not live''), disk)
      else case sd_loaded v of
        Inl e \<Rightarrow> Some (Some e, disk)
      | Inr loaded \<Rightarrow> (case SocketIdentity (sd_socket v) of
          Inl e \<Rightarrow> Some (Some e, disk)
        | Inr epoch \<Rightarrow> (case seed_active v loaded thread of
            Inl e \<Rightarrow> Some (Some e, disk)
          | Inr active \<Rightarrow> recovery_update sha st slug (seed_change st slug thread socket epoch active) io disk)))"

subsection \<open>Publishing an activation\<close>

text \<open>\<open>now\<close> is the identity of the socket that the callback reads, under the record's lock.\<close>

definition publish_change :: "string \<Rightarrow> string \<Rightarrow> string \<Rightarrow> string \<Rightarrow> error + string \<Rightarrow> recovery_change" where
  "publish_change root_thread thread socket epoch now r =
     (if rc_thread r \<noteq> root_thread \<or> rc_socket r \<noteq> socket then (Some (Err ''saved recovery identity changed''), r)
      else if now \<noteq> Inr epoch then (Some (Err ''App Server changed during activation''), r)
      else
        (let r1 = (if rc_epoch r \<noteq> epoch then r\<lparr>rc_active := Some []\<rparr> else r);
             r2 = r1\<lparr>rc_epoch := epoch, rc_continuation := (if thread = root_thread then None else rc_continuation r1)\<rparr>;
             r3 = (if thread \<in> set (threads_of r2) then r2 else r2\<lparr>rc_active := Some (threads_of r2 @ [thread])\<rparr>)
         in (None, r3)))"

definition publishRecovery ::
  "(string \<Rightarrow> string) \<Rightarrow> recovery_store \<Rightarrow> string \<Rightarrow> string \<Rightarrow> string \<Rightarrow> string \<Rightarrow> string \<Rightarrow> socket_view
   \<Rightarrow> recovery_io \<Rightarrow> recovery option \<Rightarrow> (error option \<times> recovery option) option" where
  "publishRecovery sha st slug root_thread thread socket epoch sv io disk =
     recovery_update sha st slug (publish_change root_thread thread socket epoch (SocketIdentity sv)) io disk"

subsection \<open>Accepting a continuation\<close>

definition continue_change :: "string \<Rightarrow> string \<Rightarrow> string \<Rightarrow> error + string \<Rightarrow> string \<Rightarrow> bool \<Rightarrow> recovery_change" where
  "continue_change root_thread socket epoch now request prompt r =
     (if rc_thread r \<noteq> root_thread \<or> rc_socket r \<noteq> socket then (Some (Err ''saved recovery identity changed''), r)
      else if now \<noteq> Inr epoch then (Some (Err ''App Server changed during continuation''), r)
      else
        (let r1 = (if rc_epoch r \<noteq> epoch then r\<lparr>rc_epoch := epoch, rc_active := Some [], rc_continuation := None\<rparr> else r);
             r2 = (if rc_continuation r1 = None then r1\<lparr>rc_continuation := Some \<lparr>cn_request = request, cn_prompt = prompt\<rparr>\<rparr> else r1)
         in (None, r2)))"

text \<open>
  The outcomes of \<open>acceptContinuation\<close>: the saved settings of the thread (\<open>None\<close> inside \<open>Inr\<close> when there are none,
  otherwise the request they are bound to), the socket, an earlier load, the client, the length of the queue, the goal.
\<close>

record continue_view =
  nn_settings :: "error + string option"
  nn_socket :: socket_view
  nn_view :: "recovery file_view"
  nn_controller :: bool
  nn_queue :: "error + nat"
  nn_goal :: "error + bool"
  nn_now :: socket_view

definition bound_request :: "string option \<Rightarrow> bool" where
  "bound_request saved \<longleftrightarrow> (case saved of None \<Rightarrow> False | Some q \<Rightarrow> q \<noteq> [])"

definition pending_input :: error where
  "pending_input = Err ''Recover the pending original input before continuing other work.''"

definition acceptContinuation ::
  "(string \<Rightarrow> string) \<Rightarrow> recovery_store \<Rightarrow> string \<Rightarrow> string \<Rightarrow> string \<Rightarrow> string \<Rightarrow> continue_view
   \<Rightarrow> recovery_io \<Rightarrow> recovery option \<Rightarrow> (error option \<times> recovery option) option" where
  "acceptContinuation sha st slug root_thread socket request v io disk =
     (case nn_settings v of
        Inl e \<Rightarrow> Some (Some e, disk)
      | Inr saved \<Rightarrow>
          if bound_request saved then Some (Some pending_input, disk)
          else case SocketIdentity (nn_socket v) of
            Inl e \<Rightarrow> Some (Some e, disk)
          | Inr epoch \<Rightarrow> (case recovery_load sha st slug (nn_view v) of
              Inl e \<Rightarrow> Some (Some e, disk)
            | Inr r \<Rightarrow>
                if rc_epoch r = epoch \<and> rc_continuation r \<noteq> None then Some (None, disk)
                else if \<not> nn_controller v then Some (Some (Err ''recovery client is unavailable''), disk)
                else case nn_queue v of
                  Inl e \<Rightarrow> Some (Some e, disk)
                | Inr queued \<Rightarrow> (case nn_goal v of
                    Inl e \<Rightarrow> Some (Some e, disk)
                  | Inr goal \<Rightarrow>
                      recovery_update sha st slug
                        (continue_change root_thread socket epoch (SocketIdentity (nn_now v)) request (queued = 0 \<and> \<not> goal)) io disk)))"

subsection \<open>Assigning work to a member\<close>

definition assign_change :: "string \<Rightarrow> string \<Rightarrow> string \<Rightarrow> string \<Rightarrow> error + string \<Rightarrow> recovery_change" where
  "assign_change root_thread thread socket epoch now r =
     (if rc_thread r \<noteq> root_thread \<or> rc_socket r \<noteq> socket then (Some (Err ''assignment recovery identity changed''), r)
      else if now \<noteq> Inr epoch then (Some (Err ''App Server changed during assignment''), r)
      else
        (let r1 = (if rc_epoch r \<noteq> epoch then r\<lparr>rc_active := Some [], rc_continuation := None\<rparr> else r);
             r2 = r1\<lparr>rc_epoch := epoch, rc_continuation := (if thread = rc_thread r1 then None else rc_continuation r1)\<rparr>;
             r3 = (if thread \<in> set (threads_of r2) then r2 else r2\<lparr>rc_active := Some (threads_of r2 @ [thread])\<rparr>)
         in (None, r3)))"

text \<open>
  The outcomes of \<open>sendWithRecovery\<close>: the working directory of the thread, the record as first loaded, the
  session's root thread, the socket, the reconciliation of an earlier attempt, the saved settings, whether
  the options carry additional context, preparation, queueing and activation, and the socket again.
\<close>

record assign_view =
  sw_cwd :: "error + string"
  sw_view :: "recovery file_view"
  sw_root :: "error + string"
  sw_socket :: socket_view
  sw_reconcile :: "error option \<times> bool"
  sw_settings :: "error + string option"
  sw_context :: bool
  sw_prepare :: "error option"
  sw_queue :: "error option"
  sw_activate :: "error option"
  sw_now :: socket_view

text \<open>\<open>AssignDirect\<close> delegates to the client's own \<open>SendWithOptions\<close>; \<open>AssignFound\<close> returns an earlier receipt.\<close>

datatype assign_result = AssignDirect | AssignFound | AssignFailed error | AssignQueued

definition sendWithRecovery ::
  "(string \<Rightarrow> string) \<Rightarrow> string \<Rightarrow> string \<Rightarrow> string \<Rightarrow> string \<Rightarrow> assign_view \<Rightarrow> recovery_io \<Rightarrow> recovery option
   \<Rightarrow> (assign_result \<times> recovery option) option" where
  "sendWithRecovery sha root ws socket thread v io disk =
     (if root = [] \<or> ws = [] then Some (AssignDirect, disk)
      else case sw_cwd v of
        Inl e \<Rightarrow> Some (AssignFailed e, disk)
      | Inr cwd \<Rightarrow>
          (let slug = Base cwd; st = \<lparr>rs_root = root, rs_workspace = ws\<rparr> in
           if cwd \<noteq> Join [ws, ''work'', slug] then Some (AssignFailed (Err ''assignment thread has an unexpected working directory''), disk)
           else case recovery_load sha st slug (sw_view v) of
             Inl e \<Rightarrow> if errors_is e ErrNotExist then Some (AssignDirect, disk) else Some (AssignFailed e, disk)
           | Inr r \<Rightarrow>
               if sw_root v \<noteq> Inr (rc_thread r) \<or> rc_socket r \<noteq> socket
               then Some (AssignFailed (Err ''assignment recovery identity changed''), disk)
               else case SocketIdentity (sw_socket v) of
                 Inl e \<Rightarrow> Some (AssignFailed e, disk)
               | Inr epoch \<Rightarrow>
                   if Active r thread epoch then Some (AssignDirect, disk)
                   else case sw_reconcile v of
                     (Some e, found) \<Rightarrow> Some (AssignFailed e, disk)
                   | (None, found) \<Rightarrow>
                       if found then Some (AssignFound, disk)
                       else case sw_settings v of
                         Inl e \<Rightarrow> Some (AssignFailed e, disk)
                       | Inr saved \<Rightarrow>
                           if bound_request saved
                           then Some (AssignFailed (Err ''Recover the pending original input before assigning other work.''), disk)
                           else if sw_context v
                           then Some (AssignFailed (Err ''activate the conversation before sending additional turn context''), disk)
                           else case first_error [sw_prepare v, sw_queue v, sw_activate v] of
                             Some e \<Rightarrow> Some (AssignFailed e, disk)
                           | None \<Rightarrow>
                               map_option (\<lambda>x. (case fst x of None \<Rightarrow> AssignQueued | Some e \<Rightarrow> AssignFailed e, snd x))
                                 (recovery_update sha st slug
                                   (assign_change (rc_thread r) thread socket epoch (SocketIdentity (sw_now v))) io disk)))"

subsection \<open>The history of a record\<close>

text \<open>
  The calls that changed the record, with what decides their effect: \<open>PermSet\<close> generation, root, automatic,
  activate; \<open>PermSeed\<close> generation, the threads loaded there, the threads recorded; \<open>PermPublish\<close> and
  \<open>PermAssign\<close> generation and thread; \<open>PermContinue\<close> generation; \<open>PermRetire\<close>.
\<close>

datatype permission_event =
    PermSet string string bool bool
  | PermRetire
  | PermSeed string "string list" "string list"
  | PermPublish string string
  | PermContinue string
  | PermAssign string string

text \<open>Which permission a call gives, and which permissions it takes away.\<close>

fun grants :: "permission_event \<Rightarrow> string \<Rightarrow> string \<Rightarrow> bool" where
  "grants (PermSet epoch root_thread automatic activate) t e \<longleftrightarrow> e = epoch \<and> t = root_thread \<and> automatic \<and> activate"
| "grants PermRetire t e \<longleftrightarrow> False"
| "grants (PermSeed epoch loaded active) t e \<longleftrightarrow> e = epoch \<and> t \<in> set active"
| "grants (PermPublish epoch thread) t e \<longleftrightarrow> e = epoch \<and> t = thread"
| "grants (PermContinue epoch) t e \<longleftrightarrow> False"
| "grants (PermAssign epoch thread) t e \<longleftrightarrow> e = epoch \<and> t = thread"

fun withdraws :: "permission_event \<Rightarrow> string \<Rightarrow> bool" where
  "withdraws (PermSet epoch root_thread automatic activate) e \<longleftrightarrow> e \<noteq> epoch \<or> \<not> automatic"
| "withdraws PermRetire e \<longleftrightarrow> True"
| "withdraws (PermSeed epoch loaded active) e \<longleftrightarrow> True"
| "withdraws (PermPublish epoch thread) e \<longleftrightarrow> e \<noteq> epoch"
| "withdraws (PermContinue epoch) e \<longleftrightarrow> e \<noteq> epoch"
| "withdraws (PermAssign epoch thread) e \<longleftrightarrow> e \<noteq> epoch"

text \<open>A permission in force after a history, newest call first: given, and not taken away since.\<close>

primrec in_force :: "permission_event list \<Rightarrow> string \<Rightarrow> string \<Rightarrow> bool" where
  "in_force [] t e \<longleftrightarrow> False"
| "in_force (x # h) t e \<longleftrightarrow> grants x t e \<or> \<not> withdraws x e \<and> in_force h t e"

text \<open>A call that left the record as it was does not enter the history.\<close>

definition after_call :: "permission_event \<Rightarrow> recovery option \<Rightarrow> recovery option \<Rightarrow> permission_event list \<Rightarrow> permission_event list" where
  "after_call x d d' h = (if d' = d then h else x # h)"

inductive recovery_run ::
  "(string \<Rightarrow> string) \<Rightarrow> recovery_store \<Rightarrow> string \<Rightarrow> permission_event list \<Rightarrow> recovery option \<Rightarrow> bool"
  for sha st slug where
  run_start: "recovery_run sha st slug [] None"
| run_set: "recovery_run sha st slug h d \<Longrightarrow> shows_record sha st slug (ri_view io) d \<Longrightarrow> SocketIdentity sv = Inr epoch \<Longrightarrow>
     Set_permission sha st slug root_thread socket automatic activate sv io d = Some (x, d') \<Longrightarrow>
     recovery_run sha st slug (after_call (PermSet epoch root_thread automatic activate) d d' h) d'"
| run_retire: "recovery_run sha st slug h d \<Longrightarrow> shows_record sha st slug (ri_view io) d \<Longrightarrow>
     Retire sha st slug root_thread socket remove io d = Some (x, d') \<Longrightarrow>
     recovery_run sha st slug (after_call PermRetire d d' h) d'"
| run_seed: "recovery_run sha st slug h d \<Longrightarrow> shows_record sha st slug (ri_view io) d \<Longrightarrow>
     SocketIdentity (sd_socket v) = Inr epoch \<Longrightarrow> sd_loaded v = Inr loaded \<Longrightarrow> seed_active v loaded thread = Inr active \<Longrightarrow>
     seedLiveRecovery sha st slug thread socket v io d = Some (x, d') \<Longrightarrow>
     recovery_run sha st slug (after_call (PermSeed epoch loaded active) d d' h) d'"
| run_publish: "recovery_run sha st slug h d \<Longrightarrow> shows_record sha st slug (ri_view io) d \<Longrightarrow>
     publishRecovery sha st slug root_thread thread socket epoch sv io d = Some (x, d') \<Longrightarrow>
     recovery_run sha st slug (after_call (PermPublish epoch thread) d d' h) d'"
| run_continue: "recovery_run sha st slug h d \<Longrightarrow> shows_record sha st slug (ri_view io) d \<Longrightarrow>
     SocketIdentity (nn_socket v) = Inr epoch \<Longrightarrow>
     acceptContinuation sha st slug root_thread socket request v io d = Some (x, d') \<Longrightarrow>
     recovery_run sha st slug (after_call (PermContinue epoch) d d' h) d'"
| run_assign: "recovery_run sha st slug h d \<Longrightarrow> shows_record sha st slug (ri_view io) d \<Longrightarrow>
     SocketIdentity (sw_socket v) = Inr epoch \<Longrightarrow> sw_cwd v = Inr cwd \<Longrightarrow> Base cwd = slug \<Longrightarrow>
     sendWithRecovery sha (rs_root st) (rs_workspace st) socket thread v io d = Some (y, d') \<Longrightarrow>
     recovery_run sha st slug (after_call (PermAssign epoch thread) d d' h) d'"

text \<open>Every operation changes the record through its callback, or not at all.\<close>

definition through :: "recovery_store \<Rightarrow> string \<Rightarrow> recovery_change \<Rightarrow> recovery option \<Rightarrow> recovery option \<Rightarrow> bool" where
  "through st slug change d d' \<longleftrightarrow>
     d' = d \<or>
     d' = None \<and> (\<exists>x y. change (seen_record d) = (Some x, y) \<and> errors_is x retireRecovery) \<or>
     (\<exists>r. change (seen_record d) = (None, r) \<and> d' = Some r \<and> recovery_ok st slug r)"

lemma through_update:
  "recovery_update sha st slug change io d = Some (e, d') \<Longrightarrow> shows_record sha st slug (ri_view io) d \<Longrightarrow> through st slug change d d'"
  using update_cases [of sha st slug change io d e d'] by (auto simp: through_def)

lemma through_same [simp]: "through st slug change d d"
  by (simp add: through_def)

lemma through_seed:
  assumes "seedLiveRecovery sha st slug thread socket v io d = Some (x, d')" and "shows_record sha st slug (ri_view io) d"
    and "SocketIdentity (sd_socket v) = Inr epoch" and "sd_loaded v = Inr loaded" and "seed_active v loaded thread = Inr active"
  shows "through st slug (seed_change st slug thread socket epoch active) d d'"
  using assms by (auto simp: seedLiveRecovery_def intro: through_update split: if_splits)

lemma through_continue:
  assumes "acceptContinuation sha st slug root_thread socket request v io d = Some (x, d')" and "shows_record sha st slug (ri_view io) d"
    and "SocketIdentity (nn_socket v) = Inr epoch"
  shows "\<exists>now prompt. through st slug (continue_change root_thread socket epoch now request prompt) d d'"
proof -
  have "d' = d \<or> (\<exists>now prompt. recovery_update sha st slug (continue_change root_thread socket epoch now request prompt) io d = Some (x, d'))"
    using assms(1,3) by (auto simp: acceptContinuation_def split: if_splits sum.splits)
  with assms(2) show ?thesis by (auto dest: through_update)
qed

lemma through_assign:
  assumes "sendWithRecovery sha (rs_root st) (rs_workspace st) socket thread v io d = Some (y, d')" and "shows_record sha st slug (ri_view io) d"
    and "SocketIdentity (sw_socket v) = Inr epoch" and "sw_cwd v = Inr cwd" and "Base cwd = slug"
  shows "\<exists>root_thread now. through st slug (assign_change root_thread thread socket epoch now) d d'"
proof -
  have st: "\<lparr>rs_root = rs_root st, rs_workspace = rs_workspace st\<rparr> = st" by simp
  have "d' = d \<or> (\<exists>root_thread now e. recovery_update sha st slug (assign_change root_thread thread socket epoch now) io d = Some (e, d'))"
    using assms(1,3-5) unfolding sendWithRecovery_def st Let_def
    by (auto split: if_splits sum.splits prod.splits option.splits)
  with assms(2) show ?thesis by (auto dest: through_update)
qed

text \<open>The effect of each callback on a permission.\<close>

lemma epoch_in_force: "recovery_ok st slug r \<Longrightarrow> rc_epoch r \<noteq> []"
  by (simp add: recovery_ok_def recovery_validate_None)

lemma change_epoch:
  "set_change st slug root_thread socket epoch automatic activate r = (None, r') \<Longrightarrow> rc_epoch r' = epoch"
  "publish_change root_thread thread socket epoch now r = (None, r') \<Longrightarrow> rc_epoch r' = epoch"
  "continue_change root_thread socket epoch now request prompt r = (None, r') \<Longrightarrow> rc_epoch r' = epoch"
  "assign_change root_thread thread socket epoch now r = (None, r') \<Longrightarrow> rc_epoch r' = epoch"
  by (auto simp: set_change_def seed_change_def publish_change_def continue_change_def assign_change_def Let_def split: if_splits)

lemma change_errors:
  "set_change st slug root_thread socket epoch automatic activate r = (Some x, r') \<Longrightarrow> \<not> errors_is x retireRecovery"
  "seed_change st slug thread socket epoch active r = (Some x, r') \<Longrightarrow> \<not> errors_is x retireRecovery"
  "publish_change root_thread thread socket epoch now r = (Some x, r') \<Longrightarrow> \<not> errors_is x retireRecovery"
  "continue_change root_thread socket epoch now request prompt r = (Some x, r') \<Longrightarrow> \<not> errors_is x retireRecovery"
  "assign_change root_thread thread socket epoch now r = (Some x, r') \<Longrightarrow> \<not> errors_is x retireRecovery"
  by (auto simp: set_change_def seed_change_def publish_change_def continue_change_def assign_change_def retireRecovery_def
      identity_changed_def Let_def split: if_splits)

lemma publish_effect:
  "publish_change root_thread thread socket epoch now r = (None, r') \<Longrightarrow> epoch \<noteq> [] \<Longrightarrow>
   Active r' t e \<longleftrightarrow> e = epoch \<and> (t = thread \<or> Active r t e)"
  by (auto simp: publish_change_def Let_def Active_def threads_of_def split: if_splits option.splits)

lemma continue_effect:
  "continue_change root_thread socket epoch now request prompt r = (None, r') \<Longrightarrow> epoch \<noteq> [] \<Longrightarrow>
   Active r' t e \<longleftrightarrow> e = epoch \<and> Active r t e"
  by (auto simp: continue_change_def Let_def Active_def threads_of_def split: if_splits option.splits)

lemma assign_effect:
  "assign_change root_thread thread socket epoch now r = (None, r') \<Longrightarrow> epoch \<noteq> [] \<Longrightarrow>
   Active r' t e \<longleftrightarrow> e = epoch \<and> (t = thread \<or> Active r t e)"
  by (auto simp: assign_change_def Let_def Active_def threads_of_def split: if_splits option.splits)

text \<open>A call whose callback has the effect of its event, as a step of the history.\<close>

definition accounted :: "recovery_store \<Rightarrow> string \<Rightarrow> permission_event list \<Rightarrow> recovery option \<Rightarrow> bool" where
  "accounted st slug h d \<longleftrightarrow> (\<forall>t e. permits d t e \<longleftrightarrow> in_force h t e) \<and> (\<forall>r. d = Some r \<longrightarrow> recovery_ok st slug r)"

lemma accounted_call:
  assumes "accounted st slug h d" and "through st slug change d d'"
    and "\<And>y r. change (seen_record d) = (Some y, r) \<Longrightarrow> \<not> errors_is y retireRecovery"
    and "\<And>r t e. change (seen_record d) = (None, r) \<Longrightarrow> recovery_ok st slug r \<Longrightarrow> d' \<noteq> d \<Longrightarrow>
      Active r t e \<longleftrightarrow> grants x t e \<or> \<not> withdraws x e \<and> Active (seen_record d) t e"
  shows "accounted st slug (after_call x d d' h) d'"
proof (cases "d' = d")
  case False
  with assms(2,3) obtain r where r: "change (seen_record d) = (None, r)" "d' = Some r" "recovery_ok st slug r"
    by (auto simp: through_def)
  with assms(1) assms(4) [OF r(1,3) False] False show ?thesis by (simp add: accounted_def after_call_def permits_seen)
qed (use assms(1) in \<open>simp add: after_call_def\<close>)

text \<open>The five callbacks that never remove the record.\<close>

lemma accounted_set:
  assumes "accounted st slug h d" and "through st slug (set_change st slug root_thread socket epoch automatic activate) d d'"
  shows "accounted st slug (after_call (PermSet epoch root_thread automatic activate) d d' h) d'"
proof (rule accounted_call [OF assms change_errors(1)])
  fix r t e assume c: "set_change st slug root_thread socket epoch automatic activate (seen_record d) = (None, r)" and "recovery_ok st slug r"
  with change_epoch(1) [OF c] have "epoch \<noteq> []" by (auto dest: epoch_in_force)
  from set_change_active [OF c this] show "Active r t e \<longleftrightarrow> grants (PermSet epoch root_thread automatic activate) t e \<or>
      \<not> withdraws (PermSet epoch root_thread automatic activate) e \<and> Active (seen_record d) t e" by auto
qed

lemma accounted_seed:
  assumes "accounted st slug h d" and "through st slug (seed_change st slug thread socket epoch active) d d'"
  shows "accounted st slug (after_call (PermSeed epoch loaded active) d d' h) d'"
proof (rule accounted_call [OF assms change_errors(2)])
  fix r t e assume c: "seed_change st slug thread socket epoch active (seen_record d) = (None, r)" and ok: "recovery_ok st slug r" and "d' \<noteq> d"
  have r: "rc_schema (seen_record d) = 0"
  proof (rule ccontr)
    assume "rc_schema (seen_record d) \<noteq> 0"
    with assms(2) \<open>d' \<noteq> d\<close> show False
      by (cases d) (auto simp: through_def seed_change_def seen_record_def zero_recovery_def)
  qed
  with c have "rc_epoch r = epoch" by (auto simp: seed_change_def)
  with ok have "epoch \<noteq> []" by (auto dest: epoch_in_force)
  with c r show "Active r t e \<longleftrightarrow> grants (PermSeed epoch loaded active) t e \<or>
      \<not> withdraws (PermSeed epoch loaded active) e \<and> Active (seen_record d) t e"
    by (auto simp: seed_change_def Active_def threads_of_def)
qed

lemma accounted_publish:
  assumes "accounted st slug h d" and "through st slug (publish_change root_thread thread socket epoch now) d d'"
  shows "accounted st slug (after_call (PermPublish epoch thread) d d' h) d'"
proof (rule accounted_call [OF assms change_errors(3)])
  fix r t e assume c: "publish_change root_thread thread socket epoch now (seen_record d) = (None, r)" and "recovery_ok st slug r"
  with change_epoch(2) [OF c] have "epoch \<noteq> []" by (auto dest: epoch_in_force)
  from publish_effect [OF c this] show "Active r t e \<longleftrightarrow> grants (PermPublish epoch thread) t e \<or>
      \<not> withdraws (PermPublish epoch thread) e \<and> Active (seen_record d) t e" by auto
qed

lemma accounted_continue:
  assumes "accounted st slug h d" and "through st slug (continue_change root_thread socket epoch now request prompt) d d'"
  shows "accounted st slug (after_call (PermContinue epoch) d d' h) d'"
proof (rule accounted_call [OF assms change_errors(4)])
  fix r t e assume c: "continue_change root_thread socket epoch now request prompt (seen_record d) = (None, r)" and "recovery_ok st slug r"
  with change_epoch(3) [OF c] have "epoch \<noteq> []" by (auto dest: epoch_in_force)
  from continue_effect [OF c this] show "Active r t e \<longleftrightarrow> grants (PermContinue epoch) t e \<or>
      \<not> withdraws (PermContinue epoch) e \<and> Active (seen_record d) t e" by auto
qed

lemma accounted_assign:
  assumes "accounted st slug h d" and "through st slug (assign_change root_thread thread socket epoch now) d d'"
  shows "accounted st slug (after_call (PermAssign epoch thread) d d' h) d'"
proof (rule accounted_call [OF assms change_errors(5)])
  fix r t e assume c: "assign_change root_thread thread socket epoch now (seen_record d) = (None, r)" and "recovery_ok st slug r"
  with change_epoch(4) [OF c] have "epoch \<noteq> []" by (auto dest: epoch_in_force)
  from assign_effect [OF c this] show "Active r t e \<longleftrightarrow> grants (PermAssign epoch thread) t e \<or>
      \<not> withdraws (PermAssign epoch thread) e \<and> Active (seen_record d) t e" by auto
qed

lemma accounted_retire:
  assumes "accounted st slug h d" and "through st slug (retire_change root_thread socket remove) d d'"
  shows "accounted st slug (after_call PermRetire d d' h) d'"
  using assms by (auto simp: through_def accounted_def after_call_def retire_change_def permits_def Active_def threads_of_def split: if_splits)

lemma recovery_run_accounted: "recovery_run sha st slug h d \<Longrightarrow> accounted st slug h d"
proof (induction rule: recovery_run.induct)
  case run_start
  show ?case by (simp add: accounted_def)
next
  case (run_set h d io sv epoch root_thread socket automatic activate x d')
  then have "recovery_update sha st slug (set_change st slug root_thread socket epoch automatic activate) io d = Some (x, d')"
    by (simp add: Set_permission_def)
  from accounted_set [OF run_set.IH through_update [OF this run_set.hyps(2)]] show ?case .
next
  case (run_retire h d io root_thread socket remove x d')
  then show ?case by (intro accounted_retire [OF run_retire.IH]) (auto simp: Retire_def intro: through_update)
next
  case (run_seed h d io v epoch loaded thread active socket x d')
  from accounted_seed [OF run_seed.IH through_seed [OF run_seed.hyps(6,2-5)]] show ?case .
next
  case (run_publish h d io root_thread thread socket epoch sv x d')
  from accounted_publish [OF run_publish.IH through_update [OF run_publish.hyps(3) [unfolded publishRecovery_def] run_publish.hyps(2)]]
  show ?case .
next
  case (run_continue h d io v epoch root_thread socket request x d')
  from through_continue [OF run_continue.hyps(4,2,3)] accounted_continue [OF run_continue.IH] show ?case by blast
next
  case (run_assign h d io v epoch cwd socket thread y d')
  from through_assign [OF run_assign.hyps(6,2-5)] accounted_assign [OF run_assign.IH] show ?case by blast
qed

text \<open>A seeded thread was loaded in the App Server when the record was seeded.\<close>

lemma seed_members_loaded: "seed_members verify loaded ms = Inr ts \<Longrightarrow> set ts \<subseteq> set loaded"
  by (induction ms arbitrary: ts) (auto split: if_splits option.splits sum.splits)

lemma seed_active_loaded: "seed_active v loaded thread = Inr active \<Longrightarrow> set active \<subseteq> set loaded"
  by (fastforce simp: seed_active_def Let_def dest: seed_members_loaded split: if_splits sum.splits)

lemma seeds_loaded: "recovery_run sha st slug h d \<Longrightarrow> PermSeed epoch loaded active \<in> set h \<Longrightarrow> set active \<subseteq> set loaded"
  by (induction rule: recovery_run.induct) (auto simp: after_call_def dest: seed_active_loaded split: if_splits)

text \<open>
  C8. Permission is never implicit: in every state of a session's record, whichever calls of any writer were
  made on it and whichever of their system calls fail, a thread may run on a server generation exactly
  if a call made for that very generation gave it the permission (a \<open>Set\<close> with automatic execution and
  activation of the root, an activation published by the server, an assignment, or the seeding of a live session
  with the threads that were loaded) and no later call took it away (a \<open>Retire\<close>, a \<open>Set\<close> without automatic
  execution, any call that moved the record to another generation). The durable record is always valid.
\<close>

theorem permission_is_explicit:
  assumes "recovery_run sha st slug h d"
  shows "(permits d t e \<longleftrightarrow> in_force h t e) \<and> (\<forall>r. d = Some r \<longrightarrow> recovery_ok st slug r) \<and>
    (\<forall>epoch loaded active. PermSeed epoch loaded active \<in> set h \<longrightarrow> set active \<subseteq> set loaded)"
  using recovery_run_accounted [OF assms] seeds_loaded [OF assms] by (simp add: accounted_def)

subsection \<open>A session that is started, restarted and continued\<close>

lemma rec_run: "recovery_run rec_sha rec_store ''demo'' [PermSet ''boot-1:5:77:12:0'' ''t1'' True True] (Some rec_active)"
  using run_set [OF run_start rec_shows_none rec_epoch rec_set] by (simp add: after_call_def)

definition rec_socket2 :: socket_view where
  "rec_socket2 = \<lparr>sv_stat = Inr (True, 5, 78, 12, 0), sv_boot = Inr ''boot-1.''\<rparr>"

definition rec_active2 :: recovery where
  "rec_active2 = rec_active\<lparr>rc_epoch := ''boot-1:5:78:12:0'', rc_active := Some [''m1'']\<rparr>"

lemma rec_publish:
  "publishRecovery rec_sha rec_store ''demo'' ''t1'' ''m1'' ''/run/codex.sock'' ''boot-1:5:78:12:0'' rec_socket2 (rec_io (Some rec_active)) (Some rec_active) =
     Some (None, Some rec_active2)"
  by code_simp

lemma rec_run2:
  "recovery_run rec_sha rec_store ''demo'' [PermPublish ''boot-1:5:78:12:0'' ''m1'', PermSet ''boot-1:5:77:12:0'' ''t1'' True True] (Some rec_active2)"
proof -
  have "rec_active2 \<noteq> rec_active" by (simp add: rec_active2_def rec_active_def)
  then show ?thesis using run_publish [OF rec_run rec_shows_active rec_publish] by (simp add: after_call_def)
qed

text \<open>The server was restarted: a member activated on the new generation may run there, the root no longer.\<close>

theorem permission_is_explicit_witness:
  "permits (Some rec_active2) ''m1'' ''boot-1:5:78:12:0'' \<and> \<not> permits (Some rec_active2) ''t1'' ''boot-1:5:77:12:0'' \<and>
   \<not> permits (Some rec_active2) ''t1'' ''boot-1:5:78:12:0'' \<and> recovery_ok rec_store ''demo'' rec_active2"
  using permission_is_explicit [OF rec_run2] by simp

end
