(* ===== verification/Go_Text.thy ===== *)
theory Go_Text
  imports Go_Json
begin

text \<open>
  Text that must stay valid UTF-8: \<open>strings.ToValidUTF8\<close>, and that trimming, appending and cutting keep
  the encoding intact; and \<open>json.MarshalIndent\<close>.
\<close>

subsection \<open>Runes\<close>

text \<open>
  The width the first byte announces, and the restriction some first bytes put on the second. A rune is
  a first byte followed by continuation bytes within that restriction.
\<close>

definition lead_width :: "nat \<Rightarrow> nat" where
  "lead_width b =
     (if b < 128 then 1 else if in_range 194 223 b then 2 else if in_range 224 239 b then 3 else if in_range 240 244 b then 4 else 0)"

definition second_ok :: "nat \<Rightarrow> nat \<Rightarrow> bool" where
  "second_ok b x \<longleftrightarrow> (b = 224 \<longrightarrow> 160 \<le> x) \<and> (b = 237 \<longrightarrow> x \<le> 159) \<and> (b = 240 \<longrightarrow> 144 \<le> x) \<and> (b = 244 \<longrightarrow> x \<le> 143)"

lemma byte_cases:
  obtains (ascii) "b < (128::nat)" "lead_width b = 1"
    | (two) "\<not> b < 128" "in_range 194 223 b" "lead_width b = 2" "\<And>x. second_ok b x"
    | (e0) "b = 224"
    | (ed) "b = 237"
    | (three) "\<not> b < 128" "in_range 225 239 b" "b \<noteq> 237" "b \<noteq> 224" "\<not> in_range 194 223 b" "lead_width b = 3" "\<And>x. second_ok b x"
    | (f0) "b = 240"
    | (f4) "b = 244"
    | (four) "\<not> b < 128" "in_range 241 243 b" "b \<noteq> 237" "b \<noteq> 224" "b \<noteq> 240" "b \<noteq> 244" "\<not> in_range 194 223 b"
        "\<not> in_range 225 239 b" "lead_width b = 4" "\<And>x. second_ok b x"
    | (none) "\<not> b < 128" "\<not> in_range 194 223 b" "b \<noteq> 224" "b \<noteq> 237" "\<not> in_range 225 239 b" "b \<noteq> 240" "b \<noteq> 244"
        "\<not> in_range 241 243 b" "lead_width b = 0"
proof -
  consider "b < 128" | "in_range 194 223 b" | "b = 224" | "b = 237" | "in_range 225 239 b" "b \<noteq> 237" | "b = 240" | "b = 244" | "in_range 241 243 b"
    | "\<not> b < 128" "\<not> in_range 194 223 b" "b \<noteq> 224" "b \<noteq> 237" "\<not> in_range 225 239 b" "b \<noteq> 240" "b \<noteq> 244" "\<not> in_range 241 243 b"
    by blast
  then show thesis
  proof cases
    case 1 then show ?thesis by (intro ascii) (auto simp: lead_width_def)
  next
    case 2 then show ?thesis by (intro two) (auto simp: in_range_def lead_width_def second_ok_def)
  next
    case 5 then show ?thesis by (intro three) (auto simp: in_range_def lead_width_def second_ok_def)
  next
    case 8 then show ?thesis by (intro four) (auto simp: in_range_def lead_width_def second_ok_def)
  next
    case 9 then show ?thesis by (intro none) (auto simp: in_range_def lead_width_def)
  qed (use e0 ed f0 f4 in blast)+
qed

lemma in_range_cont:
  "in_range 160 191 x \<longleftrightarrow> in_range 128 191 x \<and> 160 \<le> x" "in_range 128 159 x \<longleftrightarrow> in_range 128 191 x \<and> x \<le> 159"
  "in_range 144 191 x \<longleftrightarrow> in_range 128 191 x \<and> 144 \<le> x" "in_range 128 143 x \<longleftrightarrow> in_range 128 191 x \<and> x \<le> 143"
  by (auto simp: in_range_def)

lemma all_below:
  "(\<forall>i. 0 < i \<and> i < (1::nat) \<longrightarrow> P i) \<longleftrightarrow> True" "(\<forall>i. 0 < i \<and> i < (2::nat) \<longrightarrow> P i) \<longleftrightarrow> P 1"
  "(\<forall>i. 0 < i \<and> i < (3::nat) \<longrightarrow> P i) \<longleftrightarrow> P 1 \<and> P 2" "(\<forall>i. 0 < i \<and> i < (4::nat) \<longrightarrow> P i) \<longleftrightarrow> P 1 \<and> P 2 \<and> P 3"
  by (auto simp: less_Suc_eq numeral_eq_Suc)

definition rune_at :: "string \<Rightarrow> bool" where
  "rune_at s \<longleftrightarrow> s \<noteq> [] \<and>
     (let b = byte_of (s ! 0); w = lead_width b in
      w \<noteq> 0 \<and> w \<le> length s \<and> (\<forall>i. 0 < i \<and> i < w \<longrightarrow> in_range 128 191 (byte_of (s ! i))) \<and> (1 < w \<longrightarrow> second_ok b (byte_of (s ! 1))))"

lemma rune_width_rune: "rune_width s = (if rune_at s then lead_width (byte_of (s ! 0)) else 0)"
proof (cases s)
  case (Cons c t)
  have "lead_width 224 = 3" "lead_width 237 = 3" "lead_width 240 = 4" "lead_width 244 = 4" by code_simp+
  then show ?thesis
    unfolding Cons rune_width_def Let_def list.case rune_at_def
    by (cases "byte_of c" rule: byte_cases)
       (auto simp: all_below cont_def second_def in_range_cont second_ok_def in_range_def [of _ _ 224] in_range_def [of _ _ 237]
          in_range_def [of _ _ 240] in_range_def [of _ _ 244] Suc_le_eq)
qed (simp add: rune_width_def rune_at_def)

lemma rune_width_le: "rune_width s \<le> length s"
  by (simp add: rune_width_rune rune_at_def Let_def)

lemma rune_width_prefix:
  assumes "0 < rune_width s" and "take (rune_width s) s' = take (rune_width s) s"
  shows "rune_width s' = rune_width s"
proof -
  have len: "rune_width s \<le> length s'"
    using assms(2) rune_width_le [of s] by (metis length_take min.absorb2 min.cobounded1)
  have same: "i < rune_width s \<Longrightarrow> s' ! i = s ! i" for i
    using arg_cong [OF assms(2), of "\<lambda>x. x ! i"] by simp
  from assms(1) have s: "rune_at s" "rune_width s = lead_width (byte_of (s ! 0))" by (auto simp: rune_width_rune split: if_splits)
  then have "rune_at s'"
    using assms(1) len same by (auto simp: rune_at_def Let_def)
  with s same [of 0] assms(1) show ?thesis by (simp add: rune_width_rune)
qed

text \<open>The bytes after the first are continuation bytes, the first is none.\<close>

lemma rune_inner: "0 < i \<Longrightarrow> i < rune_width s \<Longrightarrow> in_range 128 191 (byte_of (s ! i))"
  by (auto simp: rune_width_rune rune_at_def Let_def split: if_splits)

lemma rune_first: "0 < rune_width s \<Longrightarrow> \<not> in_range 128 191 (byte_of (s ! 0))"
  by (auto simp: rune_width_rune lead_width_def in_range_def split: if_splits)

lemma ValidString_Nil [simp]: "ValidString []"
  by (simp add: ValidString.simps)

lemma ValidString_rune:
  "0 < rune_width s \<Longrightarrow> ValidString s \<longleftrightarrow> ValidString (drop (rune_width s) s)"
  by (subst ValidString.simps) (auto simp: rune_width_def)

lemma ValidString_width: "ValidString s \<Longrightarrow> s \<noteq> [] \<Longrightarrow> 0 < rune_width s"
  by (subst (asm) ValidString.simps) (auto split: if_splits)

lemma rune_width_append: "0 < rune_width s \<Longrightarrow> rune_width (s @ t) = rune_width s"
  using rune_width_le [of s] by (intro rune_width_prefix) auto

lemma ValidString_append: "ValidString s \<Longrightarrow> ValidString t \<Longrightarrow> ValidString (s @ t)"
proof (induction s rule: ValidString.induct)
  case (1 s)
  show ?case
  proof (cases "s = []")
    case False
    with 1 have w: "0 < rune_width s" by (auto dest: ValidString_width)
    with 1 False have "ValidString (drop (rune_width s) s @ t)" by (auto simp: ValidString_rune)
    with w rune_width_le [of s] show ?thesis by (subst ValidString_rune) (simp_all add: rune_width_append)
  qed (use 1 in simp)
qed

text \<open>A text ends where a rune starts.\<close>

lemma ValidString_before:
  "ValidString (s @ t) \<Longrightarrow> 0 < rune_width t \<Longrightarrow> ValidString s"
proof (induction s rule: ValidString.induct)
  case (1 s)
  show ?case
  proof (cases "s = []")
    case False
    let ?w = "rune_width (s @ t)"
    from 1 False have w: "0 < ?w" by (auto dest: ValidString_width)
    have "?w \<le> length s"
    proof (rule ccontr)
      assume "\<not> ?w \<le> length s"
      then have "in_range 128 191 (byte_of ((s @ t) ! length s))" using False by (intro rune_inner) auto
      with rune_first [OF "1.prems"(2)] show False by (simp add: nth_append)
    qed
    then have ws: "rune_width s = ?w" by (intro rune_width_prefix [OF w]) auto
    from "1.prems"(1) w \<open>?w \<le> length s\<close> have "ValidString (drop ?w s @ t)" by (auto simp: ValidString_rune)
    with 1 False w ws show ?thesis by (auto simp: ValidString_rune)
  qed simp
qed

subsection \<open>White space\<close>

lemma find_in_set: "List.find P xs = Some x \<Longrightarrow> x \<in> set xs \<and> P x"
  by (auto simp: find_Some_iff)

lemma space_rune_width: "r \<in> set space_runes \<Longrightarrow> rune_width r = length r"
proof -
  have "list_all (\<lambda>r. rune_width r = length r) space_runes" by code_simp
  then show "r \<in> set space_runes \<Longrightarrow> rune_width r = length r" by (simp add: list_all_iff)
qed

lemma ValidString_TrimLeft: "ValidString s \<Longrightarrow> ValidString (TrimLeft s)"
proof (induction s rule: TrimLeft.induct)
  case (1 s)
  show ?case
  proof (cases "s \<noteq> [] \<and> 0 < leading_space s")
    case True
    then obtain r where r: "r \<in> set space_runes" "prefix r s" "leading_space s = length r"
      by (auto simp: leading_space_def dest: find_in_set split: option.splits)
    then obtain t where s: "s = r @ t" by (auto elim: prefixE)
    have "rune_width s = length r"
      using rune_width_append [of r t] space_rune_width [OF r(1)] space_runes_nonempty [OF r(1)] s by simp
    then have "ValidString (drop (leading_space s) s)"
      using "1.prems" r(3) space_runes_nonempty [OF r(1)] by (simp add: ValidString_rune)
    with 1 True show ?thesis by (subst TrimLeft.simps) simp
  next
    case False
    with 1 show ?thesis by (subst TrimLeft.simps) auto
  qed
qed

lemma ValidString_TrimRight: "ValidString s \<Longrightarrow> ValidString (TrimRight s)"
proof (induction s rule: TrimRight.induct)
  case (1 s)
  show ?case
  proof (cases "s \<noteq> [] \<and> 0 < trailing_space s")
    case True
    then obtain r where r: "r \<in> set space_runes" "suffix r s" "trailing_space s = length r"
      by (auto simp: trailing_space_def dest: find_in_set split: option.splits)
    then obtain t where s: "s = t @ r" by (auto simp: suffix_def)
    have "ValidString t"
      using ValidString_before [of t r] "1.prems" s space_rune_width [OF r(1)] space_runes_nonempty [OF r(1)] by simp
    with s r(3) have "ValidString (take (length s - trailing_space s) s)" by simp
    with 1 True show ?thesis by (subst TrimRight.simps) simp
  next
    case False
    with 1 show ?thesis by (subst TrimRight.simps) auto
  qed
qed

lemma ValidString_TrimSpace: "ValidString s \<Longrightarrow> ValidString (TrimSpace s)"
  by (simp add: TrimSpace_def ValidString_TrimLeft ValidString_TrimRight)

text \<open>Trimmed text, and that trimming reaches it.\<close>

definition trimmed :: "string \<Rightarrow> bool" where
  "trimmed s \<longleftrightarrow> s = [] \<or> leading_space s = 0 \<and> trailing_space s = 0"

lemma space_zero:
  "leading_space s = 0 \<longleftrightarrow> (\<forall>r \<in> set space_runes. \<not> prefix r s)"
  "trailing_space s = 0 \<longleftrightarrow> (\<forall>r \<in> set space_runes. \<not> suffix r s)"
  by (auto simp: leading_space_def trailing_space_def find_None_iff dest: find_in_set space_runes_nonempty split: option.splits)

lemma TrimSpace_trimmed_id: "trimmed s \<Longrightarrow> TrimSpace s = s"
  by (auto simp: trimmed_def TrimSpace_def TrimLeft.simps [of s] TrimRight.simps [of s])

lemma TrimLeft_leading: "TrimLeft s = [] \<or> leading_space (TrimLeft s) = 0"
proof (induction s rule: TrimLeft.induct)
  case (1 s)
  then show ?case by (cases "s \<noteq> [] \<and> 0 < leading_space s") (auto simp: TrimLeft.simps [of s])
qed

lemma TrimRight_trailing: "TrimRight s = [] \<or> trailing_space (TrimRight s) = 0"
proof (induction s rule: TrimRight.induct)
  case (1 s)
  then show ?case by (cases "s \<noteq> [] \<and> 0 < trailing_space s") (auto simp: TrimRight.simps [of s])
qed

lemma TrimRight_prefix: "prefix (TrimRight s) s"
proof (induction s rule: TrimRight.induct)
  case (1 s)
  then show ?case
    by (cases "s \<noteq> [] \<and> 0 < trailing_space s") (auto simp: TrimRight.simps [of s] intro: prefix_order.trans take_is_prefix)
qed

lemma trimmed_TrimSpace: "trimmed (TrimSpace s)"
proof -
  have "leading_space (TrimSpace s) = 0" if "TrimSpace s \<noteq> []"
    using TrimLeft_leading [of s] TrimRight_prefix [of "TrimLeft s"] that unfolding TrimSpace_def space_zero
    by (metis TrimRight_Nil prefix_order.trans)
  with TrimRight_trailing [of "TrimLeft s"] show ?thesis by (auto simp: trimmed_def TrimSpace_def)
qed

subsection \<open>\<open>strings.ToValidUTF8\<close>\<close>

text \<open>A run of bytes that encode nothing becomes one replacement.\<close>

function valid_runs :: "bool \<Rightarrow> string \<Rightarrow> string \<Rightarrow> string" where
  "valid_runs inside replacement s =
     (if s = [] then []
      else if rune_width s = 0 then (if inside then [] else replacement) @ valid_runs True replacement (tl s)
      else take (rune_width s) s @ valid_runs False replacement (drop (rune_width s) s))"
  by pat_completeness auto
termination
  by (relation "measure (\<lambda>(_, _, s). length s)") auto

declare valid_runs.simps [simp del]

definition ToValidUTF8 :: "string \<Rightarrow> string \<Rightarrow> string" where
  "ToValidUTF8 s replacement = valid_runs False replacement s"

lemma valid_runs_valid: "ValidString r \<Longrightarrow> ValidString (valid_runs inside r s)"
proof (induction inside r s rule: valid_runs.induct)
  case (1 inside r s)
  have rune: "ValidString (take (rune_width s) s)" if "0 < rune_width s"
    using that rune_width_le [of s] rune_width_prefix [OF that, of "take (rune_width s) s"]
    by (subst ValidString_rune) auto
  show ?case
    using 1 rune by (subst valid_runs.simps) (auto intro!: ValidString_append)
qed

lemma ToValidUTF8_valid: "ValidString r \<Longrightarrow> ValidString (ToValidUTF8 s r)"
  by (simp add: ToValidUTF8_def valid_runs_valid)

text \<open>Text that is valid stays as it is.\<close>

lemma valid_runs_id: "ValidString s \<Longrightarrow> valid_runs inside r s = s"
proof (induction inside r s rule: valid_runs.induct)
  case (1 inside r s)
  show ?case
  proof (cases "s = []")
    case False
    with 1 have w: "0 < rune_width s" by (auto dest: ValidString_width)
    with 1 False show ?thesis by (subst valid_runs.simps) (auto simp: ValidString_rune)
  qed (simp add: valid_runs.simps)
qed

lemma ToValidUTF8_id: "ValidString s \<Longrightarrow> ToValidUTF8 s r = s"
  by (simp add: ToValidUTF8_def valid_runs_id)

text \<open>The loop that shortens a text by one byte until it is valid.\<close>

function shorten_valid :: "string \<Rightarrow> string" where
  "shorten_valid s = (if ValidString s then s else shorten_valid (butlast s))"
  by pat_completeness auto
termination
proof (relation "measure length")
  fix s :: string
  assume "\<not> ValidString s"
  then have "s \<noteq> []" by auto
  then show "(butlast s, s) \<in> measure length" by simp
qed simp

declare shorten_valid.simps [simp del]

lemma shorten_valid_valid: "ValidString (shorten_valid s)"
  by (induction s rule: shorten_valid.induct) (subst shorten_valid.simps, simp)

lemma length_shorten_valid: "length (shorten_valid s) \<le> length s"
proof (induction s rule: shorten_valid.induct)
  case (1 s)
  then show ?case by (subst shorten_valid.simps) auto
qed

subsection \<open>\<open>json.MarshalIndent\<close> with two spaces\<close>

definition line :: "nat \<Rightarrow> string" where
  "line depth = CHR 0x0A # replicate (2 * depth) (CHR '' '')"

fun json_indent :: "nat \<Rightarrow> json \<Rightarrow> string" where
  "json_indent d (JArr []) = ''[]''"
| "json_indent d (JArr (x # xs)) =
     ''['' @ join_with '','' (map (\<lambda>j. line (Suc d) @ json_indent (Suc d) j) (x # xs)) @ line d @ '']''"
| "json_indent d (JObj []) = [CHR 0x7B, CHR 0x7D]"
| "json_indent d (JObj (m # ms)) =
     CHR 0x7B # join_with '','' (map (\<lambda>p. line (Suc d) @ json_string (fst p) @ '': '' @ json_indent (Suc d) (snd p)) (m # ms)) @
     line d @ [CHR 0x7D]"
| "json_indent d j = json_enc j"

end
