(* ===== verification/Web_Operation.thy ===== *)
theory Web_Operation
  imports Go_Text Session_Lifecycle Session_Authority
begin

text \<open>
  Lifecycle operations as the web server keeps them: the receipt of an archive, delete or revive
  (\<open>portal/internal/web/server.go\<close>: \<open>lifecycleOperation\<close>), the identity of the session it is about
  (\<open>lifecycle_target.go\<close>), the evidence that ties it to a journal (\<open>service_cleanup_handoff.go\<close>), and the
  receipt that is proposed from both (\<open>operation_state.go\<close>). Every look at the file system and every
  reading of the clock is an argument; \<open>sha\<close> is SHA-256 in hexadecimal.
\<close>

subsection \<open>Receipts\<close>

text \<open>A pointer is compared by address; what it points to never changes.\<close>

datatype 'a ptr = NilPtr | At nat 'a

record target_snapshot =
  ts_target :: string
  ts_version :: int
  ts_slug :: string
  ts_location :: string
  ts_lifecycle :: string
  ts_thread :: string
  ts_archived :: bool

record operation_options =
  oo_mode :: string
  oo_abandoned :: bool
  oo_force :: bool
  oo_target :: string
  oo_deleted_thread :: string
  oo_journal :: string
  oo_expected :: bool
  oo_location :: string
  oo_evidence :: string
  oo_journal_target :: string
  oo_journal_location :: string

text \<open>The tracking-sync status and the archive progress are display data; they appear as their JSON.\<close>

record lifecycle_operation =
  lo_slug :: string
  lo_kind :: string
  lo_state :: string
  lo_phase :: string
  lo_started :: string
  lo_updated :: string
  lo_finished :: string
  lo_sync :: "json ptr"
  lo_progress :: "json ptr"
  lo_error :: string
  lo_redirect :: string
  lo_receipt :: string
  lo_version :: int
  lo_attempt :: int
  lo_current :: "target_snapshot ptr"
  lo_code :: string
  lo_options :: operation_options

definition zero_options :: operation_options where
  "zero_options = \<lparr>oo_mode = [], oo_abandoned = False, oo_force = False, oo_target = [], oo_deleted_thread = [], oo_journal = [],
     oo_expected = False, oo_location = [], oo_evidence = [], oo_journal_target = [], oo_journal_location = []\<rparr>"

definition zero_operation :: lifecycle_operation where
  "zero_operation = \<lparr>lo_slug = [], lo_kind = [], lo_state = [], lo_phase = [], lo_started = [], lo_updated = [], lo_finished = [],
     lo_sync = NilPtr, lo_progress = NilPtr, lo_error = [], lo_redirect = [], lo_receipt = [], lo_version = 0, lo_attempt = 0,
     lo_current = NilPtr, lo_code = [], lo_options = zero_options\<rparr>"

definition map_options :: "(operation_options \<Rightarrow> operation_options) \<Rightarrow> lifecycle_operation \<Rightarrow> lifecycle_operation" where
  "map_options f op = op\<lparr>lo_options := f (lo_options op)\<rparr>"

definition lifecycleTargetIdentityVersion :: int where "lifecycleTargetIdentityVersion = 2"
definition lifecycleOperationSuccessRetention :: int where "lifecycleOperationSuccessRetention = 15 * 60 * 1000000000"
definition maxLifecycleOperationErrorBytes :: nat where "maxLifecycleOperationErrorBytes = 4096"

text \<open>\<open>messageDigestPattern\<close>.\<close>

definition digest_text :: "string \<Rightarrow> bool" where "digest_text s \<longleftrightarrow> isLowerHex s 64"

text \<open>\<open>time.Parse\<close> and \<open>Time.Format\<close> in the layout \<open>time.RFC3339Nano\<close>, times as nanoseconds.\<close>

record clock =
  ck_parse :: "string \<Rightarrow> int option"
  ck_format :: "int \<Rightarrow> string"

definition clock_ok :: "clock \<Rightarrow> bool" where
  "clock_ok c \<longleftrightarrow> (\<forall>t. ck_parse c (ck_format c t) \<noteq> None)"

definition validate_options :: "lifecycle_operation \<Rightarrow> error option" where
  "validate_options op =
     (let o' = lo_options op in
      if lo_kind op = ''archive'' then
        (if \<not> archive_mode (oo_mode o') \<or> oo_deleted_thread o' \<noteq> [] then Some (Err ''invalid archive retry mode'') else None)
      else if lo_kind op = ''delete'' then
        (if oo_mode o' \<noteq> [] \<or> oo_abandoned o' then Some (Err ''invalid delete retry options'')
         else if 1024 < length (oo_deleted_thread o') \<or> \<not> ValidString (oo_deleted_thread o') \<or>
                 ContainsAny (oo_deleted_thread o') [CHR 0x00, CHR 0x0D, CHR 0x0A]
         then Some (Err ''invalid deleted thread identity'') else None)
      else if lo_kind op = ''revive'' then
        (if oo_mode o' \<noteq> [] \<or> oo_force o' \<or> oo_deleted_thread o' \<noteq> [] then Some (Err ''invalid revive retry options'') else None)
      else None)"

definition location_ok :: "string \<Rightarrow> bool" where
  "location_ok l \<longleftrightarrow> l = [] \<or> l = ''work'' \<or> l = ''archive''"

definition optional_digest :: "string \<Rightarrow> bool" where
  "optional_digest d \<longleftrightarrow> d = [] \<or> digest_text d"

text \<open>The two times are checked in the order of a map's iteration; here first the start.\<close>

definition validateLifecycleOperation :: "clock \<Rightarrow> lifecycle_operation \<Rightarrow> error option" where
  "validateLifecycleOperation ck op =
     (let o' = lo_options op in
      if \<not> ValidSlug (lo_slug op) then Some (Err ''invalid session slug'')
      else if lo_kind op \<noteq> ''archive'' \<and> lo_kind op \<noteq> ''delete'' \<and> lo_kind op \<noteq> ''revive'' then Some (Err ''invalid operation kind'')
      else if lo_state op \<noteq> ''running'' \<and> lo_state op \<noteq> ''paused'' \<and> lo_state op \<noteq> ''failed'' \<and> lo_state op \<noteq> ''complete''
      then Some (Err ''invalid operation state'')
      else if lo_phase op = [] \<or> 64 < length (lo_phase op) \<or> \<not> ValidString (lo_phase op) then Some (Err ''invalid operation phase'')
      else if ck_parse ck (lo_started op) = None then Some (Err ''invalid operation startedAt'')
      else if ck_parse ck (lo_updated op) = None then Some (Err ''invalid operation updatedAt'')
      else if lo_finished op \<noteq> [] \<and> ck_parse ck (lo_finished op) = None then Some (Err ''invalid operation finishedAt'')
      else if maxLifecycleOperationErrorBytes < length (lo_error op) \<or> \<not> ValidString (lo_error op)
      then Some (Err ''invalid operation error'')
      else if lo_code op \<noteq> [] \<and> lo_code op \<noteq> ''target_changed'' then Some (Err ''invalid lifecycle error code'')
      else if \<not> optional_digest (lo_receipt op) then Some (Err ''invalid operation receipt identity'')
      else if \<not> optional_digest (oo_journal o') then Some (Err ''invalid lifecycle journal identity'')
      else if oo_expected o' \<and> oo_journal o' = [] then Some (Err ''expected lifecycle journal has no identity'')
      else if lo_attempt op < 0 then Some (Err ''invalid lifecycle attempt'')
      else if lo_version op \<noteq> 0 \<and> lo_version op \<noteq> lifecycleTargetIdentityVersion
      then Some (Err ''unsupported lifecycle target identity version'')
      else if \<not> list_all optional_digest [oo_evidence o', oo_journal_target o'] then Some (Err ''invalid lifecycle proof identity'')
      else if \<not> list_all location_ok [oo_location o', oo_journal_location o'] then Some (Err ''invalid lifecycle target location'')
      else if \<not> optional_digest (oo_target o') then Some (Err ''invalid lifecycle target identity'')
      else if lo_version op = lifecycleTargetIdentityVersion \<and> (oo_target o' = [] \<or> oo_location o' = [])
      then Some (Err ''versioned lifecycle receipt has no target binding'')
      else if lo_redirect op \<noteq> ''/'' \<and> lo_redirect op \<noteq> ''/'' @ lo_slug op @ ''/'' then Some (Err ''invalid operation redirect'')
      else validate_options op)"

text \<open>What the checks add up to.\<close>

definition valid_receipt :: "clock \<Rightarrow> lifecycle_operation \<Rightarrow> bool" where
  "valid_receipt ck op \<longleftrightarrow> validateLifecycleOperation ck op = None"

subsection \<open>Error texts\<close>

definition ellipsis :: string where "ellipsis = map char_of [226, 128, 166 :: nat]"
definition replacement_rune :: string where "replacement_rune = map char_of [239, 191, 189 :: nat]"

definition boundedLifecycleError :: "string \<Rightarrow> string" where
  "boundedLifecycleError message =
     (let m = TrimSpace (ToValidUTF8 message replacement_rune) in
      if length m \<le> maxLifecycleOperationErrorBytes then m
      else TrimSpace (shorten_valid (take (maxLifecycleOperationErrorBytes - length ellipsis) m)) @ ellipsis)"

lemma error_runes:
  "ValidString replacement_rune" "ValidString ellipsis" "length ellipsis = 3" "trimmed ellipsis"
  by code_simp+

lemma boundedLifecycleError_ok:
  shows "length (boundedLifecycleError m) \<le> 4096" and "ValidString (boundedLifecycleError m)"
proof -
  let ?m = "TrimSpace (ToValidUTF8 m replacement_rune)"
  let ?s = "shorten_valid (take 4093 ?m)"
  have v: "ValidString ?m" by (simp add: ValidString_TrimSpace ToValidUTF8_valid error_runes)
  have t: "ValidString (TrimSpace ?s)" by (simp add: ValidString_TrimSpace shorten_valid_valid)
  have l: "length (TrimSpace ?s) \<le> 4093"
    using length_TrimSpace [of ?s] length_shorten_valid [of "take 4093 ?m"] by simp
  show "length (boundedLifecycleError m) \<le> 4096" "ValidString (boundedLifecycleError m)"
    using v ValidString_append [OF t error_runes(2)] l
    by (auto simp: boundedLifecycleError_def maxLifecycleOperationErrorBytes_def Let_def error_runes)
qed

lemma trimmed_ellipsis:
  assumes "ValidString s" and "trimmed s"
  shows "trimmed (s @ ellipsis)"
proof -
  have lead: "\<not> prefix r (s @ ellipsis)" if r: "r \<in> set space_runes" and s: "s \<noteq> []" for r
  proof
    assume p: "prefix r (s @ ellipsis)"
    then obtain t where t: "s @ ellipsis = r @ t" by (auto elim: prefixE)
    have "0 < rune_width r" using space_rune_width [OF r] space_runes_nonempty [OF r] by simp
    then have "rune_width (s @ ellipsis) = length r" unfolding t by (simp add: rune_width_append space_rune_width [OF r])
    moreover have "rune_width (s @ ellipsis) = rune_width s"
      using assms(1) s by (intro rune_width_append) (rule ValidString_width)
    ultimately have "length r \<le> length s" using rune_width_le [of s] by simp
    with p have "prefix r s" by (auto simp: prefix_append)
    with assms(2) s r show False by (auto simp: trimmed_def space_zero)
  qed
  have trail: "\<not> suffix r (s @ ellipsis)" if r: "r \<in> set space_runes" for r
  proof -
    have "list_all (\<lambda>r. length r \<le> 3) space_runes" by code_simp
    with r have "length r \<le> length ellipsis" by (simp add: list_all_iff error_runes)
    moreover have "\<not> suffix r ellipsis" using error_runes(3,4) r by (auto simp: trimmed_def space_zero)
    ultimately show ?thesis by (auto simp: suffix_append)
  qed
  show ?thesis
    using lead trail error_runes(3,4) by (cases "s = []") (auto simp: trimmed_def space_zero)
qed

text \<open>
  An error text kept in a receipt is bounded whatever the command wrote: at most 4,096 bytes of valid
  UTF-8 without surrounding white space, so a receipt never becomes invalid through its error, and
  bounding a text that was bounded before changes nothing.
\<close>

theorem boundedLifecycleError_bounds:
  "length (boundedLifecycleError m) \<le> 4096 \<and> ValidString (boundedLifecycleError m) \<and>
   TrimSpace (boundedLifecycleError m) = boundedLifecycleError m \<and>
   boundedLifecycleError (boundedLifecycleError m) = boundedLifecycleError m"
proof -
  let ?b = "boundedLifecycleError m"
  have "trimmed ?b"
    by (auto simp: boundedLifecycleError_def Let_def trimmed_TrimSpace
        intro!: trimmed_ellipsis ValidString_TrimSpace shorten_valid_valid)
  then have t: "TrimSpace ?b = ?b" by (rule TrimSpace_trimmed_id)
  moreover have "boundedLifecycleError ?b = ?b"
    using t boundedLifecycleError_ok [of m]
    by (subst boundedLifecycleError_def) (simp add: ToValidUTF8_id maxLifecycleOperationErrorBytes_def)
  ultimately show ?thesis by (simp add: boundedLifecycleError_ok)
qed

subsection \<open>The session an operation is about\<close>

text \<open>The fields of \<open>session.Summary\<close> the operations read beyond those of \<open>session_summary\<close>.\<close>

record tracked_summary = session_summary +
  sm_terminal :: bool
  sm_lifecycle :: string
  sm_workspace :: string

text \<open>What the system reports of the tracking directory: the resolved workspace and the directory's status.\<close>

record track_stat =
  tk_eval :: "error + string"
  tk_abs :: "error + string"
  tk_lstat :: "error option"
  tk_dir :: bool
  tk_dev :: u64
  tk_ino :: u64
  tk_sec :: int
  tk_nsec :: int

definition nul :: string where "nul = [CHR 0x00]"

definition missing_tracking :: error where "missing_tracking = Err ''session tracking is missing''"

definition thread_of :: "tracked_summary \<Rightarrow> string" where "thread_of s = cx_thread (mf_codex s)"

definition lifecycleTargetIdentityAt ::
  "(string \<Rightarrow> string) \<Rightarrow> tracked_summary option \<Rightarrow> string \<Rightarrow> track_stat \<Rightarrow> error + string" where
  "lifecycleTargetIdentityAt sha summary location k =
     (case summary of
        None \<Rightarrow> Inl missing_tracking
      | Some s \<Rightarrow>
          if sm_root s \<noteq> ''work'' \<and> sm_root s \<noteq> ''archive'' \<or> location \<noteq> ''work'' \<and> location \<noteq> ''archive'' \<or> \<not> ValidSlug (mf_slug s)
          then Inl missing_tracking
          else case tk_eval k of
            Inl e \<Rightarrow> Inl (ErrWrap ''resolve session workspace'' e)
          | Inr _ \<Rightarrow> (case tk_abs k of
              Inl e \<Rightarrow> Inl e
            | Inr workspace \<Rightarrow> (case tk_lstat k of
                Some e \<Rightarrow> Inl (ErrWrap ''inspect session tracking'' e)
              | None \<Rightarrow>
                  if \<not> tk_dir k then Inl (Err ''session tracking is not a directory'')
                  else Inr (sha (join_with nul
                    [''2'', workspace, mf_slug s, location, dec_nat (unat (tk_dev k)), dec_nat (unat (tk_ino k)),
                     if thread_of s \<noteq> [] then ''present'' @ nul @ thread_of s else ''absent''])))))"

definition lifecycleTargetIdentity :: "(string \<Rightarrow> string) \<Rightarrow> tracked_summary option \<Rightarrow> track_stat \<Rightarrow> error + string" where
  "lifecycleTargetIdentity sha summary k =
     (case summary of None \<Rightarrow> Inl missing_tracking | Some s \<Rightarrow> lifecycleTargetIdentityAt sha summary (sm_root s) k)"

definition legacyLifecycleTargetIdentity :: "(string \<Rightarrow> string) \<Rightarrow> tracked_summary \<Rightarrow> track_stat \<Rightarrow> error + string" where
  "legacyLifecycleTargetIdentity sha s k =
     (case tk_lstat k of
        Some e \<Rightarrow> Inl e
      | None \<Rightarrow>
          if \<not> tk_dir k then Inl (Err ''session tracking is not a directory'')
          else Inr (sha (join_with nul
            [Clean (Join [sm_workspace s, sm_root s, mf_slug s]), dec_nat (unat (tk_dev k)), dec_nat (unat (tk_ino k)),
             dec_int (tk_sec k), dec_int (tk_nsec k), thread_of s])))"

definition currentLifecycleTarget :: "(string \<Rightarrow> string) \<Rightarrow> tracked_summary \<Rightarrow> track_stat \<Rightarrow> error + target_snapshot" where
  "currentLifecycleTarget sha s k =
     (case lifecycleTargetIdentity sha (Some s) k of
        Inl e \<Rightarrow> Inl e
      | Inr identity \<Rightarrow>
          Inr \<lparr>ts_target = identity, ts_version = lifecycleTargetIdentityVersion, ts_slug = mf_slug s, ts_location = sm_root s,
               ts_lifecycle = sm_lifecycle s, ts_thread = thread_of s, ts_archived = sm_archived s\<rparr>)"

text \<open>\<open>lifecycleTargetChangedError\<close>, with the target that was found and the receipt it concerns, or another error.\<close>

datatype target_error = TargetChanged "target_snapshot option" string | TargetError error

definition validateLifecycleTarget ::
  "(string \<Rightarrow> string) \<Rightarrow> tracked_summary \<Rightarrow> track_stat \<Rightarrow> string \<Rightarrow> string \<Rightarrow> target_error + string" where
  "validateLifecycleTarget sha s k expected action =
     (case currentLifecycleTarget sha s k of
        Inl e \<Rightarrow> Inl (TargetError (ErrWrap (''verify '' @ action @ '' target'') e))
      | Inr current \<Rightarrow>
          if expected = [] \<or> expected \<noteq> ts_target current then Inl (TargetChanged (Some current) []) else Inr (ts_target current))"

text \<open>
  One look at a session: what \<open>session.Find\<close> returned and the status of its directory at the moments the
  identity is sampled. A receipt without a version is compared before and after the sample.
\<close>

record look =
  lk_find :: "error + tracked_summary"
  lk_stat :: track_stat
  lk_before :: track_stat
  lk_after :: track_stat

definition legacy_mismatch :: "(string \<Rightarrow> string) \<Rightarrow> tracked_summary \<Rightarrow> track_stat \<Rightarrow> lifecycle_operation \<Rightarrow> bool" where
  "legacy_mismatch sha s k op \<longleftrightarrow>
     (case legacyLifecycleTargetIdentity sha s k of Inl _ \<Rightarrow> True | Inr legacy \<Rightarrow> legacy \<noteq> oo_target (lo_options op))"

definition validateLifecycleReceiptTarget ::
  "(string \<Rightarrow> string) \<Rightarrow> tracked_summary \<Rightarrow> look \<Rightarrow> lifecycle_operation \<Rightarrow> target_error + target_snapshot" where
  "validateLifecycleReceiptTarget sha s l op =
     (let current = currentLifecycleTarget sha s (lk_stat l) in
      if lo_version op = 0 \<and> legacy_mismatch sha s (lk_before l) op
      then Inl (TargetChanged (case current of Inl _ \<Rightarrow> None | Inr c \<Rightarrow> Some c) [])
      else case current of
        Inl e \<Rightarrow> Inl (TargetError e)
      | Inr c \<Rightarrow>
          if lo_version op = 0 then
            (if legacy_mismatch sha s (lk_after l) op then Inl (TargetChanged (Some c) []) else Inr c)
          else if ts_target c \<noteq> oo_target (lo_options op) then Inl (TargetChanged (Some c) [])
          else Inr c)"

subsection \<open>The evidence of a journal\<close>

definition servicePreludePhase :: "string \<Rightarrow> bool" where
  "servicePreludePhase phase \<longleftrightarrow> phase = ''services_pending'' \<or> phase = ''services_stopped''"

definition observationRootMatches :: "string \<Rightarrow> string option \<Rightarrow> bool" where
  "observationRootMatches root recorded \<longleftrightarrow> root = [] \<and> recorded = None \<or> recorded = Some root"

text \<open>The target a receipt is bound to: that of its journal, or the versioned one it was accepted for.\<close>

definition bound_target :: "lifecycle_operation \<Rightarrow> (string \<times> string) option" where
  "bound_target op =
     (let o' = lo_options op in
      if oo_journal_target o' \<noteq> [] then Some (oo_journal_target o', oo_journal_location o')
      else if lo_version op \<noteq> lifecycleTargetIdentityVersion then None
      else Some (oo_target o', oo_location o'))"

definition lifecycleJournalEvidenceMatches ::
  "(string \<Rightarrow> string) \<Rightarrow> look \<Rightarrow> lifecycle_operation \<Rightarrow> lifecycle_progress \<Rightarrow> bool" where
  "lifecycleJournalEvidenceMatches sha l op p =
     (let o' = lo_options op; expected = oo_evidence o' in
      if lp_prelude p \<and> \<not> servicePreludePhase (lo_phase op) \<and> (oo_expected o' \<or> expected \<noteq> []) then False
      else if expected = lp_evidence p then True
      else if \<not> servicePreludePhase (lo_phase op) then expected = []
      else if expected = [] \<or> lp_prelude p \<or> servicePreludePhase (lp_phase p) \<or> lo_kind op \<noteq> ''archive'' \<or> lp_operation p \<noteq> ''archive'' \<or>
              oo_journal o' = [] \<or> oo_journal o' \<noteq> lp_journal p \<or> oo_mode o' \<noteq> lp_mode p \<or> \<not> lp_root_recorded p
      then False
      else if lp_prelude_evidence p \<noteq> [] \<and> lp_prelude_evidence p \<noteq> expected then False
      else case bound_target op of
        None \<Rightarrow> False
      | Some (target, location) \<Rightarrow>
          if \<not> digest_text target \<or> location \<noteq> ''work'' \<and> location \<noteq> ''archive'' then False
          else case lk_find l of
            Inl _ \<Rightarrow> False
          | Inr s \<Rightarrow>
              observationRootMatches (thread_of s) (lp_retained p) \<and>
              lifecycleTargetIdentityAt sha (Some s) location (lk_stat l) = Inr target)"

definition applyProgressOptions :: "lifecycle_progress \<Rightarrow> lifecycle_operation \<Rightarrow> lifecycle_operation" where
  "applyProgressOptions p =
     map_options (\<lambda>o'.
       (let o1 = o'\<lparr>oo_journal := lp_journal p, oo_expected := True, oo_evidence := lp_evidence p\<rparr> in
        if lp_operation p = ''archive'' then o1\<lparr>oo_mode := lp_mode p\<rparr>
        else if lp_operation p = ''delete'' then o1\<lparr>oo_force := lp_force p\<rparr>
        else o1))"

definition operationRedirect :: "string \<Rightarrow> string \<Rightarrow> string" where
  "operationRedirect slug kind = (if kind = ''revive'' then ''/'' @ slug @ ''/'' else ''/'')"

definition operationFromProgress :: "(string \<Rightarrow> string) \<Rightarrow> clock \<Rightarrow> string \<Rightarrow> lifecycle_progress \<Rightarrow> lifecycle_operation" where
  "operationFromProgress sha ck slug p =
     (let updated = ck_format ck (lp_updated p) in
      applyProgressOptions p
        (zero_operation\<lparr>lo_slug := slug, lo_kind := lp_operation p, lo_state := ''paused'', lo_phase := lp_phase p,
           lo_started := updated, lo_updated := updated, lo_redirect := operationRedirect slug (lp_operation p),
           lo_receipt := sha (join_with nul [slug, lp_operation p, lp_journal p, updated])\<rparr>))"

definition bindLifecycleJournalTarget ::
  "(string \<Rightarrow> string) \<Rightarrow> look \<Rightarrow> lifecycle_progress \<Rightarrow> lifecycle_operation \<Rightarrow> lifecycle_operation" where
  "bindLifecycleJournalTarget sha l p op =
     (if oo_journal_target (lo_options op) \<noteq> [] then op
      else if lo_kind op \<noteq> ''delete'' \<and> \<not> lp_root_recorded p then op
      else case lk_find l of
        Inl _ \<Rightarrow> op
      | Inr s \<Rightarrow>
          if lp_root_recorded p \<and> thread_of s \<noteq> (case lp_retained p of None \<Rightarrow> [] | Some t \<Rightarrow> t) then op
          else case lifecycleTargetIdentity sha (Some s) (lk_stat l) of
            Inl _ \<Rightarrow> op
          | Inr identity \<Rightarrow> map_options (\<lambda>o'. o'\<lparr>oo_journal_target := identity, oo_journal_location := sm_root s\<rparr>) op)"

text \<open>\<open>l1\<close> is the look of the evidence check, \<open>l2\<close> the one at the page's target.\<close>

definition prepareLifecycleRetry ::
  "(string \<Rightarrow> string) \<Rightarrow> look \<Rightarrow> look \<Rightarrow> lifecycle_operation \<Rightarrow> lifecycle_progress option \<Rightarrow> target_error + lifecycle_operation" where
  "prepareLifecycleRetry sha l1 l2 op progress =
     (case progress of
        Some p \<Rightarrow>
          if lp_operation p \<noteq> lo_kind op \<or> lp_journal p \<noteq> oo_journal (lo_options op) \<or> \<not> lifecycleJournalEvidenceMatches sha l1 op p
          then Inl (TargetError (Err ''The lifecycle operation changed. Review its current status before retrying.''))
          else Inr ((applyProgressOptions p op)\<lparr>lo_phase := lp_phase p\<rparr>)
      | None \<Rightarrow>
          if oo_expected (lo_options op) then Inl (TargetError (Err ''The lifecycle recovery journal is no longer available.''))
          else case lk_find l2 of
            Inl e \<Rightarrow> Inl (TargetError e)
          | Inr s \<Rightarrow> (case validateLifecycleReceiptTarget sha s l2 op of
              Inl e \<Rightarrow> Inl e
            | Inr current \<Rightarrow>
                (let op1 = (if lo_version op = 0
                            then (map_options (\<lambda>o'. o'\<lparr>oo_target := ts_target current, oo_location := ts_location current\<rparr>) op)
                                   \<lparr>lo_version := lifecycleTargetIdentityVersion\<rparr>
                            else op) in
                 if lo_kind op1 = ''delete'' \<and> oo_deleted_thread (lo_options op1) \<noteq> thread_of s
                 then Inl (TargetError (Err ''The accepted deletion root changed.''))
                 else Inr (map_options (\<lambda>o'. o'\<lparr>oo_location := sm_root s\<rparr>) op1))))"

subsection \<open>The archive's preparation and worker\<close>

record archive_blocker =
  ab_code :: string
  ab_message :: string
  ab_path :: "string option"

record archive_check =
  ac_schema :: int
  ac_workspace :: string
  ac_slug :: string
  ac_ready :: bool
  ac_passed :: int
  ac_total :: int
  ac_stage :: int
  ac_count :: int
  ac_blockers :: "archive_blocker list"

record preparation_round =
  pr_round :: int
  pr_passed :: int
  pr_blockers :: int

text \<open>
  \<open>codex.SendReceipt\<close>, of which the portal reads the turn, and \<open>codex.TurnOptions\<close>, which it only keeps
  and passes on, as its JSON.
\<close>

record send_receipt =
  sd_turn :: string
  sd_raw :: json

record archive_preparation =
  ap_schema :: int
  ap_workspace :: string
  ap_slug :: string
  ap_receipt :: string
  ap_attempt :: int
  ap_journal :: string
  ap_target :: string
  ap_thread :: string
  ap_state :: string
  ap_round :: int
  ap_no_progress :: int
  ap_failures :: int
  ap_best_stage :: int
  ap_best_count :: int
  ap_check :: "archive_check option"
  ap_message_id :: string
  ap_message :: string
  ap_options :: "json option"
  ap_delivery :: "send_receipt option"
  ap_error :: string
  ap_history :: "preparation_round list"

definition prep_active :: "archive_preparation \<Rightarrow> bool" where
  "prep_active p \<longleftrightarrow> ap_state p = ''checking'' \<or> ap_state p = ''lead_fixing_blockers'' \<or> ap_state p = ''rechecking'' \<or> ap_state p = ''paused''"

definition prep_matches :: "archive_preparation \<Rightarrow> lifecycle_operation \<Rightarrow> bool" where
  "prep_matches p op \<longleftrightarrow>
     (let o' = lo_options op in
      lo_kind op = ''archive'' \<and> oo_mode o' = ''archived'' \<and> \<not> oo_expected o' \<and>
      ap_receipt p = lo_receipt op \<and> ap_attempt p = lo_attempt op \<and> ap_journal p = oo_journal o' \<and> ap_target p = oo_target o')"

definition prepares :: "archive_preparation option \<Rightarrow> lifecycle_operation \<Rightarrow> bool" where
  "prepares prep op \<longleftrightarrow> (case prep of None \<Rightarrow> False | Some p \<Rightarrow> prep_matches p op \<and> prep_active p)"

record worker_status =
  wk_state :: string
  wk_error :: string
  wk_finished :: string

text \<open>
  The output of \<open>systemctl show\<close> and \<open>journalctl\<close>; \<open>wi_finish\<close> is \<open>archiveFinishTime\<close>, which turns a floating
  point timestamp into a formatted time, or an empty text.
\<close>

record worker_io =
  wi_show :: "error + string"
  wi_logs :: string
  wi_finish :: "string \<Rightarrow> string"

definition Cut :: "char \<Rightarrow> string \<Rightarrow> (string \<times> string) option" where
  "Cut c s = (if c \<in> set s then Some (takeWhile (\<lambda>x. x \<noteq> c) s, tl (dropWhile (\<lambda>x. x \<noteq> c) s)) else None)"

definition unit_value :: "string \<Rightarrow> string \<Rightarrow> string" where
  "unit_value out key =
     (case map_of (rev (List.map_filter (Cut (CHR ''='')) (split_on (CHR 0x0A) out))) key of None \<Rightarrow> [] | Some v \<Rightarrow> v)"

definition archiveWorker :: "bool \<Rightarrow> lifecycle_operation \<Rightarrow> worker_io \<Rightarrow> error + worker_status option" where
  "archiveWorker supervised op io =
     (if \<not> supervised \<or> lo_kind op \<noteq> ''archive'' \<or> lo_receipt op = [] then Inr None
      else case wi_show io of
        Inl e \<Rightarrow> Inl (ErrWrap ''read archive worker'' e)
      | Inr out \<Rightarrow>
          (let v = unit_value out; running = \<lparr>wk_state = ''running'', wk_error = [], wk_finished = []\<rparr> in
           if v ''LoadState'' = ''not-found'' \<or> v ''LoadState'' = [] then Inr None
           else if v ''ActiveState'' = ''inactive'' \<and> v ''SubState'' = ''dead'' \<and> v ''Job'' \<noteq> [] \<and> v ''Job'' \<noteq> ''0'' then Inr (Some running)
           else if v ''ActiveState'' = ''activating'' \<or> v ''SubState'' = ''running'' \<or> v ''SubState'' = ''start'' then Inr (Some running)
           else if v ''SubState'' = ''exited'' \<and> v ''ExecMainStatus'' = ''0''
           then Inr (Some \<lparr>wk_state = ''complete'', wk_error = [], wk_finished = wi_finish io (v ''ExecMainExitTimestamp'')\<rparr>)
           else Inr (Some \<lparr>wk_state = ''failed'',
             wk_error = boundedLifecycleError (''archive worker ended (state '' @ v ''ActiveState'' @ ''/'' @ v ''SubState'' @ '', code '' @
               v ''ExecMainCode'' @ '', status '' @ v ''ExecMainStatus'' @ '')'' @ nl @ wi_logs io),
             wk_finished = wi_finish io (v ''ExecMainExitTimestamp'')\<rparr>)))"

subsection \<open>The receipt that is proposed\<close>

text \<open>
  What a proposal looks at, besides the journals: the preparation of the session, the archive worker,
  a look for each purpose, and \<open>session.CompletedRemoval\<close>. \<open>pe_text\<close> is the text of an error.
\<close>

record proposal_env =
  pe_preparation :: "archive_preparation option"
  pe_supervised :: bool
  pe_worker :: worker_io
  pe_evidence :: look
  pe_bind :: look
  pe_success :: look
  pe_removed :: "error + bool"
  pe_text :: "error \<Rightarrow> string"

definition lifecycleOperationSucceeded ::
  "(string \<Rightarrow> string) \<Rightarrow> clock \<Rightarrow> look \<Rightarrow> (error + bool) \<Rightarrow> lifecycle_operation \<Rightarrow> error + bool" where
  "lifecycleOperationSucceeded sha ck l removed op =
     (case lk_find l of
        Inl e \<Rightarrow>
          if \<not> errors_is e ErrNotExist then Inl e
          else if lo_kind op \<noteq> ''delete'' then Inr False
          else if ck_parse ck (lo_started op) = None then Inl (Err ''deletion operation has an invalid start time'')
          else removed
      | Inr s \<Rightarrow>
          if lo_kind op = ''delete'' then Inr False
          else
            (let o' = lo_options op; versioned = (lo_version op = lifecycleTargetIdentityVersion);
                 target = (if versioned then oo_target o' else oo_journal_target o');
                 location = (if versioned then oo_location o' else oo_journal_location o') in
             if \<not> versioned \<and> oo_evidence o' = [] then Inr False
             else if target = [] \<or> location = [] then Inr False
             else case lifecycleTargetIdentityAt sha (Some s) location (lk_stat l) of
               Inl e \<Rightarrow> Inl e
             | Inr actual \<Rightarrow>
                 if actual \<noteq> target then Inr False
                 else if lo_kind op = ''archive''
                 then Inr (sm_archived s \<and> sm_terminal s \<and> mf_finalized s \<noteq> [] \<and> sm_lifecycle s = oo_mode o')
                 else if lo_kind op = ''revive''
                 then Inr (\<not> sm_archived s \<and> sm_lifecycle s = ''active'' \<and> mf_finalized s = [])
                 else Inl (Err ''invalid lifecycle operation'')))"

text \<open>What the archive worker says of a receipt.\<close>

definition apply_worker :: "clock \<Rightarrow> int \<Rightarrow> worker_status \<Rightarrow> lifecycle_operation \<Rightarrow> lifecycle_operation" where
  "apply_worker ck now w op =
     op\<lparr>lo_state := wk_state w, lo_error := wk_error w,
        lo_finished := (if wk_state w = ''running'' then [] else if wk_finished w = [] then ck_format ck now else wk_finished w)\<rparr>"

definition worker_view :: "clock \<Rightarrow> proposal_env \<Rightarrow> int \<Rightarrow> lifecycle_operation \<Rightarrow> bool \<Rightarrow> error + lifecycle_operation" where
  "worker_view ck env now op present =
     (if present \<and> lo_kind op = ''archive'' \<and> lo_state op \<noteq> ''complete'' \<and> pe_supervised env then
        (case archiveWorker (pe_supervised env) op (pe_worker env) of
           Inl e \<Rightarrow> Inl e
         | Inr None \<Rightarrow> Inr op
         | Inr (Some w) \<Rightarrow> Inr (apply_worker ck now w op))
      else Inr op)"

text \<open>A pending journal: a new receipt, or progress of the receipt that owns it.\<close>

definition propose_progress ::
  "(string \<Rightarrow> string) \<Rightarrow> clock \<Rightarrow> proposal_env \<Rightarrow> string \<Rightarrow> lifecycle_operation \<Rightarrow> bool \<Rightarrow> lifecycle_progress
   \<Rightarrow> lifecycle_operation \<times> bool \<times> error option" where
  "propose_progress sha ck env slug op present p =
     (if \<not> present \<or> lo_kind op \<noteq> lp_operation p \<or> oo_journal (lo_options op) = [] \<or> lp_journal p = [] \<or> oo_journal (lo_options op) \<noteq> lp_journal p
      then (bindLifecycleJournalTarget sha (pe_bind env) p (operationFromProgress sha ck slug p), True, None)
      else if \<not> lifecycleJournalEvidenceMatches sha (pe_evidence env) op p
      then (op, True, Some (Err ''lifecycle journal immutable evidence changed''))
      else
        (let op1 = applyProgressOptions p ((bindLifecycleJournalTarget sha (pe_bind env) p op)
               \<lparr>lo_phase := lp_phase p, lo_updated := ck_format ck (lp_updated p)\<rparr>) in
         (if lo_state op1 = ''complete'' then op1\<lparr>lo_state := ''paused'', lo_error := []\<rparr> else op1, True, None)))"

definition restarted :: string where "restarted = ''The portal restarted before this operation completed. Retry it.''"

text \<open>No journal: the receipt succeeded, was interrupted, or is old enough to drop.\<close>

definition propose_settled ::
  "(string \<Rightarrow> string) \<Rightarrow> clock \<Rightarrow> proposal_env \<Rightarrow> lifecycle_operation \<Rightarrow> int \<Rightarrow> lifecycle_operation \<times> bool \<times> error option" where
  "propose_settled sha ck env op now =
     (let op1 =
        (if lo_state op = ''paused'' \<or> lo_state op = ''failed'' then
           (if lifecycleOperationSucceeded sha ck (pe_success env) (pe_removed env) op = Inr True
            then op\<lparr>lo_state := ''complete'', lo_phase := ''complete'', lo_error := [], lo_updated := ck_format ck now\<rparr>
            else if lo_state op = ''paused'' then op\<lparr>lo_state := ''failed'', lo_error := restarted, lo_updated := ck_format ck now\<rparr>
            else op)
         else op) in
      if lo_state op1 = ''complete'' \<and>
         (case ck_parse ck (lo_updated op1) of None \<Rightarrow> False | Some t \<Rightarrow> lifecycleOperationSuccessRetention \<le> now - t)
      then (zero_operation, False, None)
      else (op1, True, None))"

definition unsafe_state :: "(error \<Rightarrow> string) \<Rightarrow> error \<Rightarrow> string" where
  "unsafe_state txt e = boundedLifecycleError (''Session lifecycle state is unsafe: '' @ txt e)"

definition proposeLifecycleOperation ::
  "(string \<Rightarrow> string) \<Rightarrow> clock \<Rightarrow> proposal_env \<Rightarrow> string \<Rightarrow> lifecycle_operation \<Rightarrow> bool \<Rightarrow> error + lifecycle_progress option \<Rightarrow> int
   \<Rightarrow> lifecycle_operation \<times> bool \<times> error option" where
  "proposeLifecycleOperation sha ck env slug op present proof now =
     (if present \<and> prepares (pe_preparation env) op
      then (op\<lparr>lo_state := ''running'', lo_phase := ap_state (the (pe_preparation env))\<rparr>, True, None)
      else case worker_view ck env now op present of
        Inl e \<Rightarrow> (op, True, Some e)
      | Inr op1 \<Rightarrow> (case proof of
          Inl e \<Rightarrow>
            if \<not> present then (zero_operation, False, Some e)
            else (op1\<lparr>lo_state := ''failed'', lo_error := unsafe_state (pe_text env) e, lo_updated := ck_format ck now\<rparr>, True, Some e)
        | Inr (Some p) \<Rightarrow> propose_progress sha ck env slug op1 present p
        | Inr None \<Rightarrow> if \<not> present then (zero_operation, False, None) else propose_settled sha ck env op1 now))"

subsection \<open>The view of a receipt\<close>

definition lifecycleSnapshot :: "(string \<Rightarrow> string) \<Rightarrow> look \<Rightarrow> target_snapshot option" where
  "lifecycleSnapshot sha l =
     (case lk_find l of
        Inl _ \<Rightarrow> None
      | Inr s \<Rightarrow> (case currentLifecycleTarget sha s (lk_stat l) of Inl _ \<Rightarrow> None | Inr t \<Rightarrow> Some t))"

text \<open>What a view looks at; \<open>ve_address\<close> is where the snapshot of the target is put.\<close>

record view_env =
  ve_preparation :: "archive_preparation option"
  ve_progress :: "json ptr"
  ve_target :: look
  ve_address :: nat
  ve_changed :: look

definition lifecycleOperationView :: "(string \<Rightarrow> string) \<Rightarrow> view_env \<Rightarrow> lifecycle_operation \<Rightarrow> lifecycle_operation" where
  "lifecycleOperationView sha v op =
     (let op1 = (if prepares (ve_preparation v) op then
                   (let p = the (ve_preparation v); op0 = op\<lparr>lo_phase := ap_state p\<rparr> in
                    case ap_check p of
                      None \<Rightarrow> op0
                    | Some c \<Rightarrow> (case ac_blockers c of [] \<Rightarrow> op0 | b # _ \<Rightarrow> op0\<lparr>lo_error := ab_message b\<rparr>))
                 else op);
          op2 = op1\<lparr>lo_progress := (if prepares (ve_preparation v) op1 then NilPtr else ve_progress v),
                    lo_current := (case lifecycleSnapshot sha (ve_target v) of None \<Rightarrow> NilPtr | Some t \<Rightarrow> At (ve_address v) t)\<rparr> in
      if lo_state op2 = ''failed'' \<and> \<not> oo_expected (lo_options op2) then
        (case lk_find (ve_changed v) of
           Inl _ \<Rightarrow> op2
         | Inr s \<Rightarrow> (case validateLifecycleReceiptTarget sha s (ve_changed v) op2 of
             Inl (TargetChanged _ _) \<Rightarrow> op2\<lparr>lo_code := ''target_changed''\<rparr>
           | _ \<Rightarrow> op2))
      else op2)"

end
