(* ===== verification/Web_Proposal.thy ===== *)
theory Web_Proposal
  imports Web_Operation
begin

text \<open>
  What holds of the receipts that are proposed: they pass the checks of the receipt store, and the
  evidence that ties a receipt to its journal changes at most once.
\<close>

subsection \<open>Proposals are valid receipts\<close>

definition kind_ok :: "string \<Rightarrow> bool" where
  "kind_ok k \<longleftrightarrow> k = ''archive'' \<or> k = ''delete'' \<or> k = ''revive''"

definition state_ok :: "string \<Rightarrow> bool" where
  "state_ok s \<longleftrightarrow> s = ''running'' \<or> s = ''paused'' \<or> s = ''failed'' \<or> s = ''complete''"

definition phase_ok :: "string \<Rightarrow> bool" where
  "phase_ok p \<longleftrightarrow> p \<noteq> [] \<and> length p \<le> 64 \<and> ValidString p"

definition error_ok :: "string \<Rightarrow> bool" where
  "error_ok e \<longleftrightarrow> length e \<le> 4096 \<and> ValidString e"

lemma if_Some_None: "(if b then Some e else x) = None \<longleftrightarrow> \<not> b \<and> x = None"
  by simp

lemma valid_receipt_iff:
  "valid_receipt ck op \<longleftrightarrow>
     ValidSlug (lo_slug op) \<and> kind_ok (lo_kind op) \<and> state_ok (lo_state op) \<and> phase_ok (lo_phase op) \<and>
     ck_parse ck (lo_started op) \<noteq> None \<and> ck_parse ck (lo_updated op) \<noteq> None \<and>
     (lo_finished op \<noteq> [] \<longrightarrow> ck_parse ck (lo_finished op) \<noteq> None) \<and> error_ok (lo_error op) \<and>
     (lo_code op = [] \<or> lo_code op = ''target_changed'') \<and> optional_digest (lo_receipt op) \<and>
     optional_digest (oo_journal (lo_options op)) \<and> (oo_expected (lo_options op) \<longrightarrow> oo_journal (lo_options op) \<noteq> []) \<and>
     0 \<le> lo_attempt op \<and> (lo_version op = 0 \<or> lo_version op = lifecycleTargetIdentityVersion) \<and>
     optional_digest (oo_evidence (lo_options op)) \<and> optional_digest (oo_journal_target (lo_options op)) \<and>
     location_ok (oo_location (lo_options op)) \<and> location_ok (oo_journal_location (lo_options op)) \<and>
     optional_digest (oo_target (lo_options op)) \<and>
     (lo_version op = lifecycleTargetIdentityVersion \<longrightarrow> oo_target (lo_options op) \<noteq> [] \<and> oo_location (lo_options op) \<noteq> []) \<and>
     (lo_redirect op = ''/'' \<or> lo_redirect op = ''/'' @ lo_slug op @ ''/'') \<and> validate_options op = None"
  unfolding valid_receipt_def validateLifecycleOperation_def Let_def if_Some_None kind_ok_def state_ok_def phase_ok_def error_ok_def
    maxLifecycleOperationErrorBytes_def list.pred_inject not_less not_le de_Morgan_disj de_Morgan_conj not_not simp_thms imp_conv_disj
  by (simp only: list.pred_inject simp_thms conj_assoc)

lemmas receipt_updates = valid_receipt_iff map_options_def Let_def

text \<open>The options are checked against the kind alone.\<close>

lemma validate_options_frame [simp]:
  "validate_options (op\<lparr>lo_state := a\<rparr>) = validate_options op" "validate_options (op\<lparr>lo_phase := a\<rparr>) = validate_options op"
  "validate_options (op\<lparr>lo_error := a\<rparr>) = validate_options op" "validate_options (op\<lparr>lo_updated := a\<rparr>) = validate_options op"
  "validate_options (op\<lparr>lo_finished := a\<rparr>) = validate_options op" "validate_options (op\<lparr>lo_version := v\<rparr>) = validate_options op"
  "validate_options (op\<lparr>lo_code := a\<rparr>) = validate_options op"
  by (simp_all add: validate_options_def Let_def cong: if_cong)

lemma validate_options_bound [simp]:
  "validate_options (op\<lparr>lo_options := (lo_options op)\<lparr>oo_journal_target := a, oo_journal_location := b\<rparr>\<rparr>) = validate_options op"
  "validate_options (op\<lparr>lo_options := (lo_options op)\<lparr>oo_target := a, oo_location := b\<rparr>\<rparr>) = validate_options op"
  "validate_options (op\<lparr>lo_options := (lo_options op)\<lparr>oo_location := b\<rparr>\<rparr>) = validate_options op"
  by (simp_all add: validate_options_def Let_def cong: if_cong)

lemma plain_text:
  "state_ok ''running''" "state_ok ''paused''" "state_ok ''failed''" "state_ok ''complete''"
  "phase_ok ''complete''" "phase_ok ''starting''" "error_ok []" "error_ok restarted"
  by code_simp+

lemma bounded_error_ok: "error_ok (boundedLifecycleError m)"
  by (simp add: error_ok_def boundedLifecycleError_ok)

lemma prep_phase_ok: "prep_active p \<Longrightarrow> phase_ok (ap_state p)"
proof -
  have "phase_ok ''checking''" "phase_ok ''lead_fixing_blockers''" "phase_ok ''rechecking''" "phase_ok ''paused''" by code_simp+
  then show "prep_active p \<Longrightarrow> phase_ok (ap_state p)" by (auto simp only: prep_active_def)
qed

text \<open>Progress as the journals give it.\<close>

definition progress_ok :: "lifecycle_progress \<Rightarrow> bool" where
  "progress_ok p \<longleftrightarrow> well_formed_progress p \<and> digest_text (lp_evidence p)"

lemma lifecycle_phases:
  assumes "ValidLifecyclePhase operation phase"
  shows "kind_ok operation \<and> phase_ok phase"
proof -
  have "list_all (\<lambda>x. kind_ok (fst x) \<and> list_all phase_ok (snd x)) lifecyclePhases" by code_simp
  moreover from assms obtain ps where "(operation, ps) \<in> set lifecyclePhases" "phase \<in> set ps"
    by (auto simp: ValidLifecyclePhase_def dest: map_of_SomeD split: option.splits)
  ultimately show ?thesis by (auto simp: list_all_iff)
qed

lemma progress_fields:
  assumes "progress_ok p"
  shows "kind_ok (lp_operation p)" "phase_ok (lp_phase p)" "digest_text (lp_journal p)" "lp_journal p \<noteq> []" "digest_text (lp_evidence p)"
    "lp_operation p = ''archive'' \<Longrightarrow> archive_mode (lp_mode p)"
proof -
  have pre: "kind_ok ''archive''" "kind_ok ''delete''" "phase_ok ''services_pending''" "phase_ok ''services_stopped''" by code_simp+
  show "kind_ok (lp_operation p)" "phase_ok (lp_phase p)"
    using assms lifecycle_phases [of "lp_operation p" "lp_phase p"] pre
    unfolding progress_ok_def well_formed_progress_def by (cases "lp_prelude p"; force)+
  show "digest_text (lp_journal p)" "lp_journal p \<noteq> []" "digest_text (lp_evidence p)" "lp_operation p = ''archive'' \<Longrightarrow> archive_mode (lp_mode p)"
    using assms by (auto simp: progress_ok_def well_formed_progress_def digest_text_def isLowerHex_def validLifecycleJournalID_def)
qed

lemma valid_applyProgress:
  assumes "valid_receipt ck op" and "progress_ok p" and "lo_kind op = lp_operation p"
  shows "valid_receipt ck (applyProgressOptions p op)"
proof -
  have "validate_options (applyProgressOptions p op) = None"
    using assms progress_fields(6) [OF assms(2)]
    unfolding valid_receipt_iff validate_options_def applyProgressOptions_def map_options_def Let_def
    by (simp add: ContainsAny_def split: if_split_asm)
  with assms(1,3) progress_fields [OF assms(2)] show ?thesis
    unfolding valid_receipt_iff applyProgressOptions_def map_options_def Let_def by (simp add: optional_digest_def)
qed


lemma valid_fromProgress:
  assumes "progress_ok p" and "clock_ok ck" and "\<And>x. digest_text (sha x)" and "ValidSlug slug"
  shows "valid_receipt ck (operationFromProgress sha ck slug p)"
proof -
  have "validate_options (operationFromProgress sha ck slug p) = None"
    using progress_fields(6) [OF assms(1)]
    by (simp add: validate_options_def operationFromProgress_def applyProgressOptions_def map_options_def Let_def zero_operation_def
        zero_options_def ContainsAny_def)
  with assms(2-4) progress_fields [OF assms(1)] show ?thesis
    unfolding valid_receipt_iff operationFromProgress_def applyProgressOptions_def map_options_def Let_def
    by (simp add: optional_digest_def zero_operation_def zero_options_def operationRedirect_def clock_ok_def plain_text location_ok_def
        lifecycleTargetIdentityVersion_def)
qed

lemma identity_digest:
  "lifecycleTargetIdentityAt sha s location k = Inr i \<Longrightarrow> (\<And>x. digest_text (sha x)) \<Longrightarrow>
   digest_text i \<and> (\<exists>x. s = Some x \<and> (sm_root x = ''work'' \<or> sm_root x = ''archive''))"
  by (auto simp: lifecycleTargetIdentityAt_def split: option.splits if_splits sum.splits)

lemma valid_bind:
  assumes "valid_receipt ck op" and sha: "\<And>x. digest_text (sha x)"
  shows "valid_receipt ck (bindLifecycleJournalTarget sha l p op)"
proof (cases "bindLifecycleJournalTarget sha l p op = op")
  case False
  then obtain s identity where i: "lifecycleTargetIdentity sha (Some s) (lk_stat l) = Inr identity"
    and b: "bindLifecycleJournalTarget sha l p op = map_options (\<lambda>o'. o'\<lparr>oo_journal_target := identity, oo_journal_location := sm_root s\<rparr>) op"
    by (auto simp: bindLifecycleJournalTarget_def split: if_splits sum.splits)
  from i have "digest_text identity" "location_ok (sm_root s)"
    using sha identity_digest [of sha "Some s"] by (auto simp: lifecycleTargetIdentity_def location_ok_def)
  with assms(1) show ?thesis unfolding b receipt_updates by (simp add: optional_digest_def)
qed (use assms in simp)

lemma bind_keeps [simp]:
  "lo_kind (bindLifecycleJournalTarget sha l p op) = lo_kind op" "lo_state (bindLifecycleJournalTarget sha l p op) = lo_state op"
  "lo_slug (bindLifecycleJournalTarget sha l p op) = lo_slug op" "lo_receipt (bindLifecycleJournalTarget sha l p op) = lo_receipt op"
  "lo_attempt (bindLifecycleJournalTarget sha l p op) = lo_attempt op" "lo_phase (bindLifecycleJournalTarget sha l p op) = lo_phase op"
  "oo_journal (lo_options (bindLifecycleJournalTarget sha l p op)) = oo_journal (lo_options op)"
  "oo_evidence (lo_options (bindLifecycleJournalTarget sha l p op)) = oo_evidence (lo_options op)"
  by (auto simp: bindLifecycleJournalTarget_def map_options_def split: sum.splits)

text \<open>The worker's times are formatted times.\<close>

definition worker_ok :: "clock \<Rightarrow> worker_io \<Rightarrow> bool" where
  "worker_ok ck io \<longleftrightarrow> (\<forall>v. wi_finish io v = [] \<or> ck_parse ck (wi_finish io v) \<noteq> None)"

definition status_fine :: "clock \<Rightarrow> error + worker_status option \<Rightarrow> bool" where
  "status_fine ck r \<longleftrightarrow>
     (\<forall>w. r = Inr (Some w) \<longrightarrow> state_ok (wk_state w) \<and> error_ok (wk_error w) \<and> (wk_finished w = [] \<or> ck_parse ck (wk_finished w) \<noteq> None))"

lemma worker_status_ok:
  assumes "worker_ok ck io"
  shows "status_fine ck (archiveWorker supervised op io)"
proof -
  have rules: "status_fine ck (Inl e)" "status_fine ck (Inr None)"
    "status_fine ck (Inr (Some \<lparr>wk_state = ''running'', wk_error = [], wk_finished = []\<rparr>))"
    "status_fine ck (Inr (Some \<lparr>wk_state = ''complete'', wk_error = [], wk_finished = wi_finish io v\<rparr>))"
    "status_fine ck (Inr (Some \<lparr>wk_state = ''failed'', wk_error = boundedLifecycleError m, wk_finished = wi_finish io v\<rparr>))" for e v m
    using assms by (simp_all add: status_fine_def plain_text bounded_error_ok worker_ok_def)
  show ?thesis
    unfolding archiveWorker_def Let_def by (cases "wi_show io") (simp_all only: sum.case if_distrib [of "status_fine ck"] rules if_cancel)
qed

lemma valid_worker_view:
  assumes "valid_receipt ck op" and "worker_ok ck (pe_worker env)" and "clock_ok ck" and "worker_view ck env now op present = Inr op1"
  shows "valid_receipt ck op1"
proof -
  let ?r = "archiveWorker (pe_supervised env) op (pe_worker env)"
  have "op1 = op \<or> (\<exists>w. ?r = Inr (Some w) \<and> op1 = apply_worker ck now w op)"
  proof (cases ?r)
    case (Inr x)
    with assms(4) show ?thesis unfolding worker_view_def by (cases x) (simp_all split: if_split_asm)
  qed (use assms(4) in \<open>simp add: worker_view_def split: if_split_asm\<close>)
  then show ?thesis
  proof
    assume "\<exists>w. ?r = Inr (Some w) \<and> op1 = apply_worker ck now w op"
    then obtain w where w: "?r = Inr (Some w)" "op1 = apply_worker ck now w op" by blast
    with worker_status_ok [OF assms(2)] have "state_ok (wk_state w)" "error_ok (wk_error w)"
      "wk_finished w = [] \<or> ck_parse ck (wk_finished w) \<noteq> None" unfolding status_fine_def by blast+
    with assms(1,3) show ?thesis unfolding w(2) receipt_updates by (auto simp: apply_worker_def clock_ok_def)
  qed (use assms in simp)
qed


text \<open>What the world must supply: SHA-256 in hexadecimal, times that parse.\<close>

definition env_ok :: "(string \<Rightarrow> string) \<Rightarrow> clock \<Rightarrow> proposal_env \<Rightarrow> bool" where
  "env_ok sha ck env \<longleftrightarrow> (\<forall>x. digest_text (sha x)) \<and> clock_ok ck \<and> worker_ok ck (pe_worker env)"

lemma valid_propose_progress:
  assumes "env_ok sha ck env" and "progress_ok p" and "ValidSlug slug" and op: "present \<Longrightarrow> valid_receipt ck op"
  shows "valid_receipt ck (fst (propose_progress sha ck env slug op present p))"
proof -
  from assms(1) have sha: "\<And>x. digest_text (sha x)" and ck: "clock_ok ck" by (simp_all add: env_ok_def)
  let ?new = "bindLifecycleJournalTarget sha (pe_bind env) p (operationFromProgress sha ck slug p)"
  let ?old = "applyProgressOptions p ((bindLifecycleJournalTarget sha (pe_bind env) p op)
               \<lparr>lo_phase := lp_phase p, lo_updated := ck_format ck (lp_updated p)\<rparr>)"
  have new: "valid_receipt ck ?new" using valid_bind [OF valid_fromProgress [OF assms(2) ck sha assms(3)] sha] .
  have old: "valid_receipt ck ?old" if "present" "lo_kind op = lp_operation p"
  proof (rule valid_applyProgress [OF _ assms(2)])
    show "valid_receipt ck ((bindLifecycleJournalTarget sha (pe_bind env) p op)\<lparr>lo_phase := lp_phase p, lo_updated := ck_format ck (lp_updated p)\<rparr>)"
      using valid_bind [OF op [OF that(1)] sha, where l = "pe_bind env" and p = p] progress_fields(2) [OF assms(2)] ck
      unfolding valid_receipt_iff by (simp add: clock_ok_def)
  qed (use that in simp)
  have paused: "valid_receipt ck (x\<lparr>lo_state := ''paused'', lo_error := []\<rparr>)" if "valid_receipt ck x" for x
    using that unfolding valid_receipt_iff by (simp add: plain_text)
  show ?thesis
    unfolding propose_progress_def Let_def
    using new old op paused by (simp only: if_distrib [of fst] fst_conv split: if_split) blast
qed

lemma valid_propose_settled:
  assumes "env_ok sha ck env" and "valid_receipt ck op"
  shows "fst (snd (propose_settled sha ck env op now)) \<longrightarrow> valid_receipt ck (fst (propose_settled sha ck env op now))"
proof -
  from assms(1) have ck: "clock_ok ck" by (simp add: env_ok_def)
  have "valid_receipt ck (op\<lparr>lo_state := ''complete'', lo_phase := ''complete'', lo_error := [], lo_updated := ck_format ck now\<rparr>)"
    "valid_receipt ck (op\<lparr>lo_state := ''failed'', lo_error := restarted, lo_updated := ck_format ck now\<rparr>)"
    using assms(2) ck unfolding valid_receipt_iff by (simp_all add: plain_text clock_ok_def)
  with assms(2) show ?thesis
    unfolding propose_settled_def Let_def by (simp only: if_distrib [of fst] fst_conv snd_conv split: if_split) auto
qed

lemma valid_propose:
  assumes env: "env_ok sha ck env" and "ValidSlug slug" and op: "present \<Longrightarrow> valid_receipt ck op"
    and proof_ok: "\<And>p. found = Inr (Some p) \<Longrightarrow> progress_ok p"
    and r: "proposeLifecycleOperation sha ck env slug op present found now = (op', True, e)"
  shows "valid_receipt ck op'"
proof (cases "present \<and> prepares (pe_preparation env) op")
  case True
  then have "phase_ok (ap_state (the (pe_preparation env)))" by (auto simp: prepares_def intro: prep_phase_ok split: option.splits)
  moreover have "op' = op\<lparr>lo_state := ''running'', lo_phase := ap_state (the (pe_preparation env))\<rparr>"
    using True r by (simp add: proposeLifecycleOperation_def)
  ultimately show ?thesis using op True unfolding valid_receipt_iff by (simp add: plain_text)
next
  case False
  show ?thesis
  proof (cases "worker_view ck env now op present")
    case (Inl x)
    then have "present" by (auto simp: worker_view_def split: if_splits)
    with Inl False op r show ?thesis by (simp add: proposeLifecycleOperation_def)
  next
    case (Inr op1)
    have v: "present \<Longrightarrow> valid_receipt ck op1"
      using valid_worker_view [OF op _ _ Inr] env by (simp add: env_ok_def)
    show ?thesis
    proof (cases found)
      case (Inl x)
      with Inr False r have "present"
        and o: "op' = op1\<lparr>lo_state := ''failed'', lo_error := unsafe_state (pe_text env) x, lo_updated := ck_format ck now\<rparr>"
        by (simp_all add: proposeLifecycleOperation_def split: if_split_asm)
      with v env show ?thesis
        unfolding o valid_receipt_iff by (simp add: plain_text unsafe_state_def bounded_error_ok env_ok_def clock_ok_def)
    next
      case seen: (Inr progress)
      show ?thesis
      proof (cases progress)
        case None
        with Inr seen False r valid_propose_settled [OF env v, of now] show ?thesis
          by (auto simp: proposeLifecycleOperation_def split: if_splits)
      next
        case (Some p)
        with proof_ok [of p] seen have "progress_ok p" by simp
        note valid_propose_progress [OF env this assms(2) v]
        moreover have "propose_progress sha ck env slug op1 present p = (op', True, e)"
          using Some Inr seen False r by (simp add: proposeLifecycleOperation_def split: if_split_asm)
        ultimately show ?thesis by (metis fst_conv)
      qed
    qed
  qed
qed


subsection \<open>Evidence\<close>

text \<open>A receipt whose ordinary journal is known.\<close>

definition pinned :: "lifecycle_operation \<Rightarrow> bool" where
  "pinned op \<longleftrightarrow> \<not> servicePreludePhase (lo_phase op)"

definition evidence_of :: "lifecycle_operation \<Rightarrow> string" where "evidence_of op = oo_evidence (lo_options op)"

definition same_journal :: "lifecycle_operation \<Rightarrow> lifecycle_operation \<Rightarrow> bool" where
  "same_journal x y \<longleftrightarrow> lo_kind x = lo_kind y \<and> oo_journal (lo_options x) = oo_journal (lo_options y)"

lemma ordinary_phase:
  "ValidLifecyclePhase operation phase \<Longrightarrow> \<not> servicePreludePhase phase"
proof -
  have "list_all (\<lambda>x. list_all (\<lambda>p. \<not> servicePreludePhase p) (snd x)) lifecyclePhases" by code_simp
  then show "ValidLifecyclePhase operation phase \<Longrightarrow> \<not> servicePreludePhase phase"
    by (auto simp: ValidLifecyclePhase_def list_all_iff dest!: map_of_SomeD split: option.splits)
qed

lemma prelude_of_phase: "progress_ok p \<Longrightarrow> lp_prelude p \<longleftrightarrow> servicePreludePhase (lp_phase p)"
  using ordinary_phase [of "lp_operation p" "lp_phase p"]
  by (cases "lp_prelude p") (auto simp: progress_ok_def well_formed_progress_def servicePreludePhase_def)

lemma apply_evidence [simp]:
  "evidence_of (applyProgressOptions p op) = lp_evidence p" "lo_phase (applyProgressOptions p op) = lo_phase op"
  "lo_kind (applyProgressOptions p op) = lo_kind op" "oo_journal (lo_options (applyProgressOptions p op)) = lp_journal p"
  "oo_expected (lo_options (applyProgressOptions p op))" "lo_state (applyProgressOptions p op) = lo_state op"
  by (simp_all add: applyProgressOptions_def evidence_of_def map_options_def Let_def)

text \<open>One proposal for a receipt with evidence: what it may do to the evidence.\<close>

definition evidence_step :: "lifecycle_operation \<Rightarrow> lifecycle_operation \<Rightarrow> bool" where
  "evidence_step op op' \<longleftrightarrow>
     oo_expected (lo_options op') \<and> evidence_of op' \<noteq> [] \<and> (pinned op \<longrightarrow> pinned op') \<and>
     (evidence_of op' \<noteq> evidence_of op \<longrightarrow> \<not> pinned op \<and> pinned op')"

lemma evidence_step_refl: "oo_expected (lo_options op) \<Longrightarrow> evidence_of op \<noteq> [] \<Longrightarrow> evidence_step op op"
  by (simp add: evidence_step_def)

lemma worker_view_frame:
  assumes "worker_view ck env now op present = Inr op1"
  shows "lo_options op1 = lo_options op" "lo_phase op1 = lo_phase op" "lo_kind op1 = lo_kind op" "lo_slug op1 = lo_slug op"
    "lo_receipt op1 = lo_receipt op" "lo_attempt op1 = lo_attempt op"
proof -
  have "op1 = op \<or> (\<exists>w. op1 = apply_worker ck now w op)"
    using assms unfolding worker_view_def
    by (cases "archiveWorker (pe_supervised env) op (pe_worker env)") (force split: if_split_asm option.split_asm)+
  then show "lo_options op1 = lo_options op" "lo_phase op1 = lo_phase op" "lo_kind op1 = lo_kind op" "lo_slug op1 = lo_slug op"
    "lo_receipt op1 = lo_receipt op" "lo_attempt op1 = lo_attempt op"
    by (auto simp: apply_worker_def)
qed

lemma progress_evidence_step:
  assumes "oo_expected (lo_options op)" and "evidence_of op \<noteq> []" and p: "progress_ok p"
    and same: "lo_kind op = lp_operation p" "oo_journal (lo_options op) = lp_journal p"
    and m: "lifecycleJournalEvidenceMatches sha l op p"
    and op': "lo_phase op' = lp_phase p" "evidence_of op' = lp_evidence p" "oo_expected (lo_options op')"
  shows "evidence_step op op'"
proof -
  have e: "lp_evidence p \<noteq> []" using progress_fields(5) [OF p] by (auto simp: digest_text_def isLowerHex_def)
  have "evidence_of op = lp_evidence p \<or> \<not> pinned op \<and> pinned op'" "pinned op \<Longrightarrow> \<not> lp_prelude p"
    using m assms(1,2) op'(1) unfolding lifecycleJournalEvidenceMatches_def Let_def pinned_def evidence_of_def
    by (auto split: if_split_asm)
  with e op' prelude_of_phase [OF p] show ?thesis by (auto simp: evidence_step_def pinned_def)
qed

lemma proposal_evidence_step:
  assumes "oo_expected (lo_options op)" and "evidence_of op \<noteq> []" and "\<And>p. found = Inr (Some p) \<Longrightarrow> progress_ok p"
    and r: "proposeLifecycleOperation sha ck env slug op True found now = (op', True, None)" and "same_journal op op'"
  shows "evidence_step op op'"
proof -
  have np: "\<not> prepares (pe_preparation env) op" using assms(1) by (auto simp: prepares_def prep_matches_def split: option.splits)
  with r obtain op1 where w: "worker_view ck env now op True = Inr op1"
    by (auto simp: proposeLifecycleOperation_def split: sum.splits)
  note frame = worker_view_frame [OF w]
  have step1: "evidence_step op op'" if "evidence_step op1 op'"
    using that frame by (simp add: evidence_step_def pinned_def evidence_of_def)
  have pre: "oo_expected (lo_options op1)" "evidence_of op1 \<noteq> []" using assms(1,2) frame by (simp_all add: evidence_of_def)
  show ?thesis
  proof (cases found)
    case (Inl x)
    with r np w show ?thesis by (simp add: proposeLifecycleOperation_def)
  next
    case (Inr progress)
    show ?thesis
    proof (cases progress)
      case None
      with r np w Inr have "propose_settled sha ck env op1 now = (op', True, None)" by (simp add: proposeLifecycleOperation_def)
      then have "lo_options op' = lo_options op1 \<and> (lo_phase op' = lo_phase op1 \<or> lo_phase op' = ''complete'')"
        unfolding propose_settled_def Let_def by (auto split: if_split_asm)
      moreover have "\<not> servicePreludePhase ''complete''" by code_simp
      ultimately have "evidence_step op1 op'" using pre by (auto simp: evidence_step_def pinned_def evidence_of_def)
      then show ?thesis by (rule step1)
    next
      case (Some p)
      with Inr assms(3) have p: "progress_ok p" by simp
      from r np w Inr Some have pp: "propose_progress sha ck env slug op1 True p = (op', True, None)"
        by (simp add: proposeLifecycleOperation_def)
      let ?old = "applyProgressOptions p ((bindLifecycleJournalTarget sha (pe_bind env) p op1)
               \<lparr>lo_phase := lp_phase p, lo_updated := ck_format ck (lp_updated p)\<rparr>)"
      let ?fresh = "bindLifecycleJournalTarget sha (pe_bind env) p (operationFromProgress sha ck slug p)"
      have "lo_kind ?fresh = lp_operation p" "oo_journal (lo_options ?fresh) = lp_journal p"
        by (simp_all add: operationFromProgress_def Let_def)
      then have same: "lo_kind op1 = lp_operation p" "oo_journal (lo_options op1) = lp_journal p"
        using pp \<open>same_journal op op'\<close> frame unfolding propose_progress_def Let_def same_journal_def
        by (auto split: if_split_asm)
      with pp progress_fields(4) [OF p] have m: "lifecycleJournalEvidenceMatches sha (pe_evidence env) op1 p"
        and o: "op' = ?old \<or> op' = ?old\<lparr>lo_state := ''paused'', lo_error := []\<rparr>"
        unfolding propose_progress_def Let_def by (auto split: if_split_asm)
      from o have "lo_phase op' = lp_phase p" "evidence_of op' = lp_evidence p" "oo_expected (lo_options op')"
        by (auto simp: applyProgressOptions_def evidence_of_def map_options_def Let_def)
      from progress_evidence_step [OF pre p same m this] show ?thesis by (rule step1)
    qed
  qed
qed


text \<open>
  The receipts proposed one after the other for one journal, each from what the file system holds at that
  moment. The list ends where the receipt goes, an error is reported, or another journal takes over.
\<close>

fun proposals ::
  "(string \<Rightarrow> string) \<Rightarrow> clock \<Rightarrow> string \<Rightarrow> lifecycle_operation \<Rightarrow> (proposal_env \<times> lifecycle_fs \<times> int) list \<Rightarrow> lifecycle_operation list" where
  "proposals sha ck workspace op [] = [op]"
| "proposals sha ck workspace op ((env, fs, now) # xs) =
     op # (case proposeLifecycleOperation sha ck env (lo_slug op) op True (PendingLifecycleProgress sha fs workspace (lo_slug op)) now of
             (op', True, None) \<Rightarrow> if same_journal op op' then proposals sha ck workspace op' xs else []
           | _ \<Rightarrow> [])"

lemma pending_progress_ok:
  assumes "PendingLifecycleProgress sha fs workspace slug = Inr (Some p)" and "\<And>x. digest_text (sha x)"
  shows "progress_ok p"
  using pending_formed [OF assms(1)] assms(2) by (auto simp: progress_ok_def)

lemma proposals_once:
  assumes sha: "\<And>x. digest_text (sha x)"
  shows "oo_expected (lo_options op) \<Longrightarrow> evidence_of op \<noteq> [] \<Longrightarrow>
    \<exists>n m v. map evidence_of (proposals sha ck workspace op xs) = replicate (Suc n) (evidence_of op) @ replicate m v \<and>
      (pinned op \<longrightarrow> m = 0)"
proof (induction xs arbitrary: op)
  case Nil
  show ?case by (rule exI [of _ 0]) simp
next
  case (Cons x xs)
  obtain env fs now where x: "x = (env, fs, now)" by (cases x)
  let ?r = "proposeLifecycleOperation sha ck env (lo_slug op) op True (PendingLifecycleProgress sha fs workspace (lo_slug op)) now"
  show ?case
  proof (cases "\<exists>op'. ?r = (op', True, None) \<and> same_journal op op'")
    case True
    then obtain op' where r: "?r = (op', True, None)" and same: "same_journal op op'" by blast
    have st: "evidence_step op op'"
      using Cons.prems pending_progress_ok [OF _ sha] r same by (rule proposal_evidence_step)
    then have "oo_expected (lo_options op')" "evidence_of op' \<noteq> []" by (simp_all add: evidence_step_def)
    from Cons.IH [OF this] obtain n m v where ih: "map evidence_of (proposals sha ck workspace op' xs) = replicate (Suc n) (evidence_of op') @ replicate m v"
      "pinned op' \<longrightarrow> m = 0" by blast
    have l: "map evidence_of (proposals sha ck workspace op (x # xs)) = evidence_of op # replicate (Suc n) (evidence_of op') @ replicate m v"
      using r same ih(1) by (simp add: x)
    show ?thesis
    proof (cases "evidence_of op' = evidence_of op")
      case True
      with l ih(2) st show ?thesis unfolding evidence_step_def
        by (intro exI [of _ "Suc n"] exI [of _ m] exI [of _ v]) simp
    next
      case False
      with l ih(2) st show ?thesis unfolding evidence_step_def
        by (intro exI [of _ 0] exI [of _ "Suc n"] exI [of _ "evidence_of op'"]) simp
    qed
  next
    case False
    then have "proposals sha ck workspace op (x # xs) = [op]" by (auto simp: x split: prod.splits bool.splits option.splits)
    then show ?thesis by (intro exI [of _ 0]) simp
  qed
qed

text \<open>
  C29. Whatever the journals, the worker, the preparation and the session on disk say, the receipt that is
  proposed from them passes the checks of the receipt store: slug, kind, state and phase are known,
  times parse, texts are bounded valid UTF-8, identities are digests and the options fit the kind. So
  a proposal is never refused by the store for its contents.
\<close>

theorem proposal_is_valid:
  assumes "env_ok sha ck env" and "ValidSlug slug" and "present \<Longrightarrow> valid_receipt ck op"
    and "proposeLifecycleOperation sha ck env slug op present (PendingLifecycleProgress sha fs workspace slug) now = (op', True, e)"
  shows "valid_receipt ck op'"
proof (rule valid_propose [OF assms(1-3) _ assms(4)])
  fix p
  assume "PendingLifecycleProgress sha fs workspace slug = Inr (Some p)"
  with assms(1) show "progress_ok p" by (auto simp: env_ok_def intro: pending_progress_ok)
qed

text \<open>
  C17. The evidence of a receipt changes at most once while one journal owns it: from that of the service
  prelude to that of the ordinary journal, and never once the ordinary journal is known. So neither a
  rewritten journal nor a returning prelude is ever taken for the accepted operation.
\<close>

theorem evidence_changes_once:
  assumes "\<And>x. digest_text (sha x)" and "oo_expected (lo_options op)" and "evidence_of op \<noteq> []"
  shows "\<exists>n m v. map evidence_of (proposals sha ck workspace op xs) = replicate (Suc n) (evidence_of op) @ replicate m v \<and>
    (\<not> servicePreludePhase (lo_phase op) \<longrightarrow> m = 0)"
  using proposals_once [OF assms, where ck = ck and workspace = workspace and xs = xs] by (simp only: pinned_def)

subsection \<open>Samples\<close>

definition hex_sha :: "string \<Rightarrow> string" where "hex_sha _ = jid"

lemma hex_sha_digest: "digest_text (hex_sha x)"
  unfolding hex_sha_def by code_simp

definition noon :: string where "noon = ''2026-01-01T12:00:00Z''"

definition sample_clock :: clock where "sample_clock = \<lparr>ck_parse = (\<lambda>s. if s = [] then None else Some 0), ck_format = (\<lambda>_. noon)\<rparr>"

definition no_stat :: track_stat where
  "no_stat = \<lparr>tk_eval = Inr ''/w'', tk_abs = Inr ''/w'', tk_lstat = Some ErrNotExist, tk_dir = False, tk_dev = 0, tk_ino = 0, tk_sec = 0, tk_nsec = 0\<rparr>"

definition no_look :: look where
  "no_look = \<lparr>lk_find = Inl ErrNotExist, lk_stat = no_stat, lk_before = no_stat, lk_after = no_stat\<rparr>"

definition quiet_env :: proposal_env where
  "quiet_env = \<lparr>pe_preparation = None, pe_supervised = False,
     pe_worker = \<lparr>wi_show = Inl ErrNotExist, wi_logs = [], wi_finish = (\<lambda>_. [])\<rparr>, pe_evidence = no_look, pe_bind = no_look,
     pe_success = no_look, pe_removed = Inr False, pe_text = (\<lambda>_. [])\<rparr>"

definition discovered :: lifecycle_operation where
  "discovered = operationFromProgress hex_sha sample_clock ''demo'' (archiving\<lparr>lp_evidence := jid\<rparr>)"

lemma quiet_env_ok: "env_ok hex_sha sample_clock quiet_env"
  by (simp add: env_ok_def hex_sha_digest clock_ok_def sample_clock_def worker_ok_def quiet_env_def noon_def)

lemma sample_discovery:
  "proposeLifecycleOperation hex_sha sample_clock quiet_env ''demo'' zero_operation False
     (PendingLifecycleProgress hex_sha archiving_fs ''/w'' ''demo'') 0 = (discovered, True, None)"
  by code_simp

theorem proposal_is_valid_witness:
  "proposeLifecycleOperation hex_sha sample_clock quiet_env ''demo'' zero_operation False
     (PendingLifecycleProgress hex_sha archiving_fs ''/w'' ''demo'') 0 = (discovered, True, None) \<and> valid_receipt sample_clock discovered"
proof -
  have "ValidSlug ''demo''" by code_simp
  from proposal_is_valid [OF quiet_env_ok this _ sample_discovery] sample_discovery show ?thesis by simp
qed

theorem evidence_changes_once_witness:
  "length (proposals hex_sha sample_clock ''/w'' discovered [(quiet_env, archiving_fs, 1)]) = 2 \<and> \<not> servicePreludePhase (lo_phase discovered) \<and>
   map evidence_of (proposals hex_sha sample_clock ''/w'' discovered [(quiet_env, archiving_fs, 1)]) = [jid, jid]"
proof -
  have d: "oo_expected (lo_options discovered)" "evidence_of discovered \<noteq> []" "evidence_of discovered = jid"
    "\<not> servicePreludePhase (lo_phase discovered)" by code_simp+
  have l: "length (proposals hex_sha sample_clock ''/w'' discovered [(quiet_env, archiving_fs, 1)]) = 2" by code_simp
  from evidence_changes_once [where sha = hex_sha and ck = sample_clock and workspace = "''/w''" and xs = "[(quiet_env, archiving_fs, 1)]",
      OF hex_sha_digest d(1,2)]
  obtain n m v where "map evidence_of (proposals hex_sha sample_clock ''/w'' discovered [(quiet_env, archiving_fs, 1)]) =
      replicate (Suc n) (evidence_of discovered) @ replicate m v \<and> (\<not> servicePreludePhase (lo_phase discovered) \<longrightarrow> m = 0)" by blast
  with d(3,4) have n: "map evidence_of (proposals hex_sha sample_clock ''/w'' discovered [(quiet_env, archiving_fs, 1)]) = replicate (Suc n) jid"
    by (simp del: proposals.simps)
  from arg_cong [OF n, of length] l have "Suc n = 2" by simp
  with n l d(4) show ?thesis by (simp add: numeral_2_eq_2)
qed

end
