(* ===== verification/Web_Receipts.thy ===== *)
theory Web_Receipts
  imports Web_Proposal "HOL-Library.AList"
begin

text \<open>
  The server's table of lifecycle receipts and its durable file (\<open>portal/internal/web/operation_store.go\<close>,
  \<open>operation_state.go\<close>, and the handlers of \<open>server.go\<close> that start, finish and dismiss an operation). A
  Go map is an association list with distinct keys; the order of its entries stands for the order of
  an iteration. Each operation below runs under \<open>operationMu\<close>.
\<close>

subsection \<open>The receipt file\<close>

definition lifecycleOperationStoreSchema :: int where "lifecycleOperationStoreSchema = 2"
definition maxLifecycleOperationStoreBytes :: nat where "maxLifecycleOperationStoreBytes = 256 * 1024"
definition maxLifecycleOperationRecords :: nat where "maxLifecycleOperationRecords = 512"

record operation_payload =
  pl_schema :: int
  pl_workspace :: string
  pl_operations :: "lifecycle_operation list"

definition omit_text :: "string \<Rightarrow> string \<Rightarrow> (string \<times> json) list" where
  "omit_text k v = omit (v = []) k (JStr v)"

definition omit_flag :: "string \<Rightarrow> bool \<Rightarrow> (string \<times> json) list" where
  "omit_flag k b = omit (\<not> b) k (JBool b)"

definition omit_int :: "string \<Rightarrow> int \<Rightarrow> (string \<times> json) list" where
  "omit_int k i = omit (i = 0) k (JInt i)"

definition omit_ptr :: "string \<Rightarrow> ('a \<Rightarrow> json) \<Rightarrow> 'a ptr \<Rightarrow> (string \<times> json) list" where
  "omit_ptr k f p = (case p of NilPtr \<Rightarrow> [] | At _ v \<Rightarrow> [(k, f v)])"

definition target_json :: "target_snapshot \<Rightarrow> json" where
  "target_json t = JObj
     [(''targetId'', JStr (ts_target t)), (''targetIdentityVersion'', JInt (ts_version t)), (''slug'', JStr (ts_slug t)),
      (''location'', JStr (ts_location t)), (''lifecycle'', JStr (ts_lifecycle t)), (''threadId'', JStr (ts_thread t)),
      (''archived'', JBool (ts_archived t))]"

definition options_json :: "operation_options \<Rightarrow> json" where
  "options_json x = JObj
     (omit_text ''mode'' (oo_mode x) @ omit_flag ''allowAbandoned'' (oo_abandoned x) @ omit_flag ''force'' (oo_force x) @
      omit_text ''targetId'' (oo_target x) @ omit_text ''deletedThreadId'' (oo_deleted_thread x) @
      omit_text ''journalId'' (oo_journal x) @ omit_flag ''journalExpected'' (oo_expected x) @
      omit_text ''targetLocation'' (oo_location x) @ omit_text ''journalEvidence'' (oo_evidence x) @
      omit_text ''journalTargetId'' (oo_journal_target x) @ omit_text ''journalTargetLocation'' (oo_journal_location x))"

definition operation_members :: "lifecycle_operation \<Rightarrow> (string \<times> json) list" where
  "operation_members op =
     omit_text ''slug'' (lo_slug op) @ omit_text ''kind'' (lo_kind op) @ [(''state'', JStr (lo_state op))] @
     omit_text ''phase'' (lo_phase op) @ omit_text ''startedAt'' (lo_started op) @ omit_text ''updatedAt'' (lo_updated op) @
     omit_text ''finishedAt'' (lo_finished op) @ omit_ptr ''trackingSync'' id (lo_sync op) @ omit_ptr ''progress'' id (lo_progress op) @
     omit_text ''error'' (lo_error op) @ omit_text ''redirect'' (lo_redirect op) @ omit_text ''receiptId'' (lo_receipt op) @
     omit_int ''targetIdentityVersion'' (lo_version op) @ omit_int ''attempt'' (lo_attempt op) @
     omit_ptr ''currentTarget'' target_json (lo_current op) @ omit_text ''code'' (lo_code op) @
     [(''options'', options_json (lo_options op))]"

definition payload_json :: "operation_payload \<Rightarrow> json" where
  "payload_json p = JObj
     [(''schema'', JInt (pl_schema p)), (''workspace'', JStr (pl_workspace p)),
      (''operations'', JArr (map (\<lambda>op. JObj (operation_members op)) (pl_operations p)))]"

type_synonym operation_map = "(string \<times> lifecycle_operation) list"

definition payload_of :: "string \<Rightarrow> operation_map \<Rightarrow> operation_payload" where
  "payload_of workspace ops =
     \<lparr>pl_schema = lifecycleOperationStoreSchema, pl_workspace = workspace, pl_operations = sort_key lo_slug (map snd ops)\<rparr>"

definition payload_text :: "operation_payload \<Rightarrow> string" where
  "payload_text p = json_indent 0 (payload_json p) @ nl"

definition store_encode :: "clock \<Rightarrow> string \<Rightarrow> operation_map \<Rightarrow> error + string" where
  "store_encode ck workspace ops =
     (if maxLifecycleOperationRecords < length ops then Inl (Err ''too many lifecycle operation records'')
      else case first_error (map (\<lambda>x. validateLifecycleOperation ck (snd x)) ops) of
        Some e \<Rightarrow> Inl (ErrWrap ''validate lifecycle operation state'' e)
      | None \<Rightarrow>
          (let data = payload_text (payload_of workspace ops) in
           if maxLifecycleOperationStoreBytes < length data then Inl (Err ''lifecycle operation state exceeds 256 KiB'') else Inr data))"

text \<open>The store's directory: its status, and what repairing its mode returns.\<close>

record dir_status =
  ds_lstat :: "error option"
  ds_safe :: bool
  ds_perm :: nat
  ds_chmod :: "error option"

definition inspectDirectoryMode :: "bool \<Rightarrow> dir_status \<Rightarrow> error option" where
  "inspectDirectoryMode repair d =
     (case ds_lstat d of
        Some e \<Rightarrow> Some (ErrWrap ''inspect lifecycle operation state directory'' e)
      | None \<Rightarrow>
          if \<not> ds_safe d then Some (Err ''lifecycle operation state directory is unsafe'')
          else if ds_perm d = perm_0700 then None
          else if \<not> repair then Some (Err ''lifecycle operation state directory is not private'')
          else map_option (ErrWrap ''make lifecycle operation state directory private'') (ds_chmod d))"

record save_io =
  sv_mkdir :: "error option"
  sv_dir :: dir_status
  sv_chmod :: "error option"
  sv_replace :: replace_io

definition ensureDirectory :: "save_io \<Rightarrow> error option" where
  "ensureDirectory io =
     (case sv_mkdir io of
        Some e \<Rightarrow> Some (ErrWrap ''create lifecycle operation state directory'' e)
      | None \<Rightarrow> inspectDirectoryMode True (sv_dir io))"

definition store_save ::
  "clock \<Rightarrow> string \<Rightarrow> save_io \<Rightarrow> operation_map \<Rightarrow> operation_payload option \<Rightarrow> error option \<times> operation_payload option" where
  "store_save ck workspace io ops durable =
     (if maxLifecycleOperationRecords < length ops then (Some (Err ''too many lifecycle operation records''), durable)
      else case ensureDirectory io of
        Some e \<Rightarrow> (Some e, durable)
      | None \<Rightarrow> (case store_encode ck workspace ops of
          Inl e \<Rightarrow> (Some e, durable)
        | Inr data \<Rightarrow>
            atomic_replace ((sv_replace io)\<lparr>io_create := first_error [io_create (sv_replace io), sv_chmod io]\<rparr>)
              (payload_of workspace ops) durable))"

text \<open>
  A reading of the file: besides what every private file shows, the repeated key the strict reading looks
  for, the raw value of \<open>operations\<close>, and the raw members of each record.
\<close>

record receipts_view =
  vw_dir :: dir_status
  vw_file :: "operation_payload file_view"
  vw_repeated :: "error option"
  vw_raw :: "error + string option"
  vw_shape :: "error + (string \<times> json) list list"

definition optional_number_ok :: "(string \<times> json) list \<Rightarrow> string \<Rightarrow> bool" where
  "optional_number_ok members name \<longleftrightarrow>
     (case map_of members name of
        None \<Rightarrow> True
      | Some (JInt v) \<Rightarrow> 1 \<le> v \<and> (name = ''targetIdentityVersion'' \<longrightarrow> v = lifecycleTargetIdentityVersion)
      | Some _ \<Rightarrow> False)"

definition shape_error :: "(string \<times> json) list list \<Rightarrow> error option" where
  "shape_error records =
     (if list_all (\<lambda>members. list_all (optional_number_ok members) [''targetIdentityVersion'', ''attempt'']) records then None
      else Some (Err ''invalid optional lifecycle number''))"

text \<open>Records in the order of the file; a running operation did not survive the process.\<close>

fun load_records :: "clock \<Rightarrow> operation_map \<Rightarrow> lifecycle_operation list \<Rightarrow> error + operation_map" where
  "load_records ck loaded [] = Inr loaded"
| "load_records ck loaded (op # ops) =
     (case validateLifecycleOperation ck op of
        Some e \<Rightarrow> Inl (ErrWrap ''validate lifecycle operation state'' e)
      | None \<Rightarrow>
          if map_of loaded (lo_slug op) \<noteq> None then Inl (Err (''lifecycle operation state repeats session '' @ lo_slug op))
          else load_records ck (loaded @ [(lo_slug op, if lo_state op = ''running'' then op\<lparr>lo_state := ''paused''\<rparr> else op)]) ops)"

definition strict_shape :: "receipts_view \<Rightarrow> error option" where
  "strict_shape v =
     (case vw_repeated v of
        Some e \<Rightarrow> Some e
      | None \<Rightarrow> (case vw_raw v of
          Inl e \<Rightarrow> Some e
        | Inr raw \<Rightarrow> if raw = None \<or> raw = Some [] \<or> raw = Some ''null'' then Some (Err ''lifecycle operation state has no records array'') else None))"

definition loadWithDirectoryRepair :: "clock \<Rightarrow> string \<Rightarrow> bool \<Rightarrow> receipts_view \<Rightarrow> error + operation_map" where
  "loadWithDirectoryRepair ck workspace repair v =
     (case inspectDirectoryMode repair (vw_dir v) of
        Some e \<Rightarrow> if errors_is e ErrNotExist then Inr [] else Inl e
      | None \<Rightarrow>
          (let f = vw_file v in
           case fv_open f of
             Some e \<Rightarrow> if errors_is e ErrNotExist then Inr [] else Inl e
           | None \<Rightarrow> (case fv_fstat f of
               Some e \<Rightarrow> Inl (ErrWrap ''inspect lifecycle operation state'' e)
             | None \<Rightarrow>
                 if \<not> fv_regular f \<or> \<not> fv_owned f \<or> fv_perm f \<noteq> perm_0600 \<or> int maxLifecycleOperationStoreBytes < fv_size f
                 then Inl (Err ''lifecycle operation state is not a private owner-only file'')
                 else case fv_read f of
                   Inl e \<Rightarrow> Inl (ErrWrap ''read lifecycle operation state'' e)
                 | Inr data \<Rightarrow>
                     if maxLifecycleOperationStoreBytes < length data then Inl (Err ''lifecycle operation state exceeds 256 KiB'')
                     else case (if repair then None else strict_shape v) of
                       Some e \<Rightarrow> Inl e
                     | None \<Rightarrow> (case fv_decode f of
                         Inl e \<Rightarrow> Inl (ErrWrap ''decode lifecycle operation state'' e)
                       | Inr p \<Rightarrow>
                           if fv_trailing f then Inl (Err ''lifecycle operation state contains trailing data'')
                           else if (pl_schema p \<noteq> 1 \<and> pl_schema p \<noteq> lifecycleOperationStoreSchema) \<or> pl_workspace p \<noteq> workspace
                           then Inl (Err ''lifecycle operation state has the wrong workspace identity'')
                           else case vw_shape v of
                             Inl e \<Rightarrow> Inl e
                           | Inr records \<Rightarrow> (case shape_error records of
                               Some e \<Rightarrow> Inl e
                             | None \<Rightarrow>
                                 if maxLifecycleOperationRecords < length (pl_operations p)
                                 then Inl (Err ''lifecycle operation state has too many records'')
                                 else load_records ck [] (pl_operations p))))))"

text \<open>Whether the outcome of an operation that is about to start can be recorded.\<close>

definition reserved :: string where "reserved = replicate maxLifecycleOperationErrorBytes (CHR ''x'')"

definition canPersistTerminalOutcomes :: "clock \<Rightarrow> string \<Rightarrow> operation_map \<Rightarrow> string \<Rightarrow> lifecycle_operation \<Rightarrow> int \<Rightarrow> error option" where
  "canPersistTerminalOutcomes ck workspace ops slug started now =
     (let worst = map (\<lambda>x. (fst x, if lo_state (snd x) = ''running'' then (snd x)\<lparr>lo_state := ''failed'', lo_error := reserved\<rparr> else snd x)) ops in
      case store_encode ck workspace
             (AList.update slug (started\<lparr>lo_state := ''failed'', lo_finished := ck_format ck now, lo_error := reserved\<rparr>) worst) of
        Inl e \<Rightarrow> Some e
      | Inr _ \<Rightarrow> None)"

subsection \<open>The table\<close>

text \<open>
  The receipts in memory, the file, a revision per slug (a Go \<open>uint64\<close>), the published views with the
  time they were checked (\<open>None\<close>: the zero time), the archive preparations, and whether the portal is
  shutting down.
\<close>

record receipts =
  rc_operations :: operation_map
  rc_durable :: "operation_payload option"
  rc_revisions :: "string \<Rightarrow> u64"
  rc_snapshots :: "(string \<times> lifecycle_operation \<times> int option) list"
  rc_preparations :: "(string \<times> archive_preparation) list"
  rc_closing :: bool

definition publishLifecycleSnapshot :: "string \<Rightarrow> lifecycle_operation \<Rightarrow> int option \<Rightarrow> receipts \<Rightarrow> receipts" where
  "publishLifecycleSnapshot slug op checked s =
     (let op' = (case map_of (rc_snapshots s) slug of
                   Some (previous, _) \<Rightarrow>
                     if lo_receipt previous = lo_receipt op \<and> lo_current op = NilPtr then op\<lparr>lo_current := lo_current previous\<rparr> else op
                 | None \<Rightarrow> op) in
      s\<lparr>rc_snapshots := AList.update slug (op', checked) (rc_snapshots s)\<rparr>)"

definition replaceLifecycleOperationLocked ::
  "clock \<Rightarrow> string \<Rightarrow> save_io \<Rightarrow> string \<Rightarrow> lifecycle_operation \<Rightarrow> receipts \<Rightarrow> error option \<times> receipts" where
  "replaceLifecycleOperationLocked ck workspace io slug op s =
     (let ops = AList.update slug op (rc_operations s) in
      case store_save ck workspace io ops (rc_durable s) of
        (Some e, d) \<Rightarrow> (Some e, s\<lparr>rc_durable := d\<rparr>)
      | (None, d) \<Rightarrow>
          (None, publishLifecycleSnapshot slug op None
             (s\<lparr>rc_operations := ops, rc_durable := d, rc_revisions := (rc_revisions s)(slug := rc_revisions s slug + 1)\<rparr>)))"

text \<open>\<open>rm\<close>: the outcome of removing the preparation's file.\<close>

definition drop_preparation :: "error option \<Rightarrow> string \<Rightarrow> lifecycle_operation \<Rightarrow> receipts \<Rightarrow> receipts" where
  "drop_preparation rm slug previous s =
     (if lo_kind previous = ''archive'' \<and> lo_state previous = ''complete'' then
        (case map_of (rc_preparations s) slug of
           Some p \<Rightarrow>
             if ap_receipt p = lo_receipt previous \<and> (case rm of None \<Rightarrow> True | Some e \<Rightarrow> errors_is e ErrNotExist)
             then s\<lparr>rc_preparations := AList.delete slug (rc_preparations s)\<rparr> else s
         | None \<Rightarrow> s)
      else s)"

definition removeLifecycleOperationLocked ::
  "clock \<Rightarrow> string \<Rightarrow> save_io \<Rightarrow> error option \<Rightarrow> string \<Rightarrow> receipts \<Rightarrow> error option \<times> receipts" where
  "removeLifecycleOperationLocked ck workspace io rm slug s =
     (case map_of (rc_operations s) slug of
        None \<Rightarrow> (None, s)
      | Some previous \<Rightarrow>
          (let ops = AList.delete slug (rc_operations s) in
           case store_save ck workspace io ops (rc_durable s) of
             (Some e, d) \<Rightarrow> (Some e, s\<lparr>rc_durable := d\<rparr>)
           | (None, d) \<Rightarrow>
               (None, drop_preparation rm slug previous
                  (s\<lparr>rc_operations := ops, rc_durable := d, rc_revisions := (rc_revisions s)(slug := rc_revisions s slug + 1),
                     rc_snapshots := AList.delete slug (rc_snapshots s)\<rparr>))))"

subsection \<open>Reconciliation\<close>

text \<open>What a caller captured of a slug before it looked at the journals.\<close>

record capture =
  cp_operation :: lifecycle_operation
  cp_existed :: bool
  cp_revision :: u64

definition captureLifecycleOperation :: "string \<Rightarrow> receipts \<Rightarrow> capture" where
  "captureLifecycleOperation slug s =
     (case map_of (rc_operations s) slug of
        Some op \<Rightarrow> \<lparr>cp_operation = op, cp_existed = True, cp_revision = rc_revisions s slug\<rparr>
      | None \<Rightarrow> \<lparr>cp_operation = zero_operation, cp_existed = False, cp_revision = rc_revisions s slug\<rparr>)"

definition capture_lost :: "string \<Rightarrow> capture \<Rightarrow> receipts \<Rightarrow> bool" where
  "capture_lost slug c s \<longleftrightarrow>
     (case map_of (rc_operations s) slug of
        Some current \<Rightarrow> \<not> cp_existed c \<or> current \<noteq> cp_operation c
      | None \<Rightarrow> cp_existed c \<or> rc_revisions s slug \<noteq> cp_revision c)"

record accept_io =
  ai_save :: save_io
  ai_remove :: "error option"
  ai_now :: int

definition acceptLifecycleReconciliation ::
  "clock \<Rightarrow> string \<Rightarrow> accept_io \<Rightarrow> string \<Rightarrow> capture \<Rightarrow> lifecycle_operation \<Rightarrow> bool \<Rightarrow> lifecycle_operation \<Rightarrow> receipts
   \<Rightarrow> (error + bool) \<times> receipts" where
  "acceptLifecycleReconciliation ck workspace io slug c proposed present view s =
     (if capture_lost slug c s then (Inr False, s)
      else if present then
        (case (if \<not> cp_existed c \<or> cp_operation c \<noteq> proposed
               then replaceLifecycleOperationLocked ck workspace (ai_save io) slug proposed s else (None, s)) of
           (Some e, t) \<Rightarrow> (Inl e, t)
         | (None, t) \<Rightarrow> (Inr True, publishLifecycleSnapshot slug view (Some (ai_now io)) t))
      else if cp_existed c then
        (case removeLifecycleOperationLocked ck workspace (ai_save io) (ai_remove io) slug s of
           (Some e, t) \<Rightarrow> (Inl e, t)
         | (None, t) \<Rightarrow> (Inr True, t))
      else (Inr True, s))"

text \<open>
  One round of the reconciling loop: the context before and after the proof, what the proof saw, and
  what the other threads did to the table before the round's receipt was offered.
\<close>

record reconcile_round =
  rr_before :: "error option"
  rr_fs :: lifecycle_fs
  rr_env :: proposal_env
  rr_now :: int
  rr_view :: view_env
  rr_after :: "error option"
  rr_others :: "receipts \<Rightarrow> receipts"
  rr_io :: accept_io

text \<open>\<open>errors.Join\<close> as the list of its errors.\<close>

definition joined :: "error option \<Rightarrow> error option \<Rightarrow> error list" where
  "joined a b = (case a of None \<Rightarrow> [] | Some x \<Rightarrow> [x]) @ (case b of None \<Rightarrow> [] | Some x \<Rightarrow> [x])"

fun reconcileLifecycleOperation ::
  "(string \<Rightarrow> string) \<Rightarrow> clock \<Rightarrow> string \<Rightarrow> string \<Rightarrow> reconcile_round list \<Rightarrow> capture \<Rightarrow> receipts
   \<Rightarrow> ((lifecycle_operation \<times> bool \<times> error list) \<times> receipts) option" where
  "reconcileLifecycleOperation sha ck workspace slug [] c s = None"
| "reconcileLifecycleOperation sha ck workspace slug (r # rs) c s =
     (case rr_before r of
        Some e \<Rightarrow> Some ((cp_operation c, cp_existed c, [e]), s)
      | None \<Rightarrow>
          (let found = PendingLifecycleProgress sha (rr_fs r) workspace slug;
               (op, present, err) = proposeLifecycleOperation sha ck (rr_env r) slug (cp_operation c) (cp_existed c) found (rr_now r);
               view = lifecycleOperationView sha (rr_view r) op in
           case rr_after r of
             Some e \<Rightarrow> Some ((cp_operation c, cp_existed c, joined err (Some e)), s)
           | None \<Rightarrow>
               (case acceptLifecycleReconciliation ck workspace (rr_io r) slug c op present view (rr_others r s) of
                  (Inl e, t) \<Rightarrow> Some ((cp_operation c, cp_existed c, joined err (Some e)), t)
                | (Inr True, t) \<Rightarrow> Some ((op, present, joined err None), t)
                | (Inr False, t) \<Rightarrow> reconcileLifecycleOperation sha ck workspace slug rs (captureLifecycleOperation slug t) t)))"

subsection \<open>Starting an operation\<close>

text \<open>
  What a handler writes: a status with a text or with the text of an error, the conflict of a changed target
  (\<open>writeLifecycleError\<close>), a receipt, or nothing.
\<close>

datatype response =
    Refused nat string
  | Failed nat error
  | TargetRefused target_error string
  | ReceiptResponse nat lifecycle_operation
  | NoContent

record start_request =
  st_slug :: string
  st_kind :: string
  st_redirect :: string
  st_args :: "string list"
  st_options :: operation_options
  st_expected :: string
  st_supersede :: "string list"

definition first_supersede :: "start_request \<Rightarrow> string" where
  "first_supersede q = (case st_supersede q of [] \<Rightarrow> [] | r # _ \<Rightarrow> r)"

text \<open>The first critical section. \<open>Inr\<close>: go on with this capture.\<close>

definition start_admit :: "start_request \<Rightarrow> receipts \<Rightarrow> response + capture" where
  "start_admit q s =
     (let c = captureLifecycleOperation (st_slug q) s; op = cp_operation c; present = cp_existed c; o' = st_options q in
      if rc_closing s then Inl (Refused 503 ''portal is shutting down'')
      else if st_expected q \<noteq> [] \<and>
              (\<not> present \<or> lo_receipt op \<noteq> st_expected q \<or> lo_kind op \<noteq> st_kind q \<or> oo_journal (lo_options op) \<noteq> oo_journal o' \<or>
               oo_mode (lo_options op) \<noteq> oo_mode o' \<or> oo_abandoned (lo_options op) \<noteq> oo_abandoned o' \<or>
               (lo_state op \<noteq> ''failed'' \<and> lo_state op \<noteq> ''paused''))
      then Inl (Refused 409 ''The lifecycle operation changed. Reload the page before retrying it.'')
      else if st_expected q = [] \<and> first_supersede q \<noteq> [] \<and>
              (\<not> present \<or> lo_receipt op \<noteq> first_supersede q \<or> lo_state op \<noteq> ''failed'' \<or> oo_expected (lo_options op))
      then Inl (Refused 409 ''The lifecycle receipt changed. Review the current operation before confirming again.'')
      else if present \<and> lo_state op = ''running'' then
        Inl (if lo_kind op \<noteq> st_kind q \<or> oo_target (lo_options op) \<noteq> oo_target o' \<or> oo_mode (lo_options op) \<noteq> oo_mode o' \<or>
                oo_force (lo_options op) \<noteq> oo_force o' \<or> oo_abandoned (lo_options op) \<noteq> oo_abandoned o'
             then Refused 409 ''another session operation is already running'' else ReceiptResponse 202 op)
      else Inr c)"

text \<open>
  The proof between the two critical sections: the captured receipt as the retry leaves it, the options
  and the command's arguments. \<open>l1\<close>, \<open>l2\<close>: the looks of a retry; \<open>l3\<close>: that of a fresh start.
\<close>

definition start_prove ::
  "(string \<Rightarrow> string) \<Rightarrow> look \<Rightarrow> look \<Rightarrow> look \<Rightarrow> start_request \<Rightarrow> capture \<Rightarrow> lifecycle_progress option
   \<Rightarrow> target_error + (lifecycle_operation \<times> operation_options \<times> string list)" where
  "start_prove sha l1 l2 l3 q c progress =
     (let op = cp_operation c; present = cp_existed c in
      if st_expected q \<noteq> [] then
        (case prepareLifecycleRetry sha l1 l2 op progress of
           Inl e \<Rightarrow> Inl e
         | Inr op1 \<Rightarrow>
             (let o1 = (lo_options op1)\<lparr>oo_force := oo_force (lo_options op1) \<or> oo_force (st_options q)\<rparr> in
              Inr (op1, o1,
                if st_kind q = ''delete'' \<and> oo_force o1 \<and> ''--force'' \<notin> set (st_args q) then st_args q @ [''--force''] else st_args q)))
      else if progress \<noteq> None \<or> (present \<and> lo_state op \<noteq> ''complete'' \<and> oo_expected (lo_options op))
      then Inl (TargetError (Err ''An accepted lifecycle journal cannot be replaced. Retry that operation.''))
      else if first_supersede q \<noteq> [] \<and> (\<not> present \<or> lo_receipt op \<noteq> first_supersede q \<or> lo_state op \<noteq> ''failed'')
      then Inl (TargetError (Err ''The lifecycle receipt changed. Review the current operation before confirming again.''))
      else if first_supersede q = [] \<and> present \<and> lo_state op \<noteq> ''complete''
      then Inl (TargetError (Err ''Retry the existing operation or explicitly confirm replacing its failed request.''))
      else case lk_find l3 of
        Inl e \<Rightarrow> Inl (TargetError e)
      | Inr s \<Rightarrow> (case validateLifecycleTarget sha s (lk_stat l3) (oo_target (st_options q)) (st_kind q) of
          Inl e \<Rightarrow> Inl e
        | Inr _ \<Rightarrow> Inr (op, (st_options q)\<lparr>oo_location := sm_root s\<rparr>, st_args q)))"

definition start_build ::
  "clock \<Rightarrow> int \<Rightarrow> string \<Rightarrow> start_request \<Rightarrow> lifecycle_operation \<Rightarrow> operation_options \<Rightarrow> lifecycle_progress option \<Rightarrow> lifecycle_operation" where
  "start_build ck now fresh q op o1 progress =
     (let retry = (st_expected q \<noteq> []); t = ck_format ck now in
      zero_operation\<lparr>lo_slug := st_slug q, lo_kind := st_kind q, lo_state := ''running'',
        lo_phase := (case progress of None \<Rightarrow> ''starting'' | Some p \<Rightarrow> if lp_prelude p then lp_phase p else ''starting''),
        lo_redirect := st_redirect q, lo_started := (if retry then lo_started op else t), lo_updated := t,
        lo_receipt := (if retry then lo_receipt op else fresh), lo_options := o1,
        lo_version := (if retry then lo_version op else lifecycleTargetIdentityVersion),
        lo_attempt := (if retry then lo_attempt op + 1 else 1)\<rparr>)"

text \<open>A refusal because the target changed names the receipt it concerns, and the published view shows it
  (at \<open>address\<close>).\<close>

definition writeLifecycleError :: "int \<Rightarrow> nat \<Rightarrow> target_error \<Rightarrow> receipts \<Rightarrow> response \<times> receipts" where
  "writeLifecycleError now address e s =
     (case e of
        TargetChanged (Some t) receipt \<Rightarrow>
          (TargetRefused e receipt,
           case map_of (rc_snapshots s) (ts_slug t) of
             Some (op, checked) \<Rightarrow>
               if receipt \<noteq> [] \<and> lo_receipt op = receipt \<and> \<not> oo_expected (lo_options op)
               then s\<lparr>rc_snapshots := AList.update (ts_slug t) (op\<lparr>lo_current := At address t, lo_code := ''target_changed''\<rparr>, Some now) (rc_snapshots s)\<rparr>
               else s
           | None \<Rightarrow> s)
      | _ \<Rightarrow> (TargetRefused e [], s))"

definition concern :: "capture \<Rightarrow> target_error \<Rightarrow> target_error" where
  "concern c e =
     (case e of
        TargetChanged t receipt \<Rightarrow>
          if cp_existed c \<and> lo_state (cp_operation c) = ''failed'' \<and> \<not> oo_expected (lo_options (cp_operation c))
          then TargetChanged t (lo_receipt (cp_operation c)) else TargetChanged t receipt
      | TargetError x \<Rightarrow> TargetError x)"

text \<open>The file of an archive preparation, and its place in the table once the file is durable.\<close>

record preparation_io =
  pi_mkdir :: "error option"
  pi_replace :: replace_io

definition check_json :: "archive_check \<Rightarrow> json" where
  "check_json c = JObj
     [(''schema'', JInt (ac_schema c)), (''workspace'', JStr (ac_workspace c)), (''slug'', JStr (ac_slug c)), (''ready'', JBool (ac_ready c)),
      (''passedChecks'', JInt (ac_passed c)), (''totalChecks'', JInt (ac_total c)), (''readyStage'', JInt (ac_stage c)),
      (''blockerCount'', JInt (ac_count c)),
      (''blockers'', JArr (map (\<lambda>b. JObj [(''code'', JStr (ab_code b)), (''message'', JStr (ab_message b)), (''path'', JOpt JStr (ab_path b))])
        (ac_blockers c)))]"

definition omit_opt :: "string \<Rightarrow> ('a \<Rightarrow> json) \<Rightarrow> 'a option \<Rightarrow> (string \<times> json) list" where
  "omit_opt k f x = (case x of None \<Rightarrow> [] | Some v \<Rightarrow> [(k, f v)])"

definition preparation_json :: "archive_preparation \<Rightarrow> json" where
  "preparation_json p = JObj
     ([(''schema'', JInt (ap_schema p)), (''workspace'', JStr (ap_workspace p)), (''slug'', JStr (ap_slug p)),
       (''receiptId'', JStr (ap_receipt p)), (''attempt'', JInt (ap_attempt p)), (''journalId'', JStr (ap_journal p)),
       (''targetId'', JStr (ap_target p)), (''thread'', JStr (ap_thread p)), (''state'', JStr (ap_state p)), (''round'', JInt (ap_round p)),
       (''noProgress'', JInt (ap_no_progress p))] @ omit_int ''deliveryFailures'' (ap_failures p) @
      [(''bestStage'', JInt (ap_best_stage p)), (''bestCount'', JInt (ap_best_count p))] @ omit_opt ''check'' check_json (ap_check p) @
      omit_text ''messageId'' (ap_message_id p) @ omit_text ''message'' (ap_message p) @ omit_opt ''options'' id (ap_options p) @
      omit_opt ''delivery'' sd_raw (ap_delivery p) @ omit_text ''error'' (ap_error p) @
      omit (ap_history p = []) ''history'' (JArr (map (\<lambda>h. JObj [(''round'', JInt (pr_round h)), (''passedChecks'', JInt (pr_passed h)),
        (''blockerCount'', JInt (pr_blockers h))]) (ap_history p))))"

definition saveArchivePreparationLocked :: "preparation_io \<Rightarrow> archive_preparation \<Rightarrow> receipts \<Rightarrow> error option \<times> receipts" where
  "saveArchivePreparationLocked io p s =
     (case pi_mkdir io of
        Some e \<Rightarrow> (Some e, s)
      | None \<Rightarrow>
          if 512 * 1024 < json_len (preparation_json p) then (Some (Err ''archive preparation exceeds its storage limit''), s)
          else case fst (atomic_replace (pi_replace io) p None) of
            Some e \<Rightarrow> (Some e, s)
          | None \<Rightarrow> (None, s\<lparr>rc_preparations := AList.update (ap_slug p) p (rc_preparations s)\<rparr>))"

definition needs_preparation :: "lifecycle_operation \<Rightarrow> bool" where
  "needs_preparation op \<longleftrightarrow> lo_kind op = ''archive'' \<and> oo_mode (lo_options op) = ''archived'' \<and> \<not> oo_expected (lo_options op)"

definition maxInt :: int where "maxInt = 2 ^ 63 - 1"

definition fresh_preparation :: "string \<Rightarrow> lifecycle_operation \<Rightarrow> tracked_summary \<Rightarrow> archive_preparation" where
  "fresh_preparation workspace op sm =
     \<lparr>ap_schema = 1, ap_workspace = workspace, ap_slug = lo_slug op, ap_receipt = lo_receipt op, ap_attempt = lo_attempt op,
      ap_journal = oo_journal (lo_options op), ap_target = oo_target (lo_options op), ap_thread = thread_of sm, ap_state = ''checking'',
      ap_round = 0, ap_no_progress = 0, ap_failures = 0, ap_best_stage = -1, ap_best_count = maxInt, ap_check = None, ap_message_id = [],
      ap_message = [], ap_options = None, ap_delivery = None, ap_error = [], ap_history = []\<rparr>"

definition beginArchivePreparation ::
  "string \<Rightarrow> (error + tracked_summary) \<Rightarrow> preparation_io \<Rightarrow> lifecycle_operation \<Rightarrow> receipts \<Rightarrow> error option \<times> receipts" where
  "beginArchivePreparation workspace found io op s =
     (if \<not> needs_preparation op then (None, s)
      else case found of
        Inl e \<Rightarrow> (Some e, s)
      | Inr sm \<Rightarrow>
          (let p = fresh_preparation workspace op sm in
           saveArchivePreparationLocked io
             (case map_of (rc_preparations s) (lo_slug op) of
                Some q \<Rightarrow>
                  if ap_receipt q = ap_receipt p \<and> ap_target q = ap_target p \<and> ap_thread q = ap_thread p
                  then p\<lparr>ap_message_id := ap_message_id q, ap_message := ap_message q, ap_options := ap_options q,
                         ap_delivery := ap_delivery q, ap_round := ap_round q\<rparr>
                  else p
              | None \<Rightarrow> p) s))"

text \<open>Everything a start observes. \<open>si_gate\<close>: the transition lock and the host profile.\<close>

record start_io =
  si_gate :: "error option"
  si_fs :: lifecycle_fs
  si_evidence :: look
  si_retry :: look
  si_target :: look
  si_now :: int
  si_address :: nat
  si_fresh :: "error + string"
  si_found :: "error + tracked_summary"
  si_preparation :: preparation_io
  si_save :: save_io

type_synonym lifecycle_job = "lifecycle_operation \<times> string list"

text \<open>The second critical section.\<close>

definition start_commit ::
  "clock \<Rightarrow> string \<Rightarrow> start_io \<Rightarrow> capture \<Rightarrow> lifecycle_operation \<Rightarrow> string list \<Rightarrow> receipts \<Rightarrow> response \<times> lifecycle_job option \<times> receipts" where
  "start_commit ck workspace io c op args s =
     (if rc_closing s then (Refused 503 ''portal is shutting down'', None, s)
      else if capture_lost (lo_slug op) c s
      then (Refused 409 ''The lifecycle operation changed. Review its current status before retrying.'', None, s)
      else if canPersistTerminalOutcomes ck workspace (rc_operations s) (lo_slug op) op (si_now io) \<noteq> None
      then (Refused 507 ''lifecycle operation history is full; dismiss finished operations and retry'', None, s)
      else case beginArchivePreparation workspace (si_found io) (si_preparation io) op s of
        (Some e, t) \<Rightarrow> (Failed 500 e, None, t)
      | (None, t) \<Rightarrow> (case replaceLifecycleOperationLocked ck workspace (si_save io) (lo_slug op) op t of
          (Some e, u) \<Rightarrow> (Refused 500 ''unable to persist the lifecycle operation'', None, u)
        | (None, u) \<Rightarrow> (ReceiptResponse 202 op, Some (op, args), u)))"

text \<open>\<open>others\<close>: what other threads did to the table between the two critical sections.\<close>

definition startLifecycleOperation ::
  "(string \<Rightarrow> string) \<Rightarrow> clock \<Rightarrow> string \<Rightarrow> start_io \<Rightarrow> start_request \<Rightarrow> (receipts \<Rightarrow> receipts) \<Rightarrow> receipts
   \<Rightarrow> response \<times> lifecycle_job option \<times> receipts" where
  "startLifecycleOperation sha ck workspace io q others s =
     (if rc_closing s then (Refused 503 ''portal is shutting down'', None, s)
      else case si_gate io of
        Some e \<Rightarrow> (TargetRefused (TargetError e) [], None, s)
      | None \<Rightarrow> (case PendingLifecycle sha (si_fs io) workspace (st_slug q) of
          Inl e \<Rightarrow> (TargetRefused (TargetError e) [], None, s)
        | Inr owner \<Rightarrow>
            if owner \<noteq> [] \<and> owner \<noteq> st_kind q
            then (Refused 409 (''session '' @ owner @ '' is unfinished; retry that operation first''), None, s)
            else case start_admit q s of
              Inl r \<Rightarrow> (r, None, s)
            | Inr c \<Rightarrow>
                (case PendingLifecycleProgress sha (si_fs io) workspace (st_slug q) of
                   Inl e \<Rightarrow> (TargetRefused (TargetError e) [], None, others s)
                 | Inr progress \<Rightarrow> (case start_prove sha (si_evidence io) (si_retry io) (si_target io) q c progress of
                     Inl e \<Rightarrow> (let (r, t) = writeLifecycleError (si_now io) (si_address io) (concern c e) (others s) in (r, None, t))
                   | Inr (op, o1, args) \<Rightarrow>
                       (case (if st_expected q = [] then si_fresh io else Inr []) of
                          Inl e \<Rightarrow> (Refused 500 ''unable to create the lifecycle operation'', None, others s)
                        | Inr fresh \<Rightarrow>
                            start_commit ck workspace io c (start_build ck (si_now io) fresh q op o1 progress) args (others s))))))"

subsection \<open>Finishing and dismissing\<close>

text \<open>What the command returned: nothing, or an error with its text.\<close>

datatype job_result = JobDone | JobFailed string | JobTargetChanged

definition target_changed_text :: string where
  "target_changed_text = ''This request does not match the current session. Review the current session and confirm it again.''"

text \<open>\<open>prep\<close>: the preparation of the session when the command ended.\<close>

definition job_outcome :: "clock \<Rightarrow> int \<Rightarrow> archive_preparation option \<Rightarrow> lifecycle_operation \<Rightarrow> job_result \<Rightarrow> lifecycle_operation" where
  "job_outcome ck now prep started result =
     (let t = ck_format ck now; c = started\<lparr>lo_updated := t, lo_finished := t\<rparr> in
      case result of
        JobDone \<Rightarrow> c\<lparr>lo_state := ''complete'', lo_phase := ''complete''\<rparr>
      | _ \<Rightarrow>
          (let message = (case result of JobFailed m \<Rightarrow> m | _ \<Rightarrow> target_changed_text);
               f = c\<lparr>lo_state := ''failed'', lo_error := boundedLifecycleError message\<rparr>;
               g = (case prep of
                      Some p \<Rightarrow> if prep_matches p started \<and> ap_state p = ''failed''
                                then f\<lparr>lo_phase := if 0 < ap_round p then ''lead_fixing_blockers'' else ''checking''\<rparr> else f
                    | None \<Rightarrow> f) in
           if result = JobTargetChanged then g\<lparr>lo_code := ''target_changed''\<rparr> else g))"

record finish_io =
  fi_now :: int
  fi_gate :: "error option"
  fi_fs :: lifecycle_fs
  fi_evidence :: look
  fi_bind :: look
  fi_view :: view_env
  fi_save :: save_io
  fi_time :: int

text \<open>A failed job takes over what its own journal says.\<close>

definition finish_progress ::
  "(string \<Rightarrow> string) \<Rightarrow> string \<Rightarrow> finish_io \<Rightarrow> lifecycle_operation \<Rightarrow> lifecycle_operation \<Rightarrow> lifecycle_operation" where
  "finish_progress sha workspace io started completed =
     (case PendingLifecycleProgress sha (fi_fs io) workspace (lo_slug started) of
        Inr (Some p) \<Rightarrow>
          if lp_operation p = lo_kind started \<and> oo_journal (lo_options completed) \<noteq> [] \<and> oo_journal (lo_options completed) = lp_journal p \<and>
             lifecycleJournalEvidenceMatches sha (fi_evidence io) (completed\<lparr>lo_phase := lo_phase started\<rparr>) p
          then bindLifecycleJournalTarget sha (fi_bind io) p (applyProgressOptions p (completed\<lparr>lo_phase := lp_phase p\<rparr>))
          else completed
      | _ \<Rightarrow> completed)"

definition same_attempt :: "lifecycle_operation \<Rightarrow> lifecycle_operation \<Rightarrow> bool" where
  "same_attempt x y \<longleftrightarrow> lo_receipt x = lo_receipt y \<and> lo_attempt x = lo_attempt y"

definition evidence_replaced :: "lifecycle_operation \<Rightarrow> lifecycle_operation \<Rightarrow> lifecycle_operation \<Rightarrow> bool" where
  "evidence_replaced started completed current \<longleftrightarrow>
     (let c = lo_options current; d = lo_options completed; expected = oo_evidence c in
      oo_expected c \<and> oo_journal c = oo_journal d \<and> expected \<noteq> [] \<and> expected \<noteq> oo_evidence d \<and>
      (\<not> servicePreludePhase (lo_phase current) \<or> expected \<noteq> oo_evidence (lo_options started)))"

text \<open>The section that records the outcome: an error of it, and the table.\<close>

definition finish_record ::
  "(string \<Rightarrow> string) \<Rightarrow> clock \<Rightarrow> string \<Rightarrow> finish_io \<Rightarrow> lifecycle_operation \<Rightarrow> bool \<Rightarrow> lifecycle_operation \<Rightarrow> receipts
   \<Rightarrow> error option \<times> receipts" where
  "finish_record sha ck workspace io started failed completed s =
     (let slug = lo_slug started in
      if (case map_of (rc_preparations s) slug of
            Some p \<Rightarrow> prep_matches p completed \<and> (ap_state p = ''canceled'' \<or> rc_closing s \<and> ap_state p = ''paused'')
          | None \<Rightarrow> False)
      then (None, s)
      else case map_of (rc_operations s) slug of
        None \<Rightarrow> (None, s)
      | Some current \<Rightarrow>
          if \<not> same_attempt current completed then (None, s)
          else if failed \<and> evidence_replaced started completed current then (Some (Err ''lifecycle journal immutable evidence changed''), s)
          else (case replaceLifecycleOperationLocked ck workspace (fi_save io) slug completed s of
              (Some e, t) \<Rightarrow> (Some e, t)
            | (None, t) \<Rightarrow> (None, publishLifecycleSnapshot slug (lifecycleOperationView sha (fi_view io) completed) (Some (fi_time io)) t)))"

definition unsaved_text :: string where
  "unsaved_text = ''The command ended, but the portal could not save its final status. Check the session state and retry.''"

text \<open>When that failed, the receipt in memory alone says so.\<close>

definition finish_unsaved :: "clock \<Rightarrow> int \<Rightarrow> lifecycle_operation \<Rightarrow> receipts \<Rightarrow> receipts" where
  "finish_unsaved ck now completed s =
     (let slug = lo_slug completed in
      case map_of (rc_operations s) slug of
        None \<Rightarrow> s
      | Some current \<Rightarrow>
          if \<not> same_attempt current completed then s
          else
            (let t = ck_format ck now;
                 op = current\<lparr>lo_state := ''failed'', lo_updated := t, lo_finished := t, lo_error := unsaved_text\<rparr> in
             publishLifecycleSnapshot slug op None
               (s\<lparr>rc_operations := AList.update slug op (rc_operations s), rc_revisions := (rc_revisions s)(slug := rc_revisions s slug + 1)\<rparr>)))"

text \<open>
  The end of \<open>runLifecycleJob\<close>. \<open>before\<close>: what other threads did to the table between reading the preparation and
  the section that records the outcome; \<open>between\<close>: between that section and the one that follows its failure.
\<close>

definition finishLifecycleJob ::
  "(string \<Rightarrow> string) \<Rightarrow> clock \<Rightarrow> string \<Rightarrow> finish_io \<Rightarrow> lifecycle_operation \<Rightarrow> job_result \<Rightarrow> (receipts \<Rightarrow> receipts) \<Rightarrow>
   (receipts \<Rightarrow> receipts) \<Rightarrow> receipts \<Rightarrow> receipts" where
  "finishLifecycleJob sha ck workspace io started result before between s =
     (let c0 = job_outcome ck (fi_now io) (map_of (rc_preparations s) (lo_slug started)) started result;
          c1 = (if result = JobDone then c0 else finish_progress sha workspace io started c0) in
      case fi_gate io of
        Some e \<Rightarrow> finish_unsaved ck (fi_now io) c0 (before s)
      | None \<Rightarrow> (case finish_record sha ck workspace io started (result \<noteq> JobDone) c1 (before s) of
          (None, t) \<Rightarrow> t
        | (Some e, t) \<Rightarrow> finish_unsaved ck (fi_now io) c1 (between t)))"

text \<open>Dismissal, after \<open>lifecycleOperationForSlug\<close> reported \<open>seen\<close>, whether there was one, and its errors.\<close>

definition dismissable :: "lifecycle_operation \<Rightarrow> bool" where
  "dismissable op \<longleftrightarrow> lo_state op = ''failed'' \<or> lo_state op = ''complete''"

definition dismissLifecycleOperation ::
  "clock \<Rightarrow> string \<Rightarrow> accept_io \<Rightarrow> string \<Rightarrow> string \<Rightarrow> lifecycle_operation \<times> bool \<times> error list \<Rightarrow> receipts \<Rightarrow> response \<times> receipts" where
  "dismissLifecycleOperation ck workspace io slug receipt seen s =
     (let (op, present, errs) = seen in
      if errs \<noteq> [] \<and> \<not> present then (TargetRefused (TargetError (hd errs)) [], s)
      else if \<not> present then (NoContent, s)
      else if \<not> dismissable op then (Refused 409 ''running or paused lifecycle operations cannot be dismissed'', s)
      else case map_of (rc_operations s) slug of
        None \<Rightarrow> (Refused 409 ''The lifecycle operation changed. Reload the page before dismissing it.'', s)
      | Some current \<Rightarrow>
          if receipt = [] \<or> lo_receipt current = [] \<or> receipt \<noteq> lo_receipt current
          then (Refused 409 ''The lifecycle operation changed. Reload the page before dismissing it.'', s)
          else if \<not> dismissable current then (Refused 409 ''running or paused lifecycle operations cannot be dismissed'', s)
          else case removeLifecycleOperationLocked ck workspace (ai_save io) (ai_remove io) slug s of
            (Some e, t) \<Rightarrow> (Refused 500 ''unable to dismiss the lifecycle operation'', t)
          | (None, t) \<Rightarrow> (NoContent, t))"

end
