(* ===== verification/Web_Preparation.thy ===== *)
theory Web_Preparation
  imports Web_Receipts
begin

text \<open>
  Preparing a session for its archive (\<open>portal/internal/web/archive_preparation.go\<close>): the portal checks
  whether the session can be archived, sends its lead the blockers that are left, waits for that turn
  and checks again. The preparation is a durable record beside the receipt. \<open>txt\<close> is the text of an error.
\<close>

subsection \<open>Changing a preparation\<close>

definition zero_preparation :: archive_preparation where
  "zero_preparation = \<lparr>ap_schema = 0, ap_workspace = [], ap_slug = [], ap_receipt = [], ap_attempt = 0, ap_journal = [], ap_target = [],
     ap_thread = [], ap_state = [], ap_round = 0, ap_no_progress = 0, ap_failures = 0, ap_best_stage = 0, ap_best_count = 0, ap_check = None,
     ap_message_id = [], ap_message = [], ap_options = None, ap_delivery = None, ap_error = [], ap_history = []\<rparr>"

definition updateArchivePreparation ::
  "preparation_io \<Rightarrow> archive_preparation \<Rightarrow> (archive_preparation \<Rightarrow> archive_preparation) \<Rightarrow> receipts
   \<Rightarrow> (archive_preparation \<times> error option) \<times> receipts" where
  "updateArchivePreparation io expected change s =
     (let lost = Err ''archive preparation was canceled or replaced'' in
      case map_of (rc_preparations s) (ap_slug expected) of
        None \<Rightarrow> ((zero_preparation, Some lost), s)
      | Some current \<Rightarrow>
          if ap_receipt current \<noteq> ap_receipt expected \<or> ap_attempt current \<noteq> ap_attempt expected \<or> \<not> prep_active current
          then ((current, Some lost), s)
          else (let (e, t) = saveArchivePreparationLocked io (change current) s in ((change current, e), t)))"

text \<open>\<open>cancelArchivePreparation\<close>, once the session's message lock is held.\<close>

definition canceled_text :: string where
  "canceled_text = ''Archive preparation canceled. An accepted cleanup turn may finish, but archival will not start.''"

definition cancelArchivePreparation ::
  "clock \<Rightarrow> string \<Rightarrow> preparation_io \<Rightarrow> save_io \<Rightarrow> string \<Rightarrow> string \<Rightarrow> receipts \<Rightarrow> response \<times> receipts" where
  "cancelArchivePreparation ck workspace pio sio slug receipt s =
     (case (map_of (rc_operations s) slug, map_of (rc_preparations s) slug) of
        (Some op, Some p) \<Rightarrow>
          if receipt \<noteq> lo_receipt op \<or> \<not> prep_matches p op \<or> \<not> prep_active p
          then (Refused 409 ''Archive preparation is no longer cancelable.'', s)
          else (case saveArchivePreparationLocked pio (p\<lparr>ap_state := ''canceled'', ap_error := canceled_text\<rparr>) s of
              (Some e, t) \<Rightarrow> (Failed 500 e, t)
            | (None, t) \<Rightarrow>
                (let op' = op\<lparr>lo_state := ''failed'', lo_phase := ''checking'', lo_error := canceled_text\<rparr> in
                 case replaceLifecycleOperationLocked ck workspace sio slug op' t of
                   (Some e, u) \<Rightarrow> (Failed 500 e, u)
                 | (None, u) \<Rightarrow> (ReceiptResponse 200 op', u)))
      | _ \<Rightarrow> (Refused 409 ''Archive preparation is no longer cancelable.'', s))"

text \<open>Shutting down: every active preparation is paused, and its receipt fails. Errors are only logged.\<close>

definition parked_text :: string where
  "parked_text = ''Archive preparation was paused for a portal restart. Retry to continue.''"

definition park_one :: "clock \<Rightarrow> string \<Rightarrow> (string \<Rightarrow> preparation_io) \<Rightarrow> (string \<Rightarrow> save_io) \<Rightarrow> string \<times> archive_preparation \<Rightarrow> receipts \<Rightarrow> receipts" where
  "park_one ck workspace pio sio x s =
     (let (slug, p) = x in
      if \<not> prep_active p then s
      else
        (let q = p\<lparr>ap_state := ''paused''\<rparr>; t = snd (saveArchivePreparationLocked (pio slug) q s) in
         case map_of (rc_operations t) slug of
           None \<Rightarrow> t
         | Some op \<Rightarrow>
             if prep_matches q op
             then snd (replaceLifecycleOperationLocked ck workspace (sio slug) slug
                         (op\<lparr>lo_state := ''failed'', lo_phase := ''checking'', lo_error := parked_text\<rparr>) t)
             else t))"

definition parkArchivePreparations ::
  "clock \<Rightarrow> string \<Rightarrow> (string \<Rightarrow> preparation_io) \<Rightarrow> (string \<Rightarrow> save_io) \<Rightarrow> receipts \<Rightarrow> receipts" where
  "parkArchivePreparations ck workspace pio sio s = fold (park_one ck workspace pio sio) (rc_preparations s) s"

subsection \<open>Resuming after a restart\<close>

text \<open>
  The preparation's file: what opening and reading it returned, its decoding, and whether a key is
  repeated. \<open>queueClientMessageIDPattern\<close> is a UUID.
\<close>

record preparation_view =
  pw_open :: "error option"
  pw_read :: "error + string"
  pw_decode :: "error + archive_preparation"
  pw_repeated :: bool

definition readArchivePreparation :: "string \<Rightarrow> string \<Rightarrow> preparation_view \<Rightarrow> error + archive_preparation option" where
  "readArchivePreparation workspace slug v =
     (case pw_open v of
        Some e \<Rightarrow> if errors_is e ErrNotExist then Inr None else Inl e
      | None \<Rightarrow> (case pw_read v of
          Inl e \<Rightarrow> Inl e
        | Inr data \<Rightarrow> (case pw_decode v of
            Inl e \<Rightarrow> Inl e
          | Inr p \<Rightarrow>
              if 512 * 1024 < length data \<or> pw_repeated v \<or> ap_schema p \<noteq> 1 \<or> ap_workspace p \<noteq> workspace \<or> ap_slug p \<noteq> slug \<or>
                 ap_round p < 0 \<or> ap_no_progress p < 0 \<or>
                 ap_message_id p \<noteq> [] \<and> (ap_options p = None \<or> ap_message p = [] \<or> \<not> serviceCleanupUUID (ap_message_id p))
              then Inl (Err ''archive preparation identity or delivery is invalid'') else Inr (Some p))))"

definition unreadable_text :: string where
  "unreadable_text = ''Archive preparation could not be read. Other sessions remain available; review this preparation before retrying.''"

record resume_io =
  rz_view :: preparation_view
  rz_fs :: lifecycle_fs
  rz_save :: save_io

definition resumable :: "lifecycle_operation \<Rightarrow> bool" where
  "resumable op \<longleftrightarrow> needs_preparation op \<and> lo_state op \<noteq> ''complete''"

text \<open>One candidate: an error that ends the resumption, the job to run, the table.\<close>

definition resume_one ::
  "(string \<Rightarrow> string) \<Rightarrow> clock \<Rightarrow> string \<Rightarrow> (string \<Rightarrow> resume_io) \<Rightarrow> string \<times> lifecycle_operation \<Rightarrow> receipts
   \<Rightarrow> error option \<times> lifecycle_job list \<times> receipts" where
  "resume_one sha ck workspace ios x s =
     (let (slug, original) = x; io = ios slug in
      case readArchivePreparation workspace slug (rz_view io) of
        Inl e \<Rightarrow>
          (None, [], case map_of (rc_operations s) slug of
             Some current \<Rightarrow>
               if same_attempt current original
               then snd (replaceLifecycleOperationLocked ck workspace (rz_save io) slug (current\<lparr>lo_state := ''failed'', lo_error := unreadable_text\<rparr>) s)
               else s
           | None \<Rightarrow> s)
      | Inr None \<Rightarrow> (None, [], s)
      | Inr (Some p) \<Rightarrow>
          if \<not> prep_matches p original then (None, [], s)
          else
            (let t = s\<lparr>rc_preparations := AList.update (ap_slug p) p (rc_preparations s)\<rparr> in
             if \<not> prep_active p \<or> PendingLifecycleProgress sha (rz_fs io) workspace (ap_slug p) \<noteq> Inr None then (None, [], t)
             else case map_of (rc_operations t) slug of
               None \<Rightarrow> (None, [], t)
             | Some op \<Rightarrow>
                 if \<not> prep_matches p op then (None, [], t)
                 else
                   (let op' = op\<lparr>lo_state := ''running''\<rparr>;
                        (e, u) = replaceLifecycleOperationLocked ck workspace (rz_save io) (ap_slug p) op' t in
                    case e of
                      Some x \<Rightarrow> (Some x, [], u)
                    | None \<Rightarrow> (None, [(op', [''archive'', ap_slug p, ''--as-is'', ''--portal-authorized'', ''--portal-operation-id'', ap_journal p])], u))))"

fun resume_each ::
  "(string \<Rightarrow> string) \<Rightarrow> clock \<Rightarrow> string \<Rightarrow> (string \<Rightarrow> resume_io) \<Rightarrow> operation_map \<Rightarrow> receipts \<Rightarrow> error option \<times> lifecycle_job list \<times> receipts" where
  "resume_each sha ck workspace ios [] s = (None, [], s)"
| "resume_each sha ck workspace ios (x # xs) s =
     (let (e, js, t) = resume_one sha ck workspace ios x s in
      case e of
        Some y \<Rightarrow> (Some y, js, t)
      | None \<Rightarrow> (let (e', ks, u) = resume_each sha ck workspace ios xs t in (e', js @ ks, u)))"

definition resumeArchivePreparations ::
  "(string \<Rightarrow> string) \<Rightarrow> clock \<Rightarrow> string \<Rightarrow> (string \<Rightarrow> resume_io) \<Rightarrow> receipts \<Rightarrow> error option \<times> lifecycle_job list \<times> receipts" where
  "resumeArchivePreparations sha ck workspace ios s =
     resume_each sha ck workspace ios (filter (\<lambda>x. resumable (snd x)) (rc_operations s)) s"

subsection \<open>Admission\<close>

definition requireArchivePreparationCurrent :: "lifecycle_operation \<Rightarrow> archive_preparation \<Rightarrow> receipts \<Rightarrow> error option" where
  "requireArchivePreparationCurrent op p s =
     (if rc_closing s \<or>
         (case map_of (rc_operations s) (ap_slug p) of None \<Rightarrow> True | Some current \<Rightarrow> \<not> prep_matches p current \<or> lo_state current \<noteq> ''running'')
      then Some (Err ''archive request changed'')
      else case map_of (rc_preparations s) (ap_slug p) of
        Some present \<Rightarrow> if prep_matches present op \<and> prep_active present then None else Some (Err ''archive preparation was canceled'')
      | None \<Rightarrow> Some (Err ''archive preparation was canceled''))"

text \<open>
  What an admission observes: the transition lock, host profile, provider and runtime lock; the journals;
  the session; the selected endpoint, and \<open>RequireObservationReceipts\<close>.
\<close>

record admission =
  ad_gate :: "error option"
  ad_fs :: lifecycle_fs
  ad_look :: look
  ad_socket :: string
  ad_receipts :: "error option"

definition archive_admission ::
  "(string \<Rightarrow> string) \<Rightarrow> string \<Rightarrow> admission \<Rightarrow> lifecycle_operation \<Rightarrow> archive_preparation \<Rightarrow> receipts \<Rightarrow> target_error option" where
  "archive_admission sha workspace a op p s =
     (case first_error [ad_gate a, requireArchivePreparationCurrent op p s] of
        Some e \<Rightarrow> Some (TargetError e)
      | None \<Rightarrow> (case PendingLifecycleProgress sha (ad_fs a) workspace (ap_slug p) of
          Inl e \<Rightarrow> Some (TargetError e)
        | Inr (Some _) \<Rightarrow> Some (TargetError (Err ''session lifecycle changed during preparation''))
        | Inr None \<Rightarrow> (case lk_find (ad_look a) of
            Inl e \<Rightarrow> Some (TargetError e)
          | Inr sm \<Rightarrow>
              if sm_archived sm \<or> thread_of sm \<noteq> ap_thread p then Some (TargetError (Err ''archive lead identity changed''))
              else case (if ap_thread p \<noteq> [] then first_error [RequireRetainedReady (Some sm) (ad_socket a), ad_receipts a] else None) of
                Some e \<Rightarrow> Some (TargetError e)
              | None \<Rightarrow> (case validateLifecycleTarget sha sm (lk_stat (ad_look a)) (ap_target p) ''archive'' of Inl e \<Rightarrow> Some e | Inr _ \<Rightarrow> None))))"

subsection \<open>Whether the lead's repair turn is over\<close>

record turn_state =
  tn_thread :: string
  tn_latest :: string
  tn_latest_status :: string
  tn_status :: string

record thread_metadata =
  td_id :: string
  td_cwd :: string
  td_type :: string

definition loadedArchiveRepairStatus :: "string \<Rightarrow> bool" where
  "loadedArchiveRepairStatus st \<longleftrightarrow> st = ''idle'' \<or> st = ''active'' \<or> st = ''systemError''"

definition archiveRepairComplete ::
  "(error + turn_state) \<Rightarrow> (error + thread_metadata) \<Rightarrow> string \<Rightarrow> string \<Rightarrow> string \<Rightarrow> error + bool" where
  "archiveRepairComplete state fresh thread accepted cwd =
     (case state of
        Inl e \<Rightarrow> Inl e
      | Inr st \<Rightarrow>
          if accepted = [] \<or> tn_thread st \<noteq> thread \<or> tn_latest st \<noteq> accepted then Inl (Err ''The accepted repair turn cannot be verified.'')
          else if \<not> loadedArchiveRepairStatus (tn_status st) then Inl (Err ''The lead's repair activity could not be verified.'')
          else if tn_latest_status st = ''inProgress'' then Inr False
          else if tn_latest_status st \<noteq> ''completed'' \<and> tn_latest_status st \<noteq> ''failed'' \<and> tn_latest_status st \<noteq> ''interrupted''
          then Inl (Err ''The accepted repair turn cannot be verified.'')
          else case fresh of
            Inl e \<Rightarrow> Inl e
          | Inr f \<Rightarrow>
              if td_id f \<noteq> thread \<or> td_cwd f \<noteq> cwd then Inl (Err ''native archive lead identity changed'')
              else if \<not> loadedArchiveRepairStatus (td_type f) then Inl (Err ''The lead's repair activity could not be verified.'')
              else if tn_status st = ''active'' \<or> td_type f = ''active'' then Inr False
              else if tn_latest_status st = ''completed'' then
                (if tn_status st = ''idle'' \<and> td_type f = ''idle'' then Inr True
                 else Inl (Err ''The lead's repair completion could not be verified.''))
              else Inl (Err ''The lead's repair turn did not complete successfully; review its conversation.''))"

subsection \<open>The cycle of checks and repairs\<close>

text \<open>A check's output is taken only if it is consistent.\<close>

definition check_consistent :: "string \<Rightarrow> string \<Rightarrow> archive_check \<Rightarrow> bool" where
  "check_consistent workspace slug c \<longleftrightarrow>
     ac_schema c = 1 \<and> ac_workspace c = workspace \<and> ac_slug c = slug \<and> 0 \<le> ac_passed c \<and> 0 < ac_total c \<and> ac_total c \<le> 32 \<and>
     ac_passed c \<le> ac_total c \<and> 0 \<le> ac_stage c \<and> ac_stage c \<le> ac_passed c \<and> int (length (ac_blockers c)) \<le> ac_count c \<and>
     length (ac_blockers c) \<le> 128 \<and> ac_ready c = (ac_count c = 0) \<and>
     (ac_ready c \<longrightarrow> ac_passed c = ac_total c \<and> ac_stage c = ac_total c) \<and> (\<not> ac_ready c \<longrightarrow> ac_blockers c \<noteq> [])"

definition last_16 :: "'a list \<Rightarrow> 'a list" where "last_16 xs = (if 16 < length xs then drop (length xs - 16) xs else xs)"

definition record_check :: "archive_check \<Rightarrow> archive_preparation \<Rightarrow> archive_preparation" where
  "record_check c p =
     (let q = p\<lparr>ap_check := Some c,
               ap_history := last_16 (ap_history p @ [\<lparr>pr_round = ap_round p, pr_passed = ac_passed c, pr_blockers = ac_count c\<rparr>])\<rparr> in
      if ap_best_stage p < ac_stage c \<or> ac_stage c = ap_best_stage p \<and> ac_count c < ap_best_count p
      then q\<lparr>ap_best_stage := ac_stage c, ap_best_count := ac_count c, ap_no_progress := 0\<rparr>
      else q\<lparr>ap_no_progress := ap_no_progress p + 1\<rparr>)"

definition repair_intro :: string where
  "repair_intro = ''The user requested archival of this session. Prepare it for archive: pause normal development, repair only the session-owned local blockers below, and finish this turn. Keep the lead available. Do not run archive/delete/stop, change shared infrastructure, rewrite Git history, invent ownership, or edit lifecycle journals/receipts. Do not resume queued user work. If operator input is required, explain why and request it. The portal will independently recheck readiness and retry archival.'' @ nl @ nl"

definition repair_message :: "archive_check \<Rightarrow> string" where
  "repair_message c =
     repair_intro @ concat (map (\<lambda>b. ''- ['' @ ab_code b @ ''] '' @ take 512 (ab_message b) @ nl) (take 12 (ac_blockers c)))"

text \<open>The first sixteen bytes of the digest, as a UUID.\<close>

definition repair_id :: "(string \<Rightarrow> string) \<Rightarrow> archive_preparation \<Rightarrow> string" where
  "repair_id sha p =
     (let h = take 32 (sha (ap_journal p @ '':'' @ dec_int (ap_round p + 1))) in
      take 8 h @ ''-'' @ take 4 (drop 8 h) @ ''-'' @ take 4 (drop 12 h) @ ''-'' @ take 4 (drop 16 h) @ ''-'' @ drop 20 h)"

text \<open>The client's turn options for a repair: from the thread's settings and the team's instructions.\<close>

record repair_look =
  rl_admission :: admission
  rl_client :: bool
  rl_settings :: "error option"
  rl_find :: "error option"
  rl_roster :: "error option"
  rl_options :: json
  rl_io :: preparation_io

definition start_repair :: "string \<Rightarrow> archive_check \<Rightarrow> json \<Rightarrow> archive_preparation \<Rightarrow> archive_preparation" where
  "start_repair id' c options p =
     p\<lparr>ap_round := ap_round p + 1, ap_message_id := id', ap_message := repair_message c, ap_options := Some options,
       ap_state := ''lead_fixing_blockers''\<rparr>"

text \<open>\<open>message\<close> and \<open>id\<close> are computed from the preparation the loop holds, the round is counted in the table.\<close>

definition begin_repair ::
  "(string \<Rightarrow> string) \<Rightarrow> string \<Rightarrow> repair_look \<Rightarrow> lifecycle_operation \<Rightarrow> archive_check \<Rightarrow> archive_preparation \<Rightarrow> receipts
   \<Rightarrow> (archive_preparation \<times> target_error option) \<times> receipts" where
  "begin_repair sha workspace l op c p s =
     (case archive_admission sha workspace (rl_admission l) op p s of
        Some e \<Rightarrow> ((p, Some e), s)
      | None \<Rightarrow>
          if \<not> rl_client l then ((p, Some (TargetError (Err ''The retained lead is unavailable for archive cleanup.''))), s)
          else case first_error [rl_settings l, rl_find l, (case rl_roster l of Some e \<Rightarrow> if errors_is e ErrNotExist then None else Some e | None \<Rightarrow> None)] of
            Some e \<Rightarrow> ((p, Some (TargetError e)), s)
          | None \<Rightarrow>
              (let ((q, e), t) = updateArchivePreparation (rl_io l) p
                     (start_repair (repair_id sha p) c (rl_options l)) s in
               ((q, map_option TargetError e), t)))"

text \<open>What \<open>SendWithOptions\<close> and \<open>ReconcileSendWithOptions\<close> are given: thread, text, client identifier, action, turn options.\<close>

record repair_send =
  ms_thread :: string
  ms_message :: string
  ms_id :: string
  ms_action :: string
  ms_options :: json

definition archive_send :: "archive_preparation \<Rightarrow> json \<Rightarrow> repair_send" where
  "archive_send p options =
     \<lparr>ms_thread = ap_thread p, ms_message = ap_message p, ms_id = ap_message_id p, ms_action = ''archive-preparation:'' @ ap_journal p,
      ms_options = options\<rparr>"

text \<open>The client's answers during a delivery, by thread or by message.\<close>

record delivery =
  dv_admission :: admission
  dv_lock :: "error option"
  dv_client :: bool
  dv_held :: bool
  dv_metadata :: "string \<Rightarrow> error + thread_metadata"
  dv_reconcile :: "repair_send \<Rightarrow> error + send_receipt option"
  dv_send :: "repair_send \<Rightarrow> error + send_receipt"
  dv_io :: preparation_io
  dv_turn :: "string \<Rightarrow> error + turn_state"
  dv_fresh :: "string \<Rightarrow> error + thread_metadata"
  dv_prompts :: "string \<Rightarrow> error + bool list"

definition lead_cwd :: "string \<Rightarrow> archive_preparation \<Rightarrow> string" where "lead_cwd workspace p = Join [workspace, ''work'', ap_slug p]"

text \<open>
  What was sent, and the receipt of the message: one the server already has, or that of sending it. A
  preparation whose message has no options makes the code panic.
\<close>

definition deliver_once :: "delivery \<Rightarrow> archive_preparation \<Rightarrow> repair_send list \<times> (error + send_receipt)" where
  "deliver_once d p =
     (case ap_options p of
        None \<Rightarrow> ([], Inl (Err ''panic: nil options of a repair message''))
      | Some options \<Rightarrow> (case dv_reconcile d (archive_send p options) of
          Inl e \<Rightarrow> ([], Inl e)
        | Inr (Some r) \<Rightarrow> ([], Inr r)
        | Inr None \<Rightarrow> ([archive_send p options], dv_send d (archive_send p options))))"

text \<open>What was sent, the preparation the loop holds afterwards, whether the turn is over, the error, the table.\<close>

definition deliver_repair ::
  "(string \<Rightarrow> string) \<Rightarrow> string \<Rightarrow> delivery \<Rightarrow> lifecycle_operation \<Rightarrow> archive_preparation \<Rightarrow> receipts
   \<Rightarrow> repair_send list \<times> (archive_preparation \<times> bool \<times> target_error option) \<times> receipts" where
  "deliver_repair sha workspace d op p s =
     (let stop = (\<lambda>q e t. ((q, False, Some (TargetError e)), t)) in
      case archive_admission sha workspace (dv_admission d) op p s of
        Some e \<Rightarrow> ([], (p, False, Some e), s)
      | None \<Rightarrow> (case first_error [dv_lock d, requireArchivePreparationCurrent op p s] of
          Some e \<Rightarrow> ([], stop p e s)
        | None \<Rightarrow>
            if \<not> dv_client d \<or> ap_thread p = [] then ([], stop p (Err ''The retained lead is unavailable for archive cleanup.'') s)
            else if dv_held d then ([], stop p (Err ''Activate the retained lead before retrying archive preparation.'') s)
            else case dv_metadata d (ap_thread p) of
              Inl e \<Rightarrow> ([], stop p e s)
            | Inr m \<Rightarrow>
                if td_id m \<noteq> ap_thread p \<or> td_cwd m \<noteq> lead_cwd workspace p then ([], stop p (Err ''native archive lead identity changed'') s)
                else case deliver_once d p of
                  (ms, Inl e) \<Rightarrow> (ms, stop p e s)
                | (ms, Inr r) \<Rightarrow>
                    (let ((q, e), t) = updateArchivePreparation (dv_io d) p (\<lambda>v. v\<lparr>ap_delivery := Some r, ap_state := ''lead_fixing_blockers''\<rparr>) s in
                     case e of
                       Some x \<Rightarrow> (ms, stop q x t)
                     | None \<Rightarrow>
                         if sd_turn r = []
                         then (ms, stop q (Err ''Repair delivery is queued; activate the retained lead and retry using this same delivery.'') t)
                         else case archiveRepairComplete (dv_turn d (ap_thread q)) (dv_fresh d (ap_thread q)) (ap_thread q) (sd_turn r) (lead_cwd workspace q) of
                           Inl x \<Rightarrow> (ms, stop q x t)
                         | Inr complete \<Rightarrow> (case dv_prompts d (ap_thread q) of
                             Inl x \<Rightarrow> (ms, (q, complete, Some (TargetError x)), t)
                           | Inr prompts \<Rightarrow>
                               if list_ex id prompts
                               then (ms, (q, complete, Some (TargetError (Err ''The lead needs your input before archive cleanup can continue.''))), t)
                               else (ms, (q, complete, None), t)))))"

record check_look =
  cl_admission :: admission
  cl_output :: "target_error + archive_check"
  cl_io :: preparation_io
  cl_archiving :: preparation_io

text \<open>
  One turn of the loop. \<open>pd_context\<close>: whether the context is over at the head, when a failure is recorded
  and during the pause; \<open>pd_uncertain\<close>: \<open>errors.As\<close> to an unknown outcome or a transport error.
\<close>

record preparation_round_io =
  pd_head :: "error option"
  pd_failed :: "error option"
  pd_pause :: "error option"
  pd_uncertain :: "target_error \<Rightarrow> bool"
  pd_delivery :: delivery
  pd_check :: check_look
  pd_repair :: repair_look
  pd_update :: preparation_io
  pd_clear :: preparation_io
  pd_fail :: preparation_io

datatype 'p turn_result = Ended "target_error option" | Again 'p | Checking 'p

definition fail_preparation ::
  "(target_error \<Rightarrow> string) \<Rightarrow> preparation_round_io \<Rightarrow> archive_preparation \<Rightarrow> target_error \<Rightarrow> receipts \<Rightarrow> receipts" where
  "fail_preparation txt r p e s =
     (if pd_failed r = None
      then snd (updateArchivePreparation (pd_fail r) p (\<lambda>v. v\<lparr>ap_state := ''failed'', ap_error := boundedLifecycleError (txt e)\<rparr>) s)
      else s)"

text \<open>The part of a turn that waits for an outstanding repair message, after \<open>deliver_repair\<close> returned.\<close>

definition after_delivery ::
  "(target_error \<Rightarrow> string) \<Rightarrow> preparation_round_io \<Rightarrow> (archive_preparation \<times> bool \<times> target_error option) \<times> receipts
   \<Rightarrow> archive_preparation turn_result \<times> receipts" where
  "after_delivery txt r outcome =
        (let ((q, complete, e), t) = outcome in
         case e of
           Some x \<Rightarrow>
             if pd_failed r = None \<and> pd_uncertain r x then
               (let ((q1, e1), t1) = updateArchivePreparation (pd_update r) q
                      (\<lambda>v. v\<lparr>ap_failures := ap_failures v + 1, ap_error := boundedLifecycleError (txt x)\<rparr>) t in
                case e1 of
                  Some y \<Rightarrow> (Ended (Some (TargetError y)), t1)
                | None \<Rightarrow>
                    if ap_failures q1 < 3
                    then (case pd_pause r of Some y \<Rightarrow> (Ended (Some (TargetError y)), t1) | None \<Rightarrow> (Again q1, t1))
                    else (Ended (Some x), fail_preparation txt r q1 x t1))
             else (Ended (Some x), fail_preparation txt r q x t)
         | None \<Rightarrow>
             (let ((q1, e1), t1) = (if ap_failures q \<noteq> 0
                    then updateArchivePreparation (pd_update r) q (\<lambda>v. v\<lparr>ap_failures := 0, ap_error := []\<rparr>) t else ((q, None), t)) in
              case e1 of
                Some y \<Rightarrow> (Ended (Some (TargetError y)), t1)
              | None \<Rightarrow>
                  if \<not> complete then (case pd_pause r of Some y \<Rightarrow> (Ended (Some (TargetError y)), t1) | None \<Rightarrow> (Again q1, t1))
                  else
                    (let ((q2, e2), t2) = updateArchivePreparation (pd_clear r) q1
                           (\<lambda>v. v\<lparr>ap_message_id := [], ap_message := [], ap_options := None, ap_delivery := None, ap_state := ''rechecking''\<rparr>) t1 in
                     case e2 of Some y \<Rightarrow> (Ended (Some (TargetError y)), t2) | None \<Rightarrow> (Checking q2, t2))))"

text \<open>The whole part, with what it sends; the rest of the loop needs only its result.\<close>

definition repair_exchange ::
  "(string \<Rightarrow> string) \<Rightarrow> (target_error \<Rightarrow> string) \<Rightarrow> string \<Rightarrow> preparation_round_io \<Rightarrow> lifecycle_operation \<Rightarrow> archive_preparation \<Rightarrow> receipts
   \<Rightarrow> repair_send list \<times> archive_preparation turn_result \<times> receipts" where
  "repair_exchange sha txt workspace r op p s =
     (if ap_message_id p = [] then ([], Checking p, s)
      else
        (let (ms, outcome) = deliver_repair sha workspace (pd_delivery r) op p s in (ms, after_delivery txt r outcome)))"

definition repair_turn ::
  "(string \<Rightarrow> string) \<Rightarrow> (target_error \<Rightarrow> string) \<Rightarrow> string \<Rightarrow> preparation_round_io \<Rightarrow> lifecycle_operation \<Rightarrow> archive_preparation \<Rightarrow> receipts
   \<Rightarrow> archive_preparation turn_result \<times> receipts" where
  "repair_turn sha txt workspace r op p s = snd (repair_exchange sha txt workspace r op p s)"

text \<open>The part that checks, and begins the next repair.\<close>

definition check_turn ::
  "(string \<Rightarrow> string) \<Rightarrow> (target_error \<Rightarrow> string) \<Rightarrow> string \<Rightarrow> preparation_round_io \<Rightarrow> lifecycle_operation \<Rightarrow> archive_preparation \<Rightarrow> receipts
   \<Rightarrow> archive_preparation turn_result \<times> receipts" where
  "check_turn sha txt workspace r op p s =
     (let failed = (\<lambda>q x t. (Ended (Some x), fail_preparation txt r q x t)); l = pd_check r in
      case archive_admission sha workspace (cl_admission l) op p s of
        Some x \<Rightarrow> failed p x s
      | None \<Rightarrow> (case cl_output l of
          Inl x \<Rightarrow> failed p x s
        | Inr c \<Rightarrow>
            if \<not> check_consistent workspace (ap_slug p) c then failed p (TargetError (Err ''Archive readiness returned inconsistent output.'')) s
            else
              (let ((q, e), t) = updateArchivePreparation (cl_io l) p (record_check c) s in
               case e of
                 Some y \<Rightarrow> (Ended (Some (TargetError y)), t)
               | None \<Rightarrow>
                   if ac_ready c then
                     (let ((_, e1), t1) = updateArchivePreparation (cl_archiving l) q (\<lambda>v. v\<lparr>ap_state := ''archiving''\<rparr>) t in
                      (Ended (map_option TargetError e1), t1))
                   else if 3 \<le> ap_no_progress q
                   then failed q (TargetError (Err ''Archive cleanup made no measurable progress in three repair cycles. Review the lead conversation and blockers before retrying.'')) t
                   else if ap_thread q = []
                   then failed q (TargetError (Err ''Archive checks found blockers, but this session has no retained lead. Fix the listed paths and retry.'')) t
                   else
                     (let ((q1, e1), t1) = begin_repair sha workspace (pd_repair r) op c q t in
                      case e1 of Some x \<Rightarrow> failed q1 x t1 | None \<Rightarrow> (Again q1, t1)))))"

text \<open>\<open>before\<close> and \<open>between\<close>: what other threads did to the table before and within the turn.\<close>

fun preparation_loop ::
  "(string \<Rightarrow> string) \<Rightarrow> (target_error \<Rightarrow> string) \<Rightarrow> string \<Rightarrow> (preparation_round_io \<times> (receipts \<Rightarrow> receipts) \<times> (receipts \<Rightarrow> receipts)) list \<Rightarrow> lifecycle_operation
   \<Rightarrow> archive_preparation \<Rightarrow> receipts \<Rightarrow> (target_error option \<times> receipts) option" where
  "preparation_loop sha txt workspace [] op p s = None"
| "preparation_loop sha txt workspace ((r, before, between) # rs) op p s =
     (case pd_head r of
        Some e \<Rightarrow> Some (Some (TargetError e), s)
      | None \<Rightarrow> (case repair_turn sha txt workspace r op p (before s) of
          (Ended e, t) \<Rightarrow> Some (e, t)
        | (Again q, t) \<Rightarrow> preparation_loop sha txt workspace rs op q t
        | (Checking q, t) \<Rightarrow> (case check_turn sha txt workspace r op q (between t) of
            (Again q1, u) \<Rightarrow> preparation_loop sha txt workspace rs op q1 u
          | (Ended e, u) \<Rightarrow> Some (e, u)
          | (Checking q1, u) \<Rightarrow> Some (None, u))))"

text \<open>\<open>runArchivePreparation\<close>: nothing to prepare for a journal or a receipt of an older portal.\<close>

definition runArchivePreparation ::
  "(string \<Rightarrow> string) \<Rightarrow> (target_error \<Rightarrow> string) \<Rightarrow> string \<Rightarrow> (preparation_round_io \<times> (receipts \<Rightarrow> receipts) \<times> (receipts \<Rightarrow> receipts)) list \<Rightarrow> lifecycle_operation
   \<Rightarrow> receipts \<Rightarrow> (target_error option \<times> receipts) option" where
  "runArchivePreparation sha txt workspace rounds op s =
     (case map_of (rc_preparations s) (lo_slug op) of
        None \<Rightarrow> Some (None, s)
      | Some p \<Rightarrow> if prep_matches p op then preparation_loop sha txt workspace rounds op p s else Some (None, s))"

end
