(* ===== verification/Web_Server.thy ===== *)
theory Web_Server
  imports Web_Preparation
begin

text \<open>
  The table of receipts over time: every handler that changes it as a step from one table to the next,
  with captures and jobs taken from any table before, and what holds of all tables so reached.
\<close>

subsection \<open>What the file keeps\<close>

definition plain :: "lifecycle_operation \<Rightarrow> bool" where
  "plain op \<longleftrightarrow> lo_sync op = NilPtr \<and> lo_progress op = NilPtr \<and> lo_current op = NilPtr"

definition entries_ok :: "operation_map \<Rightarrow> bool" where
  "entries_ok ops \<longleftrightarrow> distinct (map fst ops) \<and> (\<forall>x \<in> set ops. lo_slug (snd x) = fst x \<and> plain (snd x))"

definition payload_ok :: "clock \<Rightarrow> string \<Rightarrow> operation_payload \<Rightarrow> bool" where
  "payload_ok ck workspace p \<longleftrightarrow>
     pl_schema p = lifecycleOperationStoreSchema \<and> pl_workspace p = workspace \<and> distinct (map lo_slug (pl_operations p)) \<and>
     (\<forall>op \<in> set (pl_operations p). valid_receipt ck op \<and> plain op) \<and>
     length (pl_operations p) \<le> maxLifecycleOperationRecords \<and> length (payload_text p) \<le> maxLifecycleOperationStoreBytes"

definition table_ok :: "clock \<Rightarrow> string \<Rightarrow> receipts \<Rightarrow> bool" where
  "table_ok ck workspace s \<longleftrightarrow>
     entries_ok (rc_operations s) \<and> (\<forall>x \<in> set (rc_operations s). valid_receipt ck (snd x)) \<and>
     (\<forall>p. rc_durable s = Some p \<longrightarrow> payload_ok ck workspace p)"

lemma set_update: "set (AList.update k v al) \<subseteq> insert (k, v) (set al)"
  by (induction al) auto

lemma set_delete: "set (AList.delete k al) \<subseteq> set al"
  by (auto simp: AList.delete_eq)

lemma entries_update: "entries_ok ops \<Longrightarrow> lo_slug op = slug \<Longrightarrow> plain op \<Longrightarrow> entries_ok (AList.update slug op ops)"
  using set_update [of slug op ops] by (auto simp: entries_ok_def AList.distinct_update)

lemma entries_delete: "entries_ok ops \<Longrightarrow> entries_ok (AList.delete slug ops)"
  using set_delete [of slug ops] by (auto simp: entries_ok_def intro: AList.distinct_delete)

lemma store_encode_ok:
  assumes "store_encode ck workspace ops = Inr data"
  shows "\<forall>x \<in> set ops. valid_receipt ck (snd x)" and "length ops \<le> maxLifecycleOperationRecords"
    and "data = payload_text (payload_of workspace ops)" and "length data \<le> maxLifecycleOperationStoreBytes"
  using assms by (auto simp: store_encode_def Let_def first_error_None valid_receipt_def split: if_splits option.splits)

lemma payload_of_ok:
  assumes "entries_ok ops" and "store_encode ck workspace ops = Inr data"
  shows "payload_ok ck workspace (payload_of workspace ops)"
proof -
  have slugs: "map (\<lambda>x. lo_slug (snd x)) ops = map fst ops" using assms(1) by (auto simp: entries_ok_def)
  have "distinct (map lo_slug (sort_key lo_slug (map snd ops)))"
    using assms(1) slugs by (simp add: distinct_map entries_ok_def o_def inj_on_def) (metis (no_types, lifting) snd_conv prod.collapse)
  then show ?thesis
    using assms(1) store_encode_ok [OF assms(2)] by (auto simp: payload_ok_def payload_of_def entries_ok_def)
qed

lemma store_save_cases:
  assumes "store_save ck workspace io ops durable = (e, d)"
  shows "(d = durable \<and> e \<noteq> None) \<or> (d = Some (payload_of workspace ops) \<and> (\<exists>data. store_encode ck workspace ops = Inr data))"
  using assms
  by (auto simp: store_save_def atomic_replace_def split: if_splits option.splits sum.splits)

subsection \<open>Reading it back\<close>

text \<open>The file as the portal finds it after a restart, and what it then takes the records for.\<close>

definition owner_dir :: dir_status where
  "owner_dir = \<lparr>ds_lstat = None, ds_safe = True, ds_perm = perm_0700, ds_chmod = None\<rparr>"

definition stored_view :: "operation_payload \<Rightarrow> receipts_view" where
  "stored_view p =
     \<lparr>vw_dir = owner_dir, vw_file = plain_view (payload_text p) p, vw_repeated = None,
      vw_raw = Inr (Some (json_indent 1 (JArr (map (\<lambda>op. JObj (operation_members op)) (pl_operations p))))),
      vw_shape = Inr (map operation_members (pl_operations p))\<rparr>"

definition restarted_operation :: "lifecycle_operation \<Rightarrow> lifecycle_operation" where
  "restarted_operation op = (if lo_state op = ''running'' then op\<lparr>lo_state := ''paused''\<rparr> else op)"

definition restarted_map :: "operation_payload \<Rightarrow> operation_map" where
  "restarted_map p = map (\<lambda>op. (lo_slug op, restarted_operation op)) (pl_operations p)"

lemma map_of_omit [simp]:
  "k \<noteq> k' \<Longrightarrow> map_of (omit_text k v @ r) k' = map_of r k'" "k \<noteq> k' \<Longrightarrow> map_of (omit_int k i @ r) k' = map_of r k'"
  "k \<noteq> k' \<Longrightarrow> map_of (omit_ptr k f p @ r) k' = map_of r k'"
  "k \<noteq> k' \<Longrightarrow> map_of (omit_text k v) k' = None"
  by (auto simp: omit_text_def omit_int_def omit_ptr_def omit_def split: ptr.splits)

lemma map_of_omit_int: "map_of r k = None \<Longrightarrow> map_of (omit_int k i @ r) k = (if i = 0 then None else Some (JInt i))"
  by (simp add: omit_int_def omit_def)

lemma shape_ok:
  assumes "valid_receipt ck op"
  shows "list_all (optional_number_ok (operation_members op)) [''targetIdentityVersion'', ''attempt'']"
proof -
  have end_empty: "map_of (omit_text ''code'' c @ [(''options'', j)]) ''attempt'' = None" for c j
    by simp
  have "map_of (operation_members op) ''targetIdentityVersion'' = (if lo_version op = 0 then None else Some (JInt (lo_version op)))"
    unfolding operation_members_def by (simp add: map_of_omit_int del: map_of_append)
  moreover have "map_of (operation_members op) ''attempt'' = (if lo_attempt op = 0 then None else Some (JInt (lo_attempt op)))"
    unfolding operation_members_def by (simp add: map_of_omit_int del: map_of_append)
  ultimately show ?thesis
    using assms by (auto simp: optional_number_ok_def valid_receipt_iff lifecycleTargetIdentityVersion_def)
qed

lemma load_records_ok:
  assumes "\<forall>op \<in> set ops. valid_receipt ck op" and "distinct (map lo_slug ops)" and "set (map fst loaded) \<inter> set (map lo_slug ops) = {}"
  shows "load_records ck loaded ops = Inr (loaded @ map (\<lambda>op. (lo_slug op, restarted_operation op)) ops)"
  using assms
proof (induction ops arbitrary: loaded)
  case (Cons op ops)
  from Cons.prems(3) have "map_of loaded (lo_slug op) = None" by (auto simp: map_of_eq_None_iff)
  with Cons show ?case by (auto simp: valid_receipt_def restarted_operation_def)
qed simp

lemma json_indent_nonempty: "json_indent d (JArr xs) \<noteq> [] \<and> json_indent d (JArr xs) \<noteq> ''null''"
  by (cases xs) auto

lemma stored_view_loads:
  assumes "payload_ok ck workspace p"
  shows "loadWithDirectoryRepair ck workspace repair (stored_view p) = Inr (restarted_map p)"
proof -
  have dir: "inspectDirectoryMode repair owner_dir = None" by (simp add: inspectDirectoryMode_def owner_dir_def)
  have shape: "shape_error (map operation_members (pl_operations p)) = None"
    using assms by (auto simp: shape_error_def list_all_iff payload_ok_def dest!: shape_ok)
  have strict: "strict_shape (stored_view p) = None" using json_indent_nonempty by (simp add: strict_shape_def stored_view_def)
  have recs: "load_records ck [] (pl_operations p) = Inr (restarted_map p)"
    using assms load_records_ok [of "pl_operations p" ck "[]"] by (simp add: payload_ok_def restarted_map_def)
  show ?thesis
    using assms dir shape strict recs
    by (simp add: loadWithDirectoryRepair_def stored_view_def plain_view_def Let_def payload_ok_def lifecycleOperationStoreSchema_def)
qed

lemma restarted_entries:
  assumes "payload_ok ck workspace p"
  shows "entries_ok (restarted_map p)" and "\<forall>x \<in> set (restarted_map p). valid_receipt ck (snd x)"
proof -
  have op: "valid_receipt ck (restarted_operation op)" "plain (restarted_operation op)" if "op \<in> set (pl_operations p)" for op
    using assms that unfolding payload_ok_def restarted_operation_def plain_def valid_receipt_iff by (auto simp: plain_text)
  have slug: "lo_slug (restarted_operation op) = lo_slug op" for op by (simp add: restarted_operation_def)
  show "entries_ok (restarted_map p)"
    using assms op slug by (auto simp: entries_ok_def restarted_map_def payload_ok_def comp_def)
  show "\<forall>x \<in> set (restarted_map p). valid_receipt ck (snd x)" using op by (auto simp: restarted_map_def)
qed

subsection \<open>The primitive changes\<close>

lemma publish_frame [simp]:
  "rc_operations (publishLifecycleSnapshot slug op c s) = rc_operations s" "rc_durable (publishLifecycleSnapshot slug op c s) = rc_durable s"
  "rc_revisions (publishLifecycleSnapshot slug op c s) = rc_revisions s" "rc_preparations (publishLifecycleSnapshot slug op c s) = rc_preparations s"
  "rc_closing (publishLifecycleSnapshot slug op c s) = rc_closing s"
  by (simp_all add: publishLifecycleSnapshot_def Let_def)

lemma drop_frame [simp]:
  "rc_operations (drop_preparation rm slug p s) = rc_operations s" "rc_durable (drop_preparation rm slug p s) = rc_durable s"
  "rc_revisions (drop_preparation rm slug p s) = rc_revisions s"
  by (simp_all add: drop_preparation_def split: option.splits)

text \<open>One slug changes and its revision is counted, or nothing changes.\<close>

definition revision_counted :: "receipts \<Rightarrow> receipts \<Rightarrow> bool" where
  "revision_counted s t \<longleftrightarrow>
     (\<forall>slug. (map_of (rc_operations t) slug = map_of (rc_operations s) slug \<and> rc_revisions t slug = rc_revisions s slug) \<or>
             rc_revisions t slug = rc_revisions s slug + 1)"

definition keeps :: "clock \<Rightarrow> string \<Rightarrow> receipts \<Rightarrow> receipts \<Rightarrow> bool" where
  "keeps ck workspace s t \<longleftrightarrow> (table_ok ck workspace s \<longrightarrow> table_ok ck workspace t) \<and> (table_ok ck workspace s \<longrightarrow> revision_counted s t)"

lemma keeps_refl [simp]: "keeps ck workspace s s"
  by (simp add: keeps_def revision_counted_def)

text \<open>A table that is framed before and after a change.\<close>

definition same_table :: "receipts \<Rightarrow> receipts \<Rightarrow> bool" where
  "same_table s t \<longleftrightarrow> rc_operations t = rc_operations s \<and> rc_durable t = rc_durable s \<and> rc_revisions t = rc_revisions s"

lemma same_table_cong:
  assumes "same_table s t"
  shows "table_ok ck workspace t \<longleftrightarrow> table_ok ck workspace s" "revision_counted u t \<longleftrightarrow> revision_counted u s" "revision_counted t u \<longleftrightarrow> revision_counted s u"
  using assms unfolding same_table_def table_ok_def revision_counted_def by metis+

lemma keeps_after: "keeps ck workspace s t \<Longrightarrow> same_table t u \<Longrightarrow> keeps ck workspace s u"
  by (simp add: keeps_def same_table_cong)

lemma keeps_before: "keeps ck workspace t u \<Longrightarrow> same_table s t \<Longrightarrow> keeps ck workspace s u"
  by (simp add: keeps_def same_table_cong)

lemma same_table_frames [simp]:
  "same_table s s" "same_table s (publishLifecycleSnapshot slug op c s)" "same_table s (s\<lparr>rc_snapshots := x\<rparr>)"
  "same_table s (s\<lparr>rc_preparations := y\<rparr>)" "same_table s (s\<lparr>rc_closing := b\<rparr>)"
  by (simp_all add: same_table_def)

lemma save_preparation_same: "saveArchivePreparationLocked io p s = (e, t) \<Longrightarrow> same_table s t"
  by (auto simp: saveArchivePreparationLocked_def split: option.splits if_splits)

lemma replace_cases:
  assumes "replaceLifecycleOperationLocked ck workspace io slug op s = (e, t)"
  shows "(e \<noteq> None \<and> rc_operations t = rc_operations s \<and> rc_revisions t = rc_revisions s \<and>
           (rc_durable t = rc_durable s \<or> rc_durable t = Some (payload_of workspace (AList.update slug op (rc_operations s))) \<and>
              (\<exists>data. store_encode ck workspace (AList.update slug op (rc_operations s)) = Inr data))) \<or>
         (e = None \<and> rc_operations t = AList.update slug op (rc_operations s) \<and>
           rc_revisions t = (rc_revisions s)(slug := rc_revisions s slug + 1) \<and>
           rc_durable t = Some (payload_of workspace (AList.update slug op (rc_operations s))) \<and>
           (\<exists>data. store_encode ck workspace (AList.update slug op (rc_operations s)) = Inr data))"
proof -
  obtain e' d where sv: "store_save ck workspace io (AList.update slug op (rc_operations s)) (rc_durable s) = (e', d)" by fastforce
  with assms store_save_cases [OF sv] show ?thesis
    by (cases e') (auto simp: replaceLifecycleOperationLocked_def Let_def)
qed

lemma replace_keeps:
  assumes r: "replaceLifecycleOperationLocked ck workspace io slug op s = (e, t)" and "lo_slug op = slug" and "plain op"
  shows "keeps ck workspace s t"
proof -
  let ?ops = "AList.update slug op (rc_operations s)"
  have enc: "payload_ok ck workspace (payload_of workspace ?ops)" "\<And>k v. (k, v) \<in> set ?ops \<Longrightarrow> valid_receipt ck v" "entries_ok ?ops"
    if "table_ok ck workspace s" "store_encode ck workspace ?ops = Inr data" for data
    using that assms(2,3) payload_of_ok store_encode_ok(1) entries_update by (fastforce simp: table_ok_def)+
  show ?thesis
    using replace_cases [OF r] enc
    by (auto simp: keeps_def table_ok_def revision_counted_def AList.update_conv')
qed

lemma remove_keeps:
  assumes r: "removeLifecycleOperationLocked ck workspace io rm slug s = (e, t)"
  shows "keeps ck workspace s t"
proof (cases "map_of (rc_operations s) slug")
  case None
  with r show ?thesis by (simp add: removeLifecycleOperationLocked_def)
next
  case (Some previous)
  let ?ops = "AList.delete slug (rc_operations s)"
  obtain e' d where sv: "store_save ck workspace io ?ops (rc_durable s) = (e', d)" by fastforce
  have enc: "payload_ok ck workspace (payload_of workspace ?ops)" "\<And>k v. (k, v) \<in> set ?ops \<Longrightarrow> valid_receipt ck v" "entries_ok ?ops"
    if "table_ok ck workspace s" "store_encode ck workspace ?ops = Inr data" for data
    using that payload_of_ok store_encode_ok(1) entries_delete by (fastforce simp: table_ok_def)+
  from r Some sv store_save_cases [OF sv] enc show ?thesis
    by (cases e') (auto simp: removeLifecycleOperationLocked_def Let_def keeps_def table_ok_def revision_counted_def AList.delete_conv')
qed

lemma unsaved_keeps:
  assumes "clock_ok ck"
  shows "keeps ck workspace s (finish_unsaved ck now completed s)"
proof (cases "map_of (rc_operations s) (lo_slug completed)")
  case None
  then show ?thesis by (simp add: finish_unsaved_def Let_def)
next
  case (Some current)
  let ?op = "current\<lparr>lo_state := ''failed'', lo_updated := ck_format ck now, lo_finished := ck_format ck now, lo_error := unsaved_text\<rparr>"
  have unsaved: "error_ok unsaved_text" by code_simp
  from Some have "(lo_slug completed, current) \<in> set (rc_operations s)" by (rule map_of_SomeD)
  then have c: "valid_receipt ck current" "lo_slug current = lo_slug completed" "plain current" if "table_ok ck workspace s"
    using that by (fastforce simp: table_ok_def entries_ok_def)+
  have "valid_receipt ck ?op" if "valid_receipt ck current"
    using that assms unsaved unfolding valid_receipt_iff by (simp add: plain_text clock_ok_def)
  with c have ok: "table_ok ck workspace s \<Longrightarrow> valid_receipt ck ?op \<and> lo_slug ?op = lo_slug completed \<and> plain ?op"
    by (simp add: plain_def)
  show ?thesis
    using Some ok set_update [of "lo_slug completed" ?op "rc_operations s"]
    by (auto simp: finish_unsaved_def Let_def keeps_def table_ok_def revision_counted_def AList.update_conv' intro: entries_update)
qed

lemma keeps_same: "same_table s t \<Longrightarrow> keeps ck workspace s t"
  by (rule keeps_after [OF keeps_refl])

subsection \<open>Every handler keeps the table\<close>

text \<open>An entry of a table, and what its fields are.\<close>

lemma table_entry:
  "table_ok ck workspace s \<Longrightarrow> map_of (rc_operations s) slug = Some op \<Longrightarrow> lo_slug op = slug \<and> plain op \<and> valid_receipt ck op"
  by (fastforce simp: table_ok_def entries_ok_def dest: map_of_SomeD)

lemma plain_updates [simp]:
  "plain (op\<lparr>lo_state := a\<rparr>) = plain op" "plain (op\<lparr>lo_phase := a\<rparr>) = plain op" "plain (op\<lparr>lo_error := a\<rparr>) = plain op"
  "plain (op\<lparr>lo_updated := a\<rparr>) = plain op" "plain (op\<lparr>lo_finished := a\<rparr>) = plain op" "plain (op\<lparr>lo_code := a\<rparr>) = plain op"
  "plain (op\<lparr>lo_options := x\<rparr>) = plain op" "plain (op\<lparr>lo_version := v\<rparr>) = plain op" "plain (map_options f op) = plain op"
  by (simp_all add: plain_def map_options_def)

lemma plain_zero [simp]: "plain zero_operation"
  by (simp add: plain_def zero_operation_def)

lemma plain_progress [simp]: "plain (applyProgressOptions p op) = plain op" "lo_slug (applyProgressOptions p op) = lo_slug op"
  by (simp_all add: applyProgressOptions_def map_options_def plain_def)

lemma plain_bind [simp]: "plain (bindLifecycleJournalTarget sha l p op) = plain op"
  by (auto simp: bindLifecycleJournalTarget_def split: sum.splits)

lemma plain_from_progress [simp]: "plain (operationFromProgress sha ck slug p)" "lo_slug (operationFromProgress sha ck slug p) = slug"
  by (simp_all add: operationFromProgress_def Let_def) (simp add: plain_def zero_operation_def)

lemma worker_view_plain:
  assumes "worker_view ck env now op present = Inr op1"
  shows "plain op1 = plain op"
proof -
  have "op1 = op \<or> (\<exists>w. op1 = apply_worker ck now w op)"
    using assms unfolding worker_view_def
    by (cases "archiveWorker (pe_supervised env) op (pe_worker env)") (force split: if_split_asm option.split_asm)+
  then show ?thesis by (auto simp: apply_worker_def plain_def)
qed

definition owned :: "string \<Rightarrow> lifecycle_operation \<Rightarrow> bool" where "owned slug op \<longleftrightarrow> lo_slug op = slug \<and> plain op"

lemma propose_progress_owned:
  "(present \<Longrightarrow> owned slug op) \<Longrightarrow> owned slug (fst (propose_progress sha ck env slug op present p))"
  by (auto simp: propose_progress_def Let_def owned_def)

lemma propose_settled_owned:
  "owned slug op \<Longrightarrow> fst (snd (propose_settled sha ck env op now)) \<Longrightarrow> owned slug (fst (propose_settled sha ck env op now))"
  by (auto simp: propose_settled_def Let_def owned_def split: if_splits)

lemma propose_owned:
  assumes op: "present \<Longrightarrow> owned slug op"
    and r: "proposeLifecycleOperation sha ck env slug op present found now = (op', True, e)"
  shows "owned slug op'"
proof (cases "present \<and> prepares (pe_preparation env) op")
  case True
  with op r show ?thesis by (auto simp: proposeLifecycleOperation_def owned_def)
next
  case False
  show ?thesis
  proof (cases "worker_view ck env now op present")
    case (Inl x)
    then have "present" by (auto simp: worker_view_def split: if_splits)
    with Inl False op r show ?thesis by (simp add: proposeLifecycleOperation_def)
  next
    case (Inr op1)
    have v: "present \<Longrightarrow> owned slug op1" using op worker_view_frame(4) [OF Inr] worker_view_plain [OF Inr] by (simp add: owned_def)
    show ?thesis
    proof (cases found)
      case (Inl x)
      with Inr False r v show ?thesis by (auto simp: proposeLifecycleOperation_def owned_def split: if_splits)
    next
      case seen: (Inr progress)
      show ?thesis
      proof (cases progress)
        case None
        with Inr seen False r have "present" "propose_settled sha ck env op1 now = (op', True, e)"
          by (auto simp: proposeLifecycleOperation_def split: if_splits)
        with v propose_settled_owned [of slug op1 sha ck env now] show ?thesis by simp
      next
        case (Some p)
        with Inr seen False r have "propose_progress sha ck env slug op1 present p = (op', True, e)"
          by (simp add: proposeLifecycleOperation_def split: if_split_asm)
        with v propose_progress_owned [of present slug op1 sha ck env p] show ?thesis by simp
      qed
    qed
  qed
qed

lemma capture_owned:
  "table_ok ck workspace s \<Longrightarrow> cp_existed (captureLifecycleOperation slug s) \<Longrightarrow> owned slug (cp_operation (captureLifecycleOperation slug s))"
  by (auto simp: captureLifecycleOperation_def owned_def dest: table_entry split: option.splits)

lemma accept_keeps:
  assumes "acceptLifecycleReconciliation ck workspace io slug c op present view s = (r, t)" and "present \<Longrightarrow> owned slug op"
  shows "keeps ck workspace s t"
proof -
  consider "t = s" | "present" "same_table s t"
    | e u where "present" "replaceLifecycleOperationLocked ck workspace (ai_save io) slug op s = (e, u)" "same_table u t"
    | e where "removeLifecycleOperationLocked ck workspace (ai_save io) (ai_remove io) slug s = (e, t)"
    using assms(1) unfolding acceptLifecycleReconciliation_def
    by (auto split: if_split_asm prod.split_asm option.split_asm)
  then show ?thesis
  proof cases
    case 3
    with assms(2) show ?thesis by (auto simp: owned_def intro: keeps_after replace_keeps)
  qed (auto intro: keeps_same remove_keeps)
qed

lemma start_build_owned: "owned (st_slug q) (start_build ck now fresh q op o1 progress)"
  by (simp add: start_build_def Let_def owned_def plain_def zero_operation_def)

lemma begin_same: "beginArchivePreparation workspace found io op s = (e, t) \<Longrightarrow> same_table s t"
  by (auto simp: beginArchivePreparation_def Let_def dest: save_preparation_same split: if_splits sum.splits)

lemma start_commit_keeps:
  assumes "start_commit ck workspace io c op args s = (r, j, t)" and "owned slug op"
  shows "keeps ck workspace s t"
proof -
  have slug: "lo_slug op = slug" using assms(2) by (simp add: owned_def)
  consider "t = s" | e u where "beginArchivePreparation workspace (si_found io) (si_preparation io) op s = (e, t)"
    | e u e' where "beginArchivePreparation workspace (si_found io) (si_preparation io) op s = (e, u)"
        "replaceLifecycleOperationLocked ck workspace (si_save io) slug op u = (e', t)"
    using assms(1) unfolding start_commit_def slug
    by (auto split: if_split_asm prod.split_asm option.split_asm)
  then show ?thesis
  proof cases
    case 3
    with assms(2) show ?thesis by (auto simp: owned_def intro: keeps_before replace_keeps begin_same)
  qed (auto intro: keeps_same begin_same)
qed

lemma write_error_same: "writeLifecycleError now address e s = (r, t) \<Longrightarrow> same_table s t"
  by (auto simp: writeLifecycleError_def split: target_error.splits option.splits if_splits)

lemma job_outcome_owned:
  "owned slug started \<Longrightarrow> owned slug (job_outcome ck now prep started result)"
  by (auto simp: job_outcome_def Let_def owned_def split: job_result.splits option.splits)

lemma finish_progress_owned: "owned slug c \<Longrightarrow> owned slug (finish_progress sha workspace io started c)"
  by (auto simp: finish_progress_def owned_def split: sum.splits option.splits)

lemma finish_record_keeps:
  assumes "finish_record sha ck workspace io started failed completed s = (e, t)" and "owned (lo_slug started) completed"
  shows "keeps ck workspace s t"
proof -
  consider "t = s"
    | e u where "replaceLifecycleOperationLocked ck workspace (fi_save io) (lo_slug started) completed s = (e, u)" "same_table u t"
    using assms(1) unfolding finish_record_def Let_def
    by (auto split: if_split_asm prod.split_asm option.split_asm)
  then show ?thesis
    using assms(2) by cases (auto simp: owned_def intro: keeps_after replace_keeps)
qed

lemma dismiss_keeps:
  assumes "dismissLifecycleOperation ck workspace io slug receipt seen s = (r, t)"
  shows "keeps ck workspace s t"
  using assms
  by (auto simp: dismissLifecycleOperation_def intro: remove_keeps split: prod.splits if_splits option.splits)

lemma replace_entry_keeps:
  assumes "replaceLifecycleOperationLocked ck workspace io slug (f op) s = (e, t)" and "map_of (rc_operations s) slug = Some op"
    and "\<And>x. lo_slug (f x) = lo_slug x \<and> plain (f x) = plain x"
  shows "keeps ck workspace s t"
proof (cases "table_ok ck workspace s")
  case True
  with assms(2,3) have "lo_slug (f op) = slug" "plain (f op)" using table_entry by blast+
  with assms(1) show ?thesis by (rule replace_keeps)
qed (simp add: keeps_def)

lemma cancel_keeps:
  assumes "cancelArchivePreparation ck workspace pio sio slug receipt s = (r, t)"
  shows "keeps ck workspace s t"
proof -
  let ?f = "\<lambda>op. op\<lparr>lo_state := ''failed'', lo_phase := ''checking'', lo_error := canceled_text\<rparr>"
  consider "t = s" | e p where "saveArchivePreparationLocked pio p s = (e, t)"
    | e p op u e' where "saveArchivePreparationLocked pio p s = (e, u)" "map_of (rc_operations s) slug = Some op"
        "replaceLifecycleOperationLocked ck workspace sio slug (?f op) u = (e', t)"
    using assms unfolding cancelArchivePreparation_def Let_def
    by (auto split: if_split_asm prod.split_asm option.split_asm)
  then show ?thesis
  proof cases
    case (3 e p op u e')
    then have u: "same_table s u" by (rule_tac save_preparation_same)
    with 3 have "map_of (rc_operations u) slug = Some op" by (simp add: same_table_def)
    from replace_entry_keeps [where f = ?f, OF 3(3) this] u show ?thesis by (auto intro: keeps_before)
  qed (auto intro: keeps_same save_preparation_same)
qed

lemma park_keeps: "keeps ck workspace s (park_one ck workspace pio sio (slug, p) s)"
proof -
  let ?f = "\<lambda>op. op\<lparr>lo_state := ''failed'', lo_phase := ''checking'', lo_error := parked_text\<rparr>"
  obtain e u where u: "saveArchivePreparationLocked (pio slug) (p\<lparr>ap_state := ''paused''\<rparr>) s = (e, u)" by fastforce
  then have same: "same_table s u" by (rule save_preparation_same)
  have "keeps ck workspace u (snd (replaceLifecycleOperationLocked ck workspace (sio slug) slug (?f op) u))"
    if "map_of (rc_operations u) slug = Some op" for op
    using that by (intro replace_entry_keeps [of _ _ "sio slug" slug ?f op u]) (auto simp: prod_eq_iff)
  then show ?thesis
    using same u by (auto simp: park_one_def Let_def intro: keeps_same keeps_before split: option.splits)
qed

lemma resume_keeps:
  assumes "resume_one sha ck workspace ios (slug, original) s = (e, js, t)"
  shows "keeps ck workspace s t"
proof -
  let ?f = "\<lambda>op. op\<lparr>lo_state := ''failed'', lo_error := unreadable_text\<rparr>" and ?g = "\<lambda>op. op\<lparr>lo_state := ''running''\<rparr>"
  let ?save = "rz_save (ios slug)"
  consider "same_table s t"
    | op x where "map_of (rc_operations s) slug = Some op" "replaceLifecycleOperationLocked ck workspace ?save slug (?f op) s = (x, t)"
    | op x p where "map_of (rc_operations s) slug = Some op" "ap_slug p = slug"
        "replaceLifecycleOperationLocked ck workspace ?save slug (?g op) (s\<lparr>rc_preparations := AList.update slug p (rc_preparations s)\<rparr>) = (x, t)"
  proof (cases "readArchivePreparation workspace slug (rz_view (ios slug))")
    case (Inl x)
    with assms that(1,2) show thesis
      by (cases "map_of (rc_operations s) slug")
         (auto simp: resume_one_def Let_def prod_eq_iff split: if_split_asm)
  next
    case (Inr found)
    show thesis
    proof (cases found)
      case None
      with Inr assms that(1) show thesis by (auto simp: resume_one_def Let_def)
    next
      case (Some p)
      with Inr have "ap_slug p = slug" by (auto simp: readArchivePreparation_def split: option.splits sum.splits if_splits)
      with Inr Some assms that(1,3) show thesis
        by (auto simp: resume_one_def Let_def split: if_split_asm option.split_asm prod.split_asm)
    qed
  qed
  then show ?thesis
  proof cases
    case 2
    from replace_entry_keeps [where f = ?f, OF 2(2,1)] show ?thesis by simp
  next
    case 3
    from 3(1) have m: "map_of (rc_operations (s\<lparr>rc_preparations := AList.update slug p (rc_preparations s)\<rparr>)) slug = Some op" by simp
    from replace_entry_keeps [where f = ?g, OF 3(3) m] show ?thesis by (auto intro: keeps_before)
  qed (rule keeps_same)
qed

subsection \<open>The server\<close>

text \<open>The table with which the portal starts, from the file it finds.\<close>

definition booted :: "clock \<Rightarrow> string \<Rightarrow> receipts \<Rightarrow> bool" where
  "booted ck workspace s \<longleftrightarrow>
     (case rc_durable s of
        None \<Rightarrow> rc_operations s = []
      | Some p \<Rightarrow> payload_ok ck workspace p \<and> loadWithDirectoryRepair ck workspace True (stored_view p) = Inr (rc_operations s)) \<and>
     rc_revisions s = (\<lambda>_. 0)"

text \<open>
  One step. A capture and a job come from some table of the past \<open>h\<close>: the thread that holds it may have
  slept in between.
\<close>

inductive server_step ::
  "(string \<Rightarrow> string) \<Rightarrow> clock \<Rightarrow> string \<Rightarrow> receipts set \<Rightarrow> receipts \<Rightarrow> receipts \<Rightarrow> bool"
  for sha ck workspace h where
  reconcile: "s0 \<in> h \<Longrightarrow> c = captureLifecycleOperation slug s0 \<Longrightarrow>
    proposeLifecycleOperation sha ck env slug (cp_operation c) (cp_existed c) found now = (op, present, e) \<Longrightarrow>
    acceptLifecycleReconciliation ck workspace io slug c op present view s = (r, t) \<Longrightarrow> server_step sha ck workspace h s t"
| start: "s0 \<in> h \<Longrightarrow> start_admit q s0 = Inr c \<Longrightarrow> start_prove sha l1 l2 l3 q c progress = Inr (op, o1, args) \<Longrightarrow>
    start_commit ck workspace io c (start_build ck now fresh q op o1 progress) args s = (r, j, t) \<Longrightarrow> server_step sha ck workspace h s t"
| refuse: "writeLifecycleError now address e s = (r, t) \<Longrightarrow> server_step sha ck workspace h s t"
| finish: "s0 \<in> h \<Longrightarrow> map_of (rc_operations s0) slug = Some started \<Longrightarrow> lo_state started = ''running'' \<Longrightarrow>
    finish_record sha ck workspace io started failed (finish_progress sha workspace io' started (job_outcome ck now prep started result)) s = (e, t) \<Longrightarrow>
    server_step sha ck workspace h s t"
| finish_done: "s0 \<in> h \<Longrightarrow> map_of (rc_operations s0) slug = Some started \<Longrightarrow> lo_state started = ''running'' \<Longrightarrow>
    finish_record sha ck workspace io started False (job_outcome ck now prep started JobDone) s = (e, t) \<Longrightarrow> server_step sha ck workspace h s t"
| unsaved: "server_step sha ck workspace h s (finish_unsaved ck now completed s)"
| dismiss: "dismissLifecycleOperation ck workspace io slug receipt seen s = (r, t) \<Longrightarrow> server_step sha ck workspace h s t"
| prepare: "server_step sha ck workspace h s (s\<lparr>rc_preparations := y\<rparr>)"
| cancel: "cancelArchivePreparation ck workspace pio sio slug receipt s = (r, t) \<Longrightarrow> server_step sha ck workspace h s t"
| resume: "resume_one sha ck workspace ios (slug, original) s = (x, js, t) \<Longrightarrow> server_step sha ck workspace h s t"
| close: "server_step sha ck workspace h s (s\<lparr>rc_closing := True\<rparr>)"
| park: "server_step sha ck workspace h s (park_one ck workspace pios sios (slug, p) s)"

text \<open>The tables since the start, the latest first; one event per step.\<close>

definition server_init :: "clock \<Rightarrow> string \<Rightarrow> receipts list \<Rightarrow> bool" where
  "server_init ck workspace ss \<longleftrightarrow> (\<exists>s. ss = [s] \<and> booted ck workspace s)"

definition server_next :: "(string \<Rightarrow> string) \<Rightarrow> clock \<Rightarrow> string \<Rightarrow> receipts list \<Rightarrow> unit \<Rightarrow> receipts list \<Rightarrow> bool" where
  "server_next sha ck workspace ss e ss' \<longleftrightarrow>
     (\<exists>s r t. ss = s # r \<and> server_step sha ck workspace (set ss) s t \<and> ss' = t # ss)"

abbreviation server_run :: "(string \<Rightarrow> string) \<Rightarrow> clock \<Rightarrow> string \<Rightarrow> receipts list \<Rightarrow> bool" where
  "server_run sha ck workspace \<equiv> reachable (server_init ck workspace) (server_next sha ck workspace)"

lemma booted_ok:
  assumes "booted ck workspace s"
  shows "table_ok ck workspace s"
proof (cases "rc_durable s")
  case None
  with assms show ?thesis by (simp add: booted_def table_ok_def entries_ok_def)
next
  case (Some p)
  with assms have p: "payload_ok ck workspace p" and "rc_operations s = restarted_map p"
    by (auto simp: booted_def stored_view_loads)
  with restarted_entries [OF p] Some show ?thesis by (simp add: table_ok_def)
qed

lemma step_keeps:
  assumes "server_step sha ck workspace h s t" and "clock_ok ck" and h: "\<And>s0. s0 \<in> h \<Longrightarrow> table_ok ck workspace s0"
  shows "keeps ck workspace s t"
  using assms(1)
proof cases
  case (reconcile s0 c slug env found now op present e io view r)
  have "cp_existed c \<Longrightarrow> owned slug (cp_operation c)" using capture_owned [OF h [OF reconcile(1)]] reconcile(2) by simp
  then have "present \<Longrightarrow> owned slug op" using reconcile(3) by (auto intro: propose_owned)
  with reconcile(4) show ?thesis by (rule accept_keeps)
next
  case (start s0 q c l1 l2 l3 progress op o1 args io now fresh r j)
  from start(4) start_build_owned show ?thesis by (rule start_commit_keeps)
next
  case (finish s0 slug started io failed io' now prep result e)
  have "owned (lo_slug started) started" using table_entry [OF h [OF finish(1)] finish(2)] by (simp add: owned_def)
  then have "owned (lo_slug started) (finish_progress sha workspace io' started (job_outcome ck now prep started result))"
    by (intro finish_progress_owned job_outcome_owned)
  with finish(4) show ?thesis by (rule finish_record_keeps)
next
  case (finish_done s0 slug started io now prep e)
  have "owned (lo_slug started) started" using table_entry [OF h [OF finish_done(1)] finish_done(2)] by (simp add: owned_def)
  then have "owned (lo_slug started) (job_outcome ck now prep started JobDone)" by (rule job_outcome_owned)
  with finish_done(4) show ?thesis by (rule finish_record_keeps)
qed (auto intro: keeps_same write_error_same unsaved_keeps [OF assms(2)] dismiss_keeps cancel_keeps resume_keeps park_keeps)

interpretation server: safe_machine "server_init ck workspace" "server_next sha ck workspace"
  "\<lambda>ss. clock_ok ck \<longrightarrow> (\<forall>s \<in> set ss. table_ok ck workspace s)"
  for sha ck workspace
proof
  fix ss
  assume "server_init ck workspace ss"
  then show "clock_ok ck \<longrightarrow> (\<forall>s \<in> set ss. table_ok ck workspace s)" by (auto simp: server_init_def intro: booted_ok)
next
  fix ss :: "receipts list" and e ss'
  assume inv: "clock_ok ck \<longrightarrow> (\<forall>s \<in> set ss. table_ok ck workspace s)" and "server_next sha ck workspace ss e ss'"
  then obtain s r t where st: "ss = s # r" "server_step sha ck workspace (set ss) s t" "ss' = t # ss"
    by (auto simp: server_next_def)
  with inv step_keeps [OF st(2)] show "clock_ok ck \<longrightarrow> (\<forall>s \<in> set ss'. table_ok ck workspace s)"
    by (auto simp: keeps_def)
qed

subsection \<open>Restarts\<close>

text \<open>
  C9. At any moment, whatever saves failed half way, the receipt file that a crash would leave behind can be
  read by the next portal: it loads in full, strictly or with repair, one valid receipt per session,
  as it was written except that what was running is paused.
\<close>

theorem receipts_reload:
  assumes "server_run sha ck workspace ss" and "clock_ok ck" and "s \<in> set ss" and "rc_durable s = Some p"
  shows "loadWithDirectoryRepair ck workspace repair (stored_view p) = Inr (restarted_map p) \<and>
    distinct (map fst (restarted_map p)) \<and>
    (\<forall>x \<in> set (restarted_map p). valid_receipt ck (snd x) \<and> lo_slug (snd x) = fst x \<and> lo_state (snd x) \<noteq> ''running'')"
proof -
  from server.inv_reachable [OF assms(1)] assms(2-4) have p: "payload_ok ck workspace p" by (auto simp: table_ok_def)
  have "lo_state (snd x) \<noteq> ''running''" if "x \<in> set (restarted_map p)" for x
    using that by (auto simp: restarted_map_def restarted_operation_def split: if_split_asm)
  with stored_view_loads [OF p] restarted_entries [OF p] show ?thesis by (auto simp: entries_ok_def)
qed

subsection \<open>Revisions\<close>

lemma server_run_cases:
  assumes "server_run sha ck workspace (t # s # r)"
  shows "server_run sha ck workspace (s # r) \<and> server_step sha ck workspace (set (s # r)) s t"
  using assms by (cases rule: reachable.cases) (auto simp: server_init_def server_next_def)

lemma run_counted:
  assumes "server_run sha ck workspace (t # s # r)" and "clock_ok ck"
  shows "revision_counted s t"
proof -
  from server_run_cases [OF assms(1)] have run: "server_run sha ck workspace (s # r)" and st: "server_step sha ck workspace (set (s # r)) s t"
    by blast+
  from server.inv_reachable [OF run] assms(2) have ok: "\<And>x. x \<in> set (s # r) \<Longrightarrow> table_ok ck workspace x" by blast
  from step_keeps [OF st assms(2) ok] ok show ?thesis by (simp add: keeps_def)
qed

text \<open>How often the revision of a slug was counted since an earlier table.\<close>

lemma revisions_since:
  assumes "server_run sha ck workspace (pre @ s0 # post)" and "clock_ok ck"
  shows "\<exists>d \<le> length pre. rc_revisions (hd (pre @ [s0])) slug = rc_revisions s0 slug + of_nat d \<and>
    (d = 0 \<longrightarrow> (\<forall>s \<in> set pre. map_of (rc_operations s) slug = map_of (rc_operations s0) slug))"
  using assms(1)
proof (induction pre)
  case (Cons t pre)
  obtain s r where sr: "pre @ s0 # post = s # r" by (cases "pre @ s0 # post") auto
  then have s: "s = hd (pre @ [s0])" by (cases pre) auto
  from Cons.prems sr have run: "server_run sha ck workspace (t # s # r)" by simp
  with sr server_run_cases [OF run] have "server_run sha ck workspace (pre @ s0 # post)" by simp
  from Cons.IH [OF this] s obtain d where d: "d \<le> length pre" "rc_revisions s slug = rc_revisions s0 slug + of_nat d"
    "d = 0 \<longrightarrow> (\<forall>x \<in> set pre. map_of (rc_operations x) slug = map_of (rc_operations s0) slug)" by auto
  have s_in: "s = s0 \<or> s \<in> set pre" using s by (cases pre) auto
  from run_counted [OF run assms(2)] consider "map_of (rc_operations t) slug = map_of (rc_operations s) slug" "rc_revisions t slug = rc_revisions s slug"
    | "rc_revisions t slug = rc_revisions s slug + 1" unfolding revision_counted_def by blast
  then show ?case
  proof cases
    case 1
    with d s_in show ?thesis by (intro exI [of _ d]) auto
  next
    case 2
    with d show ?thesis by (intro exI [of _ "Suc d"]) simp
  qed
qed simp

text \<open>
  C19. A receipt that was dismissed stays dismissed: a thread that looked at a session when it had no receipt,
  and was slow with the journals, finds that its receipt is refused and the table untouched if a
  receipt was accepted in between, also when that one is gone again. (Fewer than 2^64 changes lie in
  between, so the revision did not come round.)
\<close>

theorem dismissed_receipt_stays_dismissed:
  assumes "server_run sha ck workspace (s # pre @ s0 # post)" and "clock_ok ck" and "length (s # pre) < 2 ^ 64"
    and "map_of (rc_operations s0) slug = None" and "s1 \<in> set (s # pre)" and "map_of (rc_operations s1) slug \<noteq> None"
  shows "acceptLifecycleReconciliation ck workspace io slug (captureLifecycleOperation slug s0) op present view s = (Inr False, s)"
proof -
  from assms(1) have "server_run sha ck workspace ((s # pre) @ s0 # post)" by simp
  from revisions_since [OF this assms(2), of slug] obtain d where d: "d \<le> length (s # pre)"
    "rc_revisions s slug = rc_revisions s0 slug + of_nat d"
    "d = 0 \<longrightarrow> (\<forall>x \<in> set (s # pre). map_of (rc_operations x) slug = map_of (rc_operations s0) slug)" by auto
  with assms(4-6) have "d \<noteq> 0" by auto
  moreover have "d < 2 ^ 64" using d(1) assms(3) by linarith
  ultimately have "(of_nat d :: u64) \<noteq> 0" by (simp add: word_of_nat_eq_0_iff dvd_def) (metis less_one mult.commute nat_dvd_not_less dvd_triv_left neq0_conv)
  with d(2) have "rc_revisions s slug \<noteq> rc_revisions s0 slug" by simp
  with assms(4) have "capture_lost slug (captureLifecycleOperation slug s0) s"
    by (auto simp: capture_lost_def captureLifecycleOperation_def split: option.splits)
  then show ?thesis by (simp add: acceptLifecycleReconciliation_def)
qed

subsection \<open>Who may start\<close>

lemma replace_ok_entry:
  assumes "replaceLifecycleOperationLocked ck workspace io slug op s = (None, t)"
  shows "map_of (rc_operations t) slug = Some op \<and> (\<forall>x. x \<noteq> slug \<longrightarrow> map_of (rc_operations t) x = map_of (rc_operations s) x)"
  using replace_cases [OF assms] by (auto simp: AList.update_conv')

lemma start_commit_accepted:
  assumes "start_commit ck workspace io c op args s = (r, Some j, t)"
  shows "r = ReceiptResponse 202 op \<and> j = (op, args) \<and> \<not> rc_closing s \<and> \<not> capture_lost (lo_slug op) c s \<and>
    map_of (rc_operations t) (lo_slug op) = Some op"
  using assms replace_ok_entry unfolding start_commit_def
  by (fastforce split: if_split_asm prod.split_asm option.split_asm)

text \<open>
  What entitles a request to an operation: the receipt it retries, unchanged since, or a fresh start of a
  session whose target it names, over no journal, and over no receipt but a settled one or the failed
  one it was told to replace.
\<close>

definition retries :: "start_request \<Rightarrow> lifecycle_operation \<Rightarrow> lifecycle_operation \<Rightarrow> bool" where
  "retries q current op \<longleftrightarrow>
     lo_receipt current = st_expected q \<and> lo_kind current = st_kind q \<and> (lo_state current = ''failed'' \<or> lo_state current = ''paused'') \<and>
     lo_receipt op = lo_receipt current \<and> lo_attempt op = lo_attempt current + 1 \<and> lo_started op = lo_started current \<and>
     oo_journal (lo_options op) = oo_journal (lo_options current)"

text \<open>What a look found: the session of the summary is the operation's target, at the location it records.\<close>

definition aims_at :: "(string \<Rightarrow> string) \<Rightarrow> tracked_summary \<Rightarrow> track_stat \<Rightarrow> lifecycle_operation \<Rightarrow> bool" where
  "aims_at sha sm k op \<longleftrightarrow>
     lifecycleTargetIdentity sha (Some sm) k = Inr (oo_target (lo_options op)) \<and> oo_location (lo_options op) = sm_root sm"

text \<open>
  A retry continues the journal of its receipt, whose evidence the receipt recorded, or, when no journal was
  accepted, finds the session that the receipt names.
\<close>

definition retry_proved ::
  "(string \<Rightarrow> string) \<Rightarrow> look \<Rightarrow> look \<Rightarrow> lifecycle_progress option \<Rightarrow> lifecycle_operation \<Rightarrow> lifecycle_operation \<Rightarrow> bool" where
  "retry_proved sha l1 l2 progress current op \<longleftrightarrow>
     (case progress of
        Some p \<Rightarrow>
          lp_operation p = lo_kind current \<and> lp_journal p = oo_journal (lo_options current) \<and>
          lifecycleJournalEvidenceMatches sha l1 current p \<and> oo_expected (lo_options op) \<and> oo_evidence (lo_options op) = lp_evidence p \<and>
          oo_target (lo_options op) = oo_target (lo_options current)
      | None \<Rightarrow> \<not> oo_expected (lo_options current) \<and>
          (\<exists>sm. lk_find l2 = Inr sm \<and> aims_at sha sm (lk_stat l2) op \<and>
             (if lo_version current = 0 then \<not> legacy_mismatch sha sm (lk_before l2) current \<and> \<not> legacy_mismatch sha sm (lk_after l2) current
              else oo_target (lo_options op) = oo_target (lo_options current)) \<and>
             (lo_kind current = ''delete'' \<longrightarrow> oo_deleted_thread (lo_options op) = thread_of sm)))"

definition replaceable :: "start_request \<Rightarrow> lifecycle_operation option \<Rightarrow> bool" where
  "replaceable q current \<longleftrightarrow>
     (case current of
        None \<Rightarrow> True
      | Some x \<Rightarrow> lo_state x = ''complete'' \<or>
          (lo_state x = ''failed'' \<and> \<not> oo_expected (lo_options x) \<and> lo_receipt x = first_supersede q \<and> first_supersede q \<noteq> []))"

lemma retry_journal:
  "prepareLifecycleRetry sha l1 l2 op progress = Inr op1 \<Longrightarrow>
   oo_journal (lo_options op1) = oo_journal (lo_options op) \<and> lo_receipt op1 = lo_receipt op \<and> lo_attempt op1 = lo_attempt op \<and> lo_started op1 = lo_started op"
  by (auto simp: prepareLifecycleRetry_def applyProgressOptions_def map_options_def Let_def split: option.splits sum.splits if_splits)

lemma retry_proof:
  assumes "prepareLifecycleRetry sha l1 l2 current progress = Inr op1"
    and "lo_options op = (lo_options op1)\<lparr>oo_force := force\<rparr>"
  shows "retry_proved sha l1 l2 progress current op"
proof (cases progress)
  case (Some p)
  with assms show ?thesis
    by (auto simp: prepareLifecycleRetry_def retry_proved_def applyProgressOptions_def map_options_def Let_def split: if_split_asm)
next
  case None
  with assms obtain sm c where sm: "\<not> oo_expected (lo_options current)" "lk_find l2 = Inr sm"
    "validateLifecycleReceiptTarget sha sm l2 current = Inr c"
    by (auto simp: prepareLifecycleRetry_def split: if_split_asm sum.split_asm)
  then have c: "currentLifecycleTarget sha sm (lk_stat l2) = Inr c"
    "if lo_version current = 0 then \<not> legacy_mismatch sha sm (lk_before l2) current \<and> \<not> legacy_mismatch sha sm (lk_after l2) current
     else ts_target c = oo_target (lo_options current)"
    by (auto simp: validateLifecycleReceiptTarget_def Let_def split: if_split_asm sum.split_asm)
  then have "lifecycleTargetIdentity sha (Some sm) (lk_stat l2) = Inr (ts_target c)"
    by (auto simp: currentLifecycleTarget_def split: sum.split_asm)
  with None sm c assms show ?thesis
    by (auto simp: prepareLifecycleRetry_def retry_proved_def aims_at_def map_options_def Let_def split: if_split_asm)
qed

lemma admit_capture:
  assumes "start_admit q s = Inr c"
  shows "c = captureLifecycleOperation (st_slug q) s" and "\<not> rc_closing s"
  using assms by (auto simp: start_admit_def Let_def split: if_split_asm)

lemma admit_retry:
  assumes "start_admit q s = Inr c" and "st_expected q \<noteq> []"
  shows "cp_existed c \<and> lo_receipt (cp_operation c) = st_expected q \<and> lo_kind (cp_operation c) = st_kind q \<and>
    (lo_state (cp_operation c) = ''failed'' \<or> lo_state (cp_operation c) = ''paused'')"
  using assms unfolding start_admit_def Let_def by (simp split: if_split_asm)

lemma prove_fresh:
  assumes "start_prove sha l1 l2 l3 q c progress = Inr (op, o1, args)" and "st_expected q = []"
  shows "progress = None \<and> (cp_existed c \<longrightarrow> replaceable q (Some (cp_operation c))) \<and>
    (\<exists>sm. lk_find l3 = Inr sm \<and> lifecycleTargetIdentity sha (Some sm) (lk_stat l3) = Inr (oo_target (st_options q)) \<and>
       o1 = (st_options q)\<lparr>oo_location := sm_root sm\<rparr>)"
proof -
  let ?x = "cp_operation c"
  have guards: "progress = None" "\<not> (cp_existed c \<and> lo_state ?x \<noteq> ''complete'' \<and> oo_expected (lo_options ?x))"
    "first_supersede q \<noteq> [] \<Longrightarrow> cp_existed c \<and> lo_receipt ?x = first_supersede q \<and> lo_state ?x = ''failed''"
    "first_supersede q = [] \<Longrightarrow> cp_existed c \<Longrightarrow> lo_state ?x = ''complete''"
    and rest: "\<exists>sm. lk_find l3 = Inr sm \<and> (\<exists>v. validateLifecycleTarget sha sm (lk_stat l3) (oo_target (st_options q)) (st_kind q) = Inr v) \<and>
      o1 = (st_options q)\<lparr>oo_location := sm_root sm\<rparr>"
    using assms unfolding start_prove_def Let_def by (simp_all split: if_split_asm sum.split_asm)
  have "lifecycleTargetIdentity sha (Some sm) k = Inr x" if "validateLifecycleTarget sha sm k x kind = Inr v" for sm k x kind v
    using that by (auto simp: validateLifecycleTarget_def currentLifecycleTarget_def split: sum.split_asm if_split_asm)
  with rest have target: "\<exists>sm. lk_find l3 = Inr sm \<and> lifecycleTargetIdentity sha (Some sm) (lk_stat l3) = Inr (oo_target (st_options q)) \<and>
      o1 = (st_options q)\<lparr>oo_location := sm_root sm\<rparr>" by blast
  have "cp_existed c \<longrightarrow> replaceable q (Some ?x)" using guards(2-4) by (cases "first_supersede q = []") (auto simp: replaceable_def)
  with guards(1) target show ?thesis by blast
qed


subsection \<open>What a finished job may write\<close>

lemma outcome_attempt:
  "same_attempt (job_outcome ck now prep started result) started"
  "lo_state (job_outcome ck now prep started result) = (if result = JobDone then ''complete'' else ''failed'')"
  by (auto simp: job_outcome_def Let_def same_attempt_def split: job_result.splits option.splits)

lemma finish_progress_attempt:
  "same_attempt (finish_progress sha workspace io started c) d \<longleftrightarrow> same_attempt c d" "lo_state (finish_progress sha workspace io started c) = lo_state c"
  "lo_slug (finish_progress sha workspace io started c) = lo_slug c"
  by (auto simp: finish_progress_def same_attempt_def applyProgressOptions_def map_options_def Let_def split: sum.splits option.splits)

text \<open>
  The evidence a receipt has recorded for its journal stays, unless it is that of the prelude with which the
  command was started.
\<close>

definition keeps_evidence :: "lifecycle_operation \<Rightarrow> lifecycle_operation \<Rightarrow> lifecycle_operation \<Rightarrow> bool" where
  "keeps_evidence started current new \<longleftrightarrow>
     (let c = lo_options current; n = lo_options new in
      oo_journal n = oo_journal (lo_options started) \<and>
      (oo_expected c \<and> oo_journal c = oo_journal n \<and> oo_evidence c \<noteq> [] \<longrightarrow>
         oo_evidence n = oo_evidence c \<or> servicePreludePhase (lo_phase current) \<and> oo_evidence c = oo_evidence (lo_options started)))"

text \<open>A preparation of this attempt that was cancelled, or parked by a server that shuts down, speaks for itself.\<close>

definition parked :: "lifecycle_operation \<Rightarrow> receipts \<Rightarrow> bool" where
  "parked started s \<longleftrightarrow>
     (\<exists>p. map_of (rc_preparations s) (lo_slug started) = Some p \<and> ap_receipt p = lo_receipt started \<and> ap_attempt p = lo_attempt started \<and>
        (ap_state p = ''canceled'' \<or> rc_closing s \<and> ap_state p = ''paused''))"

text \<open>
  From one table to another, exactly the receipt of this attempt is settled. A receipt that is called complete
  has the options with which the command was started; a failed one has those it had, or options that keep
  the evidence it had.
\<close>

definition settled_as :: "lifecycle_operation \<Rightarrow> bool \<Rightarrow> lifecycle_operation \<Rightarrow> lifecycle_operation \<Rightarrow> bool" where
  "settled_as started failed current new \<longleftrightarrow>
     same_attempt new started \<and>
     (lo_state new = ''complete'' \<and> \<not> failed \<and> lo_options new = lo_options started \<or>
      lo_state new = ''failed'' \<and> (lo_options new = lo_options current \<or> failed \<and> keeps_evidence started current new))"

definition settles :: "lifecycle_operation \<Rightarrow> bool \<Rightarrow> receipts \<Rightarrow> receipts \<Rightarrow> bool" where
  "settles started failed s t \<longleftrightarrow>
     (\<forall>x. x \<noteq> lo_slug started \<longrightarrow> map_of (rc_operations t) x = map_of (rc_operations s) x) \<and>
     (case map_of (rc_operations s) (lo_slug started) of
        None \<Rightarrow> map_of (rc_operations t) (lo_slug started) = None
      | Some current \<Rightarrow>
          if same_attempt current started \<and> \<not> parked started s
          then \<exists>new. map_of (rc_operations t) (lo_slug started) = Some new \<and> settled_as started failed current new
          else map_of (rc_operations t) (lo_slug started) = Some current \<or>
            (parked started s \<and> same_attempt current started \<and>
             (\<exists>new. map_of (rc_operations t) (lo_slug started) = Some new \<and> settled_as started failed current new)))"

lemma finish_record_settles:
  assumes "finish_record sha ck workspace io started failed completed s = (e, t)" and "same_attempt completed started"
    and "lo_state completed = (if failed then ''failed'' else ''complete'')"
    and "oo_journal (lo_options completed) = oo_journal (lo_options started)" and "\<not> failed \<longrightarrow> lo_options completed = lo_options started"
  shows "if e = None then settles started failed s t else rc_operations t = rc_operations s"
proof (cases "map_of (rc_operations s) (lo_slug started)")
  case None
  with assms(1) show ?thesis unfolding finish_record_def Let_def by (auto simp: settles_def split: if_split_asm)
next
  case (Some current)
  have same: "same_attempt current completed \<longleftrightarrow> same_attempt current started" using assms(2) by (auto simp: same_attempt_def)
  consider "t = s" "e = None" "parked started s \<or> \<not> same_attempt current started" | "t = s" "e \<noteq> None"
    | u x where "same_attempt current started" "\<not> (failed \<and> evidence_replaced started completed current)"
      "replaceLifecycleOperationLocked ck workspace (fi_save io) (lo_slug started) completed s = (x, u)" "same_table u t" "e = x"
    using assms(1,2) Some unfolding finish_record_def Let_def
    by (auto simp: same parked_def prep_matches_def Let_def same_attempt_def split: if_split_asm prod.split_asm option.split_asm)
  then show ?thesis
  proof cases
    case 3
    have "settled_as started failed current completed"
      using 3(2) assms(2-5) by (auto simp: settled_as_def keeps_evidence_def evidence_replaced_def Let_def)
    with 3 Some replace_cases [OF 3(3)] show ?thesis
      by (auto simp: settles_def same_table_def AList.update_conv')
  qed (auto simp: settles_def Some)
qed

lemma finish_unsaved_settles:
  assumes "same_attempt completed started" and "lo_slug completed = lo_slug started"
  shows "settles started failed s (finish_unsaved ck now completed s)"
  using assms
  by (auto simp: finish_unsaved_def Let_def settles_def settled_as_def same_attempt_def AList.update_conv' split: option.splits)

lemma outcome_fields: 
  "lo_slug (job_outcome ck now prep started result) = lo_slug started"
  "lo_options (job_outcome ck now prep started result) = lo_options started"
  by (auto simp: job_outcome_def Let_def split: job_result.splits option.splits)

lemma finish_progress_journal:
  "oo_journal (lo_options (finish_progress sha workspace io started c)) = oo_journal (lo_options c)"
  by (auto simp: finish_progress_def applyProgressOptions_def bindLifecycleJournalTarget_def map_options_def Let_def
    split: sum.splits option.splits)

text \<open>
  C20. The end of a command settles its own attempt and nothing else. Whatever it returned, whatever other
  threads did meanwhile and whatever could not be saved: in the section that has the last word (that which
  records the outcome, or that which follows its failure) no receipt of another session changes, and the
  session's receipt is settled if it is still this receipt and this attempt (and its preparation was not
  cancelled or parked), and stays as it is if it is a newer one or was dismissed. It is settled as complete
  only if the command succeeded, then with the options with which the command was started; a failure
  never replaces the evidence that an observer recorded for the journal, but for that of the prelude the
  command started with.
\<close>

theorem outcome_settles_its_attempt:
  "\<exists>v. (v = before s \<or> (\<exists>w. rc_operations w = rc_operations (before s) \<and> v = between w)) \<and>
     settles started (result \<noteq> JobDone) v (finishLifecycleJob sha ck workspace io started result before between s)"
proof -
  let ?c0 = "job_outcome ck (fi_now io) (map_of (rc_preparations s) (lo_slug started)) started result"
  let ?c1 = "if result = JobDone then ?c0 else finish_progress sha workspace io started ?c0"
  have a: "same_attempt ?c0 started" "same_attempt ?c1 started" "lo_slug ?c0 = lo_slug started" "lo_slug ?c1 = lo_slug started"
    "lo_state ?c1 = (if result \<noteq> JobDone then ''failed'' else ''complete'')"
    "oo_journal (lo_options ?c1) = oo_journal (lo_options started)" "\<not> result \<noteq> JobDone \<longrightarrow> lo_options ?c1 = lo_options started"
    by (simp_all add: outcome_attempt outcome_fields finish_progress_attempt finish_progress_journal)
  show ?thesis
  proof (cases "fi_gate io")
    case (Some e)
    with finish_unsaved_settles [OF a(1,3)] show ?thesis by (intro exI [of _ "before s"]) (simp add: finishLifecycleJob_def Let_def)
  next
    case gate: None
    obtain e t where r: "finish_record sha ck workspace io started (result \<noteq> JobDone) ?c1 (before s) = (e, t)" by fastforce
    note rec = finish_record_settles [OF r a(2,5,6,7)]
    show ?thesis
    proof (cases e)
      case None
      with gate r rec show ?thesis by (intro exI [of _ "before s"]) (simp add: finishLifecycleJob_def Let_def)
    next
      case (Some x)
      with rec have "rc_operations t = rc_operations (before s)" by simp
      with Some gate r finish_unsaved_settles [OF a(2,4), of "result \<noteq> JobDone" "between t" ck "fi_now io"] show ?thesis
        by (intro exI [of _ "between t"]) (auto simp: finishLifecycleJob_def Let_def)
    qed
  qed
qed

subsection \<open>Samples\<close>

definition save_ok :: save_io where "save_ok = \<lparr>sv_mkdir = None, sv_dir = owner_dir, sv_chmod = None, sv_replace = io_success\<rparr>"
definition accept_ok :: accept_io where "accept_ok = \<lparr>ai_save = save_ok, ai_remove = None, ai_now = 0\<rparr>"

definition empty_table :: receipts where
  "empty_table = \<lparr>rc_operations = [], rc_durable = None, rc_revisions = (\<lambda>_. 0), rc_snapshots = [], rc_preparations = [], rc_closing = False\<rparr>"

definition interrupted :: lifecycle_operation where
  "interrupted = fst (proposeLifecycleOperation hex_sha sample_clock quiet_env ''demo'' discovered True (Inr None) 0)"

text \<open>A journal is discovered, is gone at the next look, and the failed receipt is dismissed.\<close>

definition table_1 :: receipts where
  "table_1 = snd (acceptLifecycleReconciliation sample_clock ''/w'' accept_ok ''demo'' (captureLifecycleOperation ''demo'' empty_table)
     discovered True discovered empty_table)"

definition table_2 :: receipts where
  "table_2 = snd (acceptLifecycleReconciliation sample_clock ''/w'' accept_ok ''demo'' (captureLifecycleOperation ''demo'' table_1)
     interrupted True interrupted table_1)"

definition table_3 :: receipts where
  "table_3 = snd (dismissLifecycleOperation sample_clock ''/w'' accept_ok ''demo'' jid (interrupted, True, []) table_2)"

lemma sample_clock_ok: "clock_ok sample_clock"
  by (simp add: clock_ok_def sample_clock_def noon_def)

lemma reconcile_step:
  assumes "old \<in> h"
    and "proposeLifecycleOperation sha ck env slug (cp_operation (captureLifecycleOperation slug old)) (cp_existed (captureLifecycleOperation slug old)) found now = (op, present, e)"
  shows "server_step sha ck workspace h s (snd (acceptLifecycleReconciliation ck workspace io slug (captureLifecycleOperation slug old) op present view s))"
  by (rule server_step.reconcile [OF assms(1) refl assms(2)]) (rule prod.collapse [symmetric])

lemma step_1: "server_step hex_sha sample_clock ''/w'' (set [empty_table]) empty_table table_1"
proof -
  have c: "captureLifecycleOperation ''demo'' empty_table = \<lparr>cp_operation = zero_operation, cp_existed = False, cp_revision = 0\<rparr>"
    by (simp add: captureLifecycleOperation_def empty_table_def)
  show ?thesis
    unfolding table_1_def by (rule reconcile_step) (simp, simp only: c capture.simps, rule sample_discovery)
qed

lemma capture_1: "captureLifecycleOperation ''demo'' table_1 = \<lparr>cp_operation = discovered, cp_existed = True, cp_revision = rc_revisions table_1 ''demo''\<rparr>"
proof -
  have "map_of (rc_operations table_1) ''demo'' = Some discovered" by code_simp
  then show ?thesis by (simp add: captureLifecycleOperation_def)
qed

lemma step_2: "server_step hex_sha sample_clock ''/w'' (set [table_1, empty_table]) table_1 table_2"
proof -
  have "proposeLifecycleOperation hex_sha sample_clock quiet_env ''demo'' discovered True (Inr None) 0 = (interrupted, True, None)" by code_simp
  then have "proposeLifecycleOperation hex_sha sample_clock quiet_env ''demo'' (cp_operation (captureLifecycleOperation ''demo'' table_1))
      (cp_existed (captureLifecycleOperation ''demo'' table_1)) (Inr None) 0 = (interrupted, True, None)"
    by (simp only: capture_1 capture.simps)
  then show ?thesis unfolding table_2_def by (rule reconcile_step [rotated]) simp
qed

lemma step_3: "server_step hex_sha sample_clock ''/w'' h table_2 table_3"
  unfolding table_3_def by (rule server_step.dismiss) (rule prod.collapse [symmetric])

lemma run_sample:
  "server_run hex_sha sample_clock ''/w'' [table_1, empty_table]" "server_run hex_sha sample_clock ''/w'' [table_3, table_2, table_1, empty_table]"
proof -
  have 0: "server_run hex_sha sample_clock ''/w'' [empty_table]"
    by (rule reach_init) (simp add: server_init_def booted_def empty_table_def)
  have next': "server_run hex_sha sample_clock ''/w'' (t # s # r)"
    if "server_run hex_sha sample_clock ''/w'' (s # r)" "server_step hex_sha sample_clock ''/w'' (set (s # r)) s t" for s t r
    using that by (intro reach_step [OF that(1), where e = "()"]) (auto simp: server_next_def)
  show 1: "server_run hex_sha sample_clock ''/w'' [table_1, empty_table]" by (rule next' [OF 0 step_1])
  show "server_run hex_sha sample_clock ''/w'' [table_3, table_2, table_1, empty_table]" by (rule next' [OF next' [OF 1 step_2] step_3])
qed

theorem receipts_reload_witness:
  "\<exists>p. rc_durable table_1 = Some p \<and> loadWithDirectoryRepair sample_clock ''/w'' False (stored_view p) = Inr [(''demo'', discovered)]"
proof -
  have d: "rc_durable table_1 = Some (payload_of ''/w'' [(''demo'', discovered)])" by code_simp
  have r: "restarted_map (payload_of ''/w'' [(''demo'', discovered)]) = [(''demo'', discovered)]" by code_simp
  from receipts_reload [OF run_sample(1) sample_clock_ok _ d] d r show ?thesis by simp
qed

theorem dismissed_receipt_stays_dismissed_witness:
  "map_of (rc_operations empty_table) ''demo'' = None \<and> map_of (rc_operations table_1) ''demo'' \<noteq> None \<and>
   map_of (rc_operations table_3) ''demo'' = None \<and>
   acceptLifecycleReconciliation sample_clock ''/w'' accept_ok ''demo'' (captureLifecycleOperation ''demo'' empty_table) discovered True discovered
     table_3 = (Inr False, table_3)"
proof -
  have m: "map_of (rc_operations empty_table) ''demo'' = None" "map_of (rc_operations table_1) ''demo'' \<noteq> None"
    "map_of (rc_operations table_3) ''demo'' = None" by code_simp+
  have "server_run hex_sha sample_clock ''/w'' (table_3 # [table_2, table_1] @ empty_table # [])" using run_sample(2) by simp
  from dismissed_receipt_stays_dismissed [OF this sample_clock_ok _ m(1) _ m(2)] m show ?thesis by simp
qed

end
