(* ===== verification/Web_Capacity.thy ===== *)
theory Web_Capacity
  imports Web_Server "HOL-Library.Multiset" "HOL-Library.Code_Target_Nat"
begin

text \<open>
  How large the receipt file gets: the size of the indented JSON text, what the reservation made before an
  operation starts guarantees for its outcome, and where it falls short.
\<close>

subsection \<open>Sizes\<close>

text \<open>A member with the comma or bracket that follows it.\<close>

definition member_size :: "nat \<Rightarrow> string \<times> json \<Rightarrow> nat" where
  "member_size d m = length (line (Suc d)) + length (json_string (fst m)) + 2 + length (json_indent (Suc d) (snd m)) + 1"

definition members_size :: "nat \<Rightarrow> (string \<times> json) list \<Rightarrow> nat" where
  "members_size d ms = sum_list (map (member_size d) ms)"

lemma members_size_simps [simp]:
  "members_size d [] = 0" "members_size d (m # ms) = member_size d m + members_size d ms"
  "members_size d (xs @ ys) = members_size d xs + members_size d ys"
  by (simp_all add: members_size_def)

lemma sum_list_Suc: "sum_list (map (\<lambda>x. f x + 1) xs) = sum_list (map f xs) + length xs" for f :: "'a \<Rightarrow> nat"
  by (induction xs) auto

lemma object_size: "ms \<noteq> [] \<Longrightarrow> length (json_indent d (JObj ms)) = members_size d ms + 1 + length (line d)"
proof (cases ms)
  case (Cons m ms')
  have "members_size d ms = sum_list (map (\<lambda>p. length (line (Suc d)) + length (json_string (fst p)) + 2 + length (json_indent (Suc d) (snd p))) ms) + length ms"
    unfolding members_size_def sum_list_Suc [symmetric] by (rule arg_cong [of _ _ sum_list], rule map_cong) (simp_all add: member_size_def)
  then show ?thesis by (simp add: Cons length_join_with comp_def add_ac)
qed simp

definition element_size :: "nat \<Rightarrow> json \<Rightarrow> nat" where
  "element_size d j = length (line (Suc d)) + length (json_indent (Suc d) j) + 1"

lemma array_size: "xs \<noteq> [] \<Longrightarrow> length (json_indent d (JArr xs)) = sum_list (map (element_size d) xs) + 1 + length (line d)"
proof (cases xs)
  case (Cons x xs')
  have "sum_list (map (element_size d) xs) = sum_list (map (\<lambda>j. length (line (Suc d)) + length (json_indent (Suc d) j)) xs) + length xs"
    unfolding sum_list_Suc [symmetric] by (rule arg_cong [of _ _ sum_list], rule map_cong) (simp_all add: element_size_def)
  then show ?thesis by (simp add: Cons length_join_with comp_def add_ac)
qed simp

text \<open>The file: what surrounds the records, and the records.\<close>

definition record_size :: "lifecycle_operation \<Rightarrow> nat" where
  "record_size op = element_size 1 (JObj (operation_members op))"

definition frame_size :: "string \<Rightarrow> nat" where
  "frame_size workspace =
     members_size 0 [(''schema'', JInt lifecycleOperationStoreSchema), (''workspace'', JStr workspace), (''operations'', JArr [])] + 1 + length (line 0) + length nl"

lemma payload_size:
  assumes "ops \<noteq> []"
  shows "length (payload_text (payload_of workspace ops)) + 1 = frame_size workspace + sum_list (map (\<lambda>x. record_size (snd x)) ops) + length (line 1)"
proof -
  let ?xs = "map (\<lambda>op. JObj (operation_members op)) (sort_key lo_slug (map snd ops))"
  have ne: "?xs \<noteq> []" using assms by (metis map_is_Nil_conv set_empty set_sort)
  have "map (element_size 1) ?xs = map record_size (sort_key lo_slug (map snd ops))" by (simp add: record_size_def)
  then have "sum_list (map (element_size 1) ?xs) = sum_list (map record_size (sort_key lo_slug (map snd ops)))" by (rule arg_cong)
  also have "\<dots> = sum_list (map record_size (map snd ops))"
    by (metis mset_map mset_sort sum_mset_sum_list)
  finally have "sum_list (map (element_size 1) ?xs) = sum_list (map (\<lambda>x. record_size (snd x)) ops)" by (simp add: comp_def)
  with array_size [OF ne, of 1] show ?thesis
    by (simp add: payload_text_def payload_json_def payload_of_def object_size frame_size_def member_size_def)
qed

text \<open>The parts of a record that an outcome changes.\<close>

lemma text_size: "members_size d (omit_text k v) = (if v = [] then 0 else length (line (Suc d)) + length (json_string k) + 5 + length (esc_string v))"
  by (simp add: omit_text_def omit_def member_size_def json_string_def)

lemma record_size_members: "record_size op = members_size 2 (operation_members op) + 2 + 2 * length (line 2)"
  by (simp add: record_size_def element_size_def object_size operation_members_def numeral_2_eq_2)

lemma esc_string_nonempty: "s \<noteq> [] \<Longrightarrow> esc_string s \<noteq> []"
  by (subst esc_string.simps) (auto simp: rune_width_def)

lemma text_size_mono:
  "length (esc_string v) \<le> length (esc_string w) \<Longrightarrow> members_size d (omit_text k v) \<le> members_size d (omit_text k w)"
  using esc_string_nonempty [of v] by (cases "w = []") (auto simp: text_size)

lemma record_size_mono:
  assumes "op' = op\<lparr>lo_updated := u, lo_finished := f, lo_error := e\<rparr>"
    and "length (esc_string u) \<le> length (esc_string (lo_updated op))" "length (esc_string f) \<le> length (esc_string (lo_finished op))"
    and "length (esc_string e) \<le> length (esc_string (lo_error op))"
  shows "record_size op' \<le> record_size op"
  using text_size_mono [OF assms(2)] text_size_mono [OF assms(3)] text_size_mono [OF assms(4)]
  unfolding record_size_members operation_members_def assms(1) by (simp add: add_mono)

lemma sum_update:
  assumes "distinct (map fst al)"
  shows "sum_list (map g (AList.update k v al)) = (g (k, v) :: nat) + sum_list (map g (AList.delete k al))"
  using assms
proof (induction al)
  case (Cons p al)
  show ?case
  proof (cases "fst p = k")
    case True
    with Cons.prems have "AList.delete k al = al" by (intro AList.delete_id) (force simp: image_iff)
    with True show ?thesis by (cases p) (simp add: AList.delete_eq)
  next
    case False
    with Cons show ?thesis by (cases p) (simp add: AList.delete_eq)
  qed
qed (simp add: AList.delete_eq)

subsection \<open>Escaping ASCII\<close>

lemma rune_width_ascii: "byte_of c < 128 \<Longrightarrow> rune_width (c # s) = 1"
  by (simp add: rune_width_def)

lemma esc_replicate: "byte_of c < 128 \<Longrightarrow> length (esc_string (replicate n c)) = n * length (esc_ascii c)"
  by (induction n) (simp_all add: esc_string.simps)

lemma valid_replicate: "byte_of c < 128 \<Longrightarrow> ValidString (replicate n c)"
proof (induction n)
  case (Suc n)
  then show ?case by (subst ValidString.simps) (simp add: rune_width_ascii)
qed simp

lemma reserved_size: "length (esc_string reserved) = 4096" "error_ok reserved" "reserved \<noteq> []"
proof -
  have b: "byte_of (CHR ''x'') < 128" "length (esc_ascii (CHR ''x'')) = 1" by code_simp+
  show "length (esc_string reserved) = 4096" "error_ok reserved" "reserved \<noteq> []"
    using b esc_replicate [of "CHR ''x''" 4096] valid_replicate [of "CHR ''x''" 4096]
    by (simp_all add: reserved_def maxLifecycleOperationErrorBytes_def error_ok_def)
qed

subsection \<open>What the reservation guarantees\<close>

text \<open>The receipts that are reserved for: a running one with its error at its longest, and the one about to start.\<close>

definition worst_running :: "lifecycle_operation \<Rightarrow> lifecycle_operation" where
  "worst_running op = (if lo_state op = ''running'' then op\<lparr>lo_state := ''failed'', lo_error := reserved\<rparr> else op)"

definition worst_outcome :: "clock \<Rightarrow> int \<Rightarrow> lifecycle_operation \<Rightarrow> lifecycle_operation" where
  "worst_outcome ck now started = started\<lparr>lo_state := ''failed'', lo_finished := ck_format ck now, lo_error := reserved\<rparr>"

lemma reservation_encodes:
  assumes "canPersistTerminalOutcomes ck workspace ops slug started now = None"
  shows "\<exists>data. store_encode ck workspace
    (AList.update slug (worst_outcome ck now started) (map (\<lambda>x. (fst x, worst_running (snd x))) ops)) = Inr data"
  using assms by (auto simp: canPersistTerminalOutcomes_def Let_def worst_outcome_def worst_running_def split: sum.splits)

text \<open>A table that is smaller entry by entry can be encoded too.\<close>

definition no_larger :: "clock \<Rightarrow> lifecycle_operation \<Rightarrow> lifecycle_operation \<Rightarrow> bool" where
  "no_larger ck op' op \<longleftrightarrow> valid_receipt ck op' \<and> record_size op' \<le> record_size op"

lemma encode_smaller:
  assumes "store_encode ck workspace ops = Inr data" and "list_all2 (\<lambda>x y. no_larger ck (snd x) (snd y)) ops' ops" and "ops \<noteq> []"
  shows "\<exists>data. store_encode ck workspace ops' = Inr data"
proof -
  from assms(2) have "sum_list (map (\<lambda>x. record_size (snd x)) ops') \<le> sum_list (map (\<lambda>x. record_size (snd x)) ops) \<and>
      (\<forall>x \<in> set ops'. valid_receipt ck (snd x)) \<and> length ops' = length ops \<and> (ops' = [] \<longleftrightarrow> ops = [])"
    by (induction rule: list_all2_induct) (auto simp: no_larger_def)
  then have sum: "sum_list (map (\<lambda>x. record_size (snd x)) ops') \<le> sum_list (map (\<lambda>x. record_size (snd x)) ops)"
    and valid: "first_error (map (\<lambda>x. validateLifecycleOperation ck (snd x)) ops') = None"
    and len: "length ops' = length ops" "ops' \<noteq> []" using assms(3) by (auto simp: first_error_None valid_receipt_def)
  have "length (payload_text (payload_of workspace ops')) \<le> length (payload_text (payload_of workspace ops))"
    using payload_size [OF assms(3), of workspace] payload_size [OF len(2), of workspace] sum by simp
  with valid show ?thesis
    using store_encode_ok(2,3,4) [OF assms(1)] len by (simp add: store_encode_def Let_def)
qed

lemma update_smaller:
  assumes "list_all2 (\<lambda>x y. fst x = fst y \<and> P (snd x) (snd y)) xs ys" and "P v w"
  shows "list_all2 (\<lambda>x y. fst x = fst y \<and> P (snd x) (snd y)) (AList.update k v xs) (AList.update k w ys)"
  using assms(1)
proof (induction rule: list_all2_induct)
  case (Cons x xs y ys)
  then show ?case using assms(2) by (cases x; cases y) auto
qed (use assms(2) in simp)

text \<open>A running receipt whose own error is short is smaller than what is reserved for it.\<close>

lemma running_no_larger:
  assumes "valid_receipt ck op" and "lo_state op = ''running'' \<longrightarrow> length (esc_string (lo_error op)) < 4096"
  shows "no_larger ck op (worst_running op)"
proof (cases "lo_state op = ''running''")
  case True
  have st: "length (esc_string ''running'') = Suc (length (esc_string ''failed''))" by code_simp
  have e: "members_size 2 (omit_text ''error'' (lo_error op)) < members_size 2 (omit_text ''error'' reserved)"
    using True assms(2) reserved_size by (simp add: text_size)
  have "record_size op \<le> record_size (worst_running op)"
    using True st e unfolding record_size_members operation_members_def
    by (simp add: worst_running_def member_size_def json_string_def)
  with assms(1) show ?thesis by (simp add: no_larger_def)
next
  case False
  with assms(1) show ?thesis by (simp add: no_larger_def worst_running_def)
qed

text \<open>An outcome writes some fields of the receipt; this is how much they may grow within the reserved error text.\<close>

lemma outcome_size:
  assumes op: "op' = op\<lparr>lo_state := st, lo_phase := ph, lo_updated := u, lo_finished := f, lo_error := e, lo_code := c\<rparr>"
    and "lo_phase op \<noteq> []" "lo_updated op \<noteq> []" "lo_finished op \<noteq> []" "lo_error op \<noteq> []" "lo_state op = ''failed''"
    and "length (esc_string st) \<le> 8" "length (esc_string ph) \<le> length (esc_string (lo_phase op)) + 20" "length (esc_string u) \<le> length (esc_string (lo_updated op)) + 10"
    and "length (esc_string f) \<le> length (esc_string (lo_finished op)) + 10" "c = lo_code op \<or> c = ''target_changed''"
    and "length (esc_string e) + 96 \<le> length (esc_string (lo_error op))"
  shows "record_size op' \<le> record_size op"
proof -
  have l: "length (line 3) = 7" "length (esc_string ''failed'') = 6" "length (esc_string ''target_changed'') = 14" "length (json_string ''code'') = 6"
    by code_simp+
  have code: "members_size 2 (omit_text ''code'' c) \<le> members_size 2 (omit_text ''code'' (lo_code op)) + 32"
    using assms(11) l by (auto simp: text_size numeral_3_eq_3 numeral_2_eq_2)
  have rest: "members_size 2 (omit_text k x) \<le> members_size 2 (omit_text k y) + (length (esc_string x) - length (esc_string y))" if "y \<noteq> []" for k x y
    using that by (auto simp: text_size)
  have err: "members_size 2 (omit_text ''error'' e) + 96 \<le> members_size 2 (omit_text ''error'' (lo_error op))"
    using assms(5,12) by (auto simp: text_size)
  show ?thesis
    using code err rest [OF assms(2), of "''phase''" ph] rest [OF assms(3), of "''updatedAt''" u] rest [OF assms(4), of "''finishedAt''" f] assms(6-10) l(2)
    unfolding record_size_members operation_members_def op
    by (simp add: member_size_def json_string_def)
qed

text \<open>The times are written as \<open>time.RFC3339Nano\<close> in UTC writes them: the fraction has up to nine digits, or is left out.\<close>

definition utc_texts :: "clock \<Rightarrow> bool" where
  "utc_texts ck \<longleftrightarrow> (\<forall>t. 20 \<le> length (esc_string (ck_format ck t)) \<and> length (esc_string (ck_format ck t)) \<le> 30)"

lemma outcome_no_larger:
  assumes ck: "clock_ok ck" "utc_texts ck" and worst: "valid_receipt ck (worst_outcome ck now started)"
    and "lo_updated started = ck_format ck at" "lo_error started = []"
    and msg: "\<And>m. result = JobFailed m \<Longrightarrow> length (esc_string (boundedLifecycleError m)) \<le> 4000"
  shows "no_larger ck (job_outcome ck later prep started result) (worst_outcome ck now started)"
proof -
  let ?op = "job_outcome ck later prep started result" and ?worst = "worst_outcome ck now started"
  have long: "length (esc_string ''complete'') = 8" "length (esc_string ''failed'') = 6" "length (esc_string ''lead_fixing_blockers'') = 20"
    "length (esc_string ''checking'') = 8" "length (esc_string (boundedLifecycleError target_changed_text)) \<le> 4000" "esc_string [] = []"
    by code_simp+
  have phases: "phase_ok ''checking''" "phase_ok ''lead_fixing_blockers''" by code_simp+
  have op: "?op = ?worst\<lparr>lo_state := lo_state ?op, lo_phase := lo_phase ?op, lo_updated := lo_updated ?op, lo_finished := lo_finished ?op,
      lo_error := lo_error ?op, lo_code := lo_code ?op\<rparr>"
    by (auto simp: job_outcome_def worst_outcome_def Let_def split: job_result.splits option.splits)
  have t: "20 \<le> length (esc_string (ck_format ck x))" "length (esc_string (ck_format ck x)) \<le> 30" for x using ck(2) by (simp_all add: utc_texts_def)
  then have ne: "ck_format ck x \<noteq> []" for x using long(6) by (metis list.size(3) not_numeral_le_zero)
  have fields: "lo_updated ?op = ck_format ck later" "lo_finished ?op = ck_format ck later"
    "lo_state ?op = ''complete'' \<or> lo_state ?op = ''failed''"
    "lo_phase ?op \<in> {lo_phase started, ''complete'', ''checking'', ''lead_fixing_blockers''}"
    "lo_code ?op = lo_code started \<or> lo_code ?op = ''target_changed''"
    "lo_error ?op \<in> {[]} \<union> {boundedLifecycleError m | m. result = JobFailed m \<or> m = target_changed_text}"
    using assms(5) by (auto simp: job_outcome_def Let_def split: job_result.splits option.splits)
  have err: "length (esc_string (lo_error ?op)) \<le> 4000" "error_ok (lo_error ?op)"
    using fields(6) msg long(5,6) bounded_error_ok plain_text(7) by auto
  have code: "lo_code started = [] \<or> lo_code started = ''target_changed''" "phase_ok (lo_phase started)"
    using worst by (simp_all add: valid_receipt_iff worst_outcome_def)
  have parts: "state_ok (lo_state ?op)" "phase_ok (lo_phase ?op)" "lo_code ?op = [] \<or> lo_code ?op = ''target_changed''"
    "ck_parse ck (lo_updated ?op) \<noteq> None" "ck_parse ck (lo_finished ?op) \<noteq> None"
    using fields code ck(1) phases plain_text(3,4,5) by (auto simp: clock_ok_def)
  have frame: "valid_receipt ck (?worst\<lparr>lo_state := st, lo_phase := ph, lo_updated := u, lo_finished := f, lo_error := e, lo_code := c\<rparr>)"
    if "state_ok st" "phase_ok ph" "c = [] \<or> c = ''target_changed''" "ck_parse ck u \<noteq> None" "ck_parse ck f \<noteq> None" "error_ok e" for st ph u f e c
    using worst that unfolding valid_receipt_iff by simp
  have valid: "valid_receipt ck ?op"
    by (subst op, rule frame [OF parts err(2)])
  have "lo_phase ?worst \<noteq> []" using worst by (auto simp: valid_receipt_iff phase_ok_def)
  with t ne reserved_size assms(4) fields err(1) long have "record_size ?op \<le> record_size ?worst"
    by (intro outcome_size [OF op]) (auto simp: worst_outcome_def intro: order_trans [OF t(2)] order_trans [OF _ add_right_mono [OF t(1)]])
  with valid show ?thesis by (simp add: no_larger_def)
qed

text \<open>
  C28. The outcome of an operation that was let in can be recorded, however its command ends, whatever its
  preparation says and whichever operations still run: when the reservation succeeded, the file takes the
  receipt with the outcome beside the receipts as they were when the operation was let in. It takes an
  error text whose JSON form has at most 4,000 bytes (\<open>reservation_underestimates\<close> shows that 4,096 bytes of
  text may need more than what is reserved), running receipts whose own error is shorter than 4,096 bytes
  in JSON, and a command that ends without a journal whose progress the receipt would take over.
\<close>

theorem outcome_fits_reservation:
  assumes "clock_ok ck" and "utc_texts ck"
    and "\<forall>x \<in> set ops. valid_receipt ck (snd x) \<and> (lo_state (snd x) = ''running'' \<longrightarrow> length (esc_string (lo_error (snd x))) < 4096)"
    and "canPersistTerminalOutcomes ck workspace ops slug started now = None"
    and "lo_updated started = ck_format ck at" and "lo_error started = []"
    and "\<And>m. result = JobFailed m \<Longrightarrow> length (esc_string (boundedLifecycleError m)) \<le> 4000"
  shows "\<exists>data. store_encode ck workspace
    (AList.update slug (job_outcome ck later prep started result) (AList.update slug started ops)) = Inr data"
proof -
  let ?worst = "worst_outcome ck now started" and ?op = "job_outcome ck later prep started result"
  let ?ops = "map (\<lambda>x. (fst x, worst_running (snd x))) ops"
  from reservation_encodes [OF assms(4)] obtain data where enc: "store_encode ck workspace (AList.update slug ?worst ?ops) = Inr data" by blast
  have "(slug, ?worst) \<in> set (AList.update slug ?worst ?ops)"
    by (rule map_of_SomeD) (simp add: AList.update_conv')
  with store_encode_ok(1) [OF enc] have "valid_receipt ck ?worst" by fastforce
  then have out: "no_larger ck ?op ?worst" using assms(1,2,5-7) by (intro outcome_no_larger)
  have "list_all2 (\<lambda>x y. fst x = fst y \<and> no_larger ck (snd x) (snd y)) ops ?ops"
    using assms(3) by (auto simp: list_all2_conv_all_nth intro: running_no_larger)
  from update_smaller [OF this out] have "list_all2 (\<lambda>x y. no_larger ck (snd x) (snd y)) (AList.update slug ?op ops) (AList.update slug ?worst ?ops)"
    by (rule list_all2_mono) simp
  with enc have "\<exists>data. store_encode ck workspace (AList.update slug ?op ops) = Inr data" 
    by (rule encode_smaller) (metis AList.update_nonempty)
  then show ?thesis by simp
qed

subsection \<open>Where it falls short\<close>

definition slug_of :: "nat \<Rightarrow> string" where "slug_of i = [char_of (97 + i div 26), char_of (97 + i mod 26)]"

definition filled :: "string \<Rightarrow> string \<Rightarrow> lifecycle_operation" where
  "filled s e = zero_operation\<lparr>lo_slug := s, lo_kind := ''delete'', lo_state := ''failed'', lo_phase := ''starting'', lo_started := noon,
     lo_updated := noon, lo_finished := noon, lo_error := e, lo_redirect := ''/'', lo_receipt := jid, lo_version := 2, lo_attempt := 1,
     lo_options := zero_options\<lparr>oo_target := jid, oo_location := ''work'', oo_journal := jid\<rparr>\<rparr>"

definition full_store :: "operation_map" where
  "full_store = map (\<lambda>i. (slug_of i, filled (slug_of i) reserved)) [0 ..< 54]"

lemma filled_size:
  assumes "e \<noteq> []" and "s \<noteq> []"
  shows "record_size (filled s e) = record_size (filled ''a'' ''a'') - 2 + length (esc_string s) + length (esc_string e)"
proof -
  have a: "length (esc_string ''a'') = 1" by code_simp
  show ?thesis
    using assms a unfolding record_size_members operation_members_def by (simp add: filled_def text_size)
qed

lemma base_sizes: "record_size (filled ''a'' ''a'') = 659" "frame_size ''/w'' = 59" "length (line 1) = 3"
  by code_simp+

lemma slugs_ok: "list_all (\<lambda>i. ValidSlug (slug_of i) \<and> length (esc_string (slug_of i)) = 2 \<and> slug_of i \<noteq> []) [0 ..< 55]" "distinct (map slug_of [0 ..< 55])"
  by code_simp+

lemma slug_ok: "i < 55 \<Longrightarrow> ValidSlug (slug_of i)" "i < 55 \<Longrightarrow> length (esc_string (slug_of i)) = 2" "slug_of i \<noteq> []"
  using slugs_ok(1) by (simp_all add: list_all_iff slug_of_def)

lemma filled_valid: "ValidSlug s \<Longrightarrow> error_ok e \<Longrightarrow> valid_receipt sample_clock (filled s e)"
proof -
  have "valid_receipt sample_clock (filled ''a'' [])" by code_simp
  then show "ValidSlug s \<Longrightarrow> error_ok e \<Longrightarrow> valid_receipt sample_clock (filled s e)"
    unfolding valid_receipt_iff validate_options_def by (simp add: filled_def)
qed

text \<open>When the records are valid and few, only the size of the text decides.\<close>

lemma encode_by_size:
  assumes "ops \<noteq> []" and "length ops \<le> maxLifecycleOperationRecords" and "\<forall>x \<in> set ops. valid_receipt ck (snd x)"
  shows "store_encode ck workspace ops =
    (if maxLifecycleOperationStoreBytes + 1 < frame_size workspace + sum_list (map (\<lambda>x. record_size (snd x)) ops) + length (line 1)
     then Inl (Err ''lifecycle operation state exceeds 256 KiB'') else Inr (payload_text (payload_of workspace ops)))"
proof -
  have "first_error (map (\<lambda>x. validateLifecycleOperation ck (snd x)) ops) = None"
    using assms(3) by (simp add: first_error_None valid_receipt_def)
  then show ?thesis using assms(2) payload_size [OF assms(1), of workspace] by (auto simp: store_encode_def Let_def)
qed

text \<open>The receipt of the operation that starts when 54 failed receipts are kept, and the text its command ends with.\<close>

definition newcomer :: lifecycle_operation where
  "newcomer = (filled (slug_of 54) [])\<lparr>lo_state := ''running'', lo_finished := []\<rparr>"

definition markup :: string where "markup = replicate 4096 (CHR ''<'')"

lemma no_space: "leading_space markup = 0" "trailing_space markup = 0"
proof -
  have r: "list_all (\<lambda>r. r \<noteq> [] \<and> hd r \<noteq> CHR ''<'') space_runes" "list_all (\<lambda>r. r \<noteq> [] \<and> last r \<noteq> CHR ''<'') space_runes"
    by code_simp+
  have all: "set markup = {CHR ''<''}" by (simp add: markup_def)
  have "\<not> prefix r markup" if "r \<in> set space_runes" for r
  proof
    assume "prefix r markup"
    then have "set r \<subseteq> {CHR ''<''}" using set_mono_prefix all by metis
    moreover have "r \<noteq> []" "hd r \<noteq> CHR ''<''" using r(1) that by (simp_all add: list_all_iff)
    ultimately show False using hd_in_set [of r] by blast
  qed
  then show "leading_space markup = 0" 
    unfolding leading_space_def by (subst iffD2 [OF find_None_iff]) auto
  have "\<not> suffix r markup" if "r \<in> set space_runes" for r
  proof
    assume "suffix r markup"
    then have "set r \<subseteq> {CHR ''<''}" using set_mono_suffix all by metis
    moreover have "r \<noteq> []" "last r \<noteq> CHR ''<''" using r(2) that by (simp_all add: list_all_iff)
    ultimately show False using last_in_set [of r] by blast
  qed
  then show "trailing_space markup = 0" 
    unfolding trailing_space_def by (subst iffD2 [OF find_None_iff]) auto
qed

lemma markup_size: "length (esc_string markup) = 6 * 4096" "error_ok markup" "markup \<noteq> []" "boundedLifecycleError markup = markup"
proof -
  have b: "byte_of (CHR ''<'') < 128" "length (esc_ascii (CHR ''<'')) = 6" by code_simp+
  have v: "ValidString markup" unfolding markup_def by (rule valid_replicate [OF b(1)])
  show "length (esc_string markup) = 6 * 4096" "error_ok markup" "markup \<noteq> []"
    using b esc_replicate [OF b(1), of 4096] v by (simp_all add: markup_def maxLifecycleOperationErrorBytes_def error_ok_def)
  have "TrimLeft markup = markup" "TrimRight markup = markup"
    using no_space by (subst TrimLeft.simps TrimRight.simps, simp)+
  with v show "boundedLifecycleError markup = markup"
    by (simp add: boundedLifecycleError_def maxLifecycleOperationErrorBytes_def ToValidUTF8_id TrimSpace_def Let_def) (simp add: markup_def)
qed

lemma full_sum: "sum_list (map (\<lambda>x. record_size (snd x)) full_store) = 54 * 4755"
proof -
  have "map (\<lambda>x. record_size (snd x)) full_store = replicate 54 4755"
    unfolding full_store_def map_map comp_def snd_conv
    by (rule replicate_eqI) (auto simp: filled_size reserved_size slug_ok base_sizes)
  then show ?thesis by (simp add: sum_list_replicate)
qed

lemma update_new: "k \<notin> fst ` set al \<Longrightarrow> AList.update k v al = al @ [(k, v)]"
  by (induction al) auto

lemma full_store_frame:
  "length full_store = 54" "\<forall>x \<in> set full_store. lo_state (snd x) = ''failed'' \<and> valid_receipt sample_clock (snd x)"
  "AList.update (slug_of 54) op full_store = full_store @ [(slug_of 54, op)]"
proof -
  show "length full_store = 54" by (simp add: full_store_def)
  show "\<forall>x \<in> set full_store. lo_state (snd x) = ''failed'' \<and> valid_receipt sample_clock (snd x)"
    using filled_valid slug_ok(1) reserved_size(2) by (auto simp: full_store_def) (simp add: filled_def)
  have "list_all (\<lambda>i. slug_of i \<noteq> slug_of 54) [0 ..< 54]" by code_simp
  then have "slug_of 54 \<notin> fst ` set full_store" by (fastforce simp: full_store_def list_all_iff)
  then show "AList.update (slug_of 54) op full_store = full_store @ [(slug_of 54, op)]"
    by (rule update_new)
qed

lemma full_store_encode:
  assumes "error_ok e" "e \<noteq> []"
  shows "store_encode sample_clock ''/w'' (AList.update (slug_of 54) (filled (slug_of 54) e) full_store) =
    (if maxLifecycleOperationStoreBytes < 257490 + length (esc_string e)
     then Inl (Err ''lifecycle operation state exceeds 256 KiB'')
     else Inr (payload_text (payload_of ''/w'' (AList.update (slug_of 54) (filled (slug_of 54) e) full_store))))"
proof -
  let ?ops = "AList.update (slug_of 54) (filled (slug_of 54) e) full_store"
  have "valid_receipt sample_clock (filled (slug_of 54) e)" using filled_valid slug_ok(1) assms(1) by simp
  then have "\<forall>x \<in> set ?ops. valid_receipt sample_clock (snd x)" using full_store_frame(2) unfolding full_store_frame(3) by auto
  moreover have "sum_list (map (\<lambda>x. record_size (snd x)) ?ops) = 54 * 4755 + 659 + length (esc_string e)"
    unfolding full_store_frame(3) using filled_size [OF assms(2) slug_ok(3), of 54] slug_ok(2) by (simp add: full_sum base_sizes)
  ultimately show ?thesis
    using encode_by_size [of ?ops sample_clock "''/w''"] full_store_frame(1) unfolding full_store_frame(3)
    unfolding base_sizes(2,3) by (simp add: maxLifecycleOperationRecords_def maxLifecycleOperationStoreBytes_def)
qed

text \<open>
  The reservation is made with 4,096 plain bytes. With 54 failed receipts in the file a new operation is let
  in; when its command ends with 4,096 bytes that JSON writes as six bytes each, its outcome cannot be
  saved.
\<close>

theorem reservation_underestimates:
  "canPersistTerminalOutcomes sample_clock ''/w'' full_store (lo_slug newcomer) newcomer 0 = None \<and>
   store_encode sample_clock ''/w'' (AList.update (lo_slug newcomer) (job_outcome sample_clock 0 None newcomer (JobFailed markup)) full_store) =
     Inl (Err ''lifecycle operation state exceeds 256 KiB'')"
proof -
  have slug: "lo_slug newcomer = slug_of 54" by (simp add: newcomer_def filled_def)
  have out: "job_outcome sample_clock 0 None newcomer (JobFailed markup) = filled (slug_of 54) markup"
    by (simp add: job_outcome_def Let_def newcomer_def filled_def sample_clock_def markup_size)
  have worst: "newcomer\<lparr>lo_state := ''failed'', lo_finished := ck_format sample_clock 0, lo_error := reserved\<rparr> = filled (slug_of 54) reserved"
    by (simp add: newcomer_def filled_def sample_clock_def)
  have "map (\<lambda>x. (fst x, if lo_state (snd x) = ''running'' then (snd x)\<lparr>lo_state := ''failed'', lo_error := reserved\<rparr> else snd x)) full_store = full_store"
    using full_store_frame(2) by (intro map_idI) auto
  then have "canPersistTerminalOutcomes sample_clock ''/w'' full_store (slug_of 54) newcomer 0 = None"
    unfolding canPersistTerminalOutcomes_def Let_def worst
    using full_store_encode [OF reserved_size(2,3)] reserved_size(1) by (simp add: maxLifecycleOperationStoreBytes_def)
  then show ?thesis
    unfolding slug out using full_store_encode [OF markup_size(2,3)] markup_size(1) by (simp add: maxLifecycleOperationStoreBytes_def)
qed

subsection \<open>Samples\<close>

lemma newcomer_fits: "canPersistTerminalOutcomes sample_clock ''/w'' [] (slug_of 54) newcomer 0 = None"
proof -
  have worst: "newcomer\<lparr>lo_state := ''failed'', lo_finished := ck_format sample_clock 0, lo_error := reserved\<rparr> = filled (slug_of 54) reserved"
    by (simp add: newcomer_def filled_def sample_clock_def)
  have "valid_receipt sample_clock (filled (slug_of 54) reserved)" using filled_valid slug_ok(1) reserved_size(2) by simp
  then show ?thesis
    unfolding canPersistTerminalOutcomes_def Let_def worst
    using encode_by_size [of "[(slug_of 54, filled (slug_of 54) reserved)]" sample_clock "''/w''"] filled_size [OF reserved_size(3) slug_ok(3), of 54]
    unfolding base_sizes reserved_size(1)
    by (simp add: maxLifecycleOperationRecords_def maxLifecycleOperationStoreBytes_def slug_ok)
qed

theorem outcome_fits_reservation_witness:
  "\<exists>data. store_encode sample_clock ''/w''
     (AList.update (slug_of 54) (job_outcome sample_clock 5 None newcomer (JobFailed ''no'')) (AList.update (slug_of 54) newcomer [])) = Inr data"
proof (rule outcome_fits_reservation [OF sample_clock_ok _ _ newcomer_fits])
  show "lo_updated newcomer = ck_format sample_clock 0" by (simp add: newcomer_def filled_def sample_clock_def)
  have "length (esc_string noon) = 20" by code_simp
  then show "utc_texts sample_clock" by (simp add: utc_texts_def sample_clock_def)
  have "length (esc_string (boundedLifecycleError ''no'')) \<le> 4000" by code_simp
  then show "JobFailed ''no'' = JobFailed m \<Longrightarrow> length (esc_string (boundedLifecycleError m)) \<le> 4000" for m by simp
qed (simp_all add: newcomer_def filled_def)

text \<open>A session without journals is to be deleted.\<close>

definition still_fs :: lifecycle_fs where
  "still_fs = archiving_fs\<lparr>lf_root := \<lparr>dv_lstat = Some ErrNotExist, dv_dir = False\<rparr>\<rparr>"

definition tracked :: tracked_summary where
  "tracked = \<lparr>mf_sensitive = False, mf_creation_present = False, mf_scope_explicit = True, mf_schema = 1, mf_slug = ''demo'', mf_forked = [],
     mf_codex = \<lparr>cx_thread = ''t1'', cx_socket = [], cx_version = []\<rparr>, mf_creation = zero_creation, mf_repositories = None, mf_artifacts = None, mf_archive_operation = [],
     mf_finalized = [], sm_archived = False, sm_root = ''work'', sm_terminal = False, sm_lifecycle = ''active'', sm_workspace = ''/w''\<rparr>"

definition delete_request :: start_request where
  "delete_request = \<lparr>st_slug = ''demo'', st_kind = ''delete'', st_redirect = ''/'', st_args = [''delete''],
     st_options = zero_options\<lparr>oo_target := jid, oo_journal := jid\<rparr>, st_expected = [], st_supersede = []\<rparr>"

definition start_sample_io :: start_io where
  "start_sample_io = \<lparr>si_gate = None, si_fs = still_fs, si_evidence = no_look, si_retry = no_look,
     si_target = no_look\<lparr>lk_find := Inr tracked, lk_stat := no_stat\<lparr>tk_lstat := None, tk_dir := True\<rparr>\<rparr>, si_now = 0, si_address = 0,
     si_fresh = Inr jid, si_found = Inl ErrNotExist, si_preparation = \<lparr>pi_mkdir = None, pi_replace = io_success\<rparr>, si_save = save_ok\<rparr>"

definition deleting :: lifecycle_operation where
  "deleting = (filled ''demo'' [])\<lparr>lo_state := ''running'', lo_finished := []\<rparr>"

lemma deleting_fits: "canPersistTerminalOutcomes sample_clock ''/w'' [] ''demo'' deleting 0 = None"
proof -
  have worst: "deleting\<lparr>lo_state := ''failed'', lo_finished := ck_format sample_clock 0, lo_error := reserved\<rparr> = filled ''demo'' reserved"
    by (simp add: deleting_def filled_def sample_clock_def)
  have s: "ValidSlug ''demo''" "length (esc_string ''demo'') = 4" by code_simp+
  have "valid_receipt sample_clock (filled ''demo'' reserved)" using filled_valid s(1) reserved_size(2) by simp
  then show ?thesis
    unfolding canPersistTerminalOutcomes_def Let_def worst
    using encode_by_size [of "[(''demo'', filled ''demo'' reserved)]" sample_clock "''/w''"] filled_size [OF reserved_size(3), of "''demo''"]
    unfolding base_sizes reserved_size(1)
    by (simp add: maxLifecycleOperationRecords_def maxLifecycleOperationStoreBytes_def s(2))
qed

lemma sample_start:
  "\<exists>t. startLifecycleOperation hex_sha sample_clock ''/w'' start_sample_io delete_request id empty_table =
     (ReceiptResponse 202 deleting, Some (deleting, [''delete'']), t)"
proof -
  let ?c = "captureLifecycleOperation ''demo'' empty_table"
  have c: "?c = \<lparr>cp_operation = zero_operation, cp_existed = False, cp_revision = 0\<rparr>"
    by (simp add: captureLifecycleOperation_def empty_table_def)
  have admit: "start_admit delete_request empty_table = Inr ?c"
    unfolding start_admit_def delete_request_def by (simp add: c Let_def first_supersede_def) (simp add: empty_table_def)
  have found: "PendingLifecycle hex_sha still_fs ''/w'' ''demo'' = Inr []" "PendingLifecycleProgress hex_sha still_fs ''/w'' ''demo'' = Inr None"
    by code_simp+
  have prove: "start_prove hex_sha no_look no_look (si_target start_sample_io) delete_request \<lparr>cp_operation = zero_operation, cp_existed = False, cp_revision = 0\<rparr> None =
      Inr (zero_operation, (st_options delete_request)\<lparr>oo_location := ''work''\<rparr>, [''delete''])"
    by code_simp
  have build: "start_build sample_clock 0 jid delete_request zero_operation ((st_options delete_request)\<lparr>oo_location := ''work''\<rparr>) None = deleting"
    by code_simp
  have save: "fst (store_save sample_clock ''/w'' save_ok [(''demo'', deleting)] None) = None" by code_simp
  then obtain d where d: "store_save sample_clock ''/w'' save_ok [(''demo'', deleting)] None = (None, d)" by (metis prod.collapse)
  have commit: "\<exists>t. start_commit sample_clock ''/w'' start_sample_io ?c deleting [''delete''] empty_table = (ReceiptResponse 202 deleting, Some (deleting, [''delete'']), t)"
    unfolding start_commit_def c using deleting_fits d
    by (simp add: capture_lost_def beginArchivePreparation_def needs_preparation_def replaceLifecycleOperationLocked_def Let_def
      empty_table_def deleting_def filled_def start_sample_io_def)
  have io: "si_gate start_sample_io = None" "si_fs start_sample_io = still_fs" "si_evidence start_sample_io = no_look"
    "si_retry start_sample_io = no_look" "si_now start_sample_io = 0" "si_fresh start_sample_io = Inr jid"
    by (simp_all add: start_sample_io_def)
  have q: "st_slug delete_request = ''demo''" "st_expected delete_request = []" by (simp_all add: delete_request_def)
  have "\<not> rc_closing empty_table" by (simp add: empty_table_def)
  with commit show ?thesis
    unfolding startLifecycleOperation_def io q found c id_apply admit [unfolded c] by (simp add: prove build io)
qed


end
