(* ===== verification/Web_Repair.thy ===== *)
theory Web_Repair
  imports Web_Capacity "HOL-Library.Code_Target_Nat"
begin

text \<open>
  The cycle of checks and repairs of \<open>runArchivePreparation\<close>: what a turn keeps of the preparation, that
  the cycle ends, that a repair message is never replaced before its turn is over, and that archival only
  follows a check that found the session ready.
\<close>

subsection \<open>The preparation the loop holds and the one in the table\<close>

text \<open>
  The loop works on its own copy. The other threads that change the preparation of a running attempt
  (cancellation, parking) set its state and error only. Preparations are filed under their session.
\<close>

definition keyed :: "receipts \<Rightarrow> bool" where
  "keyed s \<longleftrightarrow> (\<forall>x \<in> set (rc_preparations s). ap_slug (snd x) = fst x)"

definition held :: "archive_preparation \<Rightarrow> receipts \<Rightarrow> bool" where
  "held p s \<longleftrightarrow> keyed s \<and>
     (case map_of (rc_preparations s) (ap_slug p) of
        None \<Rightarrow> True
      | Some c \<Rightarrow> ap_receipt c = ap_receipt p \<and> ap_attempt c = ap_attempt p \<longrightarrow> c = p\<lparr>ap_state := ap_state c, ap_error := ap_error c\<rparr>)"

text \<open>What no turn changes of a preparation, and the fields the cycle is measured by.\<close>

definition same_request :: "archive_preparation \<Rightarrow> archive_preparation \<Rightarrow> bool" where
  "same_request p q \<longleftrightarrow> ap_slug q = ap_slug p \<and> ap_receipt q = ap_receipt p \<and> ap_attempt q = ap_attempt p \<and> ap_thread q = ap_thread p \<and>
     ap_journal q = ap_journal p"

definition counters :: "archive_preparation \<Rightarrow> int \<times> int \<times> int" where
  "counters p = (ap_best_stage p, ap_best_count p, ap_no_progress p)"

definition same_message :: "archive_preparation \<Rightarrow> archive_preparation \<Rightarrow> bool" where
  "same_message p q \<longleftrightarrow>
     ap_message_id q = ap_message_id p \<and> ap_message q = ap_message p \<and> ap_options q = ap_options p \<and> ap_round q = ap_round p"

lemma save_preparation_ok:
  "saveArchivePreparationLocked io p s = (None, t) \<Longrightarrow> t = s\<lparr>rc_preparations := AList.update (ap_slug p) p (rc_preparations s)\<rparr>"
  by (auto simp: saveArchivePreparationLocked_def split: option.split_asm if_split_asm)

definition near :: "archive_preparation \<Rightarrow> archive_preparation \<Rightarrow> bool" where
  "near p q \<longleftrightarrow> q = p\<lparr>ap_state := ap_state q, ap_error := ap_error q\<rparr>"

lemma near_fields:
  "near p q \<Longrightarrow> same_request p q" "near p q \<Longrightarrow> counters q = counters p" "near p q \<Longrightarrow> same_message p q"
  by (cases p; cases q; simp add: near_def same_request_def counters_def same_message_def)+

lemma update_ok:
  assumes "updateArchivePreparation io p change s = ((q, None), t)" and "held p s" and "\<And>v. ap_slug (change v) = ap_slug v"
  shows "\<exists>c. near p c \<and> q = change c \<and> prep_active c \<and> held q t \<and> map_of (rc_preparations t) (ap_slug p) = Some q \<and>
    rc_operations t = rc_operations s \<and> rc_closing t = rc_closing s"
proof -
  from assms(1) obtain c where c: "map_of (rc_preparations s) (ap_slug p) = Some c" "ap_receipt c = ap_receipt p" "ap_attempt c = ap_attempt p"
    "q = change c" "prep_active c" and save: "saveArchivePreparationLocked io q s = (None, t)"
    by (auto simp: updateArchivePreparation_def Let_def split: option.split_asm if_split_asm prod.split_asm)
  from assms(2) c(1-3) have p: "near p c" by (simp add: held_def near_def)
  have slug: "ap_slug q = ap_slug p" using near_fields(1) [OF p] assms(3) c(4) by (simp add: same_request_def)
  from save_preparation_ok [OF save] have t: "t = s\<lparr>rc_preparations := AList.update (ap_slug p) q (rc_preparations s)\<rparr>" by (simp add: slug)
  have m: "map_of (rc_preparations t) (ap_slug p) = Some q" unfolding t by (simp add: AList.update_conv')
  moreover have "keyed t" using assms(2) slug unfolding t held_def keyed_def by (auto dest!: subsetD [OF set_update])
  ultimately have "held q t" by (simp add: held_def slug)
  with p c(4,5) m t show ?thesis by auto
qed

subsection \<open>a turn that waits for the lead\<close>

text \<open>What a delivery leaves: the preparation with the receipt of its message, and why it may be called complete.\<close>

definition delivered :: "string \<Rightarrow> delivery \<Rightarrow> archive_preparation \<Rightarrow> bool \<Rightarrow> bool" where
  "delivered workspace d p complete \<longleftrightarrow>
     (\<exists>rc prompts. snd (deliver_once d p) = Inr rc \<and> sd_turn rc \<noteq> [] \<and> dv_prompts d (ap_thread p) = Inr prompts \<and> \<not> list_ex id prompts \<and>
        archiveRepairComplete (dv_turn d (ap_thread p)) (dv_fresh d (ap_thread p)) (ap_thread p) (sd_turn rc) (lead_cwd workspace p) = Inr complete)"

definition take_receipt :: "send_receipt \<Rightarrow> archive_preparation \<Rightarrow> archive_preparation" where
  "take_receipt rc v = v\<lparr>ap_delivery := Some rc, ap_state := ''lead_fixing_blockers''\<rparr>"

text \<open>\<open>same_turn\<close>: all that the cycle depends on is as before.\<close>

definition same_turn :: "archive_preparation \<Rightarrow> archive_preparation \<Rightarrow> bool" where
  "same_turn p q \<longleftrightarrow> same_request p q \<and> counters q = counters p \<and> same_message p q"

lemma same_turn_refl [simp]: "same_turn p p"
  by (simp add: same_turn_def same_request_def same_message_def)

lemma same_turn_trans: "same_turn p q \<Longrightarrow> same_turn q r \<Longrightarrow> same_turn p r"
  by (simp add: same_turn_def same_request_def same_message_def)

lemma near_turn: "near p q \<Longrightarrow> same_turn p q"
  by (simp add: same_turn_def near_fields)

lemma turn_updates [simp]:
  "same_turn p (take_receipt rc q) = same_turn p q" "same_turn p (q\<lparr>ap_failures := n, ap_error := e\<rparr>) = same_turn p q"
  "ap_slug (take_receipt rc q) = ap_slug q" "ap_failures (take_receipt rc q) = ap_failures q"
  by (simp_all add: same_turn_def same_request_def same_message_def counters_def take_receipt_def)

lemma deliver_cases:
  assumes "deliver_repair sha workspace d op p s = (ms, (q, complete, e), t)" and "held p s"
  shows "(same_turn p q \<and> held q t \<and> (e = None \<longrightarrow> delivered workspace d p complete)) \<or>
    (\<exists>x c. e = Some (TargetError x) \<and> updateArchivePreparation (dv_io d) p c s = ((q, Some x), t))"
proof -
  consider (same) "q = p" "t = s" "e \<noteq> None"
    | (update) rc u where "snd (deliver_once d p) = Inr rc" "updateArchivePreparation (dv_io d) p (take_receipt rc) s = ((q, u), t)"
      "u \<noteq> None \<Longrightarrow> e = map_option TargetError u" "u = None \<Longrightarrow> e = None \<Longrightarrow> \<exists>prompts. sd_turn rc \<noteq> [] \<and> dv_prompts d (ap_thread q) = Inr prompts \<and> \<not> list_ex id prompts \<and>
        archiveRepairComplete (dv_turn d (ap_thread q)) (dv_fresh d (ap_thread q)) (ap_thread q) (sd_turn rc) (lead_cwd workspace q) = Inr complete"
  proof (cases "archive_admission sha workspace (dv_admission d) op p s")
    case None
    with assms(1) that show thesis unfolding deliver_repair_def Let_def take_receipt_def [symmetric]
      by (auto split: option.split_asm if_split_asm sum.split_asm prod.split_asm)
  next
    case (Some a)
    with assms(1) have "((p, False, Some a), s) = ((q, complete, e), t)" by (simp add: deliver_repair_def Let_def)
    then show thesis by (intro that(1)) auto
  qed
  then show ?thesis
  proof cases
    case update
    show ?thesis
    proof (cases u)
      case None
      with update(2) have "updateArchivePreparation (dv_io d) p (take_receipt rc) s = ((q, None), t)" by simp
      from update_ok [OF this assms(2)] have h: "same_turn p q" "held q t" by (auto dest: near_turn)
      with update(1) update(4) [OF None] show ?thesis by (auto simp: delivered_def same_turn_def same_request_def lead_cwd_def)
    qed (use update(2,3) in auto)
  qed (use assms(2) in auto)
qed


text \<open>
  What the code relies on: the client's errors (an unknown outcome, a lost connection) are its own, and no
  error of the table or of the preparation's file is one.
\<close>

definition errors_apart :: "preparation_round_io \<Rightarrow> bool" where
  "errors_apart r \<longleftrightarrow>
     (\<forall>p c s q e t. updateArchivePreparation (dv_io (pd_delivery r)) p c s = ((q, Some e), t) \<longrightarrow> \<not> pd_uncertain r (TargetError e))"

lemma clear_request: "same_request p (v\<lparr>ap_message_id := [], ap_message := [], ap_options := None, ap_delivery := None, ap_state := st\<rparr>) = same_request p v"
  "counters (v\<lparr>ap_message_id := [], ap_message := [], ap_options := None, ap_delivery := None, ap_state := st\<rparr>) = counters v"
  by (simp_all add: same_request_def counters_def)

lemma nested_pairE:
  obtains a b c where "x = ((a, b), c)"
  by (cases x) (auto intro: prod.exhaust)

lemma repair_turn_cases:
  assumes "repair_turn sha txt workspace r op p s = (result, t)" and "held p s" and "errors_apart r"
  shows "case result of
      Again q \<Rightarrow> ap_message_id p \<noteq> [] \<and> same_turn p q \<and> held q t
    | Checking q \<Rightarrow> same_request p q \<and> counters q = counters p \<and> ap_message_id q = [] \<and> held q t \<and>
        (ap_message_id p = [] \<and> q = p \<and> t = s \<or> delivered workspace (pd_delivery r) p True)
    | Ended e \<Rightarrow> e \<noteq> None"
proof (cases "ap_message_id p = []")
  case True
  with assms show ?thesis by (auto simp: repair_turn_def repair_exchange_def same_request_def)
next
  case False
  obtain ms q complete e u where d: "deliver_repair sha workspace (pd_delivery r) op p s = (ms, (q, complete, e), u)" by (metis prod.exhaust)
  note turn = assms(1) [unfolded repair_turn_def repair_exchange_def after_delivery_def Let_def d]
  show ?thesis
  proof (cases e)
    case Some': (Some x)
    note Some = Some'
    show ?thesis
    proof (cases "pd_failed r = None \<and> pd_uncertain r x")
      case True
      with deliver_cases [OF d assms(2)] assms(3) Some have h: "same_turn p q" "held q u" unfolding errors_apart_def by blast+
      let ?c = "\<lambda>v. v\<lparr>ap_failures := ap_failures v + 1, ap_error := boundedLifecycleError (txt x)\<rparr>"
      obtain q1 e1 t1 where up: "updateArchivePreparation (pd_update r) q ?c u = ((q1, e1), t1)" by (rule nested_pairE)
      show ?thesis
      proof (cases e1)
        case None
        from update_ok [OF up [unfolded None] h(2)] have "same_turn p q1" "held q1 t1"
          using same_turn_trans [OF h(1)] by (auto dest: near_turn)
        moreover have "repair_turn sha txt workspace r op p s =
            (if ap_failures q1 < 3 then (case pd_pause r of Some y \<Rightarrow> (Ended (Some (TargetError y)), t1) | None \<Rightarrow> (Again q1, t1))
             else (Ended (Some x), fail_preparation txt r q1 x t1))"
          by (simp add: repair_turn_def repair_exchange_def after_delivery_def Let_def False d Some up None True)
        ultimately show ?thesis using False assms(1) by (auto split: if_split_asm option.split_asm)
      next
        case (Some y)
        from turn True have "result = Ended (Some (TargetError y))" by (simp add: False Some' up Some)
        then show ?thesis by simp
      qed
    next
      case out: False
      from turn have "result = Ended (Some x)" by (simp add: False Some out)
      then show ?thesis by simp
    qed
  next
    case None
    with deliver_cases [OF d assms(2)] have h: "same_turn p q" "held q u" "delivered workspace (pd_delivery r) p complete" by auto
    obtain q1 e1 t1 where up: "(if ap_failures q \<noteq> 0 then updateArchivePreparation (pd_update r) q (\<lambda>v. v\<lparr>ap_failures := 0, ap_error := []\<rparr>) u
        else ((q, None), u)) = ((q1, e1), t1)" by (rule nested_pairE)
    show ?thesis
    proof (cases e1)
      case None': None
      have h1: "same_turn p q1" "held q1 t1"
        using h(1,2) up None' update_ok [of "pd_update r" q "\<lambda>v. v\<lparr>ap_failures := 0, ap_error := []\<rparr>" u q1 t1] same_turn_trans [OF h(1)]
        by (auto split: if_split_asm dest!: near_turn)
      let ?c = "\<lambda>v. v\<lparr>ap_message_id := [], ap_message := [], ap_options := None, ap_delivery := None, ap_state := ''rechecking''\<rparr>"
      obtain q2 e2 t2 where up2: "updateArchivePreparation (pd_clear r) q1 ?c t1 = ((q2, e2), t2)" by (rule nested_pairE)
      show ?thesis
      proof (cases "complete \<and> e2 = None")
        case True
        from update_ok [OF up2 [unfolded conjunct2 [OF True]] h1(2)] have "same_request p q2" "counters q2 = counters p" "ap_message_id q2 = []" "held q2 t2"
          using same_turn_trans [OF h1(1)] by (auto dest!: near_turn simp: clear_request same_turn_def)
        moreover from turn True have "(result, t) = (Checking q2, t2)" by (simp add: False None up None' up2)
        ultimately show ?thesis using False h(3) True by simp
      next
        case out: False
        with turn have "(result, t) = (Again q1, t1) \<or> (\<exists>y. result = Ended (Some y))"
          by (auto simp add: False None up None' up2 split: if_split_asm option.split_asm)
        with False h1 show ?thesis by auto
      qed
    next
      case (Some y)
      from turn have "result = Ended (Some (TargetError y))" by (simp add: False None up Some)
      then show ?thesis by simp
    qed
  qed
qed


subsection \<open>A turn that checks\<close>

lemma record_frame [simp]:
  "ap_slug (record_check c p) = ap_slug p" "same_request q (record_check c p) = same_request q p"
  "ap_receipt (record_check c p) = ap_receipt p" "ap_attempt (record_check c p) = ap_attempt p"
  "ap_thread (record_check c p) = ap_thread p" "ap_round (record_check c p) = ap_round p" "ap_journal (record_check c p) = ap_journal p"
  by (simp_all add: record_check_def Let_def same_request_def)

lemma record_near: "near p q \<Longrightarrow> counters (record_check c q) = counters (record_check c p)"
proof -
  have "near p q \<Longrightarrow> counters q = counters p" by (rule near_fields)
  then show "near p q \<Longrightarrow> counters (record_check c q) = counters (record_check c p)"
    by (simp add: record_check_def Let_def counters_def)
qed

lemma start_repair_frame [simp]:
  "ap_slug (start_repair i c x p) = ap_slug p" "same_request q (start_repair i c x p) = same_request q p"
  "counters (start_repair i c x p) = counters p"
  by (simp_all add: start_repair_def same_request_def counters_def)

lemma request_trans: "same_request p q \<Longrightarrow> same_request q r \<Longrightarrow> same_request p r"
  by (simp add: same_request_def)

text \<open>What a check that lets the cycle go on has found, and what one that ends it well has.\<close>

definition repairs :: "(string \<Rightarrow> string) \<Rightarrow> string \<Rightarrow> preparation_round_io \<Rightarrow> archive_preparation \<Rightarrow> archive_preparation \<Rightarrow> bool" where
  "repairs sha workspace r p q \<longleftrightarrow>
     (\<exists>c. cl_output (pd_check r) = Inr c \<and> check_consistent workspace (ap_slug p) c \<and> \<not> ac_ready c \<and>
        counters q = counters (record_check c p) \<and> ap_no_progress q < 3 \<and> ap_round q = ap_round p + 1 \<and> ap_message q = repair_message c)"

definition cleared :: "(string \<Rightarrow> string) \<Rightarrow> string \<Rightarrow> check_look \<Rightarrow> lifecycle_operation \<Rightarrow> archive_preparation \<Rightarrow> receipts \<Rightarrow> receipts \<Rightarrow> bool" where
  "cleared sha workspace l op p s t \<longleftrightarrow>
     archive_admission sha workspace (cl_admission l) op p s = None \<and>
     (\<exists>c. cl_output l = Inr c \<and> check_consistent workspace (ap_slug p) c \<and> ac_ready c) \<and>
     (\<exists>q. map_of (rc_preparations t) (ap_slug p) = Some q \<and> same_request p q \<and> ap_state q = ''archiving'')"

lemma check_turn_cases:
  assumes "check_turn sha txt workspace r op p s = (result, t)" and "held p s"
  shows "case result of
      Again q \<Rightarrow> same_request p q \<and> held q t \<and> repairs sha workspace r p q
    | Checking q \<Rightarrow> False
    | Ended e \<Rightarrow> e = None \<longrightarrow> cleared sha workspace (pd_check r) op p s t"
proof -
  let ?l = "pd_check r"
  have failed: ?thesis if "result = Ended (Some x)" for x using that by simp
  show ?thesis
  proof (cases "archive_admission sha workspace (cl_admission ?l) op p s = None \<and> (\<exists>c. cl_output ?l = Inr c \<and> check_consistent workspace (ap_slug p) c)")
    case False
    with assms(1) have "\<exists>x. result = Ended (Some x)"
      by (auto simp: check_turn_def Let_def split: option.split_asm sum.split_asm if_split_asm)
    with failed show ?thesis by blast
  next
    case True
    then obtain c where adm: "archive_admission sha workspace (cl_admission ?l) op p s = None" and c: "cl_output ?l = Inr c" "check_consistent workspace (ap_slug p) c"
      by blast
    obtain q e u where up: "updateArchivePreparation (cl_io ?l) p (record_check c) s = ((q, e), u)" by (rule nested_pairE)
    note turn = assms(1) [unfolded check_turn_def Let_def adm c option.case sum.case up prod.case]
    show ?thesis
    proof (cases e)
      case (Some y)
      with turn c(2) have "result = Ended (Some (TargetError y))" by simp
      then show ?thesis by (rule failed)
    next
      case None
      from update_ok [OF up [unfolded None] assms(2)] obtain p1 where p1: "near p p1" "q = record_check c p1" "held q u" by auto
      have q: "same_request p q" "counters q = counters (record_check c p)" "ap_round q = ap_round p" "ap_slug q = ap_slug p"
        using near_fields [OF p1(1)] p1 record_near [OF p1(1)] by (simp_all add: same_request_def same_message_def)
      show ?thesis
      proof (cases "ac_ready c")
        case True
        obtain q1 e1 t1 where up1: "updateArchivePreparation (cl_archiving ?l) q (\<lambda>v. v\<lparr>ap_state := ''archiving''\<rparr>) u = ((q1, e1), t1)" by (rule nested_pairE)
        from turn True have r: "result = Ended (map_option TargetError e1)" "t = t1" by (simp_all add: c(2) None up1)
        show ?thesis
        proof (cases e1)
          case None
          from update_ok [OF up1 [unfolded None] p1(3)] obtain q0 where "near q q0" "q1 = q0\<lparr>ap_state := ''archiving''\<rparr>"
            "map_of (rc_preparations t1) (ap_slug q) = Some q1" by auto
          moreover from this(1,2) q(1) have "same_request p q1" using near_fields(1) [of q q0] by (simp add: same_request_def)
          ultimately show ?thesis using r adm c True q(4) by (simp add: cleared_def)
        qed (use r in simp)
      next
        case False
        obtain q1 e1 t1 where up1: "begin_repair sha workspace (pd_repair r) op c q u = ((q1, e1), t1)" by (rule nested_pairE)
        show ?thesis
        proof (cases "ap_no_progress q < 3 \<and> ap_thread q \<noteq> [] \<and> e1 = None")
          case True
          with turn False have r: "result = Again q1" "t = t1" by (simp_all add: c(2) None up1)
          from up1 True have "updateArchivePreparation (rl_io (pd_repair r)) q (start_repair (repair_id sha q) c (rl_options (pd_repair r))) u = ((q1, None), t1)"
            by (auto simp: begin_repair_def Let_def split: option.split_asm if_split_asm prod.split_asm)
          from update_ok [OF this p1(3)] obtain q0 where q0: "near q q0" "q1 = start_repair (repair_id sha q) c (rl_options (pd_repair r)) q0" "held q1 t1" by auto
          with q True near_fields [OF q0(1)] have "same_request p q1" "counters q1 = counters (record_check c p)" "ap_no_progress q1 < 3"
            "ap_round q1 = ap_round p + 1" "ap_message q1 = repair_message c"
            by (simp_all add: same_request_def same_message_def start_repair_def counters_def)
          with r q0(3) c False show ?thesis by (auto simp: repairs_def)
        next
          case out: False
          with turn False have "\<exists>x. result = Ended (Some x)" by (auto simp: c(2) None up1 split: if_split_asm option.split_asm)
          with failed show ?thesis by blast
        qed
      qed
    qed
  qed
qed


subsection \<open>The cycle ends\<close>

text \<open>
  Turns of the loop, with other threads in between: it holds a preparation, the table agrees with it. A
  cycle is any number of waiting turns, then a turn whose check begins the next repair.
\<close>

inductive repair_waits :: "(string \<Rightarrow> string) \<Rightarrow> (target_error \<Rightarrow> string) \<Rightarrow> string \<Rightarrow> lifecycle_operation \<Rightarrow> archive_preparation \<Rightarrow> archive_preparation \<Rightarrow> bool"
  for sha and tx and workspace and op where
  ready: "repair_waits sha tx workspace op p p"
| wait: "repair_waits sha tx workspace op p q \<Longrightarrow> held q s \<Longrightarrow> errors_apart r \<Longrightarrow> repair_turn sha tx workspace r op q s = (Again q', t)
    \<Longrightarrow> repair_waits sha tx workspace op p q'"

inductive repair_cycle :: "(string \<Rightarrow> string) \<Rightarrow> (target_error \<Rightarrow> string) \<Rightarrow> string \<Rightarrow> lifecycle_operation \<Rightarrow> archive_preparation \<Rightarrow> archive_preparation \<Rightarrow> bool"
  for sha and tx and workspace and op where
  cycle: "repair_waits sha tx workspace op p q \<Longrightarrow> held q s \<Longrightarrow> errors_apart r \<Longrightarrow> repair_turn sha tx workspace r op q s = (Checking q1, t) \<Longrightarrow>
    held q1 u \<Longrightarrow> check_turn sha tx workspace r op q1 u = (Again p', v) \<Longrightarrow> repair_cycle sha tx workspace op p p'"

lemma waits_same: "repair_waits sha txt workspace op p q \<Longrightarrow> same_turn p q"
proof (induction rule: repair_waits.induct)
  case (wait p q s r q' t)
  from repair_turn_cases [OF wait(4,2,3)] have "same_turn q q'" by simp
  with wait.IH show ?case by (rule same_turn_trans)
qed simp

text \<open>Stages are at most 32; a better stage, fewer blockers at the same stage, or one of three chances less.\<close>

definition cycle_measure :: "archive_preparation \<Rightarrow> nat \<times> nat \<times> nat" where
  "cycle_measure p = (nat (33 - ap_best_stage p), nat (ap_best_count p), nat (3 - ap_no_progress p))"

definition smaller :: "((nat \<times> nat \<times> nat) \<times> nat \<times> nat \<times> nat) set" where
  "smaller = less_than <*lex*> less_than <*lex*> less_than"

lemma record_counters:
  "counters (record_check c p) =
     (if ap_best_stage p < ac_stage c \<or> ac_stage c = ap_best_stage p \<and> ac_count c < ap_best_count p then (ac_stage c, ac_count c, 0)
      else (ap_best_stage p, ap_best_count p, ap_no_progress p + 1))"
  by (simp add: record_check_def Let_def counters_def)

lemma record_decreases:
  assumes "check_consistent workspace slug c" and q: "counters q = counters (record_check c p)" "ap_no_progress q < 3"
  shows "(cycle_measure q, cycle_measure p) \<in> smaller"
proof -
  have c: "ac_stage c \<le> 32" "0 \<le> ac_stage c" "0 \<le> ac_count c" using assms(1) by (simp_all add: check_consistent_def)
  have q': "(ap_best_stage q, ap_best_count q, ap_no_progress q) =
     (if ap_best_stage p < ac_stage c \<or> ac_stage c = ap_best_stage p \<and> ac_count c < ap_best_count p then (ac_stage c, ac_count c, 0)
      else (ap_best_stage p, ap_best_count p, ap_no_progress p + 1))"
    using q(1) unfolding record_counters by (simp add: counters_def)
  show ?thesis
  proof (cases "ap_best_stage p < ac_stage c \<or> ac_stage c = ap_best_stage p \<and> ac_count c < ap_best_count p")
    case True
    with q' have "ap_best_stage q = ac_stage c" "ap_best_count q = ac_count c" by simp_all
    with True c show ?thesis by (cases "ap_best_stage p < ac_stage c") (simp_all add: smaller_def cycle_measure_def)
  next
    case False
    with q' have "ap_best_stage q = ap_best_stage p" "ap_best_count q = ap_best_count p" "ap_no_progress q = ap_no_progress p + 1" by simp_all
    with q(2) show ?thesis by (simp add: smaller_def cycle_measure_def)
  qed
qed

lemma cycle_decreases: "repair_cycle sha txt workspace op p p' \<Longrightarrow> (cycle_measure p', cycle_measure p) \<in> smaller"
proof (induction rule: repair_cycle.induct)
  case (cycle p q s r q1 t u p' v)
  have m: "counters x = counters y \<Longrightarrow> cycle_measure x = cycle_measure y" for x y by (simp add: counters_def cycle_measure_def)
  from repair_turn_cases [OF cycle(4,2,3)] waits_same [OF cycle(1)] have "counters q1 = counters p" by (simp add: same_turn_def)
  moreover from check_turn_cases [OF cycle(6,5)] obtain c where "check_consistent workspace (ap_slug q1) c"
    "counters p' = counters (record_check c q1)" "ap_no_progress p' < 3" by (auto simp: repairs_def)
  ultimately show ?case using record_decreases [of workspace "ap_slug q1" c p' q1] m [of q1 p] by simp
qed

text \<open>
  C16. Preparing a session ends: whatever the checks find, however often a delivery fails or is repeated,
  and whatever other threads do to the table in between, the loop cannot go through the cycle of
  waiting, checking and asking the lead for another repair for ever.
\<close>

theorem repair_cycle_terminates:
  "\<not> (\<exists>f :: nat \<Rightarrow> archive_preparation. \<forall>i. repair_cycle sha txt workspace op (f i) (f (Suc i)))"
proof
  assume "\<exists>f :: nat \<Rightarrow> archive_preparation. \<forall>i. repair_cycle sha txt workspace op (f i) (f (Suc i))"
  then obtain f :: "nat \<Rightarrow> archive_preparation" where "\<forall>i. repair_cycle sha txt workspace op (f i) (f (Suc i))" by blast
  then have "\<forall>i. (cycle_measure (f (Suc i)), cycle_measure (f i)) \<in> smaller" using cycle_decreases by blast
  then have "\<exists>g. \<forall>i. (g (Suc i), g i) \<in> smaller" by (intro exI [of _ "\<lambda>i. cycle_measure (f i)"])
  moreover have "wf smaller" by (simp add: smaller_def wf_lex_prod)
  ultimately show False unfolding wf_iff_no_infinite_down_chain by simp
qed

subsection \<open>Messages and clearance\<close>

text \<open>
  The turn of a repair message is over: the client gave a receipt of this very message, its turn is the
  latest of the thread and completed, both samples of the lead's activity show it idle, in its own
  working directory, and no prompt of it is blocking.
\<close>

definition repair_over :: "string \<Rightarrow> delivery \<Rightarrow> archive_preparation \<Rightarrow> bool" where
  "repair_over workspace d p \<longleftrightarrow>
     (\<exists>options rc st f prompts. ap_options p = Some options \<and>
        (dv_reconcile d (archive_send p options) = Inr (Some rc) \<or>
         dv_reconcile d (archive_send p options) = Inr None \<and> dv_send d (archive_send p options) = Inr rc) \<and>
        dv_turn d (ap_thread p) = Inr st \<and> tn_thread st = ap_thread p \<and> sd_turn rc \<noteq> [] \<and> tn_latest st = sd_turn rc \<and>
        tn_latest_status st = ''completed'' \<and> tn_status st = ''idle'' \<and>
        dv_fresh d (ap_thread p) = Inr f \<and> td_id f = ap_thread p \<and> td_cwd f = lead_cwd workspace p \<and> td_type f = ''idle'' \<and>
        dv_prompts d (ap_thread p) = Inr prompts \<and> True \<notin> set prompts)"

lemma archiveRepairComplete_over:
  "archiveRepairComplete state fresh thread accepted cwd = Inr True \<Longrightarrow>
   \<exists>st f. state = Inr st \<and> tn_thread st = thread \<and> accepted \<noteq> [] \<and> tn_latest st = accepted \<and> tn_latest_status st = ''completed'' \<and> tn_status st = ''idle'' \<and>
     fresh = Inr f \<and> td_id f = thread \<and> td_cwd f = cwd \<and> td_type f = ''idle''"
  by (auto simp: archiveRepairComplete_def split: sum.split_asm if_split_asm)

lemma delivered_over: "delivered workspace d p True \<Longrightarrow> repair_over workspace d p"
  unfolding delivered_def repair_over_def deliver_once_def
  by (fastforce dest!: archiveRepairComplete_over simp: list_ex_iff split: option.split_asm sum.split_asm)

lemma deliver_once_sends:
  "fst (deliver_once d p) = [] \<or>
   (\<exists>options. ap_options p = Some options \<and> dv_reconcile d (archive_send p options) = Inr None \<and> fst (deliver_once d p) = [archive_send p options])"
  by (auto simp: deliver_once_def split: option.split sum.split)

lemma deliver_repair_sends:
  assumes "deliver_repair sha workspace d op p s = (ms, outcome)" and "ms \<noteq> []"
  shows "ms = fst (deliver_once d p) \<and> archive_admission sha workspace (dv_admission d) op p s = None"
  using assms unfolding deliver_repair_def Let_def
  by (auto split: option.split_asm if_split_asm sum.split_asm prod.split_asm)

text \<open>
  C23. A repair is asked for once. A turn that finds a message outstanding sends at most that message, to the
  thread, with the text, the identifier, the action and the options that the preparation records, and
  only when it was admitted and the client, asked for a receipt of that very message, knows none. A turn after
  which the loop goes on waiting leaves the message, so that a later delivery is of the same message;
  and the message is given up for the next check only when the turn that it started is over: the latest of the
  thread, completed, the lead idle in two samples and not waiting for an answer.
\<close>

theorem outstanding_repair_kept:
  assumes "repair_exchange sha txt workspace r op p s = (ms, result, t)" and "ap_message_id p \<noteq> []" and "held p s" and "errors_apart r"
  shows "(ms = [] \<or> (\<exists>options. ap_options p = Some options \<and> ms = [archive_send p options] \<and>
       dv_reconcile (pd_delivery r) (archive_send p options) = Inr None \<and>
       archive_admission sha workspace (dv_admission (pd_delivery r)) op p s = None)) \<and>
    (case result of
      Again q \<Rightarrow> same_request p q \<and> same_message p q \<and> archive_send q = archive_send p \<and> held q t
    | Checking q \<Rightarrow> same_request p q \<and> ap_message_id q = [] \<and> repair_over workspace (pd_delivery r) p
    | Ended e \<Rightarrow> e \<noteq> None)"
proof -
  from assms(1) have turn: "repair_turn sha txt workspace r op p s = (result, t)" by (simp add: repair_turn_def)
  from assms(1,2) obtain outcome where d: "deliver_repair sha workspace (pd_delivery r) op p s = (ms, outcome)"
    by (auto simp: repair_exchange_def split: prod.split_asm)
  have same: "archive_send q = archive_send p" if "same_turn p q" for q
    using that by (simp add: fun_eq_iff archive_send_def same_turn_def same_request_def same_message_def)
  have "ms = [] \<or> (\<exists>options. ap_options p = Some options \<and> ms = [archive_send p options] \<and>
       dv_reconcile (pd_delivery r) (archive_send p options) = Inr None \<and>
       archive_admission sha workspace (dv_admission (pd_delivery r)) op p s = None)"
    using deliver_repair_sends [OF d] deliver_once_sends [of "pd_delivery r" p] by auto
  with repair_turn_cases [OF turn assms(3,4)] assms(2) same delivered_over show ?thesis
    by (cases result) (auto simp: same_turn_def)
qed

text \<open>The table's own operations on the preparation of a running attempt leave what the loop holds.\<close>

definition keeps_held :: "(receipts \<Rightarrow> receipts) \<Rightarrow> bool" where
  "keeps_held f \<longleftrightarrow> (\<forall>q u. held q u \<longrightarrow> held q (f u))"

lemma held_save:
  assumes "held q s" and "map_of (rc_preparations s) slug = Some p" and "p' = p\<lparr>ap_state := st, ap_error := e\<rparr>"
  shows "held q (s\<lparr>rc_preparations := AList.update (ap_slug p') p' (rc_preparations s)\<rparr>)"
proof -
  from assms(1,2) have slug: "ap_slug p = slug" by (auto simp: held_def keyed_def dest!: map_of_SomeD)
  with assms have "keyed (s\<lparr>rc_preparations := AList.update (ap_slug p') p' (rc_preparations s)\<rparr>)"
    by (auto simp: held_def keyed_def dest!: subsetD [OF set_update])
  then show ?thesis
  proof (cases "ap_slug q = slug")
    case True
    with assms slug have "ap_receipt p = ap_receipt q \<and> ap_attempt p = ap_attempt q \<Longrightarrow> near q p" by (simp add: held_def near_def)
    moreover have "near q p \<Longrightarrow> near q p'" unfolding near_def assms(3) by (cases q; cases p; simp)
    ultimately show ?thesis
      using \<open>keyed _\<close> True slug by (simp add: held_def AList.update_conv' near_def assms(3))
  qed (use assms slug in \<open>simp add: held_def AList.update_conv'\<close>)
qed

lemma held_cong: "rc_preparations t = rc_preparations s \<Longrightarrow> held q t = held q s"
  by (simp add: held_def keyed_def)

lemma replace_preparations: "replaceLifecycleOperationLocked ck workspace io slug op s = (e, t) \<Longrightarrow> rc_preparations t = rc_preparations s"
  by (auto simp: replaceLifecycleOperationLocked_def publishLifecycleSnapshot_def Let_def split: prod.split_asm option.split_asm)

lemma save_held:
  assumes "saveArchivePreparationLocked io p' s = (e, t)" and "held q s" and "map_of (rc_preparations s) slug = Some p"
    and "p' = p\<lparr>ap_state := st, ap_error := er\<rparr>"
  shows "held q t"
proof (cases e)
  case None
  with assms(1) have "t = s\<lparr>rc_preparations := AList.update (ap_slug p') p' (rc_preparations s)\<rparr>" by (intro save_preparation_ok) simp
  with held_save [OF assms(2-4)] show ?thesis by simp
next
  case (Some x)
  with assms(1,2) show ?thesis by (auto simp: saveArchivePreparationLocked_def split: option.split_asm if_split_asm)
qed

lemma cancel_held: "keeps_held (\<lambda>s. snd (cancelArchivePreparation ck workspace pio sio slug receipt s))"
proof -
  have "held q (snd (cancelArchivePreparation ck workspace pio sio slug receipt s))" if h: "held q s" for q s
  proof (cases "map_of (rc_operations s) slug = None \<or> map_of (rc_preparations s) slug = None")
    case False
    then obtain op p where p: "map_of (rc_operations s) slug = Some op" "map_of (rc_preparations s) slug = Some p" by auto
    obtain e t where save: "saveArchivePreparationLocked pio (p\<lparr>ap_state := ''canceled'', ap_error := canceled_text\<rparr>) s = (e, t)"
      by (cases "saveArchivePreparationLocked pio (p\<lparr>ap_state := ''canceled'', ap_error := canceled_text\<rparr>) s")
    from save_held [OF save h p(2) refl] have t: "held q t" .
    let ?x = "op\<lparr>lo_state := ''failed'', lo_phase := ''checking'', lo_error := canceled_text\<rparr>"
    obtain e' u where r: "replaceLifecycleOperationLocked ck workspace sio slug ?x t = (e', u)"
      by (cases "replaceLifecycleOperationLocked ck workspace sio slug ?x t")
    from t have u: "held q u" by (simp only: held_cong [OF replace_preparations [OF r]])
    have "snd (cancelArchivePreparation ck workspace pio sio slug receipt s) \<in> {s, t, u}"
      unfolding cancelArchivePreparation_def p option.case prod.case save Let_def r
      by (cases e; cases e') simp_all
    with h t u show ?thesis by (elim insertE) simp_all
  qed (use h in \<open>auto simp: cancelArchivePreparation_def split: option.split\<close>)
  then show ?thesis by (simp add: keeps_held_def)
qed

lemma loop_cleared:
  assumes "preparation_loop sha txt workspace rounds op p s = Some (None, t)" and "held p s"
    and "list_all (\<lambda>(r, before, between). errors_apart r \<and> keeps_held before \<and> keeps_held between) rounds"
  shows "\<exists>r q u. r \<in> fst ` set rounds \<and> same_request p q \<and> cleared sha workspace (pd_check r) op q u t"
  using assms
proof (induction rounds arbitrary: p s)
  case (Cons x rs)
  obtain r before between where x: "x = (r, before, between)" by (cases x)
  with Cons.prems have h: "errors_apart r" "keeps_held before" "keeps_held between" "pd_head r = None"
    by (auto split: option.split_asm)
  obtain result u where turn: "repair_turn sha txt workspace r op p (before s) = (result, u)" by (cases "repair_turn sha txt workspace r op p (before s)")
  from h(2) Cons.prems(2) have "held p (before s)" by (simp add: keeps_held_def)
  note rt = repair_turn_cases [OF turn this h(1)]
  have later: "\<exists>r q u. r \<in> fst ` set (x # rs) \<and> same_request p q \<and> cleared sha workspace (pd_check r) op q u t"
    if "same_request p q" "preparation_loop sha txt workspace rs op q v = Some (None, t)" "held q v" for q v
  proof -
    from Cons.prems(3) have "list_all (\<lambda>(r, before, between). errors_apart r \<and> keeps_held before \<and> keeps_held between) rs" by simp
    from Cons.IH [OF that(2,3) this] obtain r q' u where "r \<in> fst ` set rs" "same_request q q'" "cleared sha workspace (pd_check r) op q' u t" by blast
    with request_trans [OF that(1)] show ?thesis by (intro exI [of _ r] exI [of _ q'] exI [of _ u]) simp
  qed
  show ?case
  proof (cases result)
    case (Again q)
    with rt turn h(4) Cons.prems(1) later [of q u] show ?thesis by (simp add: x same_turn_def)
  next
    case (Checking q)
    obtain result' v where check: "check_turn sha txt workspace r op q (between u) = (result', v)" by (cases "check_turn sha txt workspace r op q (between u)")
    from Checking rt h(3) have "held q (between u)" "same_request p q" by (simp_all add: keeps_held_def)
    note ct = check_turn_cases [OF check this(1)]
    show ?thesis
    proof (cases result')
      case (Ended e)
      with ct turn check Checking h(4) Cons.prems(1) have "cleared sha workspace (pd_check r) op q (between u) t" by (simp add: x)
      with \<open>same_request p q\<close> show ?thesis by (auto simp: x)
    next
      case (Again q1)
      with ct turn check Checking h(4) Cons.prems(1) later [of q1 v] request_trans [OF \<open>same_request p q\<close>] show ?thesis by (simp add: x)
    qed (use ct in simp)
  qed (use rt turn h(4) Cons.prems(1) in \<open>simp add: x\<close>)
qed simp

text \<open>
  C11. Archival follows only a check that found nothing in its way. When the preparation of a request ends without an
  error, one of its turns was admitted (the request current and running, its journal absent, the session's target and
  conversation those of the request) and ran a consistent check without blockers, and the durable preparation of
  that attempt says \<open>archiving\<close>.
\<close>

theorem archival_is_cleared:
  assumes "runArchivePreparation sha txt workspace rounds op s = Some (None, t)"
    and "map_of (rc_preparations s) (lo_slug op) = Some p" and "prep_matches p op" and "keyed s"
    and "list_all (\<lambda>(r, before, between). errors_apart r \<and> keeps_held before \<and> keeps_held between) rounds"
  shows "\<exists>r q u. r \<in> fst ` set rounds \<and> same_request p q \<and> cleared sha workspace (pd_check r) op q u t"
proof -
  from assms(2,4) have "ap_slug p = lo_slug op" by (auto simp: keyed_def dest!: map_of_SomeD)
  with assms(2,4) have "held p s" by (simp add: held_def)
  moreover from assms(1-3) have "preparation_loop sha txt workspace rounds op p s = Some (None, t)" by (simp add: runArchivePreparation_def)
  ultimately show ?thesis using assms(5) by (intro loop_cleared)
qed


subsection \<open>Samples\<close>

definition lead_tracked :: tracked_summary where
  "lead_tracked = tracked\<lparr>mf_codex := \<lparr>cx_thread = ''t1'', cx_socket = ''/run/codex.sock'', cx_version = ''1.0''\<rparr>, mf_repositories := Some [],
     mf_artifacts := Some []\<rparr>"

definition archive_request :: lifecycle_operation where
  "archive_request = (filled ''demo'' [])\<lparr>lo_kind := ''archive'', lo_state := ''running'', lo_finished := [],
     lo_options := zero_options\<lparr>oo_mode := ''archived'', oo_target := jid, oo_journal := jid, oo_location := ''work''\<rparr>\<rparr>"

definition prepared :: archive_preparation where "prepared = fresh_preparation ''/w'' archive_request lead_tracked"

definition asked :: archive_preparation where
  "asked = prepared\<lparr>ap_round := 1, ap_message_id := ''m1'', ap_message := ''repair'', ap_options := Some (JObj []), ap_state := ''lead_fixing_blockers''\<rparr>"

definition request_table :: "archive_preparation \<Rightarrow> receipts" where
  "request_table p = \<lparr>rc_operations = [(''demo'', archive_request)], rc_durable = None, rc_revisions = (\<lambda>_. 1), rc_snapshots = [],
     rc_preparations = [(''demo'', p)], rc_closing = False\<rparr>"

definition admitted :: admission where
  "admitted = \<lparr>ad_gate = None, ad_fs = still_fs, ad_look = no_look\<lparr>lk_find := Inr lead_tracked, lk_stat := no_stat\<lparr>tk_lstat := None, tk_dir := True\<rparr>\<rparr>,
     ad_socket = ''/run/codex.sock'', ad_receipts = None\<rparr>"

definition saved_well :: preparation_io where "saved_well = \<lparr>pi_mkdir = None, pi_replace = io_success\<rparr>"

definition blocked_check :: archive_check where
  "blocked_check = \<lparr>ac_schema = 1, ac_workspace = ''/w'', ac_slug = ''demo'', ac_ready = False, ac_passed = 1, ac_total = 3, ac_stage = 1, ac_count = 1,
     ac_blockers = [\<lparr>ab_code = ''dirty'', ab_message = ''uncommitted changes'', ab_path = None\<rparr>]\<rparr>"

definition ready_check :: archive_check where
  "ready_check = \<lparr>ac_schema = 1, ac_workspace = ''/w'', ac_slug = ''demo'', ac_ready = True, ac_passed = 3, ac_total = 3, ac_stage = 3, ac_count = 0, ac_blockers = []\<rparr>"

definition sample_round :: "archive_check \<Rightarrow> preparation_round_io" where
  "sample_round c = \<lparr>pd_head = None, pd_failed = None, pd_pause = None, pd_uncertain = (\<lambda>_. False),
     pd_delivery = \<lparr>dv_admission = admitted, dv_lock = None, dv_client = True, dv_held = False,
       dv_metadata = (\<lambda>_. Inr \<lparr>td_id = ''t1'', td_cwd = ''/w/work/demo'', td_type = ''active''\<rparr>), dv_reconcile = (\<lambda>_. Inr None),
       dv_send = (\<lambda>_. Inr \<lparr>sd_turn = ''u1'', sd_raw = JObj []\<rparr>), dv_io = saved_well,
       dv_turn = (\<lambda>_. Inr \<lparr>tn_thread = ''t1'', tn_latest = ''u1'', tn_latest_status = ''inProgress'', tn_status = ''active''\<rparr>),
       dv_fresh = (\<lambda>_. Inl ErrNotExist), dv_prompts = (\<lambda>_. Inr [])\<rparr>,
     pd_check = \<lparr>cl_admission = admitted, cl_output = Inr c, cl_io = saved_well, cl_archiving = saved_well\<rparr>,
     pd_repair = \<lparr>rl_admission = admitted, rl_client = True, rl_settings = None, rl_find = None, rl_roster = Some ErrNotExist, rl_options = JObj [],
       rl_io = saved_well\<rparr>,
     pd_update = saved_well, pd_clear = saved_well, pd_fail = saved_well\<rparr>"

definition shown :: "target_error \<Rightarrow> string" where "shown e = (case e of TargetError x \<Rightarrow> ''failed'' | TargetChanged t r \<Rightarrow> ''changed'')"

lemma sample_conditions: "errors_apart (sample_round c)" "held prepared (request_table prepared)" "held asked (request_table asked)" "keyed (request_table prepared)"
  "keeps_held id"
proof -
  have "ap_slug prepared = ''demo''" "ap_slug asked = ''demo''" by code_simp+
  then show "errors_apart (sample_round c)" "held prepared (request_table prepared)" "held asked (request_table asked)" "keyed (request_table prepared)" "keeps_held id"
    by (simp_all add: errors_apart_def sample_round_def held_def keyed_def request_table_def keeps_held_def)
qed

theorem outstanding_repair_kept_witness:
  "\<exists>q t. repair_exchange hex_sha shown ''/w'' (sample_round blocked_check) archive_request asked (request_table asked) =
       ([archive_send asked (JObj [])], Again q, t) \<and> same_message asked q"
proof -
  let ?e = "repair_exchange hex_sha shown ''/w'' (sample_round blocked_check) archive_request asked (request_table asked)"
  have "case ?e of ([m], Again q, t) \<Rightarrow> True | _ \<Rightarrow> False" by code_simp
  then obtain m q t where r: "?e = ([m], Again q, t)"
    by (auto split: prod.split_asm list.split_asm turn_result.split_asm)
  have "ap_message_id asked \<noteq> []" "ap_options asked = Some (JObj [])" by (simp_all add: asked_def)
  with outstanding_repair_kept [OF r this(1) sample_conditions(3,1)] r show ?thesis by auto
qed

lemma a_repair_cycle: "\<exists>p'. repair_cycle hex_sha shown ''/w'' archive_request prepared p'"
proof -
  let ?r = "sample_round blocked_check"
  have "repair_turn hex_sha shown ''/w'' ?r archive_request prepared (request_table prepared) = (Checking prepared, request_table prepared)"
    by (simp add: repair_turn_def repair_exchange_def prepared_def fresh_preparation_def)
  moreover have "case fst (check_turn hex_sha shown ''/w'' ?r archive_request prepared (request_table prepared)) of Again q \<Rightarrow> True | _ \<Rightarrow> False" by code_simp
  then obtain q v where "check_turn hex_sha shown ''/w'' ?r archive_request prepared (request_table prepared) = (Again q, v)"
    by (cases "check_turn hex_sha shown ''/w'' ?r archive_request prepared (request_table prepared)") (auto split: turn_result.split_asm)
  ultimately show ?thesis using repair_cycle.cycle [OF repair_waits.ready sample_conditions(2,1) _ sample_conditions(2)] by blast
qed

theorem archival_is_cleared_witness:
  "\<exists>t q. runArchivePreparation hex_sha shown ''/w'' [(sample_round ready_check, id, id)] archive_request (request_table prepared) = Some (None, t) \<and>
     (\<exists>k. map_of (rc_preparations t) k = Some q \<and> ap_state q = ''archiving'')"
proof -
  let ?run = "runArchivePreparation hex_sha shown ''/w'' [(sample_round ready_check, id, id)] archive_request (request_table prepared)"
  have "map_option fst ?run = Some None" by code_simp
  then obtain t where t: "?run = Some (None, t)" by auto
  have p: "map_of (rc_preparations (request_table prepared)) (lo_slug archive_request) = Some prepared" "prep_matches prepared archive_request" by code_simp+
  have "list_all (\<lambda>(r, before, between). errors_apart r \<and> keeps_held before \<and> keeps_held between) [(sample_round ready_check, id, id)]"
    using sample_conditions by simp
  from archival_is_cleared [OF t p sample_conditions(4) this] obtain q where "\<exists>k. map_of (rc_preparations t) k = Some q" "ap_state q = ''archiving''"
    unfolding cleared_def by blast
  with t show ?thesis by blast
qed

end
