(* ===== verification/Upload_Catalog.thy ===== *)
theory Upload_Catalog
  imports Go_Text Session_Base Go_Files "HOL-Library.AList" "HOL-Library.List_Lexorder" "HOL-Library.Char_ord"
begin

text \<open>
  The private upload store of the portal (\<open>portal/internal/uploads/store.go\<close>): its catalog of scopes, files and
  submissions, the locked transaction every operation runs in, and the compaction it begins with. A Go
  map is an association list with distinct keys; the order of its entries stands for the order of an
  iteration. Times are nanoseconds; a reading of the clock inside a loop is indexed by the entry it is taken for.
\<close>

subsection \<open>Data\<close>

definition maxCatalogBytes :: nat where "maxCatalogBytes = 16 * 2 ^ 20"
definition maxRecords :: nat where "maxRecords = 10000"
definition draftLifetime :: int where "draftLifetime = 7 * 24 * 60 * 60 * 1000000000"

definition idPattern :: "string \<Rightarrow> bool" where
  "idPattern v \<longleftrightarrow> map length (split_on (CHR ''-'') v) = [8, 4, 4, 4, 12] \<and> list_all (list_all lower_hex) (split_on (CHR ''-'') v)"

record upload_scope =
  us_id :: string
  us_slug :: string
  us_thread :: string
  us_epoch :: string
  us_draft :: bool
  us_deleted :: bool
  us_created :: int

record upload_file =
  uf_id :: string
  uf_client :: string
  uf_scope :: string
  uf_name :: string
  uf_size :: int
  uf_offset :: int
  uf_checksums :: "string list"
  uf_state :: string
  uf_updated :: int

record submission =
  sb_scope :: string
  sb_kind :: string
  sb_attempt :: string
  sb_text :: string
  sb_wire :: string
  sb_files :: "string list"
  sb_state :: string
  sb_queue :: string
  sb_item :: string

record catalog =
  ct_schema :: int
  ct_workspace :: string
  ct_scopes :: "(string \<times> upload_scope) list"
  ct_files :: "(string \<times> upload_file) list"
  ct_submissions :: "(string \<times> submission) list"

record upload_limits =
  ul_file :: int
  ul_prompt :: int
  ul_session :: int
  ul_workspace :: int
  ul_chunk :: int
  ul_files :: nat

definition DefaultLimits :: upload_limits where
  "DefaultLimits = \<lparr>ul_file = 2 ^ 30, ul_prompt = 2 * 2 ^ 30, ul_session = 10 * 2 ^ 30, ul_workspace = 100 * 2 ^ 30, ul_chunk = 4 * 2 ^ 20, ul_files = 50\<rparr>"

record upload_store =
  up_directory :: string
  up_workspace :: string
  up_limits :: upload_limits
  up_min_free :: u64

text \<open>A refusal with its HTTP status, an error of the system, and a catalog whose persistence is not confirmed.\<close>

datatype upload_error = Problem nat string | Fault error | Unconfirmed error

definition New_store :: "string \<Rightarrow> string \<Rightarrow> error + upload_store" where
  "New_store dir workspace =
     (let directory = Clean dir in
      if \<not> IsAbs directory \<or> \<not> IsAbs workspace \<or> directory = workspace \<or> HasPrefix directory (workspace @ ''/'')
      then Inl (Err ''upload storage must be an absolute private path outside the workspace'')
      else Inr \<lparr>up_directory = directory, up_workspace = workspace, up_limits = DefaultLimits, up_min_free = 2 ^ 30\<rparr>)"

definition zero_scope :: upload_scope where
  "zero_scope = \<lparr>us_id = [], us_slug = [], us_thread = [], us_epoch = [], us_draft = False, us_deleted = False, us_created = 0\<rparr>"

definition zero_file :: upload_file where
  "zero_file = \<lparr>uf_id = [], uf_client = [], uf_scope = [], uf_name = [], uf_size = 0, uf_offset = 0, uf_checksums = [], uf_state = [], uf_updated = 0\<rparr>"

text \<open>Reading a map at a key that is absent gives the zero value.\<close>

definition scope_at :: "catalog \<Rightarrow> string \<Rightarrow> upload_scope" where
  "scope_at c k = (case map_of (ct_scopes c) k of None \<Rightarrow> zero_scope | Some s \<Rightarrow> s)"

definition file_at :: "catalog \<Rightarrow> string \<Rightarrow> upload_file" where
  "file_at c k = (case map_of (ct_files c) k of None \<Rightarrow> zero_file | Some f \<Rightarrow> f)"

definition set_scope :: "string \<Rightarrow> upload_scope \<Rightarrow> catalog \<Rightarrow> catalog" where
  "set_scope k s c = c\<lparr>ct_scopes := AList.update k s (ct_scopes c)\<rparr>"

definition set_file :: "string \<Rightarrow> upload_file \<Rightarrow> catalog \<Rightarrow> catalog" where
  "set_file k f c = c\<lparr>ct_files := AList.update k f (ct_files c)\<rparr>"

definition set_submission :: "string \<Rightarrow> submission \<Rightarrow> catalog \<Rightarrow> catalog" where
  "set_submission k b c = c\<lparr>ct_submissions := AList.update k b (ct_submissions c)\<rparr>"

subsection \<open>The catalog's text\<close>

text \<open>\<open>tm\<close>: the JSON form of a time. The keys of a map are written in order.\<close>

definition upload_scope_json :: "(int \<Rightarrow> json) \<Rightarrow> upload_scope \<Rightarrow> json" where
  "upload_scope_json tm s = JObj
     ([(''id'', JStr (us_id s))] @ omit (us_slug s = []) ''slug'' (JStr (us_slug s)) @ omit (us_thread s = []) ''thread'' (JStr (us_thread s)) @
      omit (us_epoch s = []) ''epoch'' (JStr (us_epoch s)) @ [(''draft'', JBool (us_draft s))] @ omit (\<not> us_deleted s) ''deleted'' (JBool (us_deleted s)) @
      [(''created'', tm (us_created s))])"

definition file_json :: "(int \<Rightarrow> json) \<Rightarrow> upload_file \<Rightarrow> json" where
  "file_json tm f = JObj
     ([(''id'', JStr (uf_id f)), (''clientId'', JStr (uf_client f)), (''scope'', JStr (uf_scope f)), (''name'', JStr (uf_name f)),
       (''size'', JInt (uf_size f)), (''offset'', JInt (uf_offset f))] @ omit (uf_checksums f = []) ''checksums'' (JArr (map JStr (uf_checksums f))) @
      [(''state'', JStr (uf_state f)), (''updated'', tm (uf_updated f))])"

text \<open>The files of a submission are never an empty slice: \<open>null\<close> does not occur.\<close>

definition submission_json :: "submission \<Rightarrow> json" where
  "submission_json b = JObj
     ([(''scope'', JStr (sb_scope b)), (''kind'', JStr (sb_kind b)), (''attempt'', JStr (sb_attempt b)), (''text'', JStr (sb_text b)),
       (''wire'', JStr (sb_wire b)), (''files'', JArr (map JStr (sb_files b))), (''state'', JStr (sb_state b))] @
      omit (sb_queue b = []) ''queueId'' (JStr (sb_queue b)) @ omit (sb_item b = []) ''itemId'' (JStr (sb_item b)))"

definition map_json :: "('a \<Rightarrow> json) \<Rightarrow> (string \<times> 'a) list \<Rightarrow> json" where
  "map_json f m = JObj (map (\<lambda>x. (fst x, f (snd x))) (sort_key fst m))"

definition catalog_json :: "(int \<Rightarrow> json) \<Rightarrow> catalog \<Rightarrow> json" where
  "catalog_json tm c = JObj
     [(''schema'', JInt (ct_schema c)), (''workspace'', JStr (ct_workspace c)), (''scopes'', map_json (upload_scope_json tm) (ct_scopes c)),
      (''files'', map_json (file_json tm) (ct_files c)), (''submissions'', map_json submission_json (ct_submissions c))]"

subsection \<open>Compaction\<close>

definition catalogSize :: "catalog \<Rightarrow> nat \<times> nat" where
  "catalogSize c =
     (length (ct_files c) + length (ct_scopes c) + length (ct_submissions c), sum_list (map (\<lambda>x. length (uf_checksums (snd x))) (ct_files c)))"

text \<open>Submissions whose scope is gone, and unsent ones whose files are gone.\<close>

definition obsolete :: "catalog \<Rightarrow> submission \<Rightarrow> bool" where
  "obsolete c b \<longleftrightarrow>
     (if sb_state b = ''prepared'' \<or> sb_state b = ''cancelled''
      then \<not> list_ex (\<lambda>i. case map_of (ct_files c) i of None \<Rightarrow> False | Some f \<Rightarrow> uf_state f \<noteq> ''deleted'') (sb_files b)
      else us_deleted (scope_at c (sb_scope b)))"

definition referenced :: "catalog \<Rightarrow> string \<Rightarrow> bool" where
  "referenced c i \<longleftrightarrow> list_ex (\<lambda>x. i \<in> set (sb_files (snd x))) (ct_submissions c)"

text \<open>\<open>at id\<close>: the clock when the loop looked at the record.\<close>

definition disposable :: "(string \<Rightarrow> int) \<Rightarrow> catalog \<Rightarrow> string \<times> upload_file \<Rightarrow> bool" where
  "disposable at c x \<longleftrightarrow>
     uf_state (snd x) = ''deleted'' \<and> \<not> referenced c (fst x) \<and>
     (us_deleted (scope_at c (uf_scope (snd x))) \<or> draftLifetime \<le> at (fst x) - uf_updated (snd x))"

definition unstage :: "upload_file \<Rightarrow> upload_file" where
  "unstage f = (if uf_state f \<noteq> ''uploading'' \<and> uf_checksums f \<noteq> [] then f\<lparr>uf_checksums := []\<rparr> else f)"

definition compact_files :: "(string \<Rightarrow> int) \<Rightarrow> catalog \<Rightarrow> (string \<times> upload_file) list" where
  "compact_files at c = filter (\<lambda>x. \<not> disposable at c x) (map (\<lambda>x. (fst x, unstage (snd x))) (ct_files c))"

definition occupied :: "catalog \<Rightarrow> string \<Rightarrow> bool" where
  "occupied c k \<longleftrightarrow> list_ex (\<lambda>x. sb_scope (snd x) = k) (ct_submissions c) \<or> list_ex (\<lambda>x. uf_scope (snd x) = k) (ct_files c)"

definition abandoned :: "(string \<Rightarrow> int) \<Rightarrow> catalog \<Rightarrow> string \<times> upload_scope \<Rightarrow> bool" where
  "abandoned at c x \<longleftrightarrow> \<not> occupied c (fst x) \<and> (us_deleted (snd x) \<or> draftLifetime \<le> at (fst x) - us_created (snd x))"

record compact_clock =
  cc_files :: "string \<Rightarrow> int"
  cc_scopes :: "string \<Rightarrow> int"

definition compact :: "compact_clock \<Rightarrow> catalog \<Rightarrow> bool \<times> catalog" where
  "compact k c =
     (let c1 = c\<lparr>ct_submissions := filter (\<lambda>x. \<not> obsolete c (snd x)) (ct_submissions c)\<rparr>;
          c2 = c1\<lparr>ct_files := compact_files (cc_files k) c1\<rparr>;
          c3 = c2\<lparr>ct_scopes := filter (\<lambda>x. \<not> abandoned (cc_scopes k) c2 x) (ct_scopes c2)\<rparr> in
      (c3 \<noteq> c, c3))"

subsection \<open>The transaction\<close>

text \<open>
  The bytes of a file, under \<open>files/<id>\<close>: while it is uploaded, and when it is complete. The state of the
  store: the catalog's file, whether its persistence is unconfirmed, and the bytes.
\<close>

record blob =
  bl_partial :: "string option"
  bl_final :: "string option"

definition no_blob :: blob where "no_blob = \<lparr>bl_partial = None, bl_final = None\<rparr>"

record upload_state =
  ud_catalog :: "catalog option"
  ud_unconfirmed :: bool
  ud_blobs :: "string \<Rightarrow> blob"

text \<open>
  What a transaction observes. \<open>ui_file\<close>: the catalog's file, \<open>ui_null\<close>: whether one of its maps decoded to
  \<open>null\<close>; \<open>ui_before\<close> and \<open>ui_after\<close>: syncing the file and its directory.
\<close>

record transaction_io =
  ui_mkdir :: "error option"
  ui_lstat :: "error option"
  ui_private :: bool
  ui_lock :: "error option"
  ui_flock :: "flock_attempt list"
  ui_file :: "catalog file_view"
  ui_null :: bool
  ui_before :: "error option"
  ui_clock :: compact_clock
  ui_create :: "error option"
  ui_write :: "error option"
  ui_sync :: "error option"
  ui_close :: "error option"
  ui_rename :: "error option"
  ui_after :: "error option"

definition confirmCatalog :: "error option \<Rightarrow> upload_state \<Rightarrow> upload_error option \<times> upload_state" where
  "confirmCatalog e s = (map_option Unconfirmed e, s\<lparr>ud_unconfirmed := e \<noteq> None\<rparr>)"

definition empty_catalog :: "string \<Rightarrow> catalog" where
  "empty_catalog workspace = \<lparr>ct_schema = 1, ct_workspace = workspace, ct_scopes = [], ct_files = [], ct_submissions = []\<rparr>"

definition file_record_ok :: "string \<times> upload_file \<Rightarrow> bool" where
  "file_record_ok x \<longleftrightarrow>
     idPattern (fst x) \<and> uf_id (snd x) = fst x \<and> 0 \<le> uf_size (snd x) \<and> 0 \<le> uf_offset (snd x) \<and> uf_offset (snd x) \<le> uf_size (snd x) \<and>
     length (uf_checksums (snd x)) \<le> 4096"

definition catalog_error :: "upload_store \<Rightarrow> bool \<Rightarrow> catalog \<Rightarrow> error option" where
  "catalog_error st null c =
     (if ct_schema c \<noteq> 1 \<or> ct_workspace c \<noteq> up_workspace st \<or> null then Some (Err ''upload catalog has the wrong identity'')
      else if maxRecords < length (ct_files c) \<or> maxRecords < length (ct_scopes c) \<or> maxRecords < length (ct_submissions c)
      then Some (Err ''upload catalog exceeds its record limit'')
      else if \<not> list_all file_record_ok (ct_files c) then Some (Err ''invalid upload record'')
      else None)"

definition load_catalog :: "upload_store \<Rightarrow> transaction_io \<Rightarrow> error + catalog" where
  "load_catalog st io =
     (let v = ui_file io;
          check = (\<lambda>null c. case catalog_error st null c of Some e \<Rightarrow> Inl e | None \<Rightarrow> Inr c) in
      case fv_open v of
        Some e \<Rightarrow> if errors_is e ErrNotExist then check False (empty_catalog (up_workspace st)) else Inl e
      | None \<Rightarrow> (case fv_read v of
          Inl e \<Rightarrow> Inl e
        | Inr bytes \<Rightarrow>
            if maxCatalogBytes < length bytes then Inl (Err ''upload catalog is too large'')
            else case fv_decode v of
              Inl e \<Rightarrow> Inl e
            | Inr c \<Rightarrow> if fv_trailing v then Inl (Err ''upload catalog has trailing data'') else check (ui_null io) c))"

text \<open>
  What runs inside: from the compacted catalog and the state of the store to an error, whether the catalog
  changed, a result, the catalog and the state it leaves.
\<close>

type_synonym 'a body = "catalog \<Rightarrow> upload_state \<Rightarrow> (upload_error option \<times> bool \<times> 'a) \<times> catalog \<times> upload_state"

definition too_large :: "nat \<Rightarrow> nat \<times> nat \<Rightarrow> nat \<times> nat \<Rightarrow> bool" where
  "too_large bytes old new \<longleftrightarrow>
     maxCatalogBytes < bytes \<or> maxCatalogBytes - 2 ^ 20 < bytes \<and> (fst old < fst new \<or> snd old < snd new)"

definition store_catalog :: "(int \<Rightarrow> json) \<Rightarrow> transaction_io \<Rightarrow> nat \<times> nat \<Rightarrow> catalog \<Rightarrow> upload_state \<Rightarrow> upload_error option \<times> upload_state" where
  "store_catalog tm io old c s =
     (if too_large (json_len (catalog_json tm c)) old (catalogSize c)
      then (Some (Problem 507 ''Upload history is full; delete unused sessions or wait for unused drafts to expire''), s)
      else case first_error [ui_create io, ui_write io, ui_sync io, ui_close io, ui_rename io] of
        Some e \<Rightarrow> (Some (Fault e), s)
      | None \<Rightarrow> confirmCatalog (ui_after io) (s\<lparr>ud_catalog := Some c\<rparr>))"

text \<open>From the catalog that was read: compaction, the body, and the new catalog if there is one.\<close>

definition commit :: "(int \<Rightarrow> json) \<Rightarrow> transaction_io \<Rightarrow> 'a body \<Rightarrow> catalog \<Rightarrow> upload_state \<Rightarrow> (upload_error option \<times> 'a) \<times> upload_state" where
  "commit tm io body data s =
     (let (compacted, data1) = compact (ui_clock io) data;
          ((e, changed, a), data2, s2) = body data1 s in
      if e \<noteq> None \<or> \<not> changed \<and> \<not> compacted then ((e, a), s2)
      else let (e', s3) = store_catalog tm io (catalogSize data) data2 s2 in ((e', a), s3))"

text \<open>\<open>None\<close>: the lock was not granted within the attempts given. \<open>zero\<close>: the result before the body runs.\<close>

definition run_transaction ::
  "(int \<Rightarrow> json) \<Rightarrow> upload_store \<Rightarrow> transaction_io \<Rightarrow> 'a \<Rightarrow> 'a body \<Rightarrow> upload_state \<Rightarrow> ((upload_error option \<times> 'a) \<times> upload_state) option" where
  "run_transaction tm st io zero body s =
     (let fault = (\<lambda>e. Some ((Some (Fault e), zero), s)) in
      case first_error [ui_mkdir io, ui_lstat io] of
        Some e \<Rightarrow> fault e
      | None \<Rightarrow>
          if \<not> ui_private io then fault (Err ''upload directory must be private'')
          else case ui_lock io of
            Some e \<Rightarrow> fault e
          | None \<Rightarrow> (case flock_wait (ui_flock io) of
              None \<Rightarrow> None
            | Some (Some e) \<Rightarrow> fault e
            | Some None \<Rightarrow> (case load_catalog st io of
                Inl e \<Rightarrow> fault e
              | Inr data \<Rightarrow> (case (if ud_unconfirmed s then confirmCatalog (ui_before io) s else (None, s)) of
                  (Some e, s1) \<Rightarrow> Some ((Some e, zero), s1)
                | (None, s1) \<Rightarrow> Some (commit tm io body data s1)))))"

end
