(* ===== verification/Upload_Files.thy ===== *)
theory Upload_Files
  imports Upload_Catalog "HOL-Library.Word"
begin

text \<open>
  Scopes and files of the upload store: what runs inside the transaction of each operation. \<open>sha\<close> is the
  hexadecimal SHA-256 of a text.
\<close>

subsection \<open>Identities and paths\<close>

unbundle bit_operations_syntax

text \<open>\<open>newID\<close> over the sixteen bytes \<open>crypto/rand\<close> delivers, or its error.\<close>

definition version_bytes :: "byte list \<Rightarrow> byte list" where
  "version_bytes bs = bs[6 := (bs ! 6 AND 0x0f) OR 0x40, 8 := (bs ! 8 AND 0x3f) OR 0x80]"

definition dashed :: "string \<Rightarrow> string" where
  "dashed h = take 8 h @ ''-'' @ take 4 (drop 8 h) @ ''-'' @ take 4 (drop 12 h) @ ''-'' @ take 4 (drop 16 h) @ ''-'' @ drop 20 h"

definition upload_newID :: "error + byte list \<Rightarrow> error + string" where
  "upload_newID ent = (case ent of Inl e \<Rightarrow> Inl e | Inr bs \<Rightarrow> Inr (dashed (hex_encode (version_bytes bs))))"

text \<open>\<open>filepath.Ext\<close>: from the last dot of the last element.\<close>

definition Ext :: "string \<Rightarrow> string" where
  "Ext name =
     (let base = last (split_on (CHR ''/'') name); parts = split_on (CHR ''.'') base in
      if length parts < 2 then [] else CHR ''.'' # last parts)"

definition path_char :: "char \<Rightarrow> bool" where
  "path_char c \<longleftrightarrow>
     c = CHR ''.'' \<or> (let b = byte_of c in 97 \<le> b \<and> b \<le> 122 \<or> 65 \<le> b \<and> b \<le> 90 \<or> 48 \<le> b \<and> b \<le> 57)"

definition filePath :: "upload_store \<Rightarrow> upload_file \<Rightarrow> bool \<Rightarrow> string" where
  "filePath st f partial =
     (let ext = Ext (uf_name f);
          extension = (if 16 < length ext \<or> \<not> list_all path_char ext then [] else ext) in
      Join [up_directory st, ''files'', uf_id f, if partial then ''partial'' else ''file'' @ extension])"

subsection \<open>Access\<close>

definition accessible :: "catalog \<Rightarrow> string \<Rightarrow> string \<Rightarrow> bool" where
  "accessible c scope i \<longleftrightarrow>
     (case map_of (ct_scopes c) scope of
        None \<Rightarrow> False
      | Some s \<Rightarrow> \<not> us_deleted s \<and>
          (case map_of (ct_files c) i of
             None \<Rightarrow> False
           | Some f \<Rightarrow> uf_scope f = scope \<or> list_ex (\<lambda>x. sb_scope (snd x) = scope \<and> i \<in> set (sb_files (snd x))) (ct_submissions c)))"

record upload_view =
  uv_id :: string
  uv_name :: string
  uv_size :: int
  uv_state :: string
  uv_download :: string
  uv_delete :: string
  uv_references :: "string list"
  uv_offset :: int
  uv_checksums :: "string list"

definition reference_slugs :: "catalog \<Rightarrow> string \<Rightarrow> string list" where
  "reference_slugs c i =
     map (\<lambda>x. us_slug (scope_at c (sb_scope (snd x))))
       (filter (\<lambda>x. i \<in> set (sb_files (snd x)) \<and> sb_state (snd x) \<noteq> ''cancelled'' \<and>
          \<not> us_deleted (scope_at c (sb_scope (snd x))) \<and> us_slug (scope_at c (sb_scope (snd x))) \<noteq> []) (ct_submissions c))"

definition file_shown :: "catalog \<Rightarrow> upload_file \<Rightarrow> string \<Rightarrow> upload_view" where
  "file_shown c f base =
     \<lparr>uv_id = uf_id f, uv_name = uf_name f, uv_size = uf_size f, uv_state = uf_state f,
      uv_download = (if uf_state f = ''ready'' then base @ ''/'' @ uf_id f @ ''/content'' else []),
      uv_delete = (if uf_state f = ''ready'' then base @ ''/'' @ uf_id f else []),
      uv_references = sort (remdups (reference_slugs c (uf_id f))), uv_offset = uf_offset f, uv_checksums = uf_checksums f\<rparr>"

definition zero_view :: upload_view where
  "zero_view = \<lparr>uv_id = [], uv_name = [], uv_size = 0, uv_state = [], uv_download = [], uv_delete = [], uv_references = [], uv_offset = 0, uv_checksums = []\<rparr>"

record backend =
  bk_scope :: string
  bk_base :: string
  bk_read_only :: bool

definition shown_view :: "backend \<Rightarrow> catalog \<Rightarrow> upload_file \<Rightarrow> upload_view" where
  "shown_view b c f = (if bk_read_only b then (file_shown c f (bk_base b))\<lparr>uv_delete := []\<rparr> else file_shown c f (bk_base b))"

text \<open>Bodies that only read, and one that refuses.\<close>

definition unchanged :: "'a \<Rightarrow> 'a body" where "unchanged a c s = ((None, False, a), c, s)"

definition refuse :: "nat \<Rightarrow> string \<Rightarrow> 'a \<Rightarrow> 'a body" where "refuse status m a c s = ((Some (Problem status m), False, a), c, s)"

definition fails :: "error \<Rightarrow> 'a \<Rightarrow> 'a body" where "fails e a c s = ((Some (Fault e), False, a), c, s)"

definition List_body :: "backend \<Rightarrow> upload_view list body" where
  "List_body b c = unchanged
     (sort_key uv_id (map (\<lambda>x. shown_view b c (snd x)) (filter (\<lambda>x. accessible c (bk_scope b) (fst x)) (ct_files c)))) c"

definition Status_body :: "backend \<Rightarrow> string \<Rightarrow> upload_view body" where
  "Status_body b i c =
     (if \<not> accessible c (bk_scope b) i then refuse 404 ''File is unavailable'' zero_view c else unchanged (shown_view b c (file_at c i)) c)"

subsection \<open>Scopes\<close>

definition NewDraft_body :: "error + byte list \<Rightarrow> int \<Rightarrow> upload_scope body" where
  "NewDraft_body ent now c s =
     (if maxRecords \<le> length (ct_scopes c) then refuse 507 ''Too many upload drafts'' zero_scope c s
      else case upload_newID ent of
        Inl e \<Rightarrow> fails e zero_scope c s
      | Inr i \<Rightarrow> (let x = zero_scope\<lparr>us_id := i, us_draft := True, us_created := now\<rparr> in ((None, True, x), set_scope i x c, s)))"

definition SessionScope_body :: "string \<Rightarrow> string \<Rightarrow> string \<Rightarrow> error + byte list \<Rightarrow> int \<Rightarrow> upload_scope body" where
  "SessionScope_body slug thread epoch ent now c s =
     (case List.find (\<lambda>x. \<not> us_deleted (snd x) \<and> \<not> us_draft (snd x) \<and> us_slug (snd x) = slug \<and> us_thread (snd x) = thread \<and> us_epoch (snd x) = epoch)
             (ct_scopes c) of
        Some (_, x) \<Rightarrow> unchanged x c s
      | None \<Rightarrow>
          if maxRecords \<le> length (ct_scopes c) then refuse 507 ''Too many upload scopes'' zero_scope c s
          else case upload_newID ent of
            Inl e \<Rightarrow> fails e zero_scope c s
          | Inr i \<Rightarrow>
              (let x = zero_scope\<lparr>us_id := i, us_slug := slug, us_thread := thread, us_epoch := epoch, us_created := now\<rparr> in
               ((None, True, x), set_scope i x c, s)))"

definition Scope_body :: "string \<Rightarrow> upload_scope body" where
  "Scope_body i c =
     (if map_of (ct_scopes c) i = None \<or> us_deleted (scope_at c i) then refuse 404 ''Upload scope is unavailable'' (scope_at c i) c
      else unchanged (scope_at c i) c)"

subsection \<open>Receiving a file\<close>

text \<open>While a draft's initial files belong to an accepted request, the draft is frozen.\<close>

definition preparation_claim :: "string \<Rightarrow> submission \<Rightarrow> bool" where
  "preparation_claim scope b \<longleftrightarrow>
     sb_scope b = scope \<and> sb_kind b = ''initial'' \<and> HasPrefix (sb_attempt b) ''preparation:'' \<and> sb_state b = ''pending''"

definition preparationMutation :: "catalog \<Rightarrow> string \<Rightarrow> upload_error option" where
  "preparationMutation c scope =
     (if us_draft (scope_at c scope) \<and> list_ex (\<lambda>x. preparation_claim scope (snd x)) (ct_submissions c)
      then Some (Problem 409 ''Initial files belong to an accepted session request'') else None)"

definition guarded :: "string \<Rightarrow> 'a \<Rightarrow> 'a body \<Rightarrow> 'a body" where
  "guarded scope zero body c s = (case preparationMutation c scope of Some e \<Rightarrow> ((Some e, False, zero), c, s) | None \<Rightarrow> body c s)"

record upload_request =
  ur_client :: string
  ur_name :: string
  ur_size :: int

text \<open>\<open>unicode.IsControl\<close> of a rune of valid UTF-8.\<close>

fun has_control :: "string \<Rightarrow> bool" where
  "has_control [] = False"
| "has_control (c # cs) =
     (byte_of c < 32 \<or> byte_of c = 127 \<or> byte_of c = 194 \<and> (case cs of [] \<Rightarrow> False | d # _ \<Rightarrow> byte_of d < 160) \<or> has_control cs)"

definition request_error :: "upload_limits \<Rightarrow> upload_request \<Rightarrow> (nat \<times> string) option" where
  "request_error l q =
     (if ur_name q = [] then Some (400, ''Filename must not be empty'')
      else if \<not> ValidString (ur_name q) then Some (400, ''Filename must be valid UTF-8'')
      else if 255 < length (ur_name q) then Some (400, ''Filename exceeds 255 UTF-8 bytes; shorten it and select the file again'')
      else if has_control (ur_name q) then Some (400, ''Filename contains control characters; rename the file and select it again'')
      else if ur_size q < 0 then Some (400, ''File size must not be negative'')
      else if ul_file l < ur_size q then Some (413, ''File exceeds the upload size limit'')
      else None)"

definition live :: "upload_file \<Rightarrow> bool" where "live f \<longleftrightarrow> uf_state f \<noteq> ''deleted''"

definition bytes_in :: "(upload_file \<Rightarrow> bool) \<Rightarrow> catalog \<Rightarrow> int" where
  "bytes_in P c = sum_list (map (\<lambda>x. uf_size (snd x)) (filter (\<lambda>x. P (snd x)) (ct_files c)))"

text \<open>Bytes that unfinished uploads still need.\<close>

definition reserved_bytes :: "catalog \<Rightarrow> u64" where
  "reserved_bytes c =
     sum_list (map (\<lambda>x. word_of_int (uf_size (snd x) - uf_offset (snd x))) (filter (\<lambda>x. uf_state (snd x) = ''uploading'') (ct_files c)))"

text \<open>\<open>O_EXCL\<close>: the partial file must not exist yet.\<close>

definition ErrExist :: error where "ErrExist = Err ''file exists''"

record create_io =
  co_free :: "error + u64"
  co_entropy :: "error + byte list"
  co_now :: int
  co_mkdir :: "error option"
  co_open :: "error option"
  co_sync :: "error option"

definition set_blob :: "string \<Rightarrow> blob \<Rightarrow> upload_state \<Rightarrow> upload_state" where
  "set_blob i b s = s\<lparr>ud_blobs := (ud_blobs s)(i := b)\<rparr>"

definition fresh_file :: "backend \<Rightarrow> upload_request \<Rightarrow> string \<Rightarrow> int \<Rightarrow> upload_file" where
  "fresh_file b q i now =
     zero_file\<lparr>uf_id := i, uf_client := ur_client q, uf_scope := bk_scope b, uf_name := ur_name q, uf_size := ur_size q, uf_state := ''uploading'',
       uf_updated := now\<rparr>"

text \<open>The rules for a new file, in the order the code applies them.\<close>

definition admission_error :: "upload_store \<Rightarrow> backend \<Rightarrow> error + u64 \<Rightarrow> upload_request \<Rightarrow> upload_scope \<Rightarrow> catalog \<Rightarrow> upload_error option" where
  "admission_error st b disk q scope c =
     (let l = up_limits st; k = bk_scope b;
          limit = (if us_draft scope then ul_prompt l else ul_session l);
          mine = (\<lambda>f. live f \<and> uf_scope f = k) in
      case preparationMutation c k of
        Some e \<Rightarrow> Some e
      | None \<Rightarrow> (case request_error l q of
          Some (status, m) \<Rightarrow> Some (Problem status m)
        | None \<Rightarrow>
            if limit - bytes_in mine c < ur_size q \<or> ul_workspace l - bytes_in live c < ur_size q \<or>
               1000 \<le> length (filter (\<lambda>x. mine (snd x)) (ct_files c)) \<or> maxRecords \<le> length (ct_files c)
            then Some (Problem 413 ''Upload storage limit reached; remove unused files'')
            else case disk of
              Inl e \<Rightarrow> Some (Fault e)
            | Inr free \<Rightarrow>
                if free < up_min_free st + reserved_bytes c + word_of_int (ur_size q)
                then Some (Problem 507 ''Not enough free disk space for this upload'') else None))"

definition create_file :: "backend \<Rightarrow> create_io \<Rightarrow> upload_request \<Rightarrow> upload_view body" where
  "create_file b io q c s =
     (case upload_newID (co_entropy io) of
        Inl e \<Rightarrow> fails e zero_view c s
      | Inr i \<Rightarrow> (case first_error [co_mkdir io, if bl_partial (ud_blobs s i) \<noteq> None then Some ErrExist else co_open io] of
          Some e \<Rightarrow> fails e zero_view c s
        | None \<Rightarrow>
            (let s1 = set_blob i ((ud_blobs s i)\<lparr>bl_partial := Some []\<rparr>) s in
             case co_sync io of
               Some e \<Rightarrow> fails e zero_view c s1
             | None \<Rightarrow>
                 (let f = fresh_file b q i (co_now io); c1 = set_file i f c in ((None, True, file_shown c1 f (bk_base b)), c1, s1)))))"

definition Create_body :: "upload_store \<Rightarrow> backend \<Rightarrow> create_io \<Rightarrow> upload_request \<Rightarrow> upload_view body" where
  "Create_body st b io q c s =
     (case map_of (ct_scopes c) (bk_scope b) of
        None \<Rightarrow> refuse 404 ''Upload scope is unavailable'' zero_view c s
      | Some scope \<Rightarrow>
          if us_deleted scope then refuse 404 ''Upload scope is unavailable'' zero_view c s
          else case List.find (\<lambda>x. uf_scope (snd x) = bk_scope b \<and> uf_client (snd x) = ur_client q) (ct_files c) of
            Some (_, f) \<Rightarrow>
              if uf_name f \<noteq> ur_name q \<or> uf_size f \<noteq> ur_size q then refuse 409 ''Upload identity was reused for a different file'' zero_view c s
              else unchanged (file_shown c f (bk_base b)) c s
          | None \<Rightarrow> (case admission_error st b (co_free io) q scope c of
              Some e \<Rightarrow> ((Some e, False, zero_view), c, s)
            | None \<Rightarrow> create_file b io q c s))"

text \<open>\<open>nul\<close> bytes fill what a longer \<open>Truncate\<close> adds; \<open>an_write\<close>: how many bytes reached the file, and the error.\<close>

record append_io =
  an_open :: "error option"
  an_truncate :: "error option"
  an_write :: "nat \<times> error option"
  an_sync :: "error option"
  an_now :: int

definition truncated :: "nat \<Rightarrow> string \<Rightarrow> string" where
  "truncated n bytes = take n (bytes @ replicate n (CHR 0x00))"

definition write_chunk :: "append_io \<Rightarrow> nat \<Rightarrow> string \<Rightarrow> blob \<Rightarrow> error option \<times> blob" where
  "write_chunk io offset chunk bl =
     (case bl_partial bl of
        None \<Rightarrow> (Some ErrNotExist, bl)
      | Some old \<Rightarrow> (case first_error [an_open io, an_truncate io] of
          Some e \<Rightarrow> (Some e, bl)
        | None \<Rightarrow> (case an_write io of
            (n, Some e) \<Rightarrow> (Some e, bl\<lparr>bl_partial := Some (truncated offset old @ take n chunk)\<rparr>)
          | (n, None) \<Rightarrow> (an_sync io, bl\<lparr>bl_partial := Some (truncated offset old @ chunk)\<rparr>))))"

definition Append_body ::
  "upload_store \<Rightarrow> backend \<Rightarrow> append_io \<Rightarrow> string \<Rightarrow> int \<Rightarrow> string \<Rightarrow> string \<Rightarrow> upload_view body" where
  "Append_body st b io i offset checksum chunk = guarded (bk_scope b) zero_view (\<lambda>c s.
     case map_of (ct_files c) i of
       None \<Rightarrow> refuse 404 ''File is unavailable'' zero_view c s
     | Some f \<Rightarrow>
         if uf_scope f \<noteq> bk_scope b then refuse 404 ''File is unavailable'' zero_view c s
         else if uf_state f \<noteq> ''uploading'' \<or> uf_offset f \<noteq> offset then refuse 409 ''Upload progress changed; check its current offset'' zero_view c s
         else if int (length chunk) \<noteq> min (ul_chunk (up_limits st)) (uf_size f - offset) then refuse 400 ''Upload chunk has the wrong length'' zero_view c s
         else
           (let (e, bl) = write_chunk io (nat offset) chunk (ud_blobs s i); s1 = set_blob i bl s in
            case e of
              Some x \<Rightarrow> fails x zero_view c s1
            | None \<Rightarrow>
                (let f1 = f\<lparr>uf_offset := uf_offset f + int (length chunk), uf_checksums := uf_checksums f @ [checksum], uf_updated := an_now io\<rparr>;
                     c1 = set_file i f1 c in
                 ((None, True, file_shown c1 f1 (bk_base b)), c1, s1))))"

text \<open>Before the transaction: the chunk is read and its digest compared.\<close>

definition chunk_error :: "(string \<Rightarrow> string) \<Rightarrow> upload_limits \<Rightarrow> error + string \<Rightarrow> string \<Rightarrow> upload_error option" where
  "chunk_error sha l reading checksum =
     (case reading of
        Inl e \<Rightarrow> Some (Fault e)
      | Inr chunk \<Rightarrow>
          if chunk = [] \<or> ul_chunk l < int (length chunk) \<or> sha chunk \<noteq> checksum
          then Some (Problem 400 ''Upload chunk size or checksum is invalid'') else None)"

record complete_io =
  cm_rename :: "error option"
  cm_stat :: "error option"
  cm_chmod :: "error option"
  cm_opendir :: "error option"
  cm_syncdir :: "error option"
  cm_now :: int

text \<open>
  The rename, or a final file that an interrupted attempt left. A rename whose source is missing fails; one whose
  source is there does not report a missing file.
\<close>

definition publish_file :: "complete_io \<Rightarrow> int \<Rightarrow> blob \<Rightarrow> error option \<times> blob" where
  "publish_file io bytes bl =
     (let recover = (\<lambda>e. case bl_final bl of
          None \<Rightarrow> (Some e, bl)
        | Some final \<Rightarrow> if cm_stat io \<noteq> None \<or> int (length final) \<noteq> bytes then (Some e, bl) else (None, bl)) in
      case (bl_partial bl, cm_rename io) of
        (Some p, None) \<Rightarrow> (None, \<lparr>bl_partial = None, bl_final = Some p\<rparr>)
      | (Some p, Some x) \<Rightarrow> (Some x, bl)
      | (None, None) \<Rightarrow> recover ErrNotExist
      | (None, Some x) \<Rightarrow> if errors_is x ErrNotExist then recover x else (Some x, bl))"

definition Complete_body :: "backend \<Rightarrow> complete_io \<Rightarrow> string \<Rightarrow> upload_view body" where
  "Complete_body b io i = guarded (bk_scope b) zero_view (\<lambda>c s.
     case map_of (ct_files c) i of
       None \<Rightarrow> refuse 404 ''File is unavailable'' zero_view c s
     | Some f \<Rightarrow>
         if uf_scope f \<noteq> bk_scope b then refuse 404 ''File is unavailable'' zero_view c s
         else if uf_state f = ''deleted'' \<or> uf_offset f \<noteq> uf_size f then refuse 409 ''Upload is incomplete or removed'' zero_view c s
         else if uf_state f = ''ready'' then unchanged (file_shown c f (bk_base b)) c s
         else
           (let (e, bl) = publish_file io (uf_size f) (ud_blobs s i); s1 = set_blob i bl s in
            case first_error [e, cm_chmod io, cm_opendir io, cm_syncdir io] of
              Some x \<Rightarrow> fails x zero_view c s1
            | None \<Rightarrow>
                (let f1 = f\<lparr>uf_state := ''ready'', uf_checksums := [], uf_updated := cm_now io\<rparr>; c1 = set_file i f1 c in
                 ((None, True, file_shown c1 f1 (bk_base b)), c1, s1))))"

text \<open>What a download delivers: bytes, name and modification time.\<close>

definition Open_body :: "backend \<Rightarrow> error option \<Rightarrow> error option \<Rightarrow> string \<Rightarrow> (string \<times> string \<times> int) option body" where
  "Open_body b open' stat i c s =
     (case map_of (ct_files c) i of
        None \<Rightarrow> refuse 404 ''File is unavailable'' None c s
      | Some f \<Rightarrow>
          if \<not> accessible c (bk_scope b) i \<or> uf_state f \<noteq> ''ready'' then refuse 404 ''File is unavailable'' None c s
          else case (open', bl_final (ud_blobs s i)) of
            (Some e, _) \<Rightarrow> fails e None c s
          | (None, None) \<Rightarrow> fails ErrNotExist None c s
          | (None, Some bytes) \<Rightarrow>
              if stat \<noteq> None \<or> int (length bytes) \<noteq> uf_size f then fails (Err ''uploaded file changed'') None c s
              else unchanged (Some (bytes, uf_name f, uf_updated f)) c s)"

end
