(* ===== verification/Upload_Submissions.thy ===== *)
theory Upload_Submissions
  imports Upload_Files
begin

text \<open>
  Submissions of the upload store, and what ends the life of a file: preparing and observing a message with
  attachments, the exclusive claim of a session request, adoption, deletion, expiry and removal.
\<close>

subsection \<open>Preparing a submission\<close>

text \<open>\<open>lstat id\<close> and \<open>at id\<close>: the status of the file and the clock when the loop reached it.\<close>

record prepare_io =
  py_lstat :: "string \<Rightarrow> error option"
  py_at :: "string \<Rightarrow> int"

definition file_gone :: "prepare_io \<Rightarrow> upload_state \<Rightarrow> upload_file \<Rightarrow> bool" where
  "file_gone io s f \<longleftrightarrow>
     py_lstat io (uf_id f) \<noteq> None \<or> (case bl_final (ud_blobs s (uf_id f)) of None \<Rightarrow> True | Some b \<Rightarrow> int (length b) \<noteq> uf_size f)"

fun describe ::
  "upload_store \<Rightarrow> prepare_io \<Rightarrow> catalog \<Rightarrow> upload_state \<Rightarrow> string \<Rightarrow> string list \<Rightarrow> int \<Rightarrow> string list \<Rightarrow> upload_error + json list" where
  "describe st io c s scope seen bytes [] = Inr []"
| "describe st io c s scope seen bytes (i # ids) =
     (let f = file_at c i; bytes' = bytes + uf_size f in
      if map_of (ct_files c) i = None \<or> \<not> accessible c scope i \<or> uf_state f \<noteq> ''ready'' \<or> i \<in> set seen
      then Inl (Problem 400 ''An attachment is unavailable, incomplete or repeated'')
      else if ul_prompt (up_limits st) < bytes' then Inl (Problem 413 ''Attachments exceed the prompt size limit'')
      else if file_gone io s f then Inl (Problem 409 ''An uploaded file is unavailable'')
      else case describe st io c s scope (i # seen) bytes' ids of
        Inl e \<Rightarrow> Inl e
      | Inr ds \<Rightarrow>
          Inr (JObj [(''name'', JStr (uf_name f)), (''size'', JInt (uf_size f)), (''path'', JStr (filePath st f False))] # ds))"

definition attachment_intro :: string where
  "attachment_intro = nl @ nl @ ''Attached local files (inputs; keep these files outside version control):'' @ nl"

definition touch :: "(string \<Rightarrow> int) \<Rightarrow> string list \<Rightarrow> catalog \<Rightarrow> catalog" where
  "touch at ids c = fold (\<lambda>i d. set_file i ((file_at d i)\<lparr>uf_updated := at i\<rparr>) d) ids c"

definition submission_key :: "string \<Rightarrow> string \<Rightarrow> string \<Rightarrow> string" where
  "submission_key scope kind attempt = scope @ ''/'' @ kind @ ''/'' @ attempt"

definition resendable :: "submission \<Rightarrow> bool" where "resendable b \<longleftrightarrow> sb_state b = ''prepared'' \<or> sb_state b = ''cancelled''"

definition new_submission :: "string \<Rightarrow> string \<Rightarrow> string \<Rightarrow> string \<Rightarrow> string \<Rightarrow> string list \<Rightarrow> bool \<Rightarrow> submission" where
  "new_submission scope kind attempt message wire ids pending =
     \<lparr>sb_scope = scope, sb_kind = kind, sb_attempt = attempt, sb_text = message, sb_wire = wire, sb_files = ids,
      sb_state = (if kind = ''initial'' \<and> \<not> pending then ''prepared'' else ''pending''), sb_queue = [], sb_item = []\<rparr>"

definition submit_files ::
  "upload_store \<Rightarrow> prepare_io \<Rightarrow> string \<Rightarrow> string \<Rightarrow> string \<Rightarrow> string \<Rightarrow> string list \<Rightarrow> bool \<Rightarrow> string body" where
  "submit_files st io scope kind attempt message ids pending c s =
     (if ids = [] then unchanged (TrimSpace message) c s
      else if maxRecords \<le> length (ct_submissions c) then refuse 507 ''Too many stored attachment submissions'' [] c s
      else case describe st io c s scope [] 0 ids of
        Inl e \<Rightarrow> ((Some e, False, []), c, s)
      | Inr ds \<Rightarrow>
          (let wire = TrimSpace (message @ attachment_intro @ json_indent 0 (JArr ds)) in
           if MaxMessageBytes < length wire then refuse 413 ''Message and attachment references exceed the prompt limit'' [] c s
           else ((None, True, wire),
                 touch (py_at io) ids (set_submission (submission_key scope kind attempt) (new_submission scope kind attempt message wire ids pending) c), s)))"

definition prepareSubmission ::
  "upload_store \<Rightarrow> prepare_io \<Rightarrow> string \<Rightarrow> string \<Rightarrow> string \<Rightarrow> string \<Rightarrow> string list \<Rightarrow> bool \<Rightarrow> string body" where
  "prepareSubmission st io scope kind attempt message ids pending c s =
     (if ul_files (up_limits st) < length ids then refuse 400 ''Too many files for one prompt'' [] c s
      else case map_of (ct_submissions c) (submission_key scope kind attempt) of
        None \<Rightarrow> submit_files st io scope kind attempt message ids pending c s
      | Some previous \<Rightarrow>
          if sb_text previous \<noteq> message \<or> sb_files previous \<noteq> ids
          then refuse 409 ''Submission identity was reused with different attachments or text'' [] c s
          else if \<not> resendable previous then unchanged (sb_wire previous) c s
          else submit_files st io scope kind attempt message ids pending c s)"

definition Prepare_body ::
  "upload_store \<Rightarrow> backend \<Rightarrow> prepare_io \<Rightarrow> string \<Rightarrow> string \<Rightarrow> string \<Rightarrow> string list \<Rightarrow> string body" where
  "Prepare_body st b io kind attempt message ids =
     guarded (bk_scope b) [] (prepareSubmission st io (bk_scope b) kind attempt (TrimSpace message) ids False)"

subsection \<open>The claim of a session request\<close>

definition claim_key :: "string \<Rightarrow> string \<Rightarrow> string" where
  "claim_key scope request = submission_key scope ''initial'' (''preparation:'' @ request)"

definition preparationClaimConflict :: "catalog \<Rightarrow> string \<Rightarrow> string \<Rightarrow> upload_error option" where
  "preparationClaimConflict c scope owner =
     (if map_of (ct_scopes c) scope = None \<or> us_deleted (scope_at c scope) then Some (Problem 409 ''Initial attachment ownership changed'')
      else if us_draft (scope_at c scope) \<and>
              list_ex (\<lambda>x. fst x \<noteq> owner \<and> sb_scope (snd x) = scope \<and> sb_state (snd x) \<noteq> ''cancelled'') (ct_submissions c)
      then Some (Problem 409 ''Initial files have a competing submission'') else None)"

definition preparePreparation ::
  "upload_store \<Rightarrow> prepare_io \<Rightarrow> string \<Rightarrow> string \<Rightarrow> string \<Rightarrow> string list \<Rightarrow> string body" where
  "preparePreparation st io request scope message ids c s =
     (let key = claim_key scope request; problem = (\<lambda>e. ((Some e, False, []), c, s)) in
      case map_of (ct_submissions c) key of
        Some previous \<Rightarrow> (case preparationClaimConflict c scope key of
          Some e \<Rightarrow> problem e
        | None \<Rightarrow>
            if sb_text previous \<noteq> message \<or> sb_files previous \<noteq> ids \<or> sb_state previous \<noteq> ''pending'' \<and> sb_state previous \<noteq> ''observed''
            then problem (Problem 409 ''Initial attachment request changed'')
            else unchanged (sb_wire previous) c s)
      | None \<Rightarrow>
          if map_of (ct_scopes c) scope = None \<or> us_deleted (scope_at c scope) \<or> \<not> us_draft (scope_at c scope) \<or> us_slug (scope_at c scope) \<noteq> []
          then problem (Problem 409 ''Initial attachment scope is unavailable'')
          else case preparationMutation c scope of
            Some e \<Rightarrow> problem e
          | None \<Rightarrow>
              if list_ex (\<lambda>x. sb_scope (snd x) = scope \<and> sb_state (snd x) \<noteq> ''cancelled'') (ct_submissions c)
              then problem (Problem 409 ''Initial files already belong to another submission'')
              else prepareSubmission st io scope ''initial'' (''preparation:'' @ request) message ids True c s)"

text \<open>A replay that changes nothing still confirms that the catalog is on disk (\<open>confirm\<close>).\<close>

definition ClaimPreparation_body ::
  "upload_store \<Rightarrow> prepare_io \<Rightarrow> error option \<Rightarrow> string \<Rightarrow> string \<Rightarrow> string \<Rightarrow> string list \<Rightarrow> string body" where
  "ClaimPreparation_body st io confirm request scope message ids c s =
     (case preparePreparation st io request scope message ids c s of
        ((None, False, wire), c1, s1) \<Rightarrow> (let (e, s2) = confirmCatalog confirm s1 in ((e, False, wire), c1, s2))
      | r \<Rightarrow> r)"

definition ValidatePreparation_body ::
  "upload_store \<Rightarrow> prepare_io \<Rightarrow> string \<Rightarrow> string \<Rightarrow> string \<Rightarrow> string list \<Rightarrow> unit body" where
  "ValidatePreparation_body st io request scope message ids c s =
     (let ((e, _, _), _, s1) = preparePreparation st io request scope message ids c s in ((e, False, ()), c, s1))"

definition BindPreparation_body :: "string \<Rightarrow> string \<Rightarrow> string \<Rightarrow> string \<Rightarrow> string \<Rightarrow> unit body" where
  "BindPreparation_body request scope wire slug epoch c s =
     (let key = claim_key scope request; x = scope_at c scope in
      case preparationClaimConflict c scope key of
        Some e \<Rightarrow> ((Some e, False, ()), c, s)
      | None \<Rightarrow>
          if (case map_of (ct_submissions c) key of
                None \<Rightarrow> True
              | Some b \<Rightarrow> sb_wire b \<noteq> wire \<or> sb_state b \<noteq> ''pending'' \<and> sb_state b \<noteq> ''observed'') \<or>
             us_deleted x \<or> us_slug x \<noteq> [] \<and> (us_slug x \<noteq> slug \<or> us_epoch x \<noteq> epoch)
          then refuse 409 ''Initial attachment ownership changed'' () c s
          else ((None, True, ()), set_scope scope (x\<lparr>us_slug := slug, us_epoch := epoch\<rparr>) c, s))"

text \<open>Adoption of the initial submissions whose wire text has the digest, in the order of the iteration.\<close>

definition owns_files :: "catalog \<Rightarrow> submission \<Rightarrow> bool" where
  "owns_files c b \<longleftrightarrow> list_all (\<lambda>i. uf_scope (file_at c i) = sb_scope b) (sb_files b)"

definition adoptable :: "(string \<Rightarrow> string) \<Rightarrow> string \<Rightarrow> catalog \<Rightarrow> submission \<Rightarrow> bool" where
  "adoptable sha digest c b \<longleftrightarrow> sb_kind b = ''initial'' \<and> sha (sb_wire b) = digest \<and> owns_files c b"

fun adopt_each ::
  "(string \<Rightarrow> string) \<Rightarrow> string \<Rightarrow> string \<Rightarrow> string \<Rightarrow> string \<Rightarrow> (string \<times> submission) list \<Rightarrow> bool \<Rightarrow> catalog \<Rightarrow> (upload_error option \<times> bool) \<times> catalog" where
  "adopt_each sha digest slug thread epoch [] changed c = ((None, changed), c)"
| "adopt_each sha digest slug thread epoch ((key, b) # bs) changed c =
     (if \<not> adoptable sha digest c b then adopt_each sha digest slug thread epoch bs changed c
      else
        (let x = scope_at c (sb_scope b) in
         case (if HasPrefix (sb_attempt b) ''preparation:'' then preparationClaimConflict c (sb_scope b) key else None) of
           Some e \<Rightarrow> ((Some e, False), c)
         | None \<Rightarrow>
             if us_deleted x \<or> us_slug x \<noteq> [] \<and> (us_slug x \<noteq> slug \<or> us_epoch x \<noteq> epoch) \<or> \<not> us_draft x \<and> us_thread x \<noteq> thread
             then ((Some (Problem 409 ''Initial attachment ownership changed''), False), c)
             else adopt_each sha digest slug thread epoch bs True
                    (set_submission key (b\<lparr>sb_state := ''observed''\<rparr>)
                      (set_scope (us_id x) (x\<lparr>us_draft := False, us_slug := slug, us_thread := thread, us_epoch := epoch\<rparr>) c))))"

definition AdoptInitial_body :: "(string \<Rightarrow> string) \<Rightarrow> string \<Rightarrow> string \<Rightarrow> string \<Rightarrow> string \<Rightarrow> unit body" where
  "AdoptInitial_body sha digest slug thread epoch c s =
     (let ((e, changed), c1) = adopt_each sha digest slug thread epoch (ct_submissions c) False c in ((e, changed, ()), c1, s))"

definition BindCreation_body :: "(string \<Rightarrow> string) \<Rightarrow> string \<Rightarrow> string \<Rightarrow> string \<Rightarrow> string \<Rightarrow> unit body" where
  "BindCreation_body sha wire slug thread epoch = AdoptInitial_body sha (sha wire) slug thread epoch"

subsection \<open>What the conversation shows\<close>

record transcript_entry =
  te_kind :: string
  te_text :: string
  te_client :: string
  te_item :: string
  te_display :: "string option"
  te_attachments :: "upload_view list"

definition attachments :: "backend \<Rightarrow> catalog \<Rightarrow> submission \<Rightarrow> upload_view list" where
  "attachments b c x = map (\<lambda>i. shown_view b c (file_at c i)) (sb_files x)"

definition transcribed :: "backend \<Rightarrow> transcript_entry \<Rightarrow> submission \<Rightarrow> bool" where
  "transcribed b t x \<longleftrightarrow>
     \<not> (sb_scope x \<noteq> bk_scope b \<or> sb_wire x \<noteq> te_text t \<or> sb_kind x \<noteq> ''initial'' \<and> sb_attempt x \<noteq> te_client t \<and> sb_item x \<noteq> te_item t) \<and>
     \<not> (sb_kind x = ''initial'' \<and> sb_item x \<noteq> [] \<and> sb_item x \<noteq> te_item t)"

fun observe_each :: "backend \<Rightarrow> transcript_entry list \<Rightarrow> catalog \<Rightarrow> bool \<times> transcript_entry list \<times> catalog" where
  "observe_each b [] c = (False, [], c)"
| "observe_each b (t # ts) c =
     (case (if te_kind t = ''userMessage'' then List.find (\<lambda>x. transcribed b t (snd x)) (ct_submissions c) else None) of
        None \<Rightarrow> (let (changed, us, d) = observe_each b ts c in (changed, t # us, d))
      | Some (key, x) \<Rightarrow>
          (let t1 = t\<lparr>te_display := Some (sb_text x), te_attachments := te_attachments t @ attachments b c x\<rparr>;
               update = (sb_state x \<noteq> ''observed'' \<or> sb_item x \<noteq> te_item t);
               c1 = (if update then set_submission key (x\<lparr>sb_state := ''observed'', sb_item := te_item t\<rparr>) c else c);
               (changed, us, d) = observe_each b ts c1 in
           (update \<or> changed, t1 # us, d)))"

definition ObserveTranscript_body :: "backend \<Rightarrow> transcript_entry list \<Rightarrow> transcript_entry list body" where
  "ObserveTranscript_body b ts c s = (let (changed, us, d) = observe_each b ts c in ((None, changed, us), d, s))"

record queue_entry =
  qe_id :: string
  qe_client :: string
  qe_text :: string
  qe_display :: "string option"
  qe_attachments :: "upload_view list"

definition queued_as :: "backend \<Rightarrow> queue_entry \<Rightarrow> submission \<Rightarrow> bool" where
  "queued_as b q x \<longleftrightarrow> sb_scope x = bk_scope b \<and> sb_kind x = ''queue'' \<and> sb_attempt x = qe_client q \<and> sb_wire x = qe_text q"

fun queue_each :: "backend \<Rightarrow> queue_entry list \<Rightarrow> catalog \<Rightarrow> bool \<times> queue_entry list \<times> catalog" where
  "queue_each b [] c = (False, [], c)"
| "queue_each b (q # qs) c =
     (case List.find (\<lambda>x. queued_as b q (snd x)) (ct_submissions c) of
        None \<Rightarrow> (let (changed, us, d) = queue_each b qs c in (changed, q # us, d))
      | Some (key, x) \<Rightarrow>
          (let q1 = q\<lparr>qe_display := Some (sb_text x), qe_attachments := qe_attachments q @ map (\<lambda>i. file_shown c (file_at c i) (bk_base b)) (sb_files x)\<rparr>;
               update = ((sb_state x = ''pending'' \<or> sb_state x = ''queued'') \<and> (sb_state x \<noteq> ''queued'' \<or> sb_queue x \<noteq> qe_id q));
               c1 = (if update then set_submission key (x\<lparr>sb_state := ''queued'', sb_queue := qe_id q\<rparr>) c else c);
               (changed, us, d) = queue_each b qs c1 in
           (update \<or> changed, q1 # us, d)))"

definition ObserveQueue_body :: "backend \<Rightarrow> queue_entry list \<Rightarrow> queue_entry list body" where
  "ObserveQueue_body b qs c s = (let (changed, us, d) = queue_each b qs c in ((None, changed, us), d, s))"

definition dequeued :: "backend \<Rightarrow> string \<Rightarrow> submission \<Rightarrow> bool" where
  "dequeued b i x \<longleftrightarrow> sb_scope x = bk_scope b \<and> sb_queue x = i \<and> sb_state x \<noteq> ''observed''"

definition QueueDeleted_body :: "backend \<Rightarrow> string \<Rightarrow> unit body" where
  "QueueDeleted_body b i c s =
     ((None, list_ex (\<lambda>x. dequeued b i (snd x)) (ct_submissions c), ()),
      c\<lparr>ct_submissions := map (\<lambda>x. (fst x, if dequeued b i (snd x) then (snd x)\<lparr>sb_state := ''cancelled''\<rparr> else snd x)) (ct_submissions c)\<rparr>, s)"

subsection \<open>Deletion\<close>

definition sent :: "submission \<Rightarrow> bool" where "sent b \<longleftrightarrow> sb_state b \<noteq> ''cancelled'' \<and> sb_state b \<noteq> ''prepared''"

definition scopes_of :: "catalog \<Rightarrow> string list \<Rightarrow> (string \<times> upload_scope) list" where
  "scopes_of c ks = map (\<lambda>k. (k, scope_at c k)) (remdups ks)"

definition referring :: "catalog \<Rightarrow> string \<Rightarrow> string list" where
  "referring c i = map (\<lambda>x. sb_scope (snd x)) (filter (\<lambda>x. i \<in> set (sb_files (snd x)) \<and> sent (snd x)) (ct_submissions c))"

text \<open>The first transaction, with a lock on the references: their scopes.\<close>

definition delete_scopes_body :: "backend \<Rightarrow> string \<Rightarrow> (string \<times> upload_scope) list body" where
  "delete_scopes_body b i c s =
     (if \<not> accessible c (bk_scope b) i then refuse 404 ''File is unavailable'' [] c s
      else unchanged (scopes_of c (bk_scope b # referring c i)) c s)"

text \<open>\<open>locked\<close>: the scopes that were locked, if references are; \<open>idle\<close>: the check of the referring sessions, if there is one.\<close>

fun reference_error :: "string \<Rightarrow> string list option \<Rightarrow> (string \<times> submission) list \<Rightarrow> upload_error option" where
  "reference_error i locked [] = None"
| "reference_error i locked (x # xs) =
     (let b = snd x in
      if i \<notin> set (sb_files b) \<or> \<not> sent b then reference_error i locked xs
      else if sb_state b = ''pending'' \<or> sb_state b = ''queued''
      then Some (Problem 409 ''This file is referenced by a queued or unresolved submission'')
      else if (case locked of None \<Rightarrow> False | Some ks \<Rightarrow> sb_scope b \<notin> set ks)
      then Some (Problem 409 ''File references changed; retry deletion'')
      else reference_error i locked xs)"

definition delete_body ::
  "backend \<Rightarrow> (upload_scope list \<Rightarrow> error option) option \<Rightarrow> string list option \<Rightarrow> int \<Rightarrow> string \<Rightarrow> bool \<Rightarrow> unit body" where
  "delete_body b idle locked now i confirmed = guarded (bk_scope b) () (\<lambda>c s.
     (let f = file_at c i; scopes = scopes_of c (referring c i);
          bury = ((None, True, ()), set_file i (f\<lparr>uf_state := ''deleted'', uf_checksums := [], uf_updated := now\<rparr>) c, s) in
      if map_of (ct_files c) i = None \<or> \<not> accessible c (bk_scope b) i then refuse 404 ''File is unavailable'' () c s
      else if uf_state f = ''deleted'' then unchanged () c s
      else case reference_error i locked (ct_submissions c) of
        Some e \<Rightarrow> ((Some e, False, ()), c, s)
      | None \<Rightarrow>
          if scopes = [] then bury
          else if \<not> confirmed then refuse 409 ''Confirm deletion of the submitted file'' () c s
          else case idle of
            None \<Rightarrow> refuse 409 ''Unable to verify that referencing sessions are idle'' () c s
          | Some check \<Rightarrow> (case check (filter (\<lambda>x. \<not> us_deleted x) (map snd scopes)) of
              Some e \<Rightarrow> fails e () c s
            | None \<Rightarrow> bury)))"

text \<open>
  Unlinking what is durably obsolete. \<open>rm_entries\<close>: the directories under \<open>files\<close>; \<open>rm_fail id\<close>: an error of
  removing one, with what is left of it.
\<close>

record reclaim_io =
  rm_entries :: "error + string list"
  rm_fail :: "string \<Rightarrow> (error \<times> blob) option"

fun remove_each :: "reclaim_io \<Rightarrow> string list \<Rightarrow> upload_state \<Rightarrow> error option \<times> upload_state" where
  "remove_each io [] s = (None, s)"
| "remove_each io (i # is) s =
     (case rm_fail io i of
        Some (e, rest) \<Rightarrow> (Some e, set_blob i rest s)
      | None \<Rightarrow> remove_each io is (set_blob i no_blob s))"

definition reclaim_body :: "reclaim_io \<Rightarrow> unit body" where
  "reclaim_body io c s =
     (case (case rm_entries io of Inl e \<Rightarrow> if errors_is e ErrNotExist then Inr [] else Inl e | Inr es \<Rightarrow> Inr es) of
        Inl e \<Rightarrow> fails e () c s
      | Inr entries \<Rightarrow>
          (let orphans = filter (\<lambda>n. map_of (ct_files c) n = None \<and> idPattern n) entries;
               buried = map (\<lambda>x. uf_id (snd x)) (filter (\<lambda>x. uf_state (snd x) = ''deleted'') (ct_files c));
               (e, s1) = remove_each io (orphans @ buried) s in
           ((map_option Fault e, False, ()), c, s1)))"

subsection \<open>Expiry and removal\<close>

definition pinned_file :: "catalog \<Rightarrow> string \<Rightarrow> bool" where
  "pinned_file c i \<longleftrightarrow> list_ex (\<lambda>x. sent (snd x) \<and> i \<in> set (sb_files (snd x))) (ct_submissions c)"

definition draft_expired :: "(string \<Rightarrow> int) \<Rightarrow> catalog \<Rightarrow> string \<times> upload_file \<Rightarrow> bool" where
  "draft_expired at c x \<longleftrightarrow> live (snd x) \<and> \<not> pinned_file c (fst x) \<and> draftLifetime \<le> at (fst x) - uf_updated (snd x)"

definition bury_file :: "upload_file \<Rightarrow> upload_file" where "bury_file f = f\<lparr>uf_state := ''deleted'', uf_checksums := []\<rparr>"

definition Collect_body :: "(string \<Rightarrow> int) \<Rightarrow> unit body" where
  "Collect_body at c s =
     ((None, list_ex (draft_expired at c) (ct_files c), ()),
      c\<lparr>ct_files := map (\<lambda>x. (fst x, if draft_expired at c x then bury_file (snd x) else snd x)) (ct_files c)\<rparr>, s)"

definition retired :: "string \<Rightarrow> string \<Rightarrow> string \<Rightarrow> upload_scope \<Rightarrow> bool" where
  "retired slug thread epoch x \<longleftrightarrow> us_slug x = slug \<and> (us_thread x = thread \<or> us_draft x) \<and> us_epoch x = epoch \<and> \<not> us_deleted x"

definition thread_missing :: "string \<Rightarrow> string \<Rightarrow> string \<Rightarrow> upload_scope \<Rightarrow> bool" where
  "thread_missing slug thread epoch x \<longleftrightarrow> us_slug x = slug \<and> us_epoch x = epoch \<and> \<not> us_deleted x \<and> \<not> us_draft x \<and> thread = []"

definition RemoveSession_body :: "compact_clock \<Rightarrow> string \<Rightarrow> string \<Rightarrow> string \<Rightarrow> unit body" where
  "RemoveSession_body k slug thread epoch c s =
     (if list_ex (\<lambda>x. thread_missing slug thread epoch (snd x)) (ct_scopes c)
      then fails (Err ''retired thread identity is required to remove session uploads'') () c s
      else
        (let owned = map fst (filter (\<lambda>x. retired slug thread epoch (snd x)) (ct_scopes c));
             c1 = c\<lparr>ct_scopes := map (\<lambda>x. (fst x, if retired slug thread epoch (snd x) then (snd x)\<lparr>us_deleted := True\<rparr> else snd x)) (ct_scopes c),
                    ct_files := map (\<lambda>x. (fst x, if uf_scope (snd x) \<in> set owned then bury_file (snd x) else snd x)) (ct_files c),
                    ct_submissions := filter (\<lambda>x. sb_scope (snd x) \<notin> set owned) (ct_submissions c)\<rparr> in
         ((None, owned \<noteq> [], ()), snd (compact k c1), s)))"

text \<open>A fork refers to the files of the messages in its transcript.\<close>

fun fork_each :: "string \<Rightarrow> upload_scope \<Rightarrow> (string \<times> string \<times> string) list \<Rightarrow> (string \<times> submission) list \<Rightarrow> bool \<Rightarrow> catalog \<Rightarrow> bool \<times> catalog" where
  "fork_each source target entries [] changed c = (changed, c)"
| "fork_each source target entries (x # xs) changed c =
     (let b = snd x in
      if us_thread (scope_at c (sb_scope b)) \<noteq> source \<or> sb_state b = ''cancelled'' then fork_each source target entries xs changed c
      else case List.find (\<lambda>(kind, message, _). kind = ''userMessage'' \<and> message = sb_wire b) entries of
        None \<Rightarrow> fork_each source target entries xs changed c
      | Some (_, _, item) \<Rightarrow>
          (let key = submission_key (us_id target) (sb_kind b) (sb_attempt b) in
           if map_of (ct_submissions c) key \<noteq> None then fork_each source target entries xs changed c
           else fork_each source target entries xs True
                  (set_submission key (b\<lparr>sb_scope := us_id target, sb_state := ''observed'', sb_item := item\<rparr>) c)))"

definition Fork_body :: "string \<Rightarrow> upload_scope \<Rightarrow> (string \<times> string \<times> string) list \<Rightarrow> unit body" where
  "Fork_body source target entries c s =
     (let (changed, c1) = fork_each source target entries (ct_submissions c) False c in ((None, changed, ()), c1, s))"

definition Scopes_body :: "upload_scope list body" where "Scopes_body c = unchanged (map snd (ct_scopes c)) c"

text \<open>Accepted initial prompts are pinned; those of a deleted owner are given up.\<close>

fun retain_each :: "(string \<times> upload_scope) list \<Rightarrow> (string \<times> submission) list \<Rightarrow> bool \<Rightarrow> catalog \<Rightarrow> (upload_error option \<times> bool) \<times> catalog" where
  "retain_each goals [] changed c = ((None, changed), c)"
| "retain_each goals ((key, b) # bs) changed c =
     (let x = scope_at c (sb_scope b) in
      case map_of goals (sb_wire b) of
        None \<Rightarrow> retain_each goals bs changed c
      | Some owner \<Rightarrow>
          if us_deleted owner \<and> sb_kind b = ''initial'' \<and> us_draft x
          then retain_each goals bs True
                 (set_submission key (b\<lparr>sb_state := ''cancelled''\<rparr>) (set_scope (us_id x) (x\<lparr>us_slug := [], us_epoch := []\<rparr>) c))
          else if sb_kind b = ''initial'' \<and> sb_state b = ''prepared'' then
            (if us_slug x \<noteq> [] \<and> (us_slug x \<noteq> us_slug owner \<or> us_epoch x \<noteq> us_epoch owner)
             then ((Some (Problem 409 ''Initial files belong to another creation''), False), c)
             else retain_each goals bs True
                    (set_submission key (b\<lparr>sb_state := ''pending''\<rparr>)
                      (set_scope (us_id x) (x\<lparr>us_slug := us_slug owner, us_epoch := us_epoch owner\<rparr>) c)))
          else retain_each goals bs changed c)"

definition RetainCreations_body :: "(string \<times> upload_scope) list \<Rightarrow> unit body" where
  "RetainCreations_body goals c s =
     (let ((e, changed), c1) = retain_each goals (ct_submissions c) False c in ((e, changed, ()), c1, s))"

definition HasThread_body :: "string \<Rightarrow> bool body" where
  "HasThread_body thread c = unchanged (list_ex (\<lambda>x. us_thread (scope_at c (sb_scope (snd x))) = thread) (ct_submissions c)) c"

end
