(* ===== verification/Upload_Store.thy ===== *)
theory Upload_Store
  imports Upload_Submissions Session_Authority
begin

text \<open>
  The operations of the upload store as the code calls them: what is checked before the transaction, the
  transaction around each body, and the operations made of several transactions. Below them the store as a
  state machine, whose steps are the transactions, in any order and with whatever the system answers.
\<close>

subsection \<open>Operations\<close>

type_synonym 'a call_result = "((upload_error option \<times> 'a) \<times> upload_state) option"

text \<open>\<open>userstate.WorkspaceDirectory\<close>: the digest's first eight bytes are sixteen digits.\<close>

definition WorkspaceDirectory :: "(string \<Rightarrow> string) \<Rightarrow> string \<Rightarrow> string \<Rightarrow> string \<Rightarrow> string" where
  "WorkspaceDirectory sha root namespace workspace = Join [root, namespace, Base workspace @ ''-'' @ take 16 (sha workspace)]"

definition ForWorkspace :: "(string \<Rightarrow> string) \<Rightarrow> string \<Rightarrow> string \<Rightarrow> error + upload_store" where
  "ForWorkspace sha workspace root =
     (if \<not> IsAbs workspace \<or> \<not> IsAbs root then Inl (Err ''workspace and user state root must be absolute'')
      else New_store (Join [WorkspaceDirectory sha root ''portal'' workspace, ''uploads'']) workspace)"

definition NewDraft :: "(int \<Rightarrow> json) \<Rightarrow> upload_store \<Rightarrow> transaction_io \<Rightarrow> error + byte list \<Rightarrow> int \<Rightarrow> upload_state \<Rightarrow> upload_scope call_result" where
  "NewDraft tm st io ent now = run_transaction tm st io zero_scope (NewDraft_body ent now)"

definition SessionScope ::
  "(int \<Rightarrow> json) \<Rightarrow> upload_store \<Rightarrow> transaction_io \<Rightarrow> error + byte list \<Rightarrow> int \<Rightarrow> string \<Rightarrow> string \<Rightarrow> string \<Rightarrow> upload_state \<Rightarrow> upload_scope call_result" where
  "SessionScope tm st io ent now slug thread epoch = run_transaction tm st io zero_scope (SessionScope_body slug thread epoch ent now)"

definition Create_upload ::
  "(int \<Rightarrow> json) \<Rightarrow> upload_store \<Rightarrow> backend \<Rightarrow> transaction_io \<Rightarrow> create_io \<Rightarrow> upload_request \<Rightarrow> upload_state \<Rightarrow> upload_view call_result" where
  "Create_upload tm st b io cio q s =
     (if \<not> idPattern (ur_client q) then Some ((Some (Problem 400 ''Invalid upload identity; remove the file and select it again''), zero_view), s)
      else run_transaction tm st io zero_view (Create_body st b cio q) s)"

text \<open>\<open>reading\<close>: the bytes of the request, at most one more than a chunk, or the error of reading them.\<close>

definition Append_upload ::
  "(string \<Rightarrow> string) \<Rightarrow> (int \<Rightarrow> json) \<Rightarrow> upload_store \<Rightarrow> backend \<Rightarrow> transaction_io \<Rightarrow> append_io \<Rightarrow> string \<Rightarrow> int \<Rightarrow> string \<Rightarrow>
   error + string \<Rightarrow> upload_state \<Rightarrow> upload_view call_result" where
  "Append_upload sha tm st b io aio i offset checksum reading s =
     (case (chunk_error sha (up_limits st) reading checksum, reading) of
        (None, Inr chunk) \<Rightarrow> run_transaction tm st io zero_view (Append_body st b aio i offset checksum chunk) s
      | (e, _) \<Rightarrow> Some ((e, zero_view), s))"

definition Complete_upload ::
  "(int \<Rightarrow> json) \<Rightarrow> upload_store \<Rightarrow> backend \<Rightarrow> transaction_io \<Rightarrow> complete_io \<Rightarrow> string \<Rightarrow> upload_state \<Rightarrow> upload_view call_result" where
  "Complete_upload tm st b io cio i = run_transaction tm st io zero_view (Complete_body b cio i)"

definition Open_upload ::
  "(int \<Rightarrow> json) \<Rightarrow> upload_store \<Rightarrow> backend \<Rightarrow> transaction_io \<Rightarrow> error option \<Rightarrow> error option \<Rightarrow> string \<Rightarrow> upload_state \<Rightarrow>
   (string \<times> string \<times> int) option call_result" where
  "Open_upload tm st b io open' stat i = run_transaction tm st io None (Open_body b open' stat i)"

definition Prepare ::
  "(int \<Rightarrow> json) \<Rightarrow> upload_store \<Rightarrow> backend \<Rightarrow> transaction_io \<Rightarrow> prepare_io \<Rightarrow> string \<Rightarrow> string \<Rightarrow> string \<Rightarrow> string list \<Rightarrow> upload_state \<Rightarrow>
   string call_result" where
  "Prepare tm st b io pio kind attempt message ids = run_transaction tm st io [] (Prepare_body st b pio kind attempt message ids)"

definition ClaimPreparation ::
  "(int \<Rightarrow> json) \<Rightarrow> upload_store \<Rightarrow> transaction_io \<Rightarrow> prepare_io \<Rightarrow> error option \<Rightarrow> string \<Rightarrow> string \<Rightarrow> string \<Rightarrow> string list \<Rightarrow>
   upload_state \<Rightarrow> string call_result" where
  "ClaimPreparation tm st io pio confirm request scope message ids s =
     (if ids = [] then Some ((None, TrimSpace message), s)
      else if \<not> idPattern request then Some ((Some (Problem 400 ''Invalid session request identity''), []), s)
      else run_transaction tm st io [] (ClaimPreparation_body st pio confirm request scope message ids) s)"

definition ValidatePreparation ::
  "(int \<Rightarrow> json) \<Rightarrow> upload_store \<Rightarrow> transaction_io \<Rightarrow> prepare_io \<Rightarrow> string \<Rightarrow> string \<Rightarrow> string \<Rightarrow> string list \<Rightarrow> upload_state \<Rightarrow> unit call_result" where
  "ValidatePreparation tm st io pio request scope message ids s =
     (if ids = [] then Some ((None, ()), s)
      else run_transaction tm st io () (ValidatePreparation_body st pio request scope message ids) s)"

text \<open>Operations of one transaction around a body.\<close>

definition Scope_of_store ::
  "(int \<Rightarrow> json) \<Rightarrow> upload_store \<Rightarrow> transaction_io \<Rightarrow> string \<Rightarrow> upload_state \<Rightarrow> upload_scope call_result" where
  "Scope_of_store tm st io i = run_transaction tm st io zero_scope (Scope_body i)"

definition Scopes_of_store ::
  "(int \<Rightarrow> json) \<Rightarrow> upload_store \<Rightarrow> transaction_io \<Rightarrow> upload_state \<Rightarrow> upload_scope list call_result" where
  "Scopes_of_store tm st io = run_transaction tm st io [] (Scopes_body)"

definition HasThread ::
  "(int \<Rightarrow> json) \<Rightarrow> upload_store \<Rightarrow> transaction_io \<Rightarrow> string \<Rightarrow> upload_state \<Rightarrow> bool call_result" where
  "HasThread tm st io thread = run_transaction tm st io False (HasThread_body thread)"

definition List_uploads ::
  "(int \<Rightarrow> json) \<Rightarrow> upload_store \<Rightarrow> transaction_io \<Rightarrow> backend \<Rightarrow> upload_state \<Rightarrow> upload_view list call_result" where
  "List_uploads tm st io b = run_transaction tm st io [] (List_body b)"

definition Status_upload ::
  "(int \<Rightarrow> json) \<Rightarrow> upload_store \<Rightarrow> transaction_io \<Rightarrow> backend \<Rightarrow> string \<Rightarrow> upload_state \<Rightarrow> upload_view call_result" where
  "Status_upload tm st io b i = run_transaction tm st io zero_view (Status_body b i)"

definition BindPreparation ::
  "(int \<Rightarrow> json) \<Rightarrow> upload_store \<Rightarrow> transaction_io \<Rightarrow> string \<Rightarrow> string \<Rightarrow> string \<Rightarrow> string \<Rightarrow> string \<Rightarrow> upload_state \<Rightarrow> unit call_result" where
  "BindPreparation tm st io request scope wire slug epoch = run_transaction tm st io () (BindPreparation_body request scope wire slug epoch)"

definition AdoptInitial ::
  "(string \<Rightarrow> string) \<Rightarrow> (int \<Rightarrow> json) \<Rightarrow> upload_store \<Rightarrow> transaction_io \<Rightarrow> string \<Rightarrow> string \<Rightarrow> string \<Rightarrow> string \<Rightarrow> upload_state \<Rightarrow> unit call_result" where
  "AdoptInitial sha tm st io digest slug thread epoch = run_transaction tm st io () (AdoptInitial_body sha digest slug thread epoch)"

definition BindCreation ::
  "(string \<Rightarrow> string) \<Rightarrow> (int \<Rightarrow> json) \<Rightarrow> upload_store \<Rightarrow> transaction_io \<Rightarrow> string \<Rightarrow> string \<Rightarrow> string \<Rightarrow> string \<Rightarrow> upload_state \<Rightarrow> unit call_result" where
  "BindCreation sha tm st io wire slug thread epoch = run_transaction tm st io () (BindCreation_body sha wire slug thread epoch)"

definition ObserveTranscript ::
  "(int \<Rightarrow> json) \<Rightarrow> upload_store \<Rightarrow> transaction_io \<Rightarrow> backend \<Rightarrow> transcript_entry list \<Rightarrow> upload_state \<Rightarrow> transcript_entry list call_result" where
  "ObserveTranscript tm st io b ts = run_transaction tm st io ts (ObserveTranscript_body b ts)"

definition ObserveQueue ::
  "(int \<Rightarrow> json) \<Rightarrow> upload_store \<Rightarrow> transaction_io \<Rightarrow> backend \<Rightarrow> queue_entry list \<Rightarrow> upload_state \<Rightarrow> queue_entry list call_result" where
  "ObserveQueue tm st io b qs = run_transaction tm st io qs (ObserveQueue_body b qs)"

definition QueueDeleted ::
  "(int \<Rightarrow> json) \<Rightarrow> upload_store \<Rightarrow> transaction_io \<Rightarrow> backend \<Rightarrow> string \<Rightarrow> upload_state \<Rightarrow> unit call_result" where
  "QueueDeleted tm st io b i = run_transaction tm st io () (QueueDeleted_body b i)"

definition Fork_uploads ::
  "(int \<Rightarrow> json) \<Rightarrow> upload_store \<Rightarrow> transaction_io \<Rightarrow> string \<Rightarrow> upload_scope \<Rightarrow> (string \<times> string \<times> string) list \<Rightarrow> upload_state \<Rightarrow> unit call_result" where
  "Fork_uploads tm st io source target entries = run_transaction tm st io () (Fork_body source target entries)"

definition RetainCreations ::
  "(int \<Rightarrow> json) \<Rightarrow> upload_store \<Rightarrow> transaction_io \<Rightarrow> (string \<times> upload_scope) list \<Rightarrow> upload_state \<Rightarrow> unit call_result" where
  "RetainCreations tm st io goals = run_transaction tm st io () (RetainCreations_body goals)"

text \<open>
  Operations of several transactions. \<open>others\<close>: what other processes did to the store between two of them;
  \<open>lock\<close>: the lock on the scopes, if there is one, with its error.
\<close>

definition then_reclaim ::
  "(int \<Rightarrow> json) \<Rightarrow> upload_store \<Rightarrow> transaction_io \<Rightarrow> reclaim_io \<Rightarrow> (upload_state \<Rightarrow> upload_state) \<Rightarrow> unit call_result \<Rightarrow> unit call_result" where
  "then_reclaim tm st io rio others r =
     (case r of
        Some ((None, _), s) \<Rightarrow> run_transaction tm st io () (reclaim_body rio) (others s)
      | _ \<Rightarrow> r)"

definition Collect ::
  "(int \<Rightarrow> json) \<Rightarrow> upload_store \<Rightarrow> transaction_io \<Rightarrow> (string \<Rightarrow> int) \<Rightarrow> transaction_io \<Rightarrow> reclaim_io \<Rightarrow> (upload_state \<Rightarrow> upload_state) \<Rightarrow>
   upload_state \<Rightarrow> unit call_result" where
  "Collect tm st io at io2 rio others s = then_reclaim tm st io2 rio others (run_transaction tm st io () (Collect_body at) s)"

definition RemoveSession ::
  "(int \<Rightarrow> json) \<Rightarrow> upload_store \<Rightarrow> transaction_io \<Rightarrow> compact_clock \<Rightarrow> transaction_io \<Rightarrow> reclaim_io \<Rightarrow> (upload_state \<Rightarrow> upload_state) \<Rightarrow>
   string \<Rightarrow> string \<Rightarrow> string \<Rightarrow> upload_state \<Rightarrow> unit call_result" where
  "RemoveSession tm st io k io2 rio others slug thread epoch s =
     then_reclaim tm st io2 rio others (run_transaction tm st io () (RemoveSession_body k slug thread epoch) s)"

record delete_env =
  dl_scopes_io :: transaction_io
  dl_lock :: "(upload_scope list \<Rightarrow> error option) option"
  dl_idle :: "(upload_scope list \<Rightarrow> error option) option"
  dl_locked :: "upload_state \<Rightarrow> upload_state"
  dl_io :: transaction_io
  dl_now :: int
  dl_others :: "upload_state \<Rightarrow> upload_state"
  dl_reclaim_io :: transaction_io
  dl_reclaim :: reclaim_io

definition Delete_upload :: "(int \<Rightarrow> json) \<Rightarrow> upload_store \<Rightarrow> backend \<Rightarrow> delete_env \<Rightarrow> string \<Rightarrow> bool \<Rightarrow> upload_state \<Rightarrow> unit call_result" where
  "Delete_upload tm st b env i confirmed s =
     (let bury = (\<lambda>locked s. then_reclaim tm st (dl_reclaim_io env) (dl_reclaim env) (dl_others env)
            (run_transaction tm st (dl_io env) () (delete_body b (dl_idle env) locked (dl_now env) i confirmed) s)) in
      case dl_lock env of
        None \<Rightarrow> bury None s
      | Some lock \<Rightarrow> (case run_transaction tm st (dl_scopes_io env) [] (delete_scopes_body b i) s of
          None \<Rightarrow> None
        | Some ((Some e, _), s1) \<Rightarrow> Some ((Some e, ()), s1)
        | Some ((None, scopes), s1) \<Rightarrow> (case lock (map snd scopes) of
            Some e \<Rightarrow> Some ((Some (Fault e), ()), s1)
          | None \<Rightarrow> bury (Some (map fst scopes)) (dl_locked env s1))))"

subsection \<open>The store as a state machine\<close>

text \<open>One transaction: its body with the result dropped.\<close>

datatype upload_call =
    DoNewDraft "error + byte list" int
  | DoSessionScope string string string "error + byte list" int
  | DoCreate backend create_io upload_request
  | DoAppend backend append_io string int string string
  | DoComplete backend complete_io string
  | DoRead "catalog \<Rightarrow> upload_state \<Rightarrow> upload_error option"
  | DoPrepare backend prepare_io string string string "string list"
  | DoClaim prepare_io "error option" string string string "string list"
  | DoValidate prepare_io string string string "string list"
  | DoBind string string string string string
  | DoAdopt string string string string
  | DoTranscript backend "transcript_entry list"
  | DoQueue backend "queue_entry list"
  | DoQueueDeleted backend string
  | DoDelete backend "(upload_scope list \<Rightarrow> error option) option" "string list option" int string bool
  | DoReclaim reclaim_io
  | DoCollect "string \<Rightarrow> int"
  | DoRemoveSession compact_clock string string string
  | DoFork string upload_scope "(string \<times> string \<times> string) list"
  | DoRetain "(string \<times> upload_scope) list"

definition no_result :: "'a body \<Rightarrow> unit body" where
  "no_result B c s = (let ((e, changed, _), c1, s1) = B c s in ((e, changed, ()), c1, s1))"

fun call_body :: "(string \<Rightarrow> string) \<Rightarrow> upload_store \<Rightarrow> upload_call \<Rightarrow> unit body" where
  "call_body sha st (DoNewDraft ent now) = no_result (NewDraft_body ent now)"
| "call_body sha st (DoSessionScope slug thread epoch ent now) = no_result (SessionScope_body slug thread epoch ent now)"
| "call_body sha st (DoCreate b io q) = no_result (Create_body st b io q)"
| "call_body sha st (DoAppend b io i offset checksum chunk) = no_result (Append_body st b io i offset checksum chunk)"
| "call_body sha st (DoComplete b io i) = no_result (Complete_body b io i)"
| "call_body sha st (DoRead e) = (\<lambda>c s. ((e c s, False, ()), c, s))"
| "call_body sha st (DoPrepare b io kind attempt message ids) = no_result (Prepare_body st b io kind attempt message ids)"
| "call_body sha st (DoClaim io confirm request scope message ids) = no_result (ClaimPreparation_body st io confirm request scope message ids)"
| "call_body sha st (DoValidate io request scope message ids) = ValidatePreparation_body st io request scope message ids"
| "call_body sha st (DoBind request scope wire slug epoch) = BindPreparation_body request scope wire slug epoch"
| "call_body sha st (DoAdopt digest slug thread epoch) = AdoptInitial_body sha digest slug thread epoch"
| "call_body sha st (DoTranscript b ts) = no_result (ObserveTranscript_body b ts)"
| "call_body sha st (DoQueue b qs) = no_result (ObserveQueue_body b qs)"
| "call_body sha st (DoQueueDeleted b i) = QueueDeleted_body b i"
| "call_body sha st (DoDelete b idle locked now i confirmed) = delete_body b idle locked now i confirmed"
| "call_body sha st (DoReclaim io) = reclaim_body io"
| "call_body sha st (DoCollect at) = Collect_body at"
| "call_body sha st (DoRemoveSession k slug thread epoch) = RemoveSession_body k slug thread epoch"
| "call_body sha st (DoFork source target entries) = Fork_body source target entries"
| "call_body sha st (DoRetain goals) = RetainCreations_body goals"

text \<open>
  What is checked before the transaction, and that \<open>crypto/rand\<close> delivers sixteen bytes that do not repeat
  themselves: a new identity names no file and no scope of the catalog.
\<close>

definition fresh_id :: "catalog \<Rightarrow> error + byte list \<Rightarrow> bool" where
  "fresh_id c ent \<longleftrightarrow>
     (case ent of
        Inl _ \<Rightarrow> True
      | Inr bs \<Rightarrow> length bs = 16 \<and> (let i = dashed (hex_encode (version_bytes bs)) in map_of (ct_files c) i = None \<and> map_of (ct_scopes c) i = None))"

fun upload_admitted :: "(string \<Rightarrow> string) \<Rightarrow> upload_store \<Rightarrow> catalog \<Rightarrow> upload_call \<Rightarrow> bool" where
  "upload_admitted sha st c (DoNewDraft ent now) = fresh_id c ent"
| "upload_admitted sha st c (DoSessionScope slug thread epoch ent now) = fresh_id c ent"
| "upload_admitted sha st c (DoCreate b io q) = (idPattern (ur_client q) \<and> fresh_id c (co_entropy io))"
| "upload_admitted sha st c (DoAppend b io i offset checksum chunk) = (chunk_error sha (up_limits st) (Inr chunk) checksum = None)"
| "upload_admitted sha st c _ = True"

definition stored :: "upload_store \<Rightarrow> upload_state \<Rightarrow> catalog" where
  "stored st s = (case ud_catalog s of None \<Rightarrow> empty_catalog (up_workspace st) | Some c \<Rightarrow> c)"

text \<open>The file reads back as what was last renamed into its place, or the read fails.\<close>

definition reads_back :: "upload_store \<Rightarrow> transaction_io \<Rightarrow> upload_state \<Rightarrow> bool" where
  "reads_back st io s \<longleftrightarrow> (case load_catalog st io of Inl _ \<Rightarrow> True | Inr c \<Rightarrow> c = stored st s)"

definition new_upload_state :: upload_state where
  "new_upload_state = \<lparr>ud_catalog = None, ud_unconfirmed = False, ud_blobs = \<lambda>_. no_blob\<rparr>"

inductive upload_step :: "(string \<Rightarrow> string) \<Rightarrow> (int \<Rightarrow> json) \<Rightarrow> upload_store \<Rightarrow> upload_call \<Rightarrow> upload_state \<Rightarrow> upload_state \<Rightarrow> bool"
  for sha tm st where
  transacts: "reads_back st io s \<Longrightarrow> upload_admitted sha st (stored st s) call \<Longrightarrow>
    run_transaction tm st io () (call_body sha st call) s = Some (r, s') \<Longrightarrow> upload_step sha tm st call s s'"

inductive uploads_reach :: "(string \<Rightarrow> string) \<Rightarrow> (int \<Rightarrow> json) \<Rightarrow> upload_store \<Rightarrow> (upload_call \<Rightarrow> bool) \<Rightarrow> upload_state \<Rightarrow> bool"
  for sha tm st allowed where
  begins: "uploads_reach sha tm st allowed new_upload_state"
| goes_on: "uploads_reach sha tm st allowed s \<Longrightarrow> allowed call \<Longrightarrow> upload_step sha tm st call s s' \<Longrightarrow> uploads_reach sha tm st allowed s'"
| restarts: "uploads_reach sha tm st allowed s \<Longrightarrow> uploads_reach sha tm st allowed (s\<lparr>ud_unconfirmed := False\<rparr>)"

end
