(* ===== verification/Upload_Rules.thy ===== *)
theory Upload_Rules
  imports Upload_Store
begin

text \<open>
  What the proofs about the upload store share: its transaction and its compaction seen from outside, the maps
  of the catalog under each operation, and the contract by which an invariant of catalog and bytes holds in
  every state that the transactions reach.
\<close>

subsection \<open>Maps\<close>

definition keyed_catalog :: "catalog \<Rightarrow> bool" where
  "keyed_catalog c \<longleftrightarrow> distinct (map fst (ct_files c)) \<and> distinct (map fst (ct_scopes c)) \<and> distinct (map fst (ct_submissions c))"

lemma lookup_filter:
  assumes "distinct (map fst entries)"
  shows "map_of (filter keep entries) key =
    (case map_of entries key of Some v \<Rightarrow> (if keep (key, v) then Some v else None) | None \<Rightarrow> None)"
  using assms
proof (induction entries)
  case (Cons e es)
  obtain i v where e: "e = (i, v)" by (cases e)
  have "map_of es i = None" using Cons.prems e by (simp add: map_of_eq_None_iff)
  then show ?case using Cons e by (auto split: option.splits)
qed simp

lemma map_of_map_pair: "map_of (map (\<lambda>x. (fst x, f x)) xs) k = (case map_of xs k of None \<Rightarrow> None | Some v \<Rightarrow> Some (f (k, v)))"
  by (induction xs) auto

lemma keys_filter: "distinct (map fst xs) \<Longrightarrow> distinct (map fst (filter P xs))"
  by (induction xs) auto

lemma keys_map_pair [simp]: "map fst (map (\<lambda>x. (fst x, f x)) xs) = map fst xs"
  by simp

lemma find_entry: "List.find P xs = Some (k, v) \<Longrightarrow> P (k, v) \<and> (k, v) \<in> set xs"
  by (auto simp: find_Some_iff)

lemma find_entry_at: "distinct (map fst xs) \<Longrightarrow> List.find P xs = Some (k, v) \<Longrightarrow> P (k, v) \<and> map_of xs k = Some v"
  using find_entry [of P xs k v] by (simp add: map_of_eq_Some_iff)

lemma catalog_updates [simp]:
  "ct_files (set_scope k x c) = ct_files c" "ct_files (set_submission k b c) = ct_files c" "ct_scopes (set_file k f c) = ct_scopes c"
  "ct_scopes (set_submission k b c) = ct_scopes c" "ct_submissions (set_scope k x c) = ct_submissions c" "ct_submissions (set_file k f c) = ct_submissions c"
  "ct_schema (set_file k f c) = ct_schema c" "ct_schema (set_scope k x c) = ct_schema c" "ct_schema (set_submission k b c) = ct_schema c"
  "ct_workspace (set_file k f c) = ct_workspace c" "ct_workspace (set_scope k x c) = ct_workspace c" "ct_workspace (set_submission k b c) = ct_workspace c"
  by (simp_all add: set_scope_def set_file_def set_submission_def)

lemma catalog_maps [simp]:
  "map_of (ct_files (set_file k f c)) i = (if i = k then Some f else map_of (ct_files c) i)"
  "map_of (ct_scopes (set_scope k x c)) i = (if i = k then Some x else map_of (ct_scopes c) i)"
  "map_of (ct_submissions (set_submission k b c)) i = (if i = k then Some b else map_of (ct_submissions c) i)"
  by (simp_all add: set_scope_def set_file_def set_submission_def update_conv)

lemma keyed_catalog_updates [simp]: "keyed_catalog c \<Longrightarrow> keyed_catalog (set_file k f c)" "keyed_catalog c \<Longrightarrow> keyed_catalog (set_scope k x c)" "keyed_catalog c \<Longrightarrow> keyed_catalog (set_submission k b c)"
  by (simp_all add: keyed_catalog_def set_scope_def set_file_def set_submission_def distinct_update)

lemma length_update: "length (AList.update k v xs) = (if map_of xs k = None then Suc (length xs) else length xs)"
  by (induction xs) auto

lemma length_set_file [simp]:
  "length (ct_files (set_file k f c)) = (if map_of (ct_files c) k = None then Suc (length (ct_files c)) else length (ct_files c))"
  by (simp add: set_file_def length_update)

lemma length_set_scope [simp]:
  "length (ct_scopes (set_scope k x c)) = (if map_of (ct_scopes c) k = None then Suc (length (ct_scopes c)) else length (ct_scopes c))"
  by (simp add: set_scope_def length_update)

lemma length_set_submission [simp]:
  "length (ct_submissions (set_submission k b c)) =
     (if map_of (ct_submissions c) k = None then Suc (length (ct_submissions c)) else length (ct_submissions c))"
  by (simp add: set_submission_def length_update)

lemma file_at_some: "map_of (ct_files c) i = Some f \<Longrightarrow> file_at c i = f"
  by (simp add: file_at_def)

lemma keyed_catalog_empty [simp]: "keyed_catalog (empty_catalog w)"
  by (simp add: keyed_catalog_def empty_catalog_def)

subsection \<open>Compaction\<close>

lemma compact_parts:
  fixes k :: compact_clock
  assumes "keyed_catalog c"
  defines "d \<equiv> snd (compact k c)"
  shows "map_of (ct_submissions d) i = (case map_of (ct_submissions c) i of None \<Rightarrow> None | Some b \<Rightarrow> if obsolete c b then None else Some b)"
    "map_of (ct_files d) i = Some f \<Longrightarrow> \<exists>g. map_of (ct_files c) i = Some g \<and> f = unstage g"
    "map_of (ct_files c) i = Some g \<Longrightarrow> map_of (ct_files d) i = Some (unstage g) \<or> map_of (ct_files d) i = None \<and> uf_state g = ''deleted''"
    "map_of (ct_scopes d) i = Some x \<Longrightarrow> map_of (ct_scopes c) i = Some x"
    "map_of (ct_scopes c) i = Some x \<Longrightarrow> map_of (ct_scopes d) i = Some x \<or> map_of (ct_scopes d) i = None \<and> \<not> occupied d i"
    "ct_schema d = ct_schema c" "ct_workspace d = ct_workspace c" "keyed_catalog d"
    "length (ct_files d) \<le> length (ct_files c)" "length (ct_scopes d) \<le> length (ct_scopes c)" "length (ct_submissions d) \<le> length (ct_submissions c)"
proof -
  have dist: "distinct (map fst (ct_files c))" "distinct (map fst (ct_scopes c))" "distinct (map fst (ct_submissions c))"
    using assms(1) by (simp_all add: keyed_catalog_def)
  let ?c1 = "c\<lparr>ct_submissions := filter (\<lambda>x. \<not> obsolete c (snd x)) (ct_submissions c)\<rparr>"
  let ?c2 = "?c1\<lparr>ct_files := compact_files (cc_files k) ?c1\<rparr>"
  have d: "d = ?c2\<lparr>ct_scopes := filter (\<lambda>x. \<not> abandoned (cc_scopes k) ?c2 x) (ct_scopes ?c2)\<rparr>"
    by (simp add: d_def compact_def Let_def)
  have files: "ct_files d = compact_files (cc_files k) ?c1"
    by (simp add: d)
  have fm: "map_of (ct_files d) i = (case map_of (ct_files c) i of None \<Rightarrow> None
      | Some g \<Rightarrow> if \<not> disposable (cc_files k) ?c1 (i, unstage g) then Some (unstage g) else None)"
    unfolding files compact_files_def
    by (subst lookup_filter) (simp_all add: map_of_map_pair dist o_def split: option.splits)
  show "map_of (ct_submissions d) i = (case map_of (ct_submissions c) i of None \<Rightarrow> None | Some b \<Rightarrow> if obsolete c b then None else Some b)"
    by (simp add: d lookup_filter dist split: option.splits)
  show "\<exists>g. map_of (ct_files c) i = Some g \<and> f = unstage g" if "map_of (ct_files d) i = Some f"
    using that by (simp add: fm split: option.splits if_splits)
  show "map_of (ct_files d) i = Some (unstage g) \<or> map_of (ct_files d) i = None \<and> uf_state g = ''deleted''" if "map_of (ct_files c) i = Some g"
    using that by (auto simp: fm disposable_def unstage_def)
  have sm: "map_of (ct_scopes d) i = (case map_of (ct_scopes c) i of None \<Rightarrow> None | Some x \<Rightarrow> if \<not> abandoned (cc_scopes k) ?c2 (i, x) then Some x else None)"
    unfolding d by (simp add: lookup_filter dist)
  show "map_of (ct_scopes c) i = Some x" if "map_of (ct_scopes d) i = Some x"
    using that unfolding sm by (simp split: option.splits if_splits)
  have occ: "occupied ?c2 i = occupied d i"
    by (simp add: occupied_def d)
  show "map_of (ct_scopes d) i = Some x \<or> map_of (ct_scopes d) i = None \<and> \<not> occupied d i" if "map_of (ct_scopes c) i = Some x"
    using that unfolding sm abandoned_def fst_conv occ by simp
  show "ct_schema d = ct_schema c" "ct_workspace d = ct_workspace c"
    by (simp_all add: d)
  show "keyed_catalog d"
    unfolding keyed_catalog_def using dist by (simp add: d compact_files_def keys_filter o_def)
  show "length (ct_files d) \<le> length (ct_files c)"
    unfolding files compact_files_def by (rule order_trans [OF length_filter_le]) simp
  show "length (ct_scopes d) \<le> length (ct_scopes c)" "length (ct_submissions d) \<le> length (ct_submissions c)"
    by (simp_all add: d)
qed

lemma compact_catalog_error:
  assumes "keyed_catalog c" "catalog_error st null c = None"
  shows "catalog_error st False (snd (compact k c)) = None"
proof -
  note p = compact_parts [OF assms(1), where k = k]
  have "file_record_ok x" if x: "x \<in> set (ct_files (snd (compact k c)))" for x
  proof -
    obtain i f where [simp]: "x = (i, f)" by (cases x)
    have "map_of (ct_files (snd (compact k c))) i = Some f"
      using p(8) x by (simp add: keyed_catalog_def map_of_eq_Some_iff)
    then obtain g where g: "map_of (ct_files c) i = Some g" "f = unstage g" using p(2) by blast
    then have "file_record_ok (i, g)"
      using assms(2) by (auto simp: catalog_error_def list_all_iff split: if_splits dest: map_of_SomeD)
    then show ?thesis by (simp add: g(2) file_record_ok_def unstage_def)
  qed
  then show ?thesis
    using assms(2) p(6) p(7) p(9) p(10) p(11) by (auto simp: catalog_error_def list_all_iff split: if_splits)
qed

lemma compact_fresh: "keyed_catalog c \<Longrightarrow> fresh_id c ent \<Longrightarrow> fresh_id (snd (compact k c)) ent"
  using compact_parts(2) [where c = c and k = k] compact_parts(4) [where c = c and k = k]
  by (auto simp: fresh_id_def Let_def split: sum.splits) (metis option.exhaust option.distinct(1))+

lemma compact_admitted: "keyed_catalog c \<Longrightarrow> upload_admitted sha st c call \<Longrightarrow> upload_admitted sha st (snd (compact k c)) call"
  by (cases call) (simp_all add: compact_fresh)

subsection \<open>The transaction\<close>

lemma load_catalog_ok: "load_catalog st io = Inr c \<Longrightarrow> \<exists>null. catalog_error st null c = None"
  by (auto simp: load_catalog_def Let_def split: option.splits sum.splits if_splits)

lemma confirmCatalog_keeps [simp]:
  "ud_catalog (snd (confirmCatalog e s)) = ud_catalog s" "ud_blobs (snd (confirmCatalog e s)) = ud_blobs s"
  by (simp_all add: confirmCatalog_def)

lemma store_catalog_outcome:
  assumes "store_catalog tm io old c s = (e, s')"
  shows "ud_blobs s' = ud_blobs s \<and> (ud_catalog s' = ud_catalog s \<and> e \<noteq> None \<or> ud_catalog s' = Some c)"
  using assms by (auto simp: store_catalog_def confirmCatalog_def split: if_splits option.splits)

lemma transaction_outcome:
  assumes "run_transaction tm st io zero B s = Some ((e, a), s')"
  obtains (early) "ud_catalog s' = ud_catalog s" "ud_blobs s' = ud_blobs s" "e \<noteq> None"
  | (ran) c u e0 ch d t where "load_catalog st io = Inr c" "ud_catalog u = ud_catalog s" "ud_blobs u = ud_blobs s"
      "B (snd (compact (ui_clock io) c)) u = ((e0, ch, a), d, t)" "ud_blobs s' = ud_blobs t"
      "ud_catalog s' = ud_catalog t \<or> e0 = None \<and> ud_catalog s' = Some d"
      "e = None \<longrightarrow> e0 = None \<and> (if ch \<or> fst (compact (ui_clock io) c) then ud_catalog s' = Some d else ud_catalog s' = ud_catalog t)"
proof (cases "ud_catalog s' = ud_catalog s \<and> ud_blobs s' = ud_blobs s \<and> e \<noteq> None")
  case True
  then show ?thesis using early by blast
next
  case False
  let ?p = "if ud_unconfirmed s then confirmCatalog (ui_before io) s else (None, s)"
  obtain f u where p: "?p = (f, u)" by (cases ?p)
  have u: "ud_catalog u = ud_catalog s" "ud_blobs u = ud_blobs s"
    using p by (auto simp: confirmCatalog_def split: if_splits)
  obtain c where c: "load_catalog st io = Inr c" and f: "f = None" and com: "commit tm io B c u = ((e, a), s')"
    using assms False u unfolding run_transaction_def Let_def p by (auto split: option.splits sum.splits if_splits)
  obtain e0 ch a0 d t where B: "B (snd (compact (ui_clock io) c)) u = ((e0, ch, a0), d, t)"
    by (cases "B (snd (compact (ui_clock io) c)) u") auto
  obtain e1 s1 where w: "store_catalog tm io (catalogSize c) d t = (e1, s1)" by fastforce
  have run: "(if e0 \<noteq> None \<or> \<not> ch \<and> \<not> fst (compact (ui_clock io) c) then ((e0, a0), t) else ((e1, a0), s1)) = ((e, a), s')"
    using com B by (cases "compact (ui_clock io) c") (auto simp: commit_def w split: if_splits)
  note out = store_catalog_outcome [OF w]
  show ?thesis
  proof (rule ran [OF c u])
    show "B (snd (compact (ui_clock io) c)) u = ((e0, ch, a), d, t)"
      using B run by (simp split: if_splits)
    show "ud_blobs s' = ud_blobs t" "ud_catalog s' = ud_catalog t \<or> e0 = None \<and> ud_catalog s' = Some d"
      using run out by (auto split: if_splits)
    show "e = None \<longrightarrow> e0 = None \<and> (if ch \<or> fst (compact (ui_clock io) c) then ud_catalog s' = Some d else ud_catalog s' = ud_catalog t)"
      using run out by (auto split: if_splits)
  qed
qed

subsection \<open>What a transaction finds of the one before\<close>

text \<open>
  The file of the catalog holds the JSON text of what was last renamed into its place, and decodes to
  it: \<open>encoding/json\<close> reads back what it wrote.
\<close>

definition shows_catalog :: "(int \<Rightarrow> json) \<Rightarrow> transaction_io \<Rightarrow> upload_state \<Rightarrow> bool" where
  "shows_catalog tm io s \<longleftrightarrow>
     (case ud_catalog s of
        None \<Rightarrow> (case fv_open (ui_file io) of None \<Rightarrow> False | Some e \<Rightarrow> errors_is e ErrNotExist)
      | Some c \<Rightarrow> fv_open (ui_file io) = None \<and> fv_read (ui_file io) = Inr (json_enc (catalog_json tm c)) \<and>
          fv_decode (ui_file io) = Inr c \<and> \<not> fv_trailing (ui_file io) \<and> \<not> ui_null io)"

lemma load_shown:
  assumes "shows_catalog tm io s"
  shows "load_catalog st io =
    (if (\<exists>c. ud_catalog s = Some c \<and> maxCatalogBytes < json_len (catalog_json tm c)) then Inl (Err ''upload catalog is too large'')
     else case catalog_error st False (stored st s) of Some e \<Rightarrow> Inl e | None \<Rightarrow> Inr (stored st s))"
  using assms by (auto simp: shows_catalog_def load_catalog_def stored_def json_len_def Let_def split: option.splits)

text \<open>A saved catalog is within the limit of the next reading.\<close>

definition fits :: "(int \<Rightarrow> json) \<Rightarrow> upload_state \<Rightarrow> bool" where
  "fits tm s \<longleftrightarrow> (\<forall>c. ud_catalog s = Some c \<longrightarrow> json_len (catalog_json tm c) \<le> maxCatalogBytes)"

lemma store_catalog_fits: "store_catalog tm io old c s = (e, s') \<Longrightarrow> fits tm s \<Longrightarrow> fits tm s'"
  by (auto simp: store_catalog_def confirmCatalog_def too_large_def fits_def split: if_splits option.splits)

lemma transaction_fits:
  assumes "run_transaction tm st io zero B s = Some (r, s')" and "fits tm s"
    and body: "\<And>c u e ch a d t. load_catalog st io = Inr c \<Longrightarrow> B (snd (compact (ui_clock io) c)) u = ((e, ch, a), d, t) \<Longrightarrow> ud_catalog t = ud_catalog u"
  shows "fits tm s'"
proof -
  obtain f u where p: "(if ud_unconfirmed s then confirmCatalog (ui_before io) s else (None, s)) = (f, u)" by fastforce
  then have u: "ud_catalog u = ud_catalog s" by (auto simp: confirmCatalog_def split: if_splits)
  consider "s' = s" | "s' = u" | c where "load_catalog st io = Inr c" "commit tm io B c u = (r, s')"
    using assms(1) unfolding run_transaction_def Let_def p by (auto split: option.splits sum.splits if_splits)
  then show ?thesis
  proof cases
    case (3 c)
    obtain e ch a d t where B: "B (snd (compact (ui_clock io) c)) u = ((e, ch, a), d, t)"
      by (cases "B (snd (compact (ui_clock io) c)) u") auto
    from body [OF 3(1) B] u assms(2) have t: "fits tm t" by (simp add: fits_def)
    obtain e1 s1 where w: "store_catalog tm io (catalogSize c) d t = (e1, s1)" by fastforce
    have "s' = t \<or> s' = s1"
      using 3(2) B by (cases "compact (ui_clock io) c") (auto simp: commit_def w split: if_splits)
    with t store_catalog_fits [OF w t] show ?thesis by blast
  qed (use assms(2) u in \<open>simp_all add: fits_def\<close>)
qed

end
