(* ===== verification/Upload_Steps.thy ===== *)
theory Upload_Steps
  imports Upload_Rules
begin

text \<open>
  What each body does to the files of the catalog. All but three leave every file as it is, refresh its time or
  bury it; creating, appending and completing change the one file they are about.
\<close>

subsection \<open>Files only age or are buried\<close>

definition descends :: "upload_file \<Rightarrow> upload_file \<Rightarrow> bool" where
  "descends f g \<longleftrightarrow>
     uf_id g = uf_id f \<and> uf_scope g = uf_scope f \<and> uf_size g = uf_size f \<and> uf_offset g = uf_offset f \<and> uf_name g = uf_name f \<and>
     (uf_state g = ''deleted'' \<and> uf_checksums g = [] \<or>
      uf_state g = uf_state f \<and> (uf_checksums g = uf_checksums f \<or> uf_checksums g = [] \<and> uf_state f \<noteq> ''uploading''))"

lemma descends_refl [simp]: "descends f f"
  by (simp add: descends_def)

lemma descends_trans: "descends f g \<Longrightarrow> descends g h \<Longrightarrow> descends f h"
  unfolding descends_def by (elim conjE disjE) simp_all

lemma descends_touch [simp]: "descends f (f\<lparr>uf_updated := t\<rparr>)"
  by (simp add: descends_def)

lemma descends_bury [simp]: "descends f (bury_file f)" "descends f (f\<lparr>uf_state := ''deleted'', uf_checksums := [], uf_updated := t\<rparr>)"
  by (simp_all add: descends_def bury_file_def)

lemma descends_unstage [simp]: "descends f (unstage f)"
  by (simp add: descends_def unstage_def)

definition ages :: "catalog \<Rightarrow> catalog \<Rightarrow> bool" where
  "ages c d \<longleftrightarrow>
     keyed_catalog d \<and> ct_schema d = ct_schema c \<and> ct_workspace d = ct_workspace c \<and> length (ct_files d) \<le> length (ct_files c) \<and>
     (\<forall>i g. map_of (ct_files d) i = Some g \<longrightarrow> (\<exists>f. map_of (ct_files c) i = Some f \<and> descends f g))"

lemma ages_refl: "keyed_catalog c \<Longrightarrow> ages c c"
  by (auto simp: ages_def)

lemma ages_trans: "ages c d \<Longrightarrow> ages d e \<Longrightarrow> ages c e"
  unfolding ages_def by (elim conjE, intro conjI) (simp_all, meson descends_trans)

lemma ages_keyed: "ages c d \<Longrightarrow> keyed_catalog d"
  by (simp add: ages_def)

lemma ages_same_files:
  "keyed_catalog c \<Longrightarrow> keyed_catalog d \<Longrightarrow> ct_files d = ct_files c \<Longrightarrow> ct_schema d = ct_schema c \<Longrightarrow> ct_workspace d = ct_workspace c \<Longrightarrow> ages c d"
  by (auto simp: ages_def)

lemma ages_scope [simp]: "keyed_catalog c \<Longrightarrow> ages c (set_scope k x c)"
  by (rule ages_same_files) simp_all

lemma ages_submission [simp]: "keyed_catalog c \<Longrightarrow> ages c (set_submission k b c)"
  by (rule ages_same_files) simp_all

lemma ages_file: "keyed_catalog c \<Longrightarrow> map_of (ct_files c) i = Some f \<Longrightarrow> descends f g \<Longrightarrow> ages c (set_file i g c)"
  by (auto simp: ages_def)

lemma ages_touch:
  assumes "keyed_catalog c" "\<forall>i \<in> set ids. map_of (ct_files c) i \<noteq> None"
  shows "ages c (touch at ids c)"
  using assms
proof (induction ids arbitrary: c)
  case Nil
  then show ?case by (simp add: touch_def ages_refl)
next
  case (Cons i ids)
  obtain f where f: "map_of (ct_files c) i = Some f" using Cons.prems by auto
  let ?d = "set_file i ((file_at c i)\<lparr>uf_updated := at i\<rparr>) c"
  have d: "ages c ?d" using Cons.prems(1) f by (simp add: ages_file file_at_some)
  have "ages ?d (touch at ids ?d)"
    by (rule Cons.IH) (use Cons.prems in auto)
  then show ?case using ages_trans [OF d] by (simp add: touch_def)
qed

lemma describe_files:
  "describe st io c s scope seen bytes ids = Inr ds \<Longrightarrow>
     distinct ids \<and> set ids \<inter> set seen = {} \<and>
     (\<forall>i \<in> set ids. accessible c scope i \<and> (\<exists>f. map_of (ct_files c) i = Some f \<and> uf_state f = ''ready'' \<and> \<not> file_gone io s f))"
proof (induction ids arbitrary: seen bytes ds)
  case (Cons i ids)
  obtain f where f: "map_of (ct_files c) i = Some f"
    using Cons.prems by (auto simp: Let_def split: if_splits)
  note fa = file_at_some [OF f]
  have here: "accessible c scope i" "uf_state f = ''ready''" "i \<notin> set seen" "\<not> file_gone io s f"
    and "\<exists>ds'. describe st io c s scope (i # seen) (bytes + uf_size f) ids = Inr ds'"
    using Cons.prems by (simp_all add: Let_def fa split: if_splits sum.splits)
  then obtain ds' where "describe st io c s scope (i # seen) (bytes + uf_size f) ids = Inr ds'" by blast
  from Cons.IH [OF this] have
    "distinct ids" "set ids \<inter> set (i # seen) = {}"
    "\<forall>i \<in> set ids. accessible c scope i \<and> (\<exists>f. map_of (ct_files c) i = Some f \<and> uf_state f = ''ready'' \<and> \<not> file_gone io s f)"
    by simp_all
  then show ?case using here f by simp
qed simp

definition submitted :: "upload_store \<Rightarrow> prepare_io \<Rightarrow> string \<Rightarrow> string \<Rightarrow> string \<Rightarrow> string \<Rightarrow> string list \<Rightarrow> bool \<Rightarrow> string \<Rightarrow> catalog \<Rightarrow> catalog" where
  "submitted st io scope kind attempt message ids pending w c =
     touch (py_at io) ids (set_submission (submission_key scope kind attempt) (new_submission scope kind attempt message w ids pending) c)"

lemma submit_files_cases:
  assumes "submit_files st io scope kind attempt message ids pending c s = ((e, ch, w), c', s')"
  obtains (same) "c' = c" "s' = s" "\<not> ch"
  | (submits) ds where "describe st io c s scope [] 0 ids = Inr ds" "e = None" "ch" "s' = s" "ids \<noteq> []"
      "length (ct_submissions c) < maxRecords" "c' = submitted st io scope kind attempt message ids pending w c"
proof (cases "ids = [] \<or> maxRecords \<le> length (ct_submissions c)")
  case True
  then show ?thesis
    using assms same unfolding submit_files_def by (auto simp: unchanged_def refuse_def split: if_splits)
next
  case False
  show ?thesis
  proof (cases "describe st io c s scope [] 0 ids")
    case (Inl x)
    then show ?thesis using assms same False unfolding submit_files_def by simp
  next
    case (Inr ds)
    let ?wire = "TrimSpace (message @ attachment_intro @ json_indent 0 (JArr ds))"
    have eq: "((e, ch, w), c', s') =
        (if MaxMessageBytes < length ?wire then refuse 413 ''Message and attachment references exceed the prompt limit'' [] c s
         else ((None, True, ?wire), submitted st io scope kind attempt message ids pending ?wire c, s))"
      using False unfolding assms [symmetric] submit_files_def submitted_def by (simp only: Inr Let_def if_False sum.case de_Morgan_disj simp_thms)
    show ?thesis
    proof (cases "MaxMessageBytes < length ?wire")
      case True
      then show ?thesis using eq same by (simp add: refuse_def)
    next
      case small: False
      then show ?thesis using eq submits [OF Inr] False by (simp add: not_le)
    qed
  qed
qed

lemma prepareSubmission_cases:
  assumes "prepareSubmission st io scope kind attempt message ids pending c s = ((e, ch, w), c', s')"
  obtains (same) "c' = c" "s' = s" "\<not> ch"
  | (submits) ds where "describe st io c s scope [] 0 ids = Inr ds" "e = None" "ch" "s' = s" "ids \<noteq> []"
      "length (ct_submissions c) < maxRecords" "c' = submitted st io scope kind attempt message ids pending w c"
      "case map_of (ct_submissions c) (submission_key scope kind attempt) of None \<Rightarrow> True | Some b \<Rightarrow> resendable b \<and> sb_files b = ids"
proof (cases "c' = c \<and> s' = s \<and> \<not> ch")
  case True
  then show ?thesis using same by blast
next
  case False
  then have *: "submit_files st io scope kind attempt message ids pending c s = ((e, ch, w), c', s') \<and>
      (case map_of (ct_submissions c) (submission_key scope kind attempt) of None \<Rightarrow> True | Some b \<Rightarrow> resendable b \<and> sb_files b = ids)"
    using assms by (auto simp: prepareSubmission_def unchanged_def refuse_def split: if_splits option.splits)
  then show ?thesis
    using False by (elim conjE submit_files_cases) (auto intro: submits)
qed

lemma prepareSubmission_evolves:
  assumes "keyed_catalog c" "prepareSubmission st io scope kind attempt message ids pending c s = ((e, ch, w), c', s')"
  shows "ages c c' \<and> s' = s"
  using assms(2)
proof (cases rule: prepareSubmission_cases)
  case same
  then show ?thesis using assms(1) by (simp add: ages_refl)
next
  case (submits ds)
  let ?d = "set_submission (submission_key scope kind attempt) (new_submission scope kind attempt message w ids pending) c"
  have "ages ?d c'"
    unfolding submits submitted_def using assms(1) describe_files [OF submits(1)] by (intro ages_touch) auto
  then show ?thesis using ages_trans [OF ages_submission [OF assms(1)]] submits(4) by blast
qed

subsection \<open>The bodies that age the catalog\<close>

lemma ages_then_scope: "ages c d \<Longrightarrow> ages c (set_scope k x d)"
  by (meson ages_keyed ages_scope ages_trans)

lemma ages_then_submission: "ages c d \<Longrightarrow> ages c (set_submission k b d)"
  by (meson ages_keyed ages_submission ages_trans)

lemma adopt_each_evolves: "ages c d \<Longrightarrow> ages c (snd (adopt_each sha digest slug thread epoch bs changed d))"
proof (induction bs arbitrary: changed d)
  case Nil
  then show ?case by simp
next
  case (Cons x bs)
  obtain k b where [simp]: "x = (k, b)" by (cases x)
  show ?case
    using Cons by (simp add: Let_def ages_then_scope ages_then_submission split: option.split)
qed

lemma retain_each_evolves: "ages c d \<Longrightarrow> ages c (snd (retain_each goals bs changed d))"
proof (induction bs arbitrary: changed d)
  case Nil
  then show ?case by simp
next
  case (Cons x bs)
  obtain k b where [simp]: "x = (k, b)" by (cases x)
  show ?case
    using Cons by (simp add: Let_def ages_then_scope ages_then_submission split: option.split)
qed

lemma fork_each_evolves: "ages c d \<Longrightarrow> ages c (snd (fork_each source target entries bs changed d))"
proof (induction bs arbitrary: changed d)
  case Nil
  then show ?case by simp
next
  case (Cons x bs)
  then show ?case by (simp add: Let_def ages_then_submission split: option.split)
qed

lemma observe_each_evolves: "ages c d \<Longrightarrow> ages c (snd (snd (observe_each b ts d)))"
proof (induction ts arbitrary: d)
  case Nil
  then show ?case by simp
next
  case (Cons t ts)
  then show ?case
    by (auto simp: Let_def case_prod_beta ages_then_submission split: option.split)
qed

lemma queue_each_evolves: "ages c d \<Longrightarrow> ages c (snd (snd (queue_each b qs d)))"
proof (induction qs arbitrary: d)
  case Nil
  then show ?case by simp
next
  case (Cons q qs)
  then show ?case
    by (auto simp: Let_def case_prod_beta ages_then_submission split: option.split)
qed

lemma ages_map_files:
  "keyed_catalog c \<Longrightarrow> (\<And>i f. descends f (h (i, f))) \<Longrightarrow> ages c (c\<lparr>ct_files := map (\<lambda>x. (fst x, h x)) (ct_files c)\<rparr>)"
  unfolding ages_def by (simp add: map_of_map_pair keyed_catalog_def o_def split: option.split) blast

lemma ages_compact: "keyed_catalog c \<Longrightarrow> ages c (snd (compact k c))"
  using compact_parts [where c = c and k = k] unfolding ages_def by (metis descends_unstage)

lemma delete_body_evolves:
  assumes "keyed_catalog c" "delete_body b idle locked now i confirmed c s = ((e, ch, u), c', s')"
  shows "ages c c' \<and> s' = s"
proof (cases "map_of (ct_files c) i")
  case None
  then show ?thesis
    using assms by (auto simp: delete_body_def guarded_def refuse_def Let_def ages_refl split: option.splits)
next
  case (Some f)
  let ?d = "set_file i (f\<lparr>uf_state := ''deleted'', uf_checksums := [], uf_updated := now\<rparr>) c"
  have "s' = s \<and> (c' = c \<or> c' = ?d)"
    using assms(2) unfolding delete_body_def guarded_def refuse_def unchanged_def fails_def Let_def file_at_some [OF Some]
    by (simp split: option.splits if_splits)
  then show ?thesis
    using assms(1) Some by (auto simp: ages_refl intro: ages_file)
qed

text \<open>Before its compaction.\<close>

definition removing :: "string \<Rightarrow> string \<Rightarrow> string \<Rightarrow> catalog \<Rightarrow> catalog" where
  "removing slug thread epoch c =
     (let owned = map fst (filter (\<lambda>x. retired slug thread epoch (snd x)) (ct_scopes c)) in
      c\<lparr>ct_scopes := map (\<lambda>x. (fst x, if retired slug thread epoch (snd x) then (snd x)\<lparr>us_deleted := True\<rparr> else snd x)) (ct_scopes c),
        ct_files := map (\<lambda>x. (fst x, if uf_scope (snd x) \<in> set owned then bury_file (snd x) else snd x)) (ct_files c),
        ct_submissions := filter (\<lambda>x. sb_scope (snd x) \<notin> set owned) (ct_submissions c)\<rparr>)"

lemma RemoveSession_body_parts:
  assumes "RemoveSession_body k slug thread epoch c s = ((e, ch, u), c', s')"
  shows "s' = s \<and> (c' = c \<or> c' = snd (compact k (removing slug thread epoch c)))"
proof (cases "list_ex (\<lambda>x. thread_missing slug thread epoch (snd x)) (ct_scopes c)")
  case True
  then show ?thesis using assms by (simp add: RemoveSession_body_def fails_def)
next
  case False
  then show ?thesis
    using assms unfolding RemoveSession_body_def removing_def Let_def by (simp only: if_False prod.inject) blast
qed

lemma removing_evolves:
  assumes "keyed_catalog c"
  shows "ages c (removing slug thread epoch c)"
proof -
  let ?owned = "map fst (filter (\<lambda>x. retired slug thread epoch (snd x)) (ct_scopes c))"
  let ?c1 = "c\<lparr>ct_files := map (\<lambda>x. (fst x, if uf_scope (snd x) \<in> set ?owned then bury_file (snd x) else snd x)) (ct_files c)\<rparr>"
  have 1: "ages c ?c1" using assms by (intro ages_map_files) auto
  have "keyed_catalog (removing slug thread epoch c)" using assms by (simp add: removing_def Let_def keyed_catalog_def o_def keys_filter)
  then have "ages ?c1 (removing slug thread epoch c)"
    using ages_keyed [OF 1] by (intro ages_same_files) (simp_all add: removing_def Let_def)
  then show ?thesis using ages_trans [OF 1] by blast
qed

lemma RemoveSession_body_evolves:
  assumes "keyed_catalog c" "RemoveSession_body k slug thread epoch c s = ((e, ch, u), c', s')"
  shows "ages c c' \<and> s' = s"
  using RemoveSession_body_parts [OF assms(2)] ages_refl [OF assms(1)] removing_evolves [OF assms(1)]
    ages_trans ages_compact ages_keyed by blast

text \<open>The calls that bring bytes in; under every other call files only age or are buried, and all but one leave the bytes alone.\<close>

fun receiving :: "upload_call \<Rightarrow> bool" where
  "receiving (DoCreate b io q) = True"
| "receiving (DoAppend b io i offset checksum chunk) = True"
| "receiving (DoComplete b io i) = True"
| "receiving _ = False"

fun reclaiming :: "upload_call \<Rightarrow> bool" where
  "reclaiming (DoReclaim io) = True"
| "reclaiming _ = False"

lemma remove_each_catalog [simp]: "ud_catalog (snd (remove_each io is s)) = ud_catalog s"
  by (induction io "is" s rule: remove_each.induct) (auto simp: set_blob_def split: option.split)

lemma preparePreparation_evolves:
  assumes "keyed_catalog c" "preparePreparation st io request scope message ids c s = ((e, ch, w), c', s')"
  shows "ages c c' \<and> s' = s"
proof (cases "c' = c \<and> s' = s")
  case True
  then show ?thesis using assms(1) by (simp add: ages_refl)
next
  case False
  then have "prepareSubmission st io scope ''initial'' (''preparation:'' @ request) message ids True c s = ((e, ch, w), c', s')"
    using assms(2) by (auto simp: preparePreparation_def Let_def unchanged_def split: option.splits if_splits)
  then show ?thesis using prepareSubmission_evolves assms(1) by blast
qed

lemma ClaimPreparation_body_parts:
  assumes "ClaimPreparation_body st io confirm request scope message ids c s = ((e, ch, w), c', s')"
  obtains e0 s1 where "preparePreparation st io request scope message ids c s = ((e0, ch, w), c', s1)"
    "s' = s1 \<or> s' = snd (confirmCatalog confirm s1)" "e = None \<longrightarrow> e0 = None"
proof -
  obtain e0 ch0 w0 c0 s0 where p: "preparePreparation st io request scope message ids c s = ((e0, ch0, w0), c0, s0)"
    by (cases "preparePreparation st io request scope message ids c s") auto
  then show ?thesis
    using assms that by (cases e0; cases ch0) (auto simp: ClaimPreparation_body_def Let_def case_prod_beta prod_eq_iff)
qed

lemma no_resultE:
  assumes "no_result B c s = ((e, ch, u), c', s')"
  obtains a where "B c s = ((e, ch, a), c', s')"
  using assms that by (cases "B c s") (auto simp: no_result_def)

lemma ValidatePreparation_body_keeps:
  assumes "keyed_catalog c" "ValidatePreparation_body st io request scope message ids c s = ((e, ch, u), c', s')"
  shows "c' = c \<and> s' = s"
proof -
  obtain e0 ch0 w0 c0 s0 where p: "preparePreparation st io request scope message ids c s = ((e0, ch0, w0), c0, s0)"
    by (cases "preparePreparation st io request scope message ids c s") auto
  then show ?thesis
    using assms(2) preparePreparation_evolves [OF assms(1) p] by (simp add: ValidatePreparation_body_def)
qed

lemma quiet_bodies:
  assumes "keyed_catalog c"
  shows "NewDraft_body ent now c s = ((e, ch, x), c', s') \<Longrightarrow> ages c c' \<and> s' = s"
    and "SessionScope_body slug thread epoch ent now c s = ((e, ch, x), c', s') \<Longrightarrow> ages c c' \<and> s' = s"
    and "Prepare_body st b io kind attempt message ids c s = ((e, ch, w), c', s') \<Longrightarrow> ages c c' \<and> s' = s"
    and "BindPreparation_body request scope wire slug epoch c s = ((e, ch, u), c', s') \<Longrightarrow> ages c c' \<and> s' = s"
    and "AdoptInitial_body sha digest slug thread epoch c s = ((e, ch, u), c', s') \<Longrightarrow> ages c c' \<and> s' = s"
    and "ObserveTranscript_body b ts c s = ((e, ch, us), c', s') \<Longrightarrow> ages c c' \<and> s' = s"
    and "ObserveQueue_body b qs c s = ((e, ch, qs'), c', s') \<Longrightarrow> ages c c' \<and> s' = s"
    and "QueueDeleted_body b i c s = ((e, ch, u), c', s') \<Longrightarrow> ages c c' \<and> s' = s"
    and "Collect_body at c s = ((e, ch, u), c', s') \<Longrightarrow> ages c c' \<and> s' = s"
    and "Fork_body source target entries c s = ((e, ch, u), c', s') \<Longrightarrow> ages c c' \<and> s' = s"
    and "RetainCreations_body goals c s = ((e, ch, u), c', s') \<Longrightarrow> ages c c' \<and> s' = s"
proof -
  note r = ages_refl [OF assms]
  show "NewDraft_body ent now c s = ((e, ch, x), c', s') \<Longrightarrow> ages c c' \<and> s' = s"
    using assms r by (auto simp: NewDraft_body_def refuse_def fails_def Let_def split: if_splits sum.splits)
  show "SessionScope_body slug thread epoch ent now c s = ((e, ch, x), c', s') \<Longrightarrow> ages c c' \<and> s' = s"
    using assms r by (auto simp: SessionScope_body_def refuse_def fails_def unchanged_def Let_def split: if_splits sum.splits option.splits)
  show "Prepare_body st b io kind attempt message ids c s = ((e, ch, w), c', s') \<Longrightarrow> ages c c' \<and> s' = s"
    using r prepareSubmission_evolves [OF assms] unfolding Prepare_body_def guarded_def by (auto split: option.splits)
  show "BindPreparation_body request scope wire slug epoch c s = ((e, ch, u), c', s') \<Longrightarrow> ages c c' \<and> s' = s"
    using assms r by (auto simp: BindPreparation_body_def refuse_def Let_def split: if_splits option.splits)
  show "AdoptInitial_body sha digest slug thread epoch c s = ((e, ch, u), c', s') \<Longrightarrow> ages c c' \<and> s' = s"
    using adopt_each_evolves [OF r] by (auto simp: AdoptInitial_body_def Let_def case_prod_beta)
  show "ObserveTranscript_body b ts c s = ((e, ch, us), c', s') \<Longrightarrow> ages c c' \<and> s' = s"
    using observe_each_evolves [OF r] by (auto simp: ObserveTranscript_body_def Let_def case_prod_beta)
  show "ObserveQueue_body b qs c s = ((e, ch, qs'), c', s') \<Longrightarrow> ages c c' \<and> s' = s"
    using queue_each_evolves [OF r] by (auto simp: ObserveQueue_body_def Let_def case_prod_beta)
  show "QueueDeleted_body b i c s = ((e, ch, u), c', s') \<Longrightarrow> ages c c' \<and> s' = s"
    using assms by (auto simp: QueueDeleted_body_def keyed_catalog_def o_def intro!: ages_same_files)
  show "Collect_body at c s = ((e, ch, u), c', s') \<Longrightarrow> ages c c' \<and> s' = s"
    using assms by (auto simp: Collect_body_def intro!: ages_map_files)
  show "Fork_body source target entries c s = ((e, ch, u), c', s') \<Longrightarrow> ages c c' \<and> s' = s"
    using fork_each_evolves [OF r] by (auto simp: Fork_body_def Let_def case_prod_beta)
  show "RetainCreations_body goals c s = ((e, ch, u), c', s') \<Longrightarrow> ages c c' \<and> s' = s"
    using retain_each_evolves [OF r] by (auto simp: RetainCreations_body_def Let_def case_prod_beta)
qed

lemma ClaimPreparation_body_evolves:
  assumes "keyed_catalog c" "ClaimPreparation_body st io confirm request scope message ids c s = ((e, ch, w), c', s')"
  shows "ages c c' \<and> ud_catalog s' = ud_catalog s \<and> ud_blobs s' = ud_blobs s"
  using assms(2)
proof (rule ClaimPreparation_body_parts)
  fix e0 s1
  assume "preparePreparation st io request scope message ids c s = ((e0, ch, w), c', s1)" "s' = s1 \<or> s' = snd (confirmCatalog confirm s1)"
  then show ?thesis using preparePreparation_evolves [OF assms(1)] by fastforce
qed

lemma reclaim_body_effect:
  assumes "reclaim_body io c s = ((e, ch, u), c', s')"
  shows "c' = c \<and> ud_catalog s' = ud_catalog s"
  using assms by (auto simp: reclaim_body_def fails_def Let_def case_prod_beta split: sum.splits if_splits)

lemma call_evolves:
  assumes "keyed_catalog c" "\<not> receiving call" "call_body sha st call c s = ((e, ch, u), c', s')"
  shows "ages c c' \<and> ud_catalog s' = ud_catalog s \<and> (\<not> reclaiming call \<longrightarrow> ud_blobs s' = ud_blobs s)"
proof (cases call)
  case (DoDelete b idle locked now i confirmed)
  then show ?thesis using assms(3) by (auto dest: delete_body_evolves [OF assms(1)])
next
  case (DoRemoveSession k slug thread epoch)
  then show ?thesis using assms(3) by (auto dest: RemoveSession_body_evolves [OF assms(1)])
next
  case (DoReclaim io)
  then show ?thesis using assms(1,3) reclaim_body_effect [of io c s e ch u c' s'] by (simp add: ages_refl)
next
  case (DoValidate io request scope message ids)
  then show ?thesis using assms(3) ValidatePreparation_body_keeps [OF assms(1)] ages_refl [OF assms(1)] by fastforce
next
  case (DoClaim io confirm request scope message ids)
  then show ?thesis using assms(3) ClaimPreparation_body_evolves [OF assms(1)] by (auto elim: no_resultE)
next
  case (DoRead f)
  then show ?thesis using assms(1,3) by (auto simp: ages_refl)
qed (use assms(2,3) in \<open>auto elim!: no_resultE dest: quiet_bodies [OF assms(1)]\<close>)

subsection \<open>What creating, appending and completing do\<close>

lemma create_file_cases:
  assumes "create_file b io q c s = ((e, ch, v), c', s')"
  obtains (same) "c' = c" "s' = s" "e \<noteq> None" "\<not> ch"
  | (opened) i f where "upload_newID (co_entropy io) = Inr i" "f = fresh_file b q i (co_now io)" "bl_partial (ud_blobs s i) = None"
      "s' = set_blob i ((ud_blobs s i)\<lparr>bl_partial := Some []\<rparr>) s" "c' = c \<and> e \<noteq> None \<and> \<not> ch \<or> c' = set_file i f c \<and> e = None \<and> ch"
proof (cases "c' = c \<and> s' = s \<and> e \<noteq> None \<and> \<not> ch")
  case True
  then show ?thesis using same by blast
next
  case False
  then obtain i where i: "upload_newID (co_entropy io) = Inr i"
    using assms by (auto simp: create_file_def fails_def split: sum.splits)
  let ?g = "first_error [co_mkdir io, if bl_partial (ud_blobs s i) \<noteq> None then Some ErrExist else co_open io]"
  have p: "?g = None"
  proof (cases ?g)
    case (Some x)
    then show ?thesis using assms False unfolding create_file_def i sum.case Some option.case by (simp add: fails_def)
  qed
  then have n: "bl_partial (ud_blobs s i) = None"
    by (cases "co_mkdir io"; cases "bl_partial (ud_blobs s i)") simp_all
  show ?thesis
    using assms opened [OF i refl n] unfolding create_file_def i sum.case p option.case Let_def fails_def
    by (auto split: option.splits)
qed

lemma Create_body_cases:
  assumes "Create_body st b io q c s = ((e, ch, v), c', s')"
  obtains (same) "c' = c" "s' = s" "\<not> ch"
  | (admits) scope where "map_of (ct_scopes c) (bk_scope b) = Some scope" "\<not> us_deleted scope"
      "admission_error st b (co_free io) q scope c = None" "create_file b io q c s = ((e, ch, v), c', s')"
  using assms unfolding Create_body_def refuse_def unchanged_def
  by (auto split: option.splits if_splits)

lemma Append_body_cases:
  assumes "Append_body st b io i offset checksum chunk c s = ((e, ch, v), c', s')"
  obtains (same) "c' = c" "s' = s" "e \<noteq> None" "\<not> ch"
  | (writes) f x bl where "map_of (ct_files c) i = Some f" "uf_scope f = bk_scope b" "uf_state f = ''uploading''" "uf_offset f = offset"
      "int (length chunk) = min (ul_chunk (up_limits st)) (uf_size f - offset)"
      "write_chunk io (nat offset) chunk (ud_blobs s i) = (x, bl)" "s' = set_blob i bl s"
      "x \<noteq> None \<and> c' = c \<and> e \<noteq> None \<and> \<not> ch \<or>
       x = None \<and> e = None \<and> ch \<and> c' = set_file i (f\<lparr>uf_offset := uf_offset f + int (length chunk), uf_checksums := uf_checksums f @ [checksum],
         uf_updated := an_now io\<rparr>) c"
proof (cases "c' = c \<and> s' = s \<and> e \<noteq> None \<and> \<not> ch")
  case True
  then show ?thesis using same by blast
next
  case False
  then obtain f where f: "map_of (ct_files c) i = Some f" "uf_scope f = bk_scope b" "uf_state f = ''uploading''" "uf_offset f = offset"
      "int (length chunk) = min (ul_chunk (up_limits st)) (uf_size f - offset)" and g: "preparationMutation c (bk_scope b) = None"
    using assms by (auto simp: Append_body_def guarded_def refuse_def split: option.splits if_splits)
  obtain x bl where w: "write_chunk io (nat offset) chunk (ud_blobs s i) = (x, bl)" by fastforce
  show ?thesis
    using assms writes [OF f w] unfolding Append_body_def guarded_def g option.case f(1) by (auto simp: f w fails_def Let_def split: option.splits)
qed

lemma Complete_body_cases:
  assumes "Complete_body b io i c s = ((e, ch, v), c', s')"
  obtains (same) "c' = c" "s' = s" "\<not> ch" "e = None \<longrightarrow> (\<exists>f. map_of (ct_files c) i = Some f \<and> uf_state f = ''ready'')"
  | (publishes) f x bl where "map_of (ct_files c) i = Some f" "uf_scope f = bk_scope b" "uf_state f \<noteq> ''deleted''" "uf_state f \<noteq> ''ready''"
      "uf_offset f = uf_size f" "publish_file io (uf_size f) (ud_blobs s i) = (x, bl)" "s' = set_blob i bl s"
      "c' = c \<and> e \<noteq> None \<and> \<not> ch \<or> x = None \<and> e = None \<and> ch \<and> c' = set_file i (f\<lparr>uf_state := ''ready'', uf_checksums := [], uf_updated := cm_now io\<rparr>) c"
proof (cases "c' = c \<and> s' = s \<and> \<not> ch \<and> (e = None \<longrightarrow> (\<exists>f. map_of (ct_files c) i = Some f \<and> uf_state f = ''ready''))")
  case True
  then show ?thesis using same by blast
next
  case False
  then obtain f where f: "map_of (ct_files c) i = Some f" "uf_scope f = bk_scope b" "uf_state f \<noteq> ''deleted''" "uf_state f \<noteq> ''ready''"
      "uf_offset f = uf_size f" and g: "preparationMutation c (bk_scope b) = None"
    using assms by (auto simp: Complete_body_def guarded_def refuse_def unchanged_def split: option.splits if_splits)
  obtain x bl where w: "publish_file io (uf_size f) (ud_blobs s i) = (x, bl)" by fastforce
  show ?thesis
    using assms publishes [OF f w] unfolding Complete_body_def guarded_def g option.case f(1) by (auto simp: f w fails_def Let_def split: option.splits)
qed

subsection \<open>The contract of an invariant\<close>

lemma set_blob_catalog [simp]: "ud_catalog (set_blob i b s) = ud_catalog s" "ud_blobs (set_blob i b s) = (ud_blobs s)(i := b)"
  by (simp_all add: set_blob_def)

lemma call_keyed:
  assumes "keyed_catalog c" "call_body sha st call c s = ((e, ch, u), c', s')"
  shows "keyed_catalog c' \<and> ud_catalog s' = ud_catalog s"
proof (cases "receiving call")
  case False
  then show ?thesis using call_evolves [OF assms(1) _ assms(2)] ages_keyed by blast
next
  case True
  then show ?thesis
  proof (cases call rule: receiving.cases)
    case (1 b io q)
    then obtain v where "Create_body st b io q c s = ((e, ch, v), c', s')" using assms(2) by (auto elim: no_resultE)
    then show ?thesis
      by (rule Create_body_cases) (use assms(1) in \<open>auto elim!: create_file_cases\<close>)
  next
    case (2 b io i offset checksum chunk)
    then obtain v where "Append_body st b io i offset checksum chunk c s = ((e, ch, v), c', s')" using assms(2) by (auto elim: no_resultE)
    then show ?thesis
      by (rule Append_body_cases) (use assms(1) in auto)
  next
    case (3 b io i)
    then obtain v where "Complete_body b io i c s = ((e, ch, v), c', s')" using assms(2) by (auto elim: no_resultE)
    then show ?thesis
      by (rule Complete_body_cases) (use assms(1) in auto)
  qed simp_all
qed

locale upload_invariant =
  fixes sha :: "string \<Rightarrow> string" and st :: upload_store and allowed :: "upload_call \<Rightarrow> bool" and good :: "catalog \<Rightarrow> (string \<Rightarrow> blob) \<Rightarrow> bool"
  assumes initially: "good (empty_catalog (up_workspace st)) (\<lambda>_. no_blob)"
    and compacted: "keyed_catalog c \<Longrightarrow> good c b \<Longrightarrow> good (snd (compact k c)) b"
    and uncompacted: "keyed_catalog c \<Longrightarrow> good c b \<Longrightarrow> good (snd (compact k c)) b' \<Longrightarrow> good c b'"
    and called: "allowed call \<Longrightarrow> upload_admitted sha st c call \<Longrightarrow> catalog_error st False c = None \<Longrightarrow> keyed_catalog c \<Longrightarrow> good c (ud_blobs s) \<Longrightarrow>
      call_body sha st call c s = ((e, ch, u), c', s') \<Longrightarrow> good c (ud_blobs s') \<and> (e = None \<longrightarrow> good c' (ud_blobs s'))"
begin

lemma kept:
  assumes step: "upload_step sha tm st call s s'" and "allowed call"
    and inv: "keyed_catalog (stored st s)" "good (stored st s) (ud_blobs s)"
  shows "keyed_catalog (stored st s') \<and> good (stored st s') (ud_blobs s')"
  using step
proof cases
  case (transacts io r)
  obtain e u where r: "r = (e, u)" by (cases r)
  from transacts(3) [unfolded r] show ?thesis
  proof (cases rule: transaction_outcome)
    case early
    then show ?thesis using inv by (simp add: stored_def)
  next
    case (ran c v e0 ch d t)
    have c: "c = stored st s" using transacts(1) ran(1) by (simp add: reads_back_def)
    let ?c = "snd (compact (ui_clock io) c)"
    obtain null where ok: "catalog_error st null c = None" using load_catalog_ok [OF ran(1)] ..
    have k: "keyed_catalog ?c" using compact_parts(8) inv(1) c by blast
    have g: "good ?c (ud_blobs v)" using compacted inv c ran(3) by simp
    have "good ?c (ud_blobs t) \<and> (e0 = None \<longrightarrow> good d (ud_blobs t))"
      using called [OF assms(2) _ compact_catalog_error k g ran(4)] compact_admitted inv(1) transacts(2) c ok by blast
    moreover from this have "good c (ud_blobs t)"
      using uncompacted [OF _ inv(2)] inv(1) c by blast
    moreover have "keyed_catalog d \<and> ud_catalog t = ud_catalog s"
      using call_keyed [OF k ran(4)] ran(2) by simp
    ultimately show ?thesis
      using ran(5,6) inv(1) c by (auto simp: stored_def)
  qed
qed

lemma reached: "uploads_reach sha tm st allowed s \<Longrightarrow> keyed_catalog (stored st s) \<and> good (stored st s) (ud_blobs s)"
proof (induction rule: uploads_reach.induct)
  case begins
  then show ?case using initially by (simp add: stored_def new_upload_state_def)
next
  case (goes_on s call s')
  then show ?case using kept by blast
next
  case (restarts s)
  then show ?case by (simp add: stored_def)
qed

end

end
