(* ===== verification/Upload_Valid.thy ===== *)
theory Upload_Valid
  imports Upload_Steps
begin

text \<open>
  The catalog of the upload store: what it holds stays within the quotas of sessions, drafts and the workspace,
  and every operation but forking leaves a catalog that the next transaction accepts.
\<close>

subsection \<open>Scopes and submissions under each body\<close>

definition ids_ok :: "catalog \<Rightarrow> bool" where "ids_ok c \<longleftrightarrow> (\<forall>k x. map_of (ct_scopes c) k = Some x \<longrightarrow> us_id x = k)"

definition homed :: "catalog \<Rightarrow> submission \<Rightarrow> bool" where "homed c b \<longleftrightarrow> map_of (ct_scopes c) (sb_scope b) \<noteq> None"

definition all_homed :: "catalog \<Rightarrow> bool" where "all_homed c \<longleftrightarrow> (\<forall>k b. map_of (ct_submissions c) k = Some b \<longrightarrow> homed c b)"

text \<open>No scope disappears and none becomes a draft.\<close>

definition scopes_follow :: "catalog \<Rightarrow> catalog \<Rightarrow> bool" where
  "scopes_follow c d \<longleftrightarrow>
     ids_ok d \<and> (\<forall>k. map_of (ct_scopes c) k \<noteq> None \<longrightarrow> map_of (ct_scopes d) k \<noteq> None) \<and>
     (\<forall>k x. map_of (ct_scopes d) k = Some x \<longrightarrow> us_draft x \<longrightarrow> (\<exists>y. map_of (ct_scopes c) k = Some y \<and> us_draft y))"

text \<open>The same scopes, and the same submissions at home in them.\<close>

definition settles_in :: "catalog \<Rightarrow> catalog \<Rightarrow> bool" where
  "settles_in c d \<longleftrightarrow>
     (\<forall>k. map_of (ct_scopes d) k = None \<longleftrightarrow> map_of (ct_scopes c) k = None) \<and>
     (\<forall>k b. map_of (ct_submissions d) k = Some b \<longrightarrow> (\<exists>b'. map_of (ct_submissions c) k = Some b' \<and> sb_scope b' = sb_scope b))"

lemma scopes_follow_refl: "ids_ok c \<Longrightarrow> scopes_follow c c"
  by (auto simp: scopes_follow_def)

lemma scopes_follow_trans: "scopes_follow c d \<Longrightarrow> scopes_follow d e \<Longrightarrow> scopes_follow c e"
  unfolding scopes_follow_def by (elim conjE, intro conjI) blast+

lemma settles_in_refl [simp]: "settles_in c c"
  by (auto simp: settles_in_def)

lemma settles_in_trans: "settles_in c d \<Longrightarrow> settles_in d e \<Longrightarrow> settles_in c e"
  unfolding settles_in_def by (elim conjE, intro conjI) (simp, metis)

lemma scopes_follow_same: "ids_ok c \<Longrightarrow> ct_scopes d = ct_scopes c \<Longrightarrow> scopes_follow c d"
  by (auto simp: scopes_follow_def ids_ok_def)

lemma scopes_follow_submission [simp]: "scopes_follow c (set_submission k b d) = scopes_follow c d"
  unfolding scopes_follow_def ids_ok_def by (simp only: catalog_updates)

lemma scopes_follow_ids: "scopes_follow c d \<Longrightarrow> ids_ok d"
  by (simp add: scopes_follow_def)

lemma ids_ok_submission [simp]: "ids_ok (set_submission k b c) = ids_ok c"
  unfolding ids_ok_def by (simp only: catalog_updates)

lemma scope_at_id: "ids_ok c \<Longrightarrow> us_id (scope_at c k) = (if map_of (ct_scopes c) k = None then [] else k)"
  by (auto simp: scope_at_def ids_ok_def zero_scope_def split: option.split)

text \<open>What adoption and retention write: a scope read from the catalog, under its own identity.\<close>

lemma scopes_follow_rewrite:
  assumes "ids_ok c" "us_id y = us_id (scope_at c k)" "us_draft y \<longrightarrow> us_draft (scope_at c k)"
  shows "scopes_follow c (set_scope (us_id (scope_at c k)) y c)"
proof (cases "map_of (ct_scopes c) k")
  case None
  then show ?thesis
    using assms by (auto simp: scopes_follow_def ids_ok_def scope_at_def zero_scope_def)
next
  case (Some x)
  then have "us_id x = k" using assms(1) by (simp add: ids_ok_def)
  then show ?thesis
    using assms Some by (auto simp: scopes_follow_def ids_ok_def scope_at_def)
qed

lemma settles_in_rewrite:
  assumes "ids_ok c" "homed c b" "map_of (ct_submissions c) key = Some b'" "sb_scope b' = sb_scope b''"
  shows "settles_in c (set_submission key b'' (set_scope (us_id (scope_at c (sb_scope b))) y c))"
  using assms by (auto simp: settles_in_def scope_at_id homed_def)

lemma adopt_each_follows: "ids_ok c \<Longrightarrow> scopes_follow c (snd (adopt_each sha digest slug thread epoch bs changed c))"
proof (induction bs arbitrary: changed c)
  case Nil
  then show ?case by (simp add: scopes_follow_refl)
next
  case (Cons z bs)
  obtain key b where [simp]: "z = (key, b)" by (cases z)
  let ?x = "scope_at c (sb_scope b)"
  let ?d = "set_submission key (b\<lparr>sb_state := ''observed''\<rparr>)
      (set_scope (us_id ?x) (?x\<lparr>us_draft := False, us_slug := slug, us_thread := thread, us_epoch := epoch\<rparr>) c)"
  have "scopes_follow c (set_scope (us_id ?x) (?x\<lparr>us_draft := False, us_slug := slug, us_thread := thread, us_epoch := epoch\<rparr>) c)"
    by (rule scopes_follow_rewrite) (use Cons.prems in auto)
  then have d: "scopes_follow c ?d" by simp
  then have "scopes_follow ?d (snd (adopt_each sha digest slug thread epoch bs True ?d))"
    by (intro Cons.IH) (simp add: scopes_follow_def)
  then have rest: "scopes_follow c (snd (adopt_each sha digest slug thread epoch bs True ?d))"
    using scopes_follow_trans d by blast
  show ?case
    using Cons.IH [OF Cons.prems] rest scopes_follow_refl [OF Cons.prems] by (simp add: Let_def split: option.split)
qed

lemma retain_each_follows: "ids_ok c \<Longrightarrow> scopes_follow c (snd (retain_each goals bs changed c))"
proof (induction bs arbitrary: changed c)
  case Nil
  then show ?case by (simp add: scopes_follow_refl)
next
  case (Cons z bs)
  obtain key b where [simp]: "z = (key, b)" by (cases z)
  let ?x = "scope_at c (sb_scope b)"
  have step: "scopes_follow c (snd (retain_each goals bs True (set_submission key b' (set_scope (us_id ?x) (?x\<lparr>us_slug := u, us_epoch := v\<rparr>) c))))"
    for b' u v
  proof -
    let ?d = "set_submission key b' (set_scope (us_id ?x) (?x\<lparr>us_slug := u, us_epoch := v\<rparr>) c)"
    have "scopes_follow c (set_scope (us_id ?x) (?x\<lparr>us_slug := u, us_epoch := v\<rparr>) c)"
      by (rule scopes_follow_rewrite) (use Cons.prems in auto)
    then have d: "scopes_follow c ?d" by simp
    then have "scopes_follow ?d (snd (retain_each goals bs True ?d))"
      by (intro Cons.IH) (simp add: scopes_follow_def)
    then show ?thesis using scopes_follow_trans d by blast
  qed
  show ?case
    using Cons.IH [OF Cons.prems] step scopes_follow_refl [OF Cons.prems] by (simp add: Let_def split: option.split)
qed

lemma settles_in_update: "map_of (ct_submissions c) key = Some b \<Longrightarrow> sb_scope b = sb_scope b' \<Longrightarrow> settles_in c (set_submission key b' c)"
  by (auto simp: settles_in_def)

lemma settled_homed: "settles_in c d \<Longrightarrow> homed d b = homed c b"
  by (simp add: settles_in_def homed_def)

lemma settled_all_homed: "settles_in c d \<Longrightarrow> all_homed c \<Longrightarrow> all_homed d"
  unfolding all_homed_def settles_in_def homed_def by (elim conjE) metis

text \<open>Entries of an iteration: at home, and under a key that is taken.\<close>

definition rooted :: "catalog \<Rightarrow> string \<times> submission \<Rightarrow> bool" where
  "rooted c z \<longleftrightarrow> homed c (snd z) \<and> (\<exists>b'. map_of (ct_submissions c) (fst z) = Some b' \<and> sb_scope b' = sb_scope (snd z))"

lemma rooted_rewrite:
  assumes "ids_ok c" "rooted c (key, b)" "sb_scope b'' = sb_scope b"
  shows "settles_in c (set_submission key b'' (set_scope (us_id (scope_at c (sb_scope b))) y c))"
  using assms settles_in_rewrite [of c b key _ b'' y] by (auto simp: rooted_def)

lemma rooted_kept:
  assumes "ids_ok c" "rooted c (key, b)" "rooted c z" "sb_scope b'' = sb_scope b"
  shows "rooted (set_submission key b'' (set_scope (us_id (scope_at c (sb_scope b))) y c)) z"
  using assms by (auto simp: rooted_def homed_def scope_at_id)

lemma adopt_each_settles:
  "ids_ok c \<Longrightarrow> \<forall>z \<in> set bs. rooted c z \<Longrightarrow> settles_in c (snd (adopt_each sha digest slug thread epoch bs changed c))"
proof (induction bs arbitrary: changed c)
  case Nil
  then show ?case by simp
next
  case (Cons z bs)
  obtain key b where [simp]: "z = (key, b)" by (cases z)
  let ?x = "scope_at c (sb_scope b)"
  let ?y = "?x\<lparr>us_draft := False, us_slug := slug, us_thread := thread, us_epoch := epoch\<rparr>"
  let ?d = "set_submission key (b\<lparr>sb_state := ''observed''\<rparr>) (set_scope (us_id ?x) ?y c)"
  have r: "rooted c (key, b)" using Cons.prems(2) by simp
  have d: "settles_in c ?d" by (rule rooted_rewrite [OF Cons.prems(1) r]) simp
  have "scopes_follow c (set_scope (us_id ?x) ?y c)"
    by (rule scopes_follow_rewrite) (use Cons.prems(1) in auto)
  then have "ids_ok ?d" using scopes_follow_ids by simp
  moreover have "\<forall>z \<in> set bs. rooted ?d z"
    using Cons.prems(2) rooted_kept [OF Cons.prems(1) r] by simp
  ultimately have "settles_in ?d (snd (adopt_each sha digest slug thread epoch bs True ?d))"
    by (rule Cons.IH)
  then have rest: "settles_in c (snd (adopt_each sha digest slug thread epoch bs True ?d))"
    using settles_in_trans d by blast
  have same: "settles_in c (snd (adopt_each sha digest slug thread epoch bs changed c))"
    by (rule Cons.IH) (use Cons.prems in auto)
  show ?case
    using same rest by (simp add: Let_def split: option.split)
qed

lemma retain_each_settles:
  "ids_ok c \<Longrightarrow> \<forall>z \<in> set bs. rooted c z \<Longrightarrow> settles_in c (snd (retain_each goals bs changed c))"
proof (induction bs arbitrary: changed c)
  case Nil
  then show ?case by simp
next
  case (Cons z bs)
  obtain key b where [simp]: "z = (key, b)" by (cases z)
  let ?x = "scope_at c (sb_scope b)"
  have r: "rooted c (key, b)" using Cons.prems(2) by simp
  have step: "settles_in c (snd (retain_each goals bs True (set_submission key b' (set_scope (us_id ?x) (?x\<lparr>us_slug := u, us_epoch := v\<rparr>) c))))"
    if "sb_scope b' = sb_scope b" for b' u v
  proof -
    let ?y = "?x\<lparr>us_slug := u, us_epoch := v\<rparr>"
    let ?d = "set_submission key b' (set_scope (us_id ?x) ?y c)"
    have d: "settles_in c ?d" by (rule rooted_rewrite [OF Cons.prems(1) r that])
    have "scopes_follow c (set_scope (us_id ?x) ?y c)"
      by (rule scopes_follow_rewrite) (use Cons.prems(1) in auto)
    then have "ids_ok ?d" using scopes_follow_ids by simp
    moreover have "\<forall>z \<in> set bs. rooted ?d z"
      using Cons.prems(2) rooted_kept [OF Cons.prems(1) r _ that] by simp
    ultimately have "settles_in ?d (snd (retain_each goals bs True ?d))"
      by (rule Cons.IH)
    then show ?thesis using settles_in_trans d by blast
  qed
  have same: "settles_in c (snd (retain_each goals bs changed c))"
    by (rule Cons.IH) (use Cons.prems in auto)
  show ?case
    using same step by (simp add: Let_def split: option.split)
qed

lemma rooted_all: "keyed_catalog c \<Longrightarrow> all_homed c \<Longrightarrow> \<forall>z \<in> set (ct_submissions c). rooted c z"
  by (auto simp: keyed_catalog_def all_homed_def rooted_def homed_def)

lemma observe_each_settles: "keyed_catalog c \<Longrightarrow> settles_in c (snd (snd (observe_each b ts c))) \<and> ct_scopes (snd (snd (observe_each b ts c))) = ct_scopes c"
proof (induction ts arbitrary: c)
  case Nil
  then show ?case by simp
next
  case (Cons t ts)
  let ?find = "if te_kind t = ''userMessage'' then List.find (\<lambda>x. transcribed b t (snd x)) (ct_submissions c) else None"
  show ?case
  proof (cases ?find)
    case None
    then show ?thesis using Cons.IH [OF Cons.prems] unfolding observe_each.simps None by (simp add: case_prod_beta)
  next
    case (Some z)
    obtain key x where z: "z = (key, x)" by (cases z)
    have at: "map_of (ct_submissions c) key = Some x"
      using Some z find_entry_at [of "ct_submissions c"] Cons.prems by (auto simp: keyed_catalog_def split: if_splits)
    let ?update = "sb_state x \<noteq> ''observed'' \<or> sb_item x \<noteq> te_item t"
    let ?d = "if ?update then set_submission key (x\<lparr>sb_state := ''observed'', sb_item := te_item t\<rparr>) c else c"
    obtain d where de: "d = ?d" by simp
    have d: "settles_in c d" "keyed_catalog d" "ct_scopes d = ct_scopes c"
      using settles_in_update [OF at] Cons.prems by (simp_all add: de)
    have "snd (snd (observe_each b (t # ts) c)) = snd (snd (observe_each b ts d))"
      unfolding de observe_each.simps Some z by (simp only: option.case prod.case Let_def case_prod_beta snd_conv fst_conv)
    then show ?thesis using Cons.IH [OF d(2)] d(3) settles_in_trans [OF d(1)] by simp
  qed
qed

lemma queue_each_settles: "keyed_catalog c \<Longrightarrow> settles_in c (snd (snd (queue_each b qs c))) \<and> ct_scopes (snd (snd (queue_each b qs c))) = ct_scopes c"
proof (induction qs arbitrary: c)
  case Nil
  then show ?case by simp
next
  case (Cons q qs)
  let ?find = "List.find (\<lambda>x. queued_as b q (snd x)) (ct_submissions c)"
  show ?case
  proof (cases ?find)
    case None
    then show ?thesis using Cons.IH [OF Cons.prems] unfolding queue_each.simps None by (simp add: case_prod_beta)
  next
    case (Some z)
    obtain key x where z: "z = (key, x)" by (cases z)
    have at: "map_of (ct_submissions c) key = Some x"
      using Some z find_entry_at [of "ct_submissions c"] Cons.prems by (auto simp: keyed_catalog_def)
    let ?update = "(sb_state x = ''pending'' \<or> sb_state x = ''queued'') \<and> (sb_state x \<noteq> ''queued'' \<or> sb_queue x \<noteq> qe_id q)"
    let ?d = "if ?update then set_submission key (x\<lparr>sb_state := ''queued'', sb_queue := qe_id q\<rparr>) c else c"
    obtain d where de: "d = ?d" by simp
    have d: "settles_in c d" "keyed_catalog d" "ct_scopes d = ct_scopes c"
      using settles_in_update [OF at] Cons.prems by (simp_all add: de)
    have "snd (snd (queue_each b (q # qs) c)) = snd (snd (queue_each b qs d))"
      unfolding de queue_each.simps Some z by (simp only: option.case prod.case Let_def case_prod_beta snd_conv fst_conv)
    then show ?thesis using Cons.IH [OF d(2)] d(3) settles_in_trans [OF d(1)] by simp
  qed
qed

lemma removing_follows:
  assumes "keyed_catalog c" "ids_ok c"
  shows "scopes_follow c (removing slug thread epoch c)"
  using assms(2) unfolding scopes_follow_def ids_ok_def
  by (simp add: removing_def Let_def map_of_map_pair split: option.split)

lemma removing_homed:
  assumes "keyed_catalog c" "all_homed c"
  shows "all_homed (removing slug thread epoch c)"
  unfolding all_homed_def
proof (intro allI impI)
  fix k b
  assume b: "map_of (ct_submissions (removing slug thread epoch c)) k = Some b"
  have "distinct (map fst (ct_submissions c))" using assms(1) by (simp add: keyed_catalog_def)
  then have "map_of (ct_submissions c) k = Some b"
    using b by (simp add: removing_def Let_def lookup_filter split: option.splits if_splits)
  then have "homed c b" using assms(2) by (simp add: all_homed_def)
  then show "homed (removing slug thread epoch c) b"
    by (simp add: homed_def removing_def Let_def map_of_map_pair split: option.splits)
qed

lemma removing_lengths:
  "length (ct_scopes (removing slug thread epoch c)) = length (ct_scopes c)"
  "length (ct_submissions (removing slug thread epoch c)) \<le> length (ct_submissions c)"
  by (simp_all add: removing_def Let_def)

lemma compact_ids: "keyed_catalog c \<Longrightarrow> ids_ok c \<Longrightarrow> ids_ok (snd (compact k c))"
  using compact_parts(4) [where c = c and k = k] unfolding ids_ok_def by blast

lemma touch_same [simp]: "ct_scopes (touch at ids c) = ct_scopes c" "ct_submissions (touch at ids c) = ct_submissions c"
  unfolding touch_def by (induction ids arbitrary: c) simp_all

lemma submitted_parts [simp]:
  "ct_scopes (submitted st io scope kind attempt message ids pending w c) = ct_scopes c"
  "ct_submissions (submitted st io scope kind attempt message ids pending w c) =
     ct_submissions (set_submission (submission_key scope kind attempt) (new_submission scope kind attempt message w ids pending) c)"
  by (simp_all add: submitted_def)

text \<open>A submission is at home where its files are accessible.\<close>

lemma accessible_scope: "accessible c scope i \<Longrightarrow> map_of (ct_scopes c) scope \<noteq> None"
  by (auto simp: accessible_def split: option.splits)

lemma prepareSubmission_homes:
  assumes "prepareSubmission st io scope kind attempt message ids pending c s = ((e, ch, w), c', s')"
  shows "ct_scopes c' = ct_scopes c \<and> (all_homed c \<longrightarrow> all_homed c') \<and> length (ct_submissions c') \<le> max maxRecords (length (ct_submissions c))"
  using assms
proof (cases rule: prepareSubmission_cases)
  case same
  then show ?thesis by simp
next
  case (submits ds)
  obtain i where i: "i \<in> set ids" using submits(5) by (cases ids) auto
  have "map_of (ct_scopes c) scope \<noteq> None" using describe_files [OF submits(1)] i accessible_scope by blast
  then show ?thesis
    using submits(6) by (auto simp: submits(7) all_homed_def homed_def new_submission_def)
qed

lemma preparePreparation_homes:
  assumes "preparePreparation st io request scope message ids c s = ((e, ch, w), c', s')"
  shows "ct_scopes c' = ct_scopes c \<and> (all_homed c \<longrightarrow> all_homed c') \<and> length (ct_submissions c') \<le> max maxRecords (length (ct_submissions c))"
proof (cases "c' = c")
  case False
  then have "prepareSubmission st io scope ''initial'' (''preparation:'' @ request) message ids True c s = ((e, ch, w), c', s')"
    using assms by (auto simp: preparePreparation_def Let_def unchanged_def split: option.splits if_splits)
  then show ?thesis by (rule prepareSubmission_homes)
qed simp

subsection \<open>Scopes under each call\<close>

lemma scopes_follow_new:
  "ids_ok c \<Longrightarrow> us_id x = k \<Longrightarrow> \<not> us_draft x \<Longrightarrow> scopes_follow c (set_scope k x c)"
  by (auto simp: scopes_follow_def ids_ok_def)

lemma scopes_follow_set:
  "ids_ok c \<Longrightarrow> map_of (ct_scopes c) k = Some y \<Longrightarrow> us_id x = us_id y \<Longrightarrow> us_draft x = us_draft y \<Longrightarrow> scopes_follow c (set_scope k x c)"
  by (auto simp: scopes_follow_def ids_ok_def)

lemma SessionScope_body_cases:
  assumes "SessionScope_body slug thread epoch ent now c s = ((e, ch, x), c', s')"
  shows "c' = c \<or> length (ct_scopes c) < maxRecords \<and> c' = set_scope (us_id x) x c \<and> \<not> us_draft x"
  using assms by (auto simp: SessionScope_body_def refuse_def fails_def unchanged_def Let_def zero_scope_def split: if_splits sum.splits option.splits)

lemma BindPreparation_body_cases:
  assumes "BindPreparation_body request scope wire slug epoch c s = ((e, ch, u), c', s')"
  shows "c' = c \<or> map_of (ct_scopes c) scope \<noteq> None \<and> c' = set_scope scope ((scope_at c scope)\<lparr>us_slug := slug, us_epoch := epoch\<rparr>) c"
  using assms by (auto simp: BindPreparation_body_def refuse_def Let_def preparationClaimConflict_def split: if_splits option.splits)

lemma delete_body_scopes:
  assumes "delete_body b idle locked now i confirmed c s = ((e, ch, u), c', s')"
  shows "ct_scopes c' = ct_scopes c \<and> ct_submissions c' = ct_submissions c"
proof (cases "c' = c")
  case False
  then have "c' = set_file i ((file_at c i)\<lparr>uf_state := ''deleted'', uf_checksums := [], uf_updated := now\<rparr>) c"
    using assms unfolding delete_body_def guarded_def refuse_def unchanged_def fails_def Let_def
    by (simp split: option.splits if_splits)
  then show ?thesis by simp
qed simp

lemma fork_each_scopes [simp]: "ct_scopes (snd (fork_each source target entries bs changed c)) = ct_scopes c"
proof (induction bs arbitrary: changed c)
  case (Cons z bs)
  then show ?case by (simp add: Let_def split: option.split)
qed simp

fun adding_scope :: "upload_call \<Rightarrow> bool" where
  "adding_scope (DoNewDraft ent now) = True"
| "adding_scope (DoRemoveSession k slug thread epoch) = True"
| "adding_scope _ = False"

lemma call_follows:
  assumes "keyed_catalog c" "ids_ok c" "\<not> receiving call" "\<not> adding_scope call" "call_body sha st call c s = ((e, ch, u), c', s')"
  shows "scopes_follow c c'"
proof -
  note same = scopes_follow_same [OF assms(2)]
  show ?thesis
  proof (cases call)
    case (DoSessionScope slug thread epoch ent now)
    then obtain x where "SessionScope_body slug thread epoch ent now c s = ((e, ch, x), c', s')" using assms(5) by (auto elim: no_resultE)
    then show ?thesis using SessionScope_body_cases scopes_follow_new [OF assms(2) refl] same by blast
  next
    case (DoRead f)
    then show ?thesis using assms(5) same by simp
  next
    case (DoPrepare b io kind attempt message ids)
    then obtain w where "Prepare_body st b io kind attempt message ids c s = ((e, ch, w), c', s')" using assms(5) by (auto elim: no_resultE)
    then have "ct_scopes c' = ct_scopes c"
      using prepareSubmission_homes unfolding Prepare_body_def guarded_def by (auto split: option.splits)
    then show ?thesis by (rule same)
  next
    case (DoClaim io confirm request scope message ids)
    then obtain w where "ClaimPreparation_body st io confirm request scope message ids c s = ((e, ch, w), c', s')"
      using assms(5) by (auto elim: no_resultE)
    then show ?thesis
      by (rule ClaimPreparation_body_parts) (use preparePreparation_homes same in blast)
  next
    case (DoValidate io request scope message ids)
    then show ?thesis using assms(5) ValidatePreparation_body_keeps [OF assms(1)] same by fastforce
  next
    case (DoBind request scope wire slug epoch)
    then have "BindPreparation_body request scope wire slug epoch c s = ((e, ch, u), c', s')" using assms(5) by simp
    from BindPreparation_body_cases [OF this] show ?thesis
    proof
      assume "map_of (ct_scopes c) scope \<noteq> None \<and> c' = set_scope scope ((scope_at c scope)\<lparr>us_slug := slug, us_epoch := epoch\<rparr>) c"
      then show ?thesis using scopes_follow_set [OF assms(2)] by (auto simp: scope_at_def)
    qed (simp add: same)
  next
    case (DoAdopt digest slug thread epoch)
    then show ?thesis using assms(5) adopt_each_follows [OF assms(2)] by (auto simp: AdoptInitial_body_def Let_def case_prod_beta)
  next
    case (DoTranscript b ts)
    then obtain us where "ObserveTranscript_body b ts c s = ((e, ch, us), c', s')" using assms(5) by (auto elim: no_resultE)
    then show ?thesis using observe_each_settles [OF assms(1), of b ts] same by (auto simp: ObserveTranscript_body_def Let_def case_prod_beta)
  next
    case (DoQueue b qs)
    then obtain us where "ObserveQueue_body b qs c s = ((e, ch, us), c', s')" using assms(5) by (auto elim: no_resultE)
    then show ?thesis using queue_each_settles [OF assms(1), of b qs] same by (auto simp: ObserveQueue_body_def Let_def case_prod_beta)
  next
    case (DoQueueDeleted b i)
    then show ?thesis using assms(5) same by (auto simp: QueueDeleted_body_def)
  next
    case (DoDelete b idle locked now i confirmed)
    then show ?thesis using assms(5) delete_body_scopes same by auto
  next
    case (DoReclaim io)
    then show ?thesis using assms(5) reclaim_body_effect [of io c s e ch u c' s'] same by simp
  next
    case (DoCollect at)
    then show ?thesis using assms(5) same by (auto simp: Collect_body_def)
  next
    case (DoFork source target entries)
    then show ?thesis using assms(5) same by (auto simp: Fork_body_def Let_def case_prod_beta)
  next
    case (DoRetain goals)
    then show ?thesis using assms(5) retain_each_follows [OF assms(2)] by (auto simp: RetainCreations_body_def Let_def case_prod_beta)
  qed (use assms(3,4) in simp_all)
qed

end
