(* ===== verification/Upload_Integrity.thy ===== *)
theory Upload_Integrity
  imports Upload_Steps
begin

text \<open>
  Bytes of the upload store: in every state that its transactions reach, the file on disk begins with exactly
  the chunks that the catalog has recorded, and a finished file has the recorded size and never changes.
\<close>

subsection \<open>One file\<close>

text \<open>The bytes received so far; after the rename of an interrupted completion they are the final file.\<close>

definition received :: "blob \<Rightarrow> string option" where
  "received bl = (case bl_partial bl of Some p \<Rightarrow> Some p | None \<Rightarrow> bl_final bl)"

definition holds_chunks :: "upload_file \<Rightarrow> string list \<Rightarrow> blob \<Rightarrow> bool" where
  "holds_chunks f chunks bl \<longleftrightarrow>
     int (length (concat chunks)) = uf_offset f \<and>
     (case received bl of None \<Rightarrow> False | Some p \<Rightarrow> take (length (concat chunks)) p = concat chunks \<and> int (length p) \<le> uf_size f)"

definition file_intact :: "(string \<Rightarrow> string) \<Rightarrow> upload_file \<Rightarrow> blob \<Rightarrow> bool" where
  "file_intact sha f bl \<longleftrightarrow>
     uf_state f \<in> {''uploading'', ''ready'', ''deleted''} \<and>
     (uf_state f = ''uploading'' \<longrightarrow> (\<exists>chunks. map sha chunks = uf_checksums f \<and> holds_chunks f chunks bl)) \<and>
     (uf_state f = ''ready'' \<longrightarrow> (case bl_final bl of None \<Rightarrow> False | Some p \<Rightarrow> int (length p) = uf_size f))"

lemma intact_dead: "uf_state f = ''deleted'' \<Longrightarrow> file_intact sha f bl"
  by (simp add: file_intact_def)

lemma intact_descends: "descends f g \<Longrightarrow> file_intact sha f bl \<Longrightarrow> file_intact sha g bl"
  unfolding descends_def by (elim conjE disjE) (auto simp: file_intact_def holds_chunks_def split: option.splits)

lemma intact_unstage: "file_intact sha (unstage f) bl \<Longrightarrow> file_intact sha f bl"
  by (cases "uf_state f = ''uploading''") (auto simp: file_intact_def unstage_def split: if_splits option.splits)

lemma intact_fresh: "file_intact sha (fresh_file b q i now) bl \<longleftrightarrow> (case received bl of None \<Rightarrow> False | Some p \<Rightarrow> int (length p) \<le> ur_size q)"
  by (auto simp: file_intact_def fresh_file_def zero_file_def holds_chunks_def split: option.splits)

lemma write_chunk_keeps:
  assumes w: "write_chunk io (nat (uf_offset f)) chunk bl = (x, bl')" and h: "holds_chunks f chunks bl"
    and len: "int (length chunk) \<le> uf_size f - uf_offset f"
  shows "holds_chunks f chunks bl'"
    and "x = None \<Longrightarrow> holds_chunks (f\<lparr>uf_offset := uf_offset f + int (length chunk), uf_checksums := cs, uf_updated := t\<rparr>) (chunks @ [chunk]) bl'"
proof -
  have "holds_chunks f chunks bl' \<and>
      (x = None \<longrightarrow> holds_chunks (f\<lparr>uf_offset := uf_offset f + int (length chunk), uf_checksums := cs, uf_updated := t\<rparr>) (chunks @ [chunk]) bl')"
  proof (cases "bl_partial bl")
    case None
    then show ?thesis using w h by (auto simp: write_chunk_def)
  next
    case (Some p)
    have off: "nat (uf_offset f) = length (concat chunks)" and p: "take (length (concat chunks)) p = concat chunks" "int (length p) \<le> uf_size f"
      using h Some by (auto simp: holds_chunks_def received_def)
    have t: "truncated (nat (uf_offset f)) p = concat chunks"
      using p(1) by (simp add: truncated_def off) (metis append_eq_conv_conj diff_is_0_eq length_take min_def nle_le take_all_iff)
    have grown: "holds_chunks f chunks (bl\<lparr>bl_partial := Some (concat chunks @ take n chunk)\<rparr>)" for n
      using h len by (simp add: holds_chunks_def received_def)
    show ?thesis
    proof (cases "first_error [an_open io, an_truncate io]")
      case (Some e)
      then show ?thesis using w h by (auto simp: write_chunk_def \<open>bl_partial bl = Some p\<close>)
    next
      case None
      then have w': "(case an_write io of (n, Some e) \<Rightarrow> (Some e, bl\<lparr>bl_partial := Some (concat chunks @ take n chunk)\<rparr>)
          | (n, None) \<Rightarrow> (an_sync io, bl\<lparr>bl_partial := Some (concat chunks @ chunk)\<rparr>)) = (x, bl')"
        using w unfolding write_chunk_def Some by (simp add: t)
      have whole: "holds_chunks f chunks (bl\<lparr>bl_partial := Some (concat chunks @ chunk)\<rparr>)"
        using grown [of "length chunk"] by simp
      have finished: "holds_chunks (f\<lparr>uf_offset := uf_offset f + int (length chunk), uf_checksums := cs, uf_updated := t\<rparr>) (chunks @ [chunk])
          (bl\<lparr>bl_partial := Some (concat chunks @ chunk)\<rparr>)"
        using h len by (simp add: holds_chunks_def received_def)
      show ?thesis
        using w' grown whole finished by (auto split: prod.splits option.splits)
    qed
  qed
  then show "holds_chunks f chunks bl'"
    and "x = None \<Longrightarrow> holds_chunks (f\<lparr>uf_offset := uf_offset f + int (length chunk), uf_checksums := cs, uf_updated := t\<rparr>) (chunks @ [chunk]) bl'"
    by simp_all
qed

lemma publish_file_keeps:
  assumes "publish_file io (uf_size f) bl = (x, bl')" "holds_chunks f chunks bl" "uf_offset f = uf_size f"
  shows "holds_chunks f chunks bl' \<and> (x = None \<longrightarrow> bl_final bl' = Some (concat chunks))"
proof -
  obtain p where p: "received bl = Some p" using assms(2) by (auto simp: holds_chunks_def split: option.splits)
  then have eq: "p = concat chunks" "int (length p) = uf_size f"
    using assms(2,3) by (auto simp: holds_chunks_def)
  show ?thesis
  proof (cases "bl_partial bl")
    case (Some r)
    then have [simp]: "r = concat chunks" using p eq by (simp add: received_def)
    show ?thesis
      using assms Some eq by (auto simp: publish_file_def holds_chunks_def received_def split: option.splits)
  next
    case None
    then have f: "bl_final bl = Some (concat chunks)" using p eq by (simp add: received_def)
    show ?thesis
      using assms None f eq by (auto simp: publish_file_def Let_def split: option.splits if_splits)
  qed
qed

subsection \<open>The whole store\<close>

definition files_intact :: "(string \<Rightarrow> string) \<Rightarrow> catalog \<Rightarrow> (string \<Rightarrow> blob) \<Rightarrow> bool" where
  "files_intact sha c bs \<longleftrightarrow> (\<forall>i f. map_of (ct_files c) i = Some f \<longrightarrow> file_intact sha f (bs i))"

lemma files_intact_evolves: "ages c d \<Longrightarrow> files_intact sha c bs \<Longrightarrow> files_intact sha d bs"
  unfolding ages_def files_intact_def by (meson intact_descends)

lemma files_intact_blob: "files_intact sha c bs \<Longrightarrow> (\<And>f. map_of (ct_files c) i = Some f \<Longrightarrow> file_intact sha f bl) \<Longrightarrow> files_intact sha c (bs(i := bl))"
  by (auto simp: files_intact_def)

lemma files_intact_file: "files_intact sha c bs \<Longrightarrow> file_intact sha f (bs i) \<Longrightarrow> files_intact sha (set_file i f c) bs"
  by (auto simp: files_intact_def)

lemma remove_each_elsewhere: "j \<notin> set is \<Longrightarrow> ud_blobs (snd (remove_each io is s)) j = ud_blobs s j"
  by (induction io "is" s rule: remove_each.induct) (auto split: option.split)

lemma reclaim_spares:
  assumes r: "reclaim_body io c s = ((e, ch, u), c', s')" and k: "keyed_catalog c" and ok: "catalog_error st False c = None"
    and f: "map_of (ct_files c) i = Some f" "uf_state f \<noteq> ''deleted''"
  shows "ud_blobs s' i = ud_blobs s i"
proof (cases "case rm_entries io of Inl e \<Rightarrow> if errors_is e ErrNotExist then Inr [] else Inl e | Inr es \<Rightarrow> Inr es")
  case (Inl x)
  then show ?thesis using r by (simp add: reclaim_body_def fails_def)
next
  case (Inr entries)
  let ?orphans = "filter (\<lambda>n. map_of (ct_files c) n = None \<and> idPattern n) entries"
  let ?buried = "map (\<lambda>x. uf_id (snd x)) (filter (\<lambda>x. uf_state (snd x) = ''deleted'') (ct_files c))"
  have ids: "uf_id (snd x) = fst x" if "x \<in> set (ct_files c)" for x
    using ok that by (auto simp: catalog_error_def list_all_iff file_record_ok_def split: if_splits)
  have "i \<notin> set ?buried"
  proof
    assume "i \<in> set ?buried"
    then obtain x where x: "x \<in> set (ct_files c)" "uf_state (snd x) = ''deleted''" "uf_id (snd x) = i" by auto
    then have "(i, snd x) \<in> set (ct_files c)" using ids by (metis prod.collapse)
    then have "map_of (ct_files c) i = Some (snd x)" using k by (simp add: keyed_catalog_def)
    then show False using f x(2) by simp
  qed
  moreover have "i \<notin> set ?orphans" using f(1) by simp
  moreover have "s' = snd (remove_each io (?orphans @ ?buried) s)"
    using r unfolding reclaim_body_def Inr sum.case Let_def case_prod_beta prod.inject by (elim conjE) (erule sym)
  ultimately show ?thesis using remove_each_elsewhere [of i "?orphans @ ?buried" io s] by simp
qed

lemma fresh_id_new: "fresh_id c ent \<Longrightarrow> upload_newID ent = Inr i \<Longrightarrow> map_of (ct_files c) i = None \<and> map_of (ct_scopes c) i = None"
  by (auto simp: fresh_id_def upload_newID_def Let_def split: sum.splits)

lemma admission_size: "admission_error st b disk q scope c = None \<Longrightarrow> request_error (up_limits st) q = None"
  by (auto simp: admission_error_def Let_def split: option.splits)

lemma request_size: "request_error l q = None \<Longrightarrow> 0 \<le> ur_size q \<and> ur_size q \<le> ul_file l"
  by (auto simp: request_error_def split: if_splits)

lemma files_intact_create:
  assumes "Create_body st b io q c s = ((e, ch, v), c', s')" "fresh_id c (co_entropy io)" "files_intact sha c (ud_blobs s)"
  shows "files_intact sha c (ud_blobs s') \<and> files_intact sha c' (ud_blobs s')"
  using assms(1)
proof (cases rule: Create_body_cases)
  case same
  then show ?thesis using assms(3) by simp
next
  case (admits scope)
  have q: "0 \<le> ur_size q" using request_size [OF admission_size [OF admits(3)]] by simp
  from admits(4) show ?thesis
  proof (cases rule: create_file_cases)
    case same
    then show ?thesis using assms(3) by simp
  next
    case (opened i f)
    have new: "map_of (ct_files c) i = None" using fresh_id_new [OF assms(2) opened(1)] by simp
    have here: "files_intact sha c (ud_blobs s')"
      using assms(3) new by (auto simp: opened(4) intro: files_intact_blob)
    have "file_intact sha f (ud_blobs s' i)"
      using q by (simp add: opened(2) opened(4) intact_fresh received_def)
    then show ?thesis using here opened(5) by (auto intro: files_intact_file)
  qed
qed

lemma files_intact_append:
  assumes "Append_body st b io i offset checksum chunk c s = ((e, ch, v), c', s')" "sha chunk = checksum" "files_intact sha c (ud_blobs s)"
  shows "files_intact sha c (ud_blobs s') \<and> files_intact sha c' (ud_blobs s')"
  using assms(1)
proof (cases rule: Append_body_cases)
  case same
  then show ?thesis using assms(3) by simp
next
  case (writes f x bl)
  obtain chunks where ch: "map sha chunks = uf_checksums f" "holds_chunks f chunks (ud_blobs s i)"
    using assms(3) writes(1,3) by (auto simp: files_intact_def file_intact_def)
  have w: "write_chunk io (nat (uf_offset f)) chunk (ud_blobs s i) = (x, bl)" using writes(4,6) by simp
  have len: "int (length chunk) \<le> uf_size f - uf_offset f" using writes(4,5) by simp
  have old: "file_intact sha f bl"
    using write_chunk_keeps(1) [OF w ch(2) len] ch(1) writes(3) by (auto simp: file_intact_def)
  then have here: "files_intact sha c (ud_blobs s')"
    using assms(3) writes(1,7) by (auto intro: files_intact_blob)
  let ?g = "f\<lparr>uf_offset := uf_offset f + int (length chunk), uf_checksums := uf_checksums f @ [checksum], uf_updated := an_now io\<rparr>"
  have "file_intact sha ?g bl" if "x = None"
    using write_chunk_keeps(2) [OF w ch(2) len that] ch(1) writes(3) assms(2)
    unfolding file_intact_def by (auto intro!: exI [of _ "chunks @ [chunk]"])
  then show ?thesis using here writes(7,8) by (auto intro: files_intact_file)
qed

lemma files_intact_complete:
  assumes "Complete_body b io i c s = ((e, ch, v), c', s')" "files_intact sha c (ud_blobs s)"
  shows "files_intact sha c (ud_blobs s') \<and> files_intact sha c' (ud_blobs s')"
  using assms(1)
proof (cases rule: Complete_body_cases)
  case same
  then show ?thesis using assms(2) by simp
next
  case (publishes f x bl)
  have f: "file_intact sha f (ud_blobs s i)" using assms(2) publishes(1) by (simp add: files_intact_def)
  then have u: "uf_state f = ''uploading''" using publishes(3,4) by (simp add: file_intact_def)
  then obtain chunks where chunks: "map sha chunks = uf_checksums f" "holds_chunks f chunks (ud_blobs s i)"
    using f by (auto simp: file_intact_def)
  note kept = publish_file_keeps [OF publishes(6) chunks(2) publishes(5)]
  have "file_intact sha f bl" using kept chunks(1) u by (auto simp: file_intact_def)
  then have here: "files_intact sha c (ud_blobs s')"
    using assms(2) publishes(1,7) by (auto intro: files_intact_blob)
  let ?g = "f\<lparr>uf_state := ''ready'', uf_checksums := [], uf_updated := cm_now io\<rparr>"
  have "file_intact sha ?g bl" if "x = None"
    using kept that publishes(5) by (simp add: file_intact_def holds_chunks_def)
  then show ?thesis using here publishes(7,8) by (auto intro: files_intact_file)
qed

interpretation integrity: upload_invariant sha st "\<lambda>_. True" "files_intact sha" for sha st
proof
  show "files_intact sha (empty_catalog (up_workspace st)) (\<lambda>_. no_blob)"
    by (simp add: files_intact_def empty_catalog_def)
next
  fix c b k
  assume "keyed_catalog c" "files_intact sha c b"
  then show "files_intact sha (snd (compact k c)) b"
    using ages_compact files_intact_evolves by blast
next
  fix c b k b'
  assume c: "keyed_catalog c" "files_intact sha c b" and d: "files_intact sha (snd (compact k c)) b'"
  show "files_intact sha c b'"
    unfolding files_intact_def
  proof (intro allI impI)
    fix i f
    assume f: "map_of (ct_files c) i = Some f"
    from compact_parts(3) [OF c(1) this, of k] show "file_intact sha f (b' i)"
      using d intact_dead by (auto simp: files_intact_def intro: intact_unstage)
  qed
next
  fix call c s e ch u c' s'
  assume ok: "upload_admitted sha st c call" "catalog_error st False c = None" "keyed_catalog c" "files_intact sha c (ud_blobs s)"
    and call: "call_body sha st call c s = ((e, ch, u), c', s')"
  show "files_intact sha c (ud_blobs s') \<and> (e = None \<longrightarrow> files_intact sha c' (ud_blobs s'))"
  proof (cases "receiving call")
    case False
    note quiet = call_evolves [OF ok(3) False call]
    have "files_intact sha c (ud_blobs s')"
    proof (cases "reclaiming call")
      case True
      then obtain io where "call = DoReclaim io" by (cases call) auto
      then have r: "reclaim_body io c s = ((e, ch, u), c', s')" using call by simp
      show ?thesis
        using ok(4) reclaim_spares [OF r ok(3,2)] intact_dead unfolding files_intact_def by metis
    qed (use quiet ok(4) in simp)
    then show ?thesis using quiet files_intact_evolves by blast
  next
    case True
    then show ?thesis
    proof (cases call rule: receiving.cases)
      case (1 b io q)
      then show ?thesis using call ok files_intact_create by (auto elim!: no_resultE)
    next
      case (2 b io i offset checksum chunk)
      then show ?thesis using call ok files_intact_append by (auto elim!: no_resultE simp: chunk_error_def split: if_splits)
    next
      case (3 b io i)
      then show ?thesis using call ok files_intact_complete by (auto elim!: no_resultE)
    qed simp_all
  qed
qed

subsection \<open>Properties\<close>

text \<open>A result that is dropped changes nothing else.\<close>

lemma transaction_no_result:
  "run_transaction tm st io () (no_result B) s = map_option (\<lambda>((e, _), s'). ((e, ()), s')) (run_transaction tm st io zero B s)"
proof -
  have commit: "commit tm io (no_result B) c u = (let ((e, _), s') = commit tm io B c u in ((e, ()), s'))" for c u
  proof -
    obtain k0 k1 where k: "compact (ui_clock io) c = (k0, k1)" by fastforce
    obtain e ch a d t where b: "B k1 u = ((e, ch, a), d, t)" by (cases "B k1 u") auto
    obtain e' t' where w: "store_catalog tm io (catalogSize c) d t = (e', t')" by fastforce
    show ?thesis by (simp add: commit_def k no_result_def b w)
  qed
  show ?thesis
    unfolding run_transaction_def Let_def
    by (auto simp: commit Let_def case_prod_beta split: option.split sum.split)
qed

lemma Complete_upload_step:
  assumes "Complete_upload tm st b io cio i s = Some ((e, v), s')" "reads_back st io s"
  shows "upload_step sha tm st (DoComplete b cio i) s s'"
proof (rule transacts [OF assms(2)])
  show "run_transaction tm st io () (call_body sha st (DoComplete b cio i)) s = Some ((e, ()), s')"
    using assms(1) by (simp add: transaction_no_result [where zero = zero_view] Complete_upload_def)
qed simp

text \<open>The operations are made of these steps.\<close>

lemma Create_upload_step:
  assumes "Create_upload tm st b io cio q s = Some ((e, v), s')" "reads_back st io s" "fresh_id (stored st s) (co_entropy cio)"
  shows "s' = s \<or> upload_step sha tm st (DoCreate b cio q) s s'"
proof (cases "idPattern (ur_client q)")
  case True
  have "upload_step sha tm st (DoCreate b cio q) s s'"
    by (rule transacts [OF assms(2)])
      (use assms True in \<open>simp_all add: Create_upload_def transaction_no_result [where zero = zero_view]\<close>)
  then show ?thesis ..
qed (use assms(1) in \<open>simp add: Create_upload_def\<close>)

lemma Append_upload_step:
  assumes "Append_upload sha tm st b io aio i offset checksum (Inr chunk) s = Some ((e, v), s')" "reads_back st io s"
  shows "s' = s \<or> upload_step sha tm st (DoAppend b aio i offset checksum chunk) s s'"
proof (cases "chunk_error sha (up_limits st) (Inr chunk) checksum")
  case None
  have "upload_step sha tm st (DoAppend b aio i offset checksum chunk) s s'"
    by (rule transacts [OF assms(2)])
      (use assms None in \<open>simp_all add: Append_upload_def transaction_no_result [where zero = zero_view]\<close>)
  then show ?thesis ..
qed (use assms(1) in \<open>simp add: Append_upload_def\<close>)

lemma then_reclaim_steps:
  assumes "then_reclaim tm st io2 rio others (run_transaction tm st io () (call_body sha st call) s) = Some (r, s')"
    and "reads_back st io s" "upload_admitted sha st (stored st s) call" "\<And>t. reads_back st io2 (others t)"
  shows "\<exists>s1. upload_step sha tm st call s s1 \<and> (s' = s1 \<or> upload_step sha tm st (DoReclaim rio) (others s1) s')"
proof (cases "run_transaction tm st io () (call_body sha st call) s")
  case None
  then show ?thesis using assms(1) by (simp add: then_reclaim_def)
next
  case (Some x)
  obtain e u s1 where x: "x = ((e, u), s1)" by (cases x) auto
  have step: "upload_step sha tm st call s s1" using transacts [OF assms(2,3)] Some x by blast
  show ?thesis
  proof (cases e)
    case None
    then have "run_transaction tm st io2 () (call_body sha st (DoReclaim rio)) (others s1) = Some (r, s')"
      using assms(1) Some x by (simp add: then_reclaim_def)
    then have "upload_step sha tm st (DoReclaim rio) (others s1) s'" using assms(4) by (intro transacts) simp_all
    then show ?thesis using step by blast
  qed (use assms(1) Some x step in \<open>auto simp: then_reclaim_def\<close>)
qed

lemma Collect_steps:
  assumes "Collect tm st io at io2 rio others s = Some (r, s')" "reads_back st io s" "\<And>t. reads_back st io2 (others t)"
  shows "\<exists>s1. upload_step sha tm st (DoCollect at) s s1 \<and> (s' = s1 \<or> upload_step sha tm st (DoReclaim rio) (others s1) s')"
  by (rule then_reclaim_steps) (use assms in \<open>simp_all add: Collect_def\<close>)

lemma RemoveSession_steps:
  assumes "RemoveSession tm st io k io2 rio others slug thread epoch s = Some (r, s')" "reads_back st io s" "\<And>t. reads_back st io2 (others t)"
  shows "\<exists>s1. upload_step sha tm st (DoRemoveSession k slug thread epoch) s s1 \<and> (s' = s1 \<or> upload_step sha tm st (DoReclaim rio) (others s1) s')"
  by (rule then_reclaim_steps) (use assms in \<open>simp_all add: RemoveSession_def\<close>)

lemma spared:
  assumes run: "call_body sha st call c s = ((e, ch, u), c', s')" and k: "keyed_catalog c" and ok: "catalog_error st False c = None"
    and adm: "upload_admitted sha st c call" and f: "map_of (ct_files c) i = Some f" "uf_state f = ''ready''"
  shows "bl_final (ud_blobs s' i) = bl_final (ud_blobs s i)"
proof (cases "receiving call")
  case False
  show ?thesis
  proof (cases "reclaiming call")
    case True
    then obtain io where "call = DoReclaim io" by (cases call) auto
    then show ?thesis using run reclaim_spares [OF _ k ok f(1)] f(2) by simp
  qed (use call_evolves [OF k False run] in simp)
next
  case True
  then show ?thesis
  proof (cases call rule: receiving.cases)
    case (1 b io q)
    then obtain v where "Create_body st b io q c s = ((e, ch, v), c', s')" using run by (auto elim: no_resultE)
    then show ?thesis
    proof (cases rule: Create_body_cases)
      case (admits scope)
      from admits(4) show ?thesis
        by (cases rule: create_file_cases) (use adm 1 f(1) in \<open>auto dest: fresh_id_new\<close>)
    qed simp
  next
    case (2 b io j offset checksum chunk)
    then obtain v where "Append_body st b io j offset checksum chunk c s = ((e, ch, v), c', s')" using run by (auto elim: no_resultE)
    then show ?thesis
      by (cases rule: Append_body_cases) (use f in auto)
  next
    case (3 b io j)
    then obtain v where "Complete_body b io j c s = ((e, ch, v), c', s')" using run by (auto elim: no_resultE)
    then show ?thesis
      by (cases rule: Complete_body_cases) (use f in auto)
  qed simp_all
qed

text \<open>
  C12. The bytes on disk are the bytes that were recorded. Whatever the system answers, whichever writes and
  saves fail and however the operations follow each other, in every state of the store that they reach each
  file is uploading, ready or deleted; the file on disk of an upload under way begins with chunks whose
  SHA-256 digests are exactly the recorded checksums and whose bytes are exactly the recorded offset, and is
  never longer than announced; a ready file is there with its announced size.
\<close>

theorem uploads_keep_their_bytes:
  assumes "uploads_reach sha tm st (\<lambda>_. True) s" and "map_of (ct_files (stored st s)) i = Some f"
  shows "file_intact sha f (ud_blobs s i)"
  using integrity.reached [OF assms(1)] assms(2) by (simp add: files_intact_def)

text \<open>
  C13. A completed upload is the file that was sent. When \<open>Complete\<close> succeeds on an upload under way, in any
  state of the store that its operations reach, the final file consists of exactly the chunks whose digests
  were recorded, has the announced size, and the catalog on disk calls it ready.
\<close>

theorem completed_upload_is_whole:
  assumes reach: "uploads_reach sha tm st (\<lambda>_. True) s" and io: "reads_back st io s"
    and f: "map_of (ct_files (stored st s)) i = Some f" "uf_state f = ''uploading''"
    and run: "Complete_upload tm st b io cio i s = Some ((None, v), s')"
  shows "\<exists>chunks. map sha chunks = uf_checksums f \<and> bl_final (ud_blobs s' i) = Some (concat chunks) \<and>
    int (length (concat chunks)) = uf_size f \<and> uf_state (file_at (stored st s') i) = ''ready''"
  using run unfolding Complete_upload_def
proof (cases rule: transaction_outcome)
  case (ran c u e0 ch d t)
  have c: "c = stored st s" using io ran(1) by (simp add: reads_back_def)
  have inv: "keyed_catalog c" "files_intact sha c (ud_blobs s)" using integrity.reached [OF reach] c by simp_all
  let ?c = "snd (compact (ui_clock io) c)"
  have fc: "map_of (ct_files ?c) i = Some f"
    using compact_parts(3) [OF inv(1), of i f "ui_clock io"] f c by (auto simp: unstage_def)
  obtain chunks where chunks: "map sha chunks = uf_checksums f" "holds_chunks f chunks (ud_blobs u i)"
    using inv(2) f c ran(3) by (auto simp: files_intact_def file_intact_def)
  have ok: "e0 = None" "ch \<longrightarrow> ud_catalog s' = Some d" using ran(7) by simp_all
  from ran(4) show ?thesis
  proof (cases rule: Complete_body_cases)
    case same
    then show ?thesis using ok f(2) fc by simp
  next
    case (publishes g x bl)
    have g: "g = f" using publishes(1) fc by simp
    note whole = publish_file_keeps [OF publishes(6) [unfolded g] chunks(2) publishes(5) [unfolded g]]
    have x: "x = None" "ch" "d = set_file i (f\<lparr>uf_state := ''ready'', uf_checksums := [], uf_updated := cm_now cio\<rparr>) ?c"
      using publishes(8) ok(1) g by auto
    show ?thesis
    proof (intro exI conjI)
      show "bl_final (ud_blobs s' i) = Some (concat chunks)" using whole x(1) ran(5) publishes(7) by simp
      show "int (length (concat chunks)) = uf_size f" using chunks(2) publishes(5) g by (simp add: holds_chunks_def)
      show "uf_state (file_at (stored st s') i) = ''ready''" using ok(2) x by (simp add: stored_def file_at_def)
    qed (rule chunks(1))
  qed
qed simp

text \<open>
  C32. A finished file is never written again: no operation, successful or not, changes the bytes of a file that
  the stored catalog calls ready, not even the removal of unknown and deleted files.
\<close>

theorem finished_bytes_stay:
  assumes reach: "uploads_reach sha tm st (\<lambda>_. True) s" and step: "upload_step sha tm st call s s'"
    and f: "map_of (ct_files (stored st s)) i = Some f" "uf_state f = ''ready''"
  shows "bl_final (ud_blobs s' i) = bl_final (ud_blobs s i)"
  using step
proof cases
  case (transacts io r)
  obtain e v where r: "r = (e, v)" by (cases r)
  have inv: "keyed_catalog (stored st s)" using integrity.reached [OF reach] by simp
  from transacts(3) [unfolded r] show ?thesis
  proof (cases rule: transaction_outcome)
    case (ran c u e0 ch d t)
    have c: "c = stored st s" using transacts(1) ran(1) by (simp add: reads_back_def)
    let ?c = "snd (compact (ui_clock io) c)"
    have k: "keyed_catalog ?c" using compact_parts(8) inv c by blast
    obtain null where "catalog_error st null c = None" using load_catalog_ok [OF ran(1)] ..
    then have ok: "catalog_error st False ?c = None" by (rule compact_catalog_error [rotated]) (simp add: inv c)
    obtain g where g: "map_of (ct_files ?c) i = Some g" "uf_state g = ''ready''"
      using compact_parts(3) [OF inv, of i f "ui_clock io"] f c by (auto simp: unstage_def split: if_splits)
    have adm: "upload_admitted sha st ?c call" using compact_admitted inv transacts(2) c by blast
    have "bl_final (ud_blobs t i) = bl_final (ud_blobs u i)"
      by (rule spared [OF ran(4) k ok adm g])
    then show ?thesis using ran(3,5) by simp
  qed simp
qed

end
