(* ===== verification/Upload_Quota.thy ===== *)
theory Upload_Quota
  imports Upload_Valid Upload_Integrity
begin

text \<open>
  The quotas of the upload store as an invariant of every state that its transactions reach: the announced
  sizes of the files that are not deleted stay within the limits of the workspace, of each session and of each
  draft.
\<close>

subsection \<open>Sums over a catalog\<close>

definition chosen_files :: "(upload_file \<Rightarrow> bool) \<Rightarrow> catalog \<Rightarrow> string set" where
  "chosen_files P c = {i. \<exists>f. map_of (ct_files c) i = Some f \<and> P f}"

lemma chosen_files_finite [simp]: "finite (chosen_files P c)"
  by (rule finite_subset [OF _ finite_dom_map_of [of "ct_files c"]]) (auto simp: chosen_files_def)

lemma bytes_in_sum:
  assumes "keyed_catalog c"
  shows "bytes_in P c = (\<Sum>i \<in> chosen_files P c. uf_size (file_at c i))"
proof -
  let ?xs = "filter (\<lambda>x. P (snd x)) (ct_files c)"
  have d: "distinct (map fst (ct_files c))" using assms by (simp add: keyed_catalog_def)
  then have "distinct ?xs" by (simp add: distinct_map)
  then have "bytes_in P c = (\<Sum>x \<in> set ?xs. uf_size (snd x))"
    unfolding bytes_in_def by (simp add: sum_list_distinct_conv_sum_set)
  also have "\<dots> = (\<Sum>i \<in> chosen_files P c. uf_size (file_at c i))"
  proof (rule sum.reindex_cong [symmetric, where l = fst])
    show "inj_on fst (set ?xs)" using d by (auto simp: distinct_map inj_on_def)
    show "chosen_files P c = fst ` set ?xs"
      using d by (force simp: chosen_files_def image_iff)
    show "\<And>x. x \<in> set ?xs \<Longrightarrow> uf_size (file_at c (fst x)) = uf_size (snd x)"
      using d by (auto simp: file_at_def)
  qed
  finally show ?thesis .
qed

text \<open>No file grows, comes in, moves to another scope or comes back to life.\<close>

definition weighs :: "catalog \<Rightarrow> catalog \<Rightarrow> bool" where
  "weighs c d \<longleftrightarrow>
     (\<forall>i g. map_of (ct_files d) i = Some g \<longrightarrow>
        (\<exists>f. map_of (ct_files c) i = Some f \<and> uf_size g = uf_size f \<and> uf_scope g = uf_scope f \<and> (live g \<longrightarrow> live f)))"

definition sizes_ok :: "catalog \<Rightarrow> bool" where
  "sizes_ok c \<longleftrightarrow> (\<forall>i f. map_of (ct_files c) i = Some f \<longrightarrow> 0 \<le> uf_size f \<and> map_of (ct_scopes c) (uf_scope f) \<noteq> None)"

lemma bytes_in_weighs:
  assumes "keyed_catalog c" "keyed_catalog d" "weighs c d" "sizes_ok c"
    and P: "\<And>f g. uf_scope g = uf_scope f \<Longrightarrow> live g \<longrightarrow> live f \<Longrightarrow> P g \<Longrightarrow> P f"
  shows "bytes_in P d \<le> bytes_in P c"
proof -
  have eq: "uf_size (file_at d i) = uf_size (file_at c i) \<and> i \<in> chosen_files P c" if "i \<in> chosen_files P d" for i
    using that assms(3) P unfolding chosen_files_def weighs_def by (force simp: file_at_def)
  have "bytes_in P d = (\<Sum>i \<in> chosen_files P d. uf_size (file_at c i))"
    unfolding bytes_in_sum [OF assms(2)] using eq by (intro sum.cong) auto
  also have "\<dots> \<le> (\<Sum>i \<in> chosen_files P c. uf_size (file_at c i))"
  proof (rule sum_mono2 [OF chosen_files_finite])
    show "chosen_files P d \<subseteq> chosen_files P c" using eq by blast
    show "\<And>i. i \<in> chosen_files P c - chosen_files P d \<Longrightarrow> 0 \<le> uf_size (file_at c i)"
      using assms(4) by (auto simp: chosen_files_def sizes_ok_def file_at_def)
  qed
  finally show ?thesis by (simp add: bytes_in_sum [OF assms(1)])
qed

lemma weighs_evolves: "ages c d \<Longrightarrow> weighs c d"
  unfolding ages_def weighs_def descends_def live_def by (elim conjE) metis

lemma weighs_refl [simp]: "weighs c c"
  by (simp add: weighs_def)

lemma weighs_file:
  assumes "map_of (ct_files c) i = Some f" "uf_size g = uf_size f" "uf_scope g = uf_scope f" "live f"
  shows "weighs c (set_file i g c)"
  using assms by (auto simp: weighs_def)

lemma bytes_in_new:
  assumes "map_of (ct_files c) i = None"
  shows "bytes_in P (set_file i f c) = bytes_in P c + (if P f then uf_size f else 0)"
proof -
  have "AList.update i f xs = xs @ [(i, f)]" if "map_of xs i = None" for xs :: "(string \<times> upload_file) list"
    using that by (induction xs) (auto split: if_splits)
  then show ?thesis using assms by (simp add: bytes_in_def set_file_def)
qed

subsection \<open>The quotas\<close>

definition in_scope :: "string \<Rightarrow> upload_file \<Rightarrow> bool" where "in_scope k f \<longleftrightarrow> live f \<and> uf_scope f = k"

definition within_quota :: "upload_limits \<Rightarrow> catalog \<Rightarrow> bool" where
  "within_quota l c \<longleftrightarrow>
     bytes_in live c \<le> ul_workspace l \<and> (\<forall>k. bytes_in (in_scope k) c \<le> ul_session l) \<and>
     (\<forall>k x. map_of (ct_scopes c) k = Some x \<longrightarrow> us_draft x \<longrightarrow> bytes_in (in_scope k) c \<le> ul_prompt l)"

definition limits_ok :: "upload_limits \<Rightarrow> bool" where
  "limits_ok l \<longleftrightarrow> 0 \<le> ul_prompt l \<and> ul_prompt l \<le> ul_session l \<and> 0 \<le> ul_workspace l"

definition uploads_quota :: "upload_limits \<Rightarrow> catalog \<Rightarrow> bool" where
  "uploads_quota l c \<longleftrightarrow> (limits_ok l \<longrightarrow> ids_ok c \<and> sizes_ok c \<and> within_quota l c)"

lemma uploads_quota_kept:
  assumes "keyed_catalog c" "keyed_catalog d" "weighs c d" "ids_ok c \<Longrightarrow> scopes_follow c d" "uploads_quota l c"
  shows "uploads_quota l d"
proof (cases "limits_ok l")
  case True
  then have c: "ids_ok c" "sizes_ok c" "within_quota l c" using assms(5) by (simp_all add: uploads_quota_def)
  then have f: "scopes_follow c d" using assms(4) by blast
  have all: "bytes_in live d \<le> bytes_in live c"
    by (rule bytes_in_weighs [OF assms(1-3) c(2)]) simp
  have one: "bytes_in (in_scope k) d \<le> bytes_in (in_scope k) c" for k
    by (rule bytes_in_weighs [OF assms(1-3) c(2)]) (simp add: in_scope_def)
  have "sizes_ok d"
    using assms(3) c(2) f unfolding weighs_def sizes_ok_def scopes_follow_def by metis
  moreover have "bytes_in (in_scope k) d \<le> ul_prompt l" if draft: "map_of (ct_scopes d) k = Some x" "us_draft x" for k x
  proof -
    obtain y where "map_of (ct_scopes c) k = Some y" "us_draft y" using f draft unfolding scopes_follow_def by blast
    then have "bytes_in (in_scope k) c \<le> ul_prompt l" using c(3) by (simp add: within_quota_def)
    then show ?thesis using one [of k] by linarith
  qed
  moreover have "bytes_in live d \<le> ul_workspace l" "bytes_in (in_scope k) d \<le> ul_session l" for k
    using all one [of k] c(3) order_trans unfolding within_quota_def by blast+
  ultimately show ?thesis
    using f by (simp add: uploads_quota_def within_quota_def scopes_follow_def)
qed (simp add: uploads_quota_def)

lemma uploads_quota_compact:
  assumes "keyed_catalog c" "uploads_quota l c"
  shows "uploads_quota l (snd (compact k c))"
proof (cases "limits_ok l")
  case True
  let ?d = "snd (compact k c)"
  note p = compact_parts [OF assms(1), where k = k]
  have c: "ids_ok c" "sizes_ok c" "within_quota l c" using True assms(2) by (simp_all add: uploads_quota_def)
  have w: "weighs c ?d" by (rule weighs_evolves [OF ages_compact [OF assms(1)]])
  have all: "bytes_in live ?d \<le> bytes_in live c"
    by (rule bytes_in_weighs [OF assms(1) p(8) w c(2)]) simp
  have one: "bytes_in (in_scope k) ?d \<le> bytes_in (in_scope k) c" for k
    by (rule bytes_in_weighs [OF assms(1) p(8) w c(2)]) (simp add: in_scope_def)
  have "map_of (ct_scopes ?d) (uf_scope g) \<noteq> None" if g: "map_of (ct_files ?d) i = Some g" for i g
  proof -
    obtain f where f: "map_of (ct_files c) i = Some f" "g = unstage f" using p(2) [OF g] by blast
    then obtain x where x: "map_of (ct_scopes c) (uf_scope g) = Some x"
      using c(2) by (auto simp: sizes_ok_def unstage_def split: if_splits)
    have "occupied ?d (uf_scope g)"
      using map_of_SomeD [OF g] unfolding occupied_def list_ex_iff by (intro disjI2 bexI [of _ "(i, g)"]) simp_all
    then show ?thesis using p(5) [OF x] by auto
  qed
  moreover have "0 \<le> uf_size g" if "map_of (ct_files ?d) i = Some g" for i g
    using p(2) [OF that] c(2) by (auto simp: sizes_ok_def unstage_def)
  ultimately have "sizes_ok ?d" by (simp add: sizes_ok_def)
  moreover have "within_quota l ?d"
    using c(3) all one p(4) unfolding within_quota_def by (meson order_trans)
  ultimately show ?thesis using compact_ids [OF assms(1) c(1)] by (simp add: uploads_quota_def)
qed (simp add: uploads_quota_def)

subsection \<open>Every call\<close>

text \<open>A new draft: no file is in it yet.\<close>

lemma uploads_quota_draft:
  assumes "keyed_catalog c" "uploads_quota l c" "map_of (ct_scopes c) k = None" "us_id x = k"
  shows "uploads_quota l (set_scope k x c)"
proof (cases "limits_ok l")
  case True
  then have c: "ids_ok c" "sizes_ok c" "within_quota l c" using assms(2) by (simp_all add: uploads_quota_def)
  have none: "chosen_files (in_scope k) c = {}"
    using c(2) assms(3) unfolding chosen_files_def in_scope_def sizes_ok_def by fastforce
  have "bytes_in (in_scope k) c = 0" by (simp add: bytes_in_sum [OF assms(1)] none)
  moreover have "bytes_in P (set_scope k x c) = bytes_in P c" for P by (simp add: bytes_in_def)
  ultimately have "within_quota l (set_scope k x c)"
    using c(3) True by (simp add: within_quota_def limits_ok_def)
  moreover have "sizes_ok (set_scope k x c)" using c(2) by (simp add: sizes_ok_def)
  moreover have "ids_ok (set_scope k x c)" using c(1) assms(4) by (simp add: ids_ok_def)
  ultimately show ?thesis by (simp add: uploads_quota_def)
qed (simp add: uploads_quota_def)

text \<open>A new file was admitted against the limits.\<close>

lemma admission_limits:
  assumes "admission_error st b disk q scope c = None"
  shows "0 \<le> ur_size q" "bytes_in live c + ur_size q \<le> ul_workspace (up_limits st)" "length (ct_files c) < maxRecords"
    "bytes_in (in_scope (bk_scope b)) c + ur_size q \<le> (if us_draft scope then ul_prompt (up_limits st) else ul_session (up_limits st))"
proof -
  have eq: "(\<lambda>f. live f \<and> uf_scope f = bk_scope b) = in_scope (bk_scope b)" by (auto simp: in_scope_def)
  show "0 \<le> ur_size q" using request_size [OF admission_size [OF assms]] by simp
  show "bytes_in live c + ur_size q \<le> ul_workspace (up_limits st)" "length (ct_files c) < maxRecords"
    "bytes_in (in_scope (bk_scope b)) c + ur_size q \<le> (if us_draft scope then ul_prompt (up_limits st) else ul_session (up_limits st))"
    using assms unfolding admission_error_def Let_def eq by (auto split: option.splits if_splits)
qed

lemma uploads_quota_create:
  assumes "Create_body st b io q c s = ((e, ch, v), c', s')" "fresh_id c (co_entropy io)" "uploads_quota (up_limits st) c"
  shows "uploads_quota (up_limits st) c'"
  using assms(1)
proof (cases rule: Create_body_cases)
  case same
  then show ?thesis using assms(3) by simp
next
  case (admits scope)
  note lim = admission_limits [OF admits(3)]
  from admits(4) show ?thesis
  proof (cases rule: create_file_cases)
    case same
    then show ?thesis using assms(3) by simp
  next
    case (opened i f)
    show ?thesis
    proof (cases "c' = c \<or> \<not> limits_ok (up_limits st)")
      case True
      then show ?thesis using assms(3) by (auto simp: uploads_quota_def)
    next
      case False
      let ?l = "up_limits st"
      have c': "c' = set_file i f c" using opened(5) False by simp
      have c: "ids_ok c" "sizes_ok c" "within_quota ?l c" and l: "limits_ok ?l" using False assms(3) by (simp_all add: uploads_quota_def)
      have new: "map_of (ct_files c) i = None" using fresh_id_new [OF assms(2) opened(1)] by simp
      have f: "uf_size f = ur_size q" "uf_scope f = bk_scope b" "live f" by (simp_all add: opened(2) fresh_file_def live_def)
      note sum = bytes_in_new [OF new, of _ f]
      have "within_quota ?l c'"
        using c(3) lim(2,4) admits(1) l unfolding c' within_quota_def sum
        by (auto simp: in_scope_def [abs_def] f limits_ok_def split: if_splits)
      moreover have "sizes_ok c'"
        using c(2) lim(1) admits(1) f by (auto simp: c' sizes_ok_def)
      moreover have "ids_ok c'" using c(1) by (simp add: c' ids_ok_def)
      ultimately show ?thesis by (simp add: uploads_quota_def)
    qed
  qed
qed

lemma uploads_quota_call:
  assumes adm: "upload_admitted sha st c call" and k: "keyed_catalog c" and q: "uploads_quota (up_limits st) c"
    and call: "call_body sha st call c s = ((e, ch, u), c', s')"
  shows "uploads_quota (up_limits st) c'"
proof (cases "receiving call")
  case True
  then show ?thesis
  proof (cases call rule: receiving.cases)
    case (1 b io r)
    then show ?thesis using call adm q uploads_quota_create by (auto elim!: no_resultE)
  next
    case (2 b io i offset checksum chunk)
    then obtain v where "Append_body st b io i offset checksum chunk c s = ((e, ch, v), c', s')" using call by (auto elim: no_resultE)
    then show ?thesis
    proof (cases rule: Append_body_cases)
      case (writes f x bl)
      have "weighs c c'" using writes(3,8) weighs_file [OF writes(1)] by (auto simp: live_def)
      moreover have "keyed_catalog c'" "ct_scopes c' = ct_scopes c" using writes(8) k by auto
      ultimately show ?thesis using uploads_quota_kept k q scopes_follow_same by blast
    qed (use q in simp)
  next
    case (3 b io i)
    then obtain v where "Complete_body b io i c s = ((e, ch, v), c', s')" using call by (auto elim: no_resultE)
    then show ?thesis
    proof (cases rule: Complete_body_cases)
      case (publishes f x bl)
      have "weighs c c'" using publishes(3,8) weighs_file [OF publishes(1)] by (auto simp: live_def)
      moreover have "keyed_catalog c'" "ct_scopes c' = ct_scopes c" using publishes(8) k by auto
      ultimately show ?thesis using uploads_quota_kept k q scopes_follow_same by blast
    qed (use q in simp)
  qed simp_all
next
  case False
  show ?thesis
  proof (cases "adding_scope call")
    case True
    then show ?thesis
    proof (cases call rule: adding_scope.cases)
      case (1 ent now)
      then obtain x where "NewDraft_body ent now c s = ((e, ch, x), c', s')" using call by (auto elim: no_resultE)
      then have "c' = c \<or> (\<exists>i. upload_newID ent = Inr i \<and> c' = set_scope i x c \<and> us_id x = i)"
        by (auto simp: NewDraft_body_def refuse_def fails_def Let_def zero_scope_def split: if_splits sum.splits)
      then show ?thesis using uploads_quota_draft [OF k q] q fresh_id_new adm 1 by auto
    next
      case (2 t slug thread epoch)
      then have "RemoveSession_body t slug thread epoch c s = ((e, ch, u), c', s')" using call by simp
      then have "c' = c \<or> c' = snd (compact t (removing slug thread epoch c))" using RemoveSession_body_parts by blast
      moreover have "uploads_quota (up_limits st) (removing slug thread epoch c)"
        using uploads_quota_kept k q removing_evolves [OF k] ages_keyed weighs_evolves removing_follows by blast
      ultimately show ?thesis
        using q uploads_quota_compact ages_keyed [OF removing_evolves [OF k]] by blast
    qed simp_all
  next
    case other: False
    have "ages c c'" using call_evolves [OF k False call] by blast
    then show ?thesis
      using uploads_quota_kept k q ages_keyed weighs_evolves call_follows [OF k _ False other call] by blast
  qed
qed

interpretation quotas: upload_invariant sha st "\<lambda>_. True" "\<lambda>c b. uploads_quota (up_limits st) c" for sha st
proof
  show "uploads_quota (up_limits st) (empty_catalog (up_workspace st))"
    by (auto simp: uploads_quota_def empty_catalog_def ids_ok_def sizes_ok_def within_quota_def limits_ok_def bytes_in_def)
qed (use uploads_quota_compact uploads_quota_call in blast)+

text \<open>
  C30. Quotas hold at all times. In every state that the operations of a store reach, whatever the system
  answers and whichever saves fail, the announced sizes of the files that are not deleted add up to at most
  100 GiB, those of each scope to at most 10 GiB, and those of each draft to at most 2 GiB (the limits that
  \<open>New\<close> gives the store), drafts that were taken over by a session included.
\<close>

theorem uploads_within_quota:
  assumes "New_store dir workspace = Inr st" and "uploads_reach sha tm st (\<lambda>_. True) s"
  shows "bytes_in live (stored st s) \<le> 100 * 2 ^ 30 \<and> bytes_in (in_scope k) (stored st s) \<le> 10 * 2 ^ 30 \<and>
    (us_draft (scope_at (stored st s) k) \<longrightarrow> bytes_in (in_scope k) (stored st s) \<le> 2 * 2 ^ 30)"
proof -
  have l: "up_limits st = DefaultLimits" using assms(1) by (auto simp: New_store_def Let_def split: if_splits)
  have "uploads_quota (up_limits st) (stored st s)" using quotas.reached [OF assms(2)] by blast
  moreover have "limits_ok (up_limits st)" by (simp add: l limits_ok_def DefaultLimits_def)
  ultimately have "within_quota DefaultLimits (stored st s)" by (simp add: uploads_quota_def l)
  then show ?thesis
    by (auto simp: within_quota_def DefaultLimits_def scope_at_def zero_scope_def split: option.splits)
qed

end
