(* ===== verification/Upload_Readable.thy ===== *)
theory Upload_Readable
  imports Upload_Quota
begin

text \<open>
  The catalog of the upload store never locks it out: every operation but forking leaves a catalog within the
  limits that the next transaction checks. Forking does not count the submissions it adds.
\<close>

subsection \<open>New identities\<close>

lemma version_bytes_length [simp]: "length (version_bytes bs) = length bs"
  by (simp add: version_bytes_def)

lemma idPattern_dashed:
  assumes "list_all lower_hex h" "length h = 32"
  shows "idPattern (dashed h)"
proof -
  have part: "list_all lower_hex (take n (drop m h))" for n m
    using assms(1) by (auto simp: list_all_iff dest: in_set_takeD in_set_dropD)
  have "list_all lower_hex (take 8 h)" "list_all lower_hex (drop 20 h)"
    using assms(1) by (auto simp: list_all_iff dest: in_set_takeD in_set_dropD)
  note lower = this part
  have "split_on (CHR ''-'') (dashed h) = [take 8 h, take 4 (drop 8 h), take 4 (drop 12 h), take 4 (drop 16 h), drop 20 h]"
    unfolding dashed_def using lower [THEN dash_not_lower_hex]
    by (simp add: split_on_append_sep)
  then show ?thesis
    using lower assms(2) by (simp add: idPattern_def)
qed

lemma fresh_id_pattern: "fresh_id c ent \<Longrightarrow> upload_newID ent = Inr i \<Longrightarrow> idPattern i"
  using hex_encode_lower by (auto simp: fresh_id_def upload_newID_def Let_def split: sum.splits intro!: idPattern_dashed)

subsection \<open>One file record\<close>

text \<open>All chunks of an upload under way have the full length: so the checksums are bounded by the size.\<close>

definition file_law :: "upload_limits \<Rightarrow> string \<Rightarrow> upload_file \<Rightarrow> bool" where
  "file_law l i f \<longleftrightarrow>
     file_record_ok (i, f) \<and> uf_size f \<le> ul_file l \<and>
     (uf_state f = ''uploading'' \<longrightarrow> uf_offset f < uf_size f \<longrightarrow> uf_offset f = ul_chunk l * int (length (uf_checksums f)))"

lemma file_law_descends: "file_law l i f \<Longrightarrow> descends f g \<Longrightarrow> file_law l i g"
  unfolding file_law_def file_record_ok_def descends_def by (elim conjE disjE) simp_all

definition chunk_ok :: "upload_limits \<Rightarrow> bool" where
  "chunk_ok l \<longleftrightarrow> 0 < ul_chunk l \<and> ul_file l \<le> 4096 * ul_chunk l"

lemma file_law_append:
  assumes "chunk_ok l" "file_law l i f" "uf_state f = ''uploading''" "chunk \<noteq> []"
    and len: "int (length chunk) = min (ul_chunk l) (uf_size f - uf_offset f)"
  shows "file_law l i (f\<lparr>uf_offset := uf_offset f + int (length chunk), uf_checksums := uf_checksums f @ [checksum], uf_updated := t\<rparr>)"
proof -
  let ?n = "int (length (uf_checksums f))"
  have pos: "0 < int (length chunk)" using assms(4) by simp
  then have less: "uf_offset f < uf_size f" using len by linarith
  then have eq: "uf_offset f = ul_chunk l * ?n" using assms(2,3) by (simp add: file_law_def)
  have size: "uf_size f \<le> ul_file l" "0 < ul_chunk l" "ul_file l \<le> 4096 * ul_chunk l"
    using assms(1,2) by (simp_all add: file_law_def chunk_ok_def)
  have "ul_chunk l * ?n < ul_chunk l * 4096" using less eq size by linarith
  then have "?n < 4096" using size(2) by simp
  then have count: "length (uf_checksums f) + 1 \<le> 4096" by linarith
  have "uf_offset f + int (length chunk) = ul_chunk l * (1 + ?n)" if "uf_offset f + int (length chunk) < uf_size f"
    using that len eq by (simp add: algebra_simps min_def split: if_splits)
  moreover have "0 \<le> uf_offset f" "uf_offset f + int (length chunk) \<le> uf_size f"
    using assms(2) len by (simp_all add: file_law_def file_record_ok_def)
  ultimately show ?thesis
    using assms(2) count unfolding file_law_def file_record_ok_def by simp
qed

subsection \<open>The catalog\<close>

definition readable :: "upload_store \<Rightarrow> catalog \<Rightarrow> bool" where
  "readable st c \<longleftrightarrow>
     ct_schema c = 1 \<and> ct_workspace c = up_workspace st \<and>
     length (ct_files c) \<le> maxRecords \<and> length (ct_scopes c) \<le> maxRecords \<and> length (ct_submissions c) \<le> maxRecords \<and>
     (\<forall>i f. map_of (ct_files c) i = Some f \<longrightarrow> file_law (up_limits st) i f) \<and> ids_ok c \<and> all_homed c"

lemma readable_catalog:
  assumes "keyed_catalog c" "readable st c"
  shows "catalog_error st False c = None"
proof -
  have "file_record_ok x" if x: "x \<in> set (ct_files c)" for x
  proof -
    obtain i f where [simp]: "x = (i, f)" by (cases x)
    have "map_of (ct_files c) i = Some f" using assms(1) x by (simp add: keyed_catalog_def)
    then show ?thesis using assms(2) by (simp add: readable_def file_law_def)
  qed
  then show ?thesis using assms(2) by (auto simp: catalog_error_def readable_def list_all_iff)
qed

lemma readable_evolves:
  assumes "readable st c" "ages c d" "ids_ok d" "all_homed d" "length (ct_scopes d) \<le> maxRecords" "length (ct_submissions d) \<le> maxRecords"
  shows "readable st d"
  using assms file_law_descends unfolding readable_def ages_def by (elim conjE, intro conjI) (simp_all, metis)

lemma readable_set_file:
  "readable st c \<Longrightarrow> file_law (up_limits st) i f \<Longrightarrow> map_of (ct_files c) i \<noteq> None \<or> length (ct_files c) < maxRecords \<Longrightarrow> readable st (set_file i f c)"
  unfolding readable_def by (auto simp: ids_ok_def all_homed_def homed_def)

lemma length_entries: "distinct (map fst xs) \<Longrightarrow> length xs = card (dom (map_of xs))"
  by (metis dom_map_of_conv_image_fst distinct_card length_map list.set_map)

lemma settles_in_lengths:
  assumes "keyed_catalog c" "keyed_catalog d" "settles_in c d"
  shows "length (ct_scopes d) = length (ct_scopes c)" "length (ct_submissions d) \<le> length (ct_submissions c)"
proof -
  have d: "distinct (map fst (ct_scopes c))" "distinct (map fst (ct_scopes d))" "distinct (map fst (ct_submissions c))"
    "distinct (map fst (ct_submissions d))" using assms(1,2) by (simp_all add: keyed_catalog_def)
  have "dom (map_of (ct_scopes d)) = dom (map_of (ct_scopes c))" "dom (map_of (ct_submissions d)) \<subseteq> dom (map_of (ct_submissions c))"
    using assms(3) unfolding settles_in_def dom_def by (auto, metis option.simps(3))
  then show "length (ct_scopes d) = length (ct_scopes c)" "length (ct_submissions d) \<le> length (ct_submissions c)"
    using d by (simp_all add: length_entries card_mono finite_dom_map_of)
qed

lemma readable_settles:
  assumes "keyed_catalog c" "readable st c" "ages c d" "scopes_follow c d" "settles_in c d"
  shows "readable st d"
  using readable_evolves [OF assms(2,3)] settles_in_lengths [OF assms(1) ages_keyed [OF assms(3)] assms(5)]
    settled_all_homed [OF assms(5)] scopes_follow_ids [OF assms(4)] assms(2) unfolding readable_def by fastforce

lemma compact_homed:
  assumes "keyed_catalog c" "all_homed c"
  shows "all_homed (snd (compact k c))"
  unfolding all_homed_def
proof (intro allI impI)
  let ?d = "snd (compact k c)"
  note p = compact_parts [OF assms(1), where k = k]
  fix i b
  assume b: "map_of (ct_submissions ?d) i = Some b"
  then have "map_of (ct_submissions c) i = Some b" unfolding p(1) by (simp split: option.splits if_splits)
  then obtain x where x: "map_of (ct_scopes c) (sb_scope b) = Some x" using assms(2) by (auto simp: all_homed_def homed_def)
  have "occupied ?d (sb_scope b)"
    using map_of_SomeD [OF b] unfolding occupied_def list_ex_iff by (intro disjI1 bexI [of _ "(i, b)"]) simp_all
  then show "homed ?d b" using p(5) [OF x] by (auto simp: homed_def)
qed

lemma readable_compact:
  assumes "keyed_catalog c" "readable st c"
  shows "readable st (snd (compact k c))"
proof (rule readable_evolves [OF assms(2) ages_compact [OF assms(1)]])
  note p = compact_parts(10,11) [OF assms(1), where k = k]
  have len: "length (ct_scopes c) \<le> maxRecords" "length (ct_submissions c) \<le> maxRecords" using assms(2) by (simp_all add: readable_def)
  show "length (ct_scopes (snd (compact k c))) \<le> maxRecords" by (rule order_trans [OF p(1) len(1)])
  show "length (ct_submissions (snd (compact k c))) \<le> maxRecords" by (rule order_trans [OF p(2) len(2)])
qed (use assms compact_ids compact_homed in \<open>simp_all add: readable_def\<close>)

subsection \<open>Every call but forking\<close>

fun forking :: "upload_call \<Rightarrow> bool" where
  "forking (DoFork source target entries) = True"
| "forking _ = False"

fun submitting :: "upload_call \<Rightarrow> bool" where
  "submitting (DoPrepare b io kind attempt message ids) = True"
| "submitting (DoClaim io confirm request scope message ids) = True"
| "submitting (DoSessionScope slug thread epoch ent now) = True"
| "submitting _ = False"

lemma call_settles:
  assumes "keyed_catalog c" "ids_ok c" "all_homed c" "\<not> receiving call" "\<not> adding_scope call" "\<not> submitting call" "\<not> forking call"
    and call: "call_body sha st call c s = ((e, ch, u), c', s')"
  shows "settles_in c c'"
proof (cases call)
  case (DoRead f)
  then show ?thesis using call by simp
next
  case (DoValidate io request scope message ids)
  then show ?thesis using call ValidatePreparation_body_keeps [OF assms(1)] by fastforce
next
  case (DoBind request scope wire slug epoch)
  then have "BindPreparation_body request scope wire slug epoch c s = ((e, ch, u), c', s')" using call by simp
  from BindPreparation_body_cases [OF this] show ?thesis
    by (auto simp: settles_in_def split: if_splits)
next
  case (DoAdopt digest slug thread epoch)
  then show ?thesis
    using call adopt_each_settles [OF assms(2) rooted_all [OF assms(1,3)]] by (auto simp: AdoptInitial_body_def Let_def case_prod_beta)
next
  case (DoTranscript b ts)
  then obtain us where "ObserveTranscript_body b ts c s = ((e, ch, us), c', s')" using call by (auto elim: no_resultE)
  then show ?thesis using observe_each_settles [OF assms(1), of b ts] by (auto simp: ObserveTranscript_body_def Let_def case_prod_beta)
next
  case (DoQueue b qs)
  then obtain us where "ObserveQueue_body b qs c s = ((e, ch, us), c', s')" using call by (auto elim: no_resultE)
  then show ?thesis using queue_each_settles [OF assms(1), of b qs] by (auto simp: ObserveQueue_body_def Let_def case_prod_beta)
next
  case (DoQueueDeleted b i)
  then have c': "c' = c\<lparr>ct_submissions := map (\<lambda>x. (fst x, if dequeued b i (snd x) then (snd x)\<lparr>sb_state := ''cancelled''\<rparr> else snd x)) (ct_submissions c)\<rparr>"
    using call by (simp add: QueueDeleted_body_def)
  show ?thesis unfolding settles_in_def c' by (auto simp: map_of_map_pair split: option.splits)
next
  case (DoDelete b idle locked now i confirmed)
  then show ?thesis using call delete_body_scopes by (fastforce simp: settles_in_def)
next
  case (DoReclaim io)
  then show ?thesis using call reclaim_body_effect [of io c s e ch u c' s'] by simp
next
  case (DoCollect at)
  then show ?thesis using call by (auto simp: Collect_body_def settles_in_def)
next
  case (DoRetain goals)
  then show ?thesis
    using call retain_each_settles [OF assms(2) rooted_all [OF assms(1,3)]] by (auto simp: RetainCreations_body_def Let_def case_prod_beta)
qed (use assms in simp_all)

lemma readable_submission:
  assumes "readable st c" "ages c c'" "ct_scopes c' = ct_scopes c" "all_homed c \<longrightarrow> all_homed c'"
    "length (ct_submissions c') \<le> max maxRecords (length (ct_submissions c))"
  shows "readable st c'"
  by (rule readable_evolves [OF assms(1,2)]) (use assms in \<open>auto simp: readable_def ids_ok_def\<close>)

lemma readable_new_scope:
  "readable st c \<Longrightarrow> length (ct_scopes c) < maxRecords \<Longrightarrow> us_id x = k \<Longrightarrow> readable st (set_scope k x c)"
  unfolding readable_def by (auto simp: ids_ok_def all_homed_def homed_def)

definition readable_inv :: "upload_store \<Rightarrow> catalog \<Rightarrow> bool" where
  "readable_inv st c \<longleftrightarrow> (chunk_ok (up_limits st) \<longrightarrow> readable st c)"

lemma readable_receiving:
  assumes l: "chunk_ok (up_limits st)" and adm: "upload_admitted sha st c call" and k: "keyed_catalog c" and r: "readable st c"
    and call: "call_body sha st call c s = ((e, ch, u), c', s')" and rec: "receiving call"
  shows "readable st c'"
  using rec
proof (cases call rule: receiving.cases)
  case (1 b io q)
  then obtain v where "Create_body st b io q c s = ((e, ch, v), c', s')" using call by (auto elim: no_resultE)
  then show ?thesis
  proof (cases rule: Create_body_cases)
    case (admits scope)
    have size: "0 \<le> ur_size q \<and> ur_size q \<le> ul_file (up_limits st)" using request_size [OF admission_size [OF admits(3)]] .
    from admits(4) show ?thesis
    proof (cases rule: create_file_cases)
      case (opened i f)
      have "idPattern i" using fresh_id_pattern [of c, OF _ opened(1)] adm 1 by simp
      then have "file_law (up_limits st) i f"
        using size by (simp add: opened(2) fresh_file_def zero_file_def file_law_def file_record_ok_def)
      then show ?thesis
        using opened(5) r readable_set_file admission_limits(3) [OF admits(3)] by blast
    qed (use r in simp)
  qed (use r in simp)
next
  case (2 b io i offset checksum chunk)
  then obtain v where "Append_body st b io i offset checksum chunk c s = ((e, ch, v), c', s')" using call by (auto elim: no_resultE)
  then show ?thesis
  proof (cases rule: Append_body_cases)
    case (writes f x bl)
    have "chunk \<noteq> []" using adm 2 by (simp add: chunk_error_def split: if_splits)
    then have "file_law (up_limits st) i (f\<lparr>uf_offset := uf_offset f + int (length chunk), uf_checksums := uf_checksums f @ [checksum],
         uf_updated := an_now io\<rparr>)"
      using r writes(1,3,4,5) by (intro file_law_append [OF l]) (auto simp: readable_def)
    then show ?thesis using writes(1,8) r readable_set_file by (metis option.distinct(1))
  qed (use r in simp)
next
  case (3 b io i)
  then obtain v where "Complete_body b io i c s = ((e, ch, v), c', s')" using call by (auto elim: no_resultE)
  then show ?thesis
  proof (cases rule: Complete_body_cases)
    case (publishes f x bl)
    have "file_law (up_limits st) i f" using r publishes(1) by (simp add: readable_def)
    then have "file_law (up_limits st) i (f\<lparr>uf_state := ''ready'', uf_checksums := [], uf_updated := cm_now io\<rparr>)"
      by (simp add: file_law_def file_record_ok_def)
    then show ?thesis using publishes(1,8) r readable_set_file by (metis option.distinct(1))
  qed (use r in simp)
qed simp_all

lemma readable_call:
  assumes l: "chunk_ok (up_limits st)" and ok: "\<not> forking call" and adm: "upload_admitted sha st c call" and k: "keyed_catalog c" and r: "readable st c"
    and call: "call_body sha st call c s = ((e, ch, u), c', s')"
  shows "readable st c'"
proof -
  have ids: "ids_ok c" "all_homed c" using r by (simp_all add: readable_def)
  consider (rec) "receiving call" | (adds) "adding_scope call" | (submits) "submitting call"
    | (rest) "\<not> receiving call" "\<not> adding_scope call" "\<not> submitting call" by blast
  then show ?thesis
  proof cases
    case rec
    then show ?thesis using readable_receiving [OF l adm k r call] by blast
  next
    case adds
    then show ?thesis
    proof (cases call rule: adding_scope.cases)
      case (1 ent now)
      then obtain x where "NewDraft_body ent now c s = ((e, ch, x), c', s')" using call by (auto elim: no_resultE)
      then have "c' = c \<or> length (ct_scopes c) < maxRecords \<and> c' = set_scope (us_id x) x c"
        by (auto simp: NewDraft_body_def refuse_def fails_def Let_def zero_scope_def split: if_splits sum.splits)
      then show ?thesis using r readable_new_scope by blast
    next
      case (2 t slug thread epoch)
      then have "RemoveSession_body t slug thread epoch c s = ((e, ch, u), c', s')" using call by simp
      then have c': "c' = c \<or> c' = snd (compact t (removing slug thread epoch c))" using RemoveSession_body_parts by blast
      have "readable st (removing slug thread epoch c)"
        by (rule readable_evolves [OF r removing_evolves [OF k]])
          (use r removing_lengths [of slug thread epoch c] scopes_follow_ids [OF removing_follows [OF k ids(1)]] removing_homed [OF k ids(2)]
            in \<open>auto simp: readable_def\<close>)
      then show ?thesis
        using c' r readable_compact ages_keyed [OF removing_evolves [OF k]] by blast
    qed simp_all
  next
    case submits
    then show ?thesis
    proof (cases call rule: submitting.cases)
      case (1 b io kind attempt message ids)
      then obtain w where p: "Prepare_body st b io kind attempt message ids c s = ((e, ch, w), c', s')" using call by (auto elim: no_resultE)
      then have "c' = c \<or> prepareSubmission st io (bk_scope b) kind attempt (TrimSpace message) ids False c s = ((e, ch, w), c', s')"
        unfolding Prepare_body_def guarded_def by (auto split: option.splits)
      then show ?thesis
      proof
        assume q: "prepareSubmission st io (bk_scope b) kind attempt (TrimSpace message) ids False c s = ((e, ch, w), c', s')"
        show ?thesis
          using readable_submission [OF r] prepareSubmission_evolves [OF k q] prepareSubmission_homes [OF q] by blast
      qed (simp add: r)
    next
      case (2 io confirm request scope message ids)
      then obtain w where "ClaimPreparation_body st io confirm request scope message ids c s = ((e, ch, w), c', s')"
        using call by (auto elim: no_resultE)
      then show ?thesis
      proof (rule ClaimPreparation_body_parts)
        fix e0 s1
        assume q: "preparePreparation st io request scope message ids c s = ((e0, ch, w), c', s1)"
        show ?thesis
          using readable_submission [OF r] preparePreparation_evolves [OF k q] preparePreparation_homes [OF q] by blast
      qed
    next
      case (3 slug thread epoch ent now)
      then obtain x where "SessionScope_body slug thread epoch ent now c s = ((e, ch, x), c', s')" using call by (auto elim: no_resultE)
      then show ?thesis using SessionScope_body_cases r readable_new_scope by blast
    qed simp_all
  next
    case rest
    show ?thesis
      using readable_settles [OF k r] call_evolves [OF k rest(1) call] call_follows [OF k ids(1) rest(1,2) call]
        call_settles [OF k ids rest ok call] by blast
  qed
qed

interpretation reading: upload_invariant sha st "\<lambda>call. \<not> forking call" "\<lambda>c b. readable_inv st c" for sha st
proof
  show "readable_inv st (empty_catalog (up_workspace st))"
    by (auto simp: readable_inv_def readable_def empty_catalog_def ids_ok_def all_homed_def)
qed (use readable_compact readable_call in \<open>auto simp: readable_inv_def\<close>)

lemma reached_fits: "uploads_reach sha tm st (\<lambda>call. \<not> forking call) s \<Longrightarrow> fits tm s"
proof (induction rule: uploads_reach.induct)
  case begins
  then show ?case by (simp add: fits_def new_upload_state_def)
next
  case (goes_on s call s')
  from goes_on(3) show ?case
  proof cases
    case (transacts io r)
    have "ud_catalog t = ud_catalog u"
      if c: "load_catalog st io = Inr c" and B: "call_body sha st call (snd (compact (ui_clock io) c)) u = ((e, ch, a), d, t)" for c u e ch a d t
    proof -
      have "c = stored st s" using transacts(1) c by (simp add: reads_back_def)
      with reading.reached [OF goes_on(1)] have "keyed_catalog (snd (compact (ui_clock io) c))" using compact_parts(8) by blast
      with call_keyed B show ?thesis by blast
    qed
    with transaction_fits [OF transacts(3) goes_on.IH] show ?thesis by blast
  qed
next
  case (restarts s)
  then show ?case by (simp add: fits_def)
qed

text \<open>
  C31. The store never locks itself out. Whatever the operations, the answers of the system and the saves that
  fail, and provided no session was forked, the next transaction reads the catalog on disk successfully and
  finds exactly what was last saved: the file is at most 16 MiB, and the catalog passes the checks of
  its identity, the record counts, the identities, sizes and offsets of files and their 4,096 checksums.
\<close>

theorem upload_catalog_stays_readable:
  assumes "New_store dir workspace = Inr st" and "uploads_reach sha tm st (\<lambda>call. \<not> forking call) s" and "shows_catalog tm io s"
  shows "load_catalog st io = Inr (stored st s)"
proof -
  have "up_limits st = DefaultLimits" using assms(1) by (auto simp: New_store_def Let_def split: if_splits)
  then have "chunk_ok (up_limits st)" by (simp add: chunk_ok_def DefaultLimits_def)
  then have "catalog_error st False (stored st s) = None"
    using reading.reached [OF assms(2)] readable_catalog by (auto simp: readable_inv_def)
  then show ?thesis using load_shown [OF assms(3)] reached_fits [OF assms(2)] by (auto simp: fits_def)
qed

end
