(* ===== verification/Upload_Kept.thy ===== *)
theory Upload_Kept
  imports Upload_Readable
begin

text \<open>
  What the upload store owes to messages that were sent: their files stay until they are deleted with consent or
  their session is removed, and the claim of a session request on a draft is exclusive and can be repeated. At
  the end, the limit that forking does not observe.
\<close>

subsection \<open>Live files under each body\<close>

definition keeps_live :: "catalog \<Rightarrow> catalog \<Rightarrow> bool" where
  "keeps_live c d \<longleftrightarrow> (\<forall>i f. map_of (ct_files c) i = Some f \<longrightarrow> live f \<longrightarrow> (\<exists>g. map_of (ct_files d) i = Some g \<and> live g))"

lemma keeps_live_same: "ct_files d = ct_files c \<Longrightarrow> keeps_live c d"
  by (auto simp: keeps_live_def)

lemma keeps_live_file: "live g \<Longrightarrow> keeps_live c (set_file i g c)"
  by (auto simp: keeps_live_def)

lemma keeps_live_trans: "keeps_live c d \<Longrightarrow> keeps_live d e \<Longrightarrow> keeps_live c e"
  unfolding keeps_live_def by blast

lemma keeps_live_compact: "keyed_catalog c \<Longrightarrow> keeps_live c (snd (compact k c))"
  unfolding keeps_live_def
proof (intro allI impI)
  fix i f
  assume "keyed_catalog c" "map_of (ct_files c) i = Some f" "live f"
  then show "\<exists>g. map_of (ct_files (snd (compact k c))) i = Some g \<and> live g"
    using compact_parts(3) [of c i f k] by (auto simp: live_def unstage_def)
qed

lemma adopt_each_files [simp]: "ct_files (snd (adopt_each sha digest slug thread epoch bs changed c)) = ct_files c"
proof (induction bs arbitrary: changed c)
  case (Cons z bs)
  obtain key b where [simp]: "z = (key, b)" by (cases z)
  show ?case using Cons by (simp add: Let_def split: option.split)
qed simp

lemma retain_each_files [simp]: "ct_files (snd (retain_each goals bs changed c)) = ct_files c"
proof (induction bs arbitrary: changed c)
  case (Cons z bs)
  obtain key b where [simp]: "z = (key, b)" by (cases z)
  show ?case using Cons by (simp add: Let_def split: option.split)
qed simp

lemma fork_each_files [simp]: "ct_files (snd (fork_each source target entries bs changed c)) = ct_files c"
proof (induction bs arbitrary: changed c)
  case (Cons z bs)
  then show ?case by (simp add: Let_def split: option.split)
qed simp

lemma observe_each_files [simp]: "ct_files (snd (snd (observe_each b ts c))) = ct_files c"
proof (induction ts arbitrary: c)
  case (Cons t ts)
  then show ?case by (auto simp: Let_def case_prod_beta split: option.split)
qed simp

lemma queue_each_files [simp]: "ct_files (snd (snd (queue_each b qs c))) = ct_files c"
proof (induction qs arbitrary: c)
  case (Cons q qs)
  then show ?case by (auto simp: Let_def case_prod_beta split: option.split)
qed simp

lemma keeps_live_touch:
  "\<forall>i \<in> set ids. \<exists>f. map_of (ct_files c) i = Some f \<and> live f \<Longrightarrow> keeps_live c (touch at ids c)"
proof (induction ids arbitrary: c)
  case Nil
  then show ?case by (simp add: touch_def keeps_live_def)
next
  case (Cons i ids)
  obtain f where f: "map_of (ct_files c) i = Some f" "live f" using Cons.prems by auto
  let ?d = "set_file i (f\<lparr>uf_updated := at i\<rparr>) c"
  have d: "keeps_live c ?d" using f(2) by (intro keeps_live_file) (simp add: live_def)
  have "keeps_live ?d (touch at ids ?d)"
    by (rule Cons.IH) (use Cons.prems f in \<open>auto simp: live_def\<close>)
  then show ?case using keeps_live_trans [OF d] by (simp add: touch_def file_at_some [OF f(1)])
qed

lemma prepareSubmission_live:
  assumes "prepareSubmission st io scope kind attempt message ids pending c s = ((e, ch, w), c', s')"
  shows "keeps_live c c'"
  using assms
proof (cases rule: prepareSubmission_cases)
  case (submits ds)
  let ?d = "set_submission (submission_key scope kind attempt) (new_submission scope kind attempt message w ids pending) c"
  have "keeps_live ?d c'"
    unfolding submits(7) submitted_def using describe_files [OF submits(1)] by (intro keeps_live_touch) (fastforce simp: live_def)
  then show ?thesis by (simp add: keeps_live_def)
qed (simp add: keeps_live_def)

lemma preparePreparation_live:
  assumes "preparePreparation st io request scope message ids c s = ((e, ch, w), c', s')"
  shows "keeps_live c c'"
proof (cases "c' = c")
  case False
  then have "prepareSubmission st io scope ''initial'' (''preparation:'' @ request) message ids True c s = ((e, ch, w), c', s')"
    using assms by (auto simp: preparePreparation_def Let_def unchanged_def split: option.splits if_splits)
  then show ?thesis by (rule prepareSubmission_live)
qed (simp add: keeps_live_def)

fun burying :: "upload_call \<Rightarrow> bool" where
  "burying (DoDelete b idle locked now i confirmed) = True"
| "burying (DoCollect at) = True"
| "burying (DoRemoveSession k slug thread epoch) = True"
| "burying _ = False"

lemma receiving_live:
  assumes adm: "upload_admitted sha st c call" and rec: "receiving call" and call: "call_body sha st call c s = ((e, ch, u), c', s')"
  shows "keeps_live c c'"
  using rec
proof (cases call rule: receiving.cases)
  case (1 b io q)
  then obtain v where "Create_body st b io q c s = ((e, ch, v), c', s')" using call by (auto elim: no_resultE)
  then show ?thesis
  proof (cases rule: Create_body_cases)
    case (admits scope)
    from admits(4) show ?thesis
    proof (cases rule: create_file_cases)
      case (opened i f)
      have "live f" by (simp add: opened(2) fresh_file_def live_def)
      then show ?thesis using opened(5) keeps_live_file keeps_live_same by blast
    qed (simp add: keeps_live_same)
  qed (simp add: keeps_live_same)
next
  case (2 b io i offset checksum chunk)
  then obtain v where "Append_body st b io i offset checksum chunk c s = ((e, ch, v), c', s')" using call by (auto elim: no_resultE)
  then show ?thesis
    by (cases rule: Append_body_cases) (auto simp: live_def intro: keeps_live_file keeps_live_same)
next
  case (3 b io i)
  then obtain v where "Complete_body b io i c s = ((e, ch, v), c', s')" using call by (auto elim: no_resultE)
  then show ?thesis
    by (cases rule: Complete_body_cases) (auto simp: live_def intro: keeps_live_file keeps_live_same)
qed simp_all

lemma call_live:
  assumes adm: "upload_admitted sha st c call" and k: "keyed_catalog c" and ok: "\<not> burying call"
    and call: "call_body sha st call c s = ((e, ch, u), c', s')"
  shows "keeps_live c c'"
proof (cases "receiving call")
  case True
  then show ?thesis using receiving_live adm call by blast
next
  case False
  show ?thesis
  proof (cases call)
    case (DoNewDraft ent now)
    then obtain x where "NewDraft_body ent now c s = ((e, ch, x), c', s')" using call by (auto elim: no_resultE)
    then have "ct_files c' = ct_files c"
      by (auto simp: NewDraft_body_def refuse_def fails_def Let_def split: if_splits sum.splits)
    then show ?thesis by (rule keeps_live_same)
  next
    case (DoSessionScope slug thread epoch ent now)
    then obtain x where "SessionScope_body slug thread epoch ent now c s = ((e, ch, x), c', s')" using call by (auto elim: no_resultE)
    then show ?thesis using SessionScope_body_cases keeps_live_same by (metis catalog_updates(1))
  next
    case (DoPrepare b io kind attempt message ids)
    then obtain w where "Prepare_body st b io kind attempt message ids c s = ((e, ch, w), c', s')" using call by (auto elim: no_resultE)
    then show ?thesis
      using prepareSubmission_live unfolding Prepare_body_def guarded_def by (auto simp: keeps_live_same split: option.splits)
  next
    case (DoClaim io confirm request scope message ids)
    then obtain w where "ClaimPreparation_body st io confirm request scope message ids c s = ((e, ch, w), c', s')"
      using call by (auto elim: no_resultE)
    then show ?thesis by (rule ClaimPreparation_body_parts) (use preparePreparation_live in blast)
  next
    case (DoValidate io request scope message ids)
    then show ?thesis using call ValidatePreparation_body_keeps [OF k] keeps_live_same by fastforce
  next
    case (DoBind request scope wire slug epoch)
    then show ?thesis using call BindPreparation_body_cases [of request scope wire slug epoch c s e ch u c' s'] by (auto simp: keeps_live_same)
  next
    case (DoTranscript b ts)
    then obtain us where "ObserveTranscript_body b ts c s = ((e, ch, us), c', s')" using call by (auto elim: no_resultE)
    then show ?thesis by (auto simp: ObserveTranscript_body_def Let_def case_prod_beta intro: keeps_live_same)
  next
    case (DoQueue b qs)
    then obtain us where "ObserveQueue_body b qs c s = ((e, ch, us), c', s')" using call by (auto elim: no_resultE)
    then show ?thesis by (auto simp: ObserveQueue_body_def Let_def case_prod_beta intro: keeps_live_same)
  next
    case (DoReclaim io)
    then show ?thesis using call reclaim_body_effect [of io c s e ch u c' s'] by (simp add: keeps_live_same)
  next
    case (DoAdopt digest slug thread epoch)
    then show ?thesis using call by (auto simp: AdoptInitial_body_def Let_def case_prod_beta intro: keeps_live_same)
  next
    case (DoQueueDeleted b i)
    then show ?thesis using call by (auto simp: QueueDeleted_body_def intro: keeps_live_same)
  next
    case (DoFork source target entries)
    then show ?thesis using call by (auto simp: Fork_body_def Let_def case_prod_beta intro: keeps_live_same)
  next
    case (DoRetain goals)
    then show ?thesis using call by (auto simp: RetainCreations_body_def Let_def case_prod_beta intro: keeps_live_same)
  next
    case (DoRead f)
    then show ?thesis using call by (simp add: keeps_live_same)
  qed (use False ok in simp_all)
qed

subsection \<open>Files of sent messages\<close>

definition file_live :: "catalog \<Rightarrow> string \<Rightarrow> bool" where
  "file_live c i \<longleftrightarrow> (case map_of (ct_files c) i of None \<Rightarrow> False | Some f \<Rightarrow> live f)"

text \<open>A sent message, of a scope that is not deleted, holds the file.\<close>

definition held_by :: "catalog \<Rightarrow> string \<Rightarrow> string \<Rightarrow> submission \<Rightarrow> bool" where
  "held_by c i key b \<longleftrightarrow>
     map_of (ct_submissions c) key = Some b \<and> i \<in> set (sb_files b) \<and> sent b \<and> \<not> us_deleted (scope_at c (sb_scope b))"

lemma keeps_live_at: "keeps_live c d \<Longrightarrow> file_live c i \<Longrightarrow> file_live d i"
  unfolding keeps_live_def file_live_def by (force split: option.splits)

lemma held_compact:
  assumes "keyed_catalog c" "held_by c i key b"
  shows "held_by (snd (compact k c)) i key b \<and> scope_at (snd (compact k c)) (sb_scope b) = scope_at c (sb_scope b)"
proof -
  let ?d = "snd (compact k c)"
  note p = compact_parts [OF assms(1), where k = k]
  have "\<not> obsolete c b" using assms(2) by (simp add: held_by_def obsolete_def sent_def)
  then have b: "map_of (ct_submissions ?d) key = Some b" using assms(2) unfolding p(1) by (simp add: held_by_def)
  have "occupied ?d (sb_scope b)"
    using map_of_SomeD [OF b] unfolding occupied_def list_ex_iff by (intro disjI1 bexI [of _ "(key, b)"]) simp_all
  then have "scope_at ?d (sb_scope b) = scope_at c (sb_scope b)"
    using p(4,5) unfolding scope_at_def by (metis (no_types, lifting) not_None_eq)
  then show ?thesis using assms(2) b by (simp add: held_by_def)
qed

lemma reference_error_none:
  "reference_error i locked xs = None \<Longrightarrow> x \<in> set xs \<Longrightarrow> i \<in> set (sb_files (snd x)) \<Longrightarrow> sent (snd x) \<Longrightarrow>
     sb_state (snd x) \<noteq> ''pending'' \<and> sb_state (snd x) \<noteq> ''queued''"
proof (induction i locked xs rule: reference_error.induct)
  case (2 i locked y ys)
  show ?case
  proof (cases "x = y")
    case True
    then show ?thesis using "2.prems" by (auto simp: Let_def split: if_splits)
  next
    case False
    then have x: "x \<in> set ys" using "2.prems"(2) by simp
    show ?thesis
    proof (cases "i \<notin> set (sb_files (snd y)) \<or> \<not> sent (snd y)")
      case True
      then show ?thesis using "2.IH"(1) [OF refl True _ x] "2.prems" by (simp add: Let_def)
    next
      case False
      then show ?thesis using "2.IH"(2) [OF refl] x "2.prems" by (simp add: Let_def split: if_splits)
    qed
  qed
qed simp

lemma delete_needs_consent:
  assumes "delete_body bk idle locked now j confirmed c s = ((e, ch, u), c', s')" "held_by c i key b" "file_live c i" "\<not> file_live c' i"
  shows "j = i \<and> confirmed \<and> sb_state b \<noteq> ''pending'' \<and> sb_state b \<noteq> ''queued'' \<and>
    (\<exists>check scopes. idle = Some check \<and> check scopes = None \<and> scope_at c (sb_scope b) \<in> set scopes)"
proof -
  let ?scopes = "scopes_of c (referring c j)"
  have changed: "c' \<noteq> c" using assms(3,4) by blast
  then have c': "c' = set_file j ((file_at c j)\<lparr>uf_state := ''deleted'', uf_checksums := [], uf_updated := now\<rparr>) c"
    and refs: "reference_error j locked (ct_submissions c) = None"
    and consent: "?scopes = [] \<or> confirmed \<and> (\<exists>check. idle = Some check \<and> check (filter (\<lambda>x. \<not> us_deleted x) (map snd ?scopes)) = None)"
    using assms(1) unfolding delete_body_def guarded_def refuse_def unchanged_def fails_def Let_def
    by (auto split: option.splits if_splits)
  have j: "j = i" using assms(3,4) c' by (auto simp: file_live_def split: if_splits)
  have b: "(key, b) \<in> set (ct_submissions c)" "i \<in> set (sb_files b)" "sent b" "\<not> us_deleted (scope_at c (sb_scope b))"
    using assms(2) map_of_SomeD by (auto simp: held_by_def)
  have "sb_scope b \<in> set (referring c i)" using b(1-3) by (force simp: referring_def)
  then have "scope_at c (sb_scope b) \<in> set (map snd (scopes_of c (referring c i)))" by (force simp: scopes_of_def)
  then have here: "?scopes \<noteq> []" "scope_at c (sb_scope b) \<in> set (filter (\<lambda>x. \<not> us_deleted x) (map snd ?scopes))"
    using b(4) j by auto
  then obtain check where check: "confirmed" "idle = Some check" "check (filter (\<lambda>x. \<not> us_deleted x) (map snd ?scopes)) = None"
    using consent by blast
  have "sb_state b \<noteq> ''pending'' \<and> sb_state b \<noteq> ''queued''"
    using reference_error_none [OF refs b(1)] b(2,3) j by simp
  then show ?thesis
    using j check here(2) by blast
qed

lemma collect_spares:
  assumes "Collect_body at c s = ((e, ch, u), c', s')" "keyed_catalog c" "held_by c i key b" "file_live c i"
  shows "file_live c' i"
proof -
  have "pinned_file c i"
    using assms(3) map_of_SomeD [of "ct_submissions c" key b] by (force simp: held_by_def pinned_file_def list_ex_iff)
  then have "\<not> draft_expired at c (i, f)" for f by (simp add: draft_expired_def)
  then show ?thesis
    using assms(1,4) by (auto simp: Collect_body_def file_live_def map_of_map_pair split: option.splits)
qed

lemma removal_of_owner:
  assumes "RemoveSession_body k slug thread epoch c s = ((e, ch, u), c', s')" "keyed_catalog c" "map_of (ct_files c) i = Some f" "live f" "\<not> file_live c' i"
  shows "retired slug thread epoch (scope_at c (uf_scope f))"
proof -
  have live: "file_live c i" using assms(3,4) by (simp add: file_live_def)
  then have c': "c' = snd (compact k (removing slug thread epoch c))" using assms(5) RemoveSession_body_parts [OF assms(1)] by auto
  have "keyed_catalog (removing slug thread epoch c)" using ages_keyed [OF removing_evolves [OF assms(2)]] .
  then have "\<not> file_live (removing slug thread epoch c) i"
    using assms(5) keeps_live_at keeps_live_compact unfolding c' by blast
  then have "uf_scope f \<in> set (map fst (filter (\<lambda>x. retired slug thread epoch (snd x)) (ct_scopes c)))"
    using assms(3,4) by (auto simp: removing_def Let_def file_live_def map_of_map_pair split: if_splits)
  then obtain x where "(uf_scope f, x) \<in> set (ct_scopes c)" "retired slug thread epoch x" by auto
  then show ?thesis using assms(2) by (simp add: keyed_catalog_def scope_at_def)
qed

text \<open>
  C14. The files of sent messages are kept. A file that a message of a scope that is not deleted refers to, and
  whose message was sent, is taken away in one of two ways only, whatever the system answers: a \<open>Delete\<close> of this
  file that the user confirmed, while the message is neither pending nor queued and the check that the sessions
  are idle, given the message's scope among others, found nothing; or a \<open>RemoveSession\<close> of the session
  that owns the file. Expiry never takes it.
\<close>

theorem sent_files_are_kept:
  assumes reach: "uploads_reach sha tm st (\<lambda>_. True) s" and step: "upload_step sha tm st call s s'"
    and held: "held_by (stored st s) i key b"
    and f: "map_of (ct_files (stored st s)) i = Some f" "live f" and gone: "\<not> file_live (stored st s') i"
  shows "(\<exists>bk check locked now scopes. call = DoDelete bk (Some check) locked now i True \<and> check scopes = None \<and>
        scope_at (stored st s) (sb_scope b) \<in> set scopes \<and> sb_state b \<noteq> ''pending'' \<and> sb_state b \<noteq> ''queued'') \<or>
    (\<exists>k slug thread epoch. call = DoRemoveSession k slug thread epoch \<and> retired slug thread epoch (scope_at (stored st s) (uf_scope f)))"
  using step
proof cases
  case (transacts io r)
  obtain e v where r: "r = (e, v)" by (cases r)
  have live: "file_live (stored st s) i" using f by (simp add: file_live_def)
  from transacts(3) [unfolded r] show ?thesis
  proof (cases rule: transaction_outcome)
    case early
    then show ?thesis using live gone by (simp add: stored_def)
  next
    case (ran c u e0 ch d t)
    have c: "c = stored st s" using transacts(1) ran(1) by (simp add: reads_back_def)
    have k: "keyed_catalog c" using integrity.reached [OF reach] c by simp
    let ?c = "snd (compact (ui_clock io) c)"
    have kc: "keyed_catalog ?c" using compact_parts(8) k by blast
    have h: "held_by ?c i key b" "scope_at ?c (sb_scope b) = scope_at (stored st s) (sb_scope b)"
      using held_compact [OF k] held c by blast+
    have g: "map_of (ct_files ?c) i = Some (unstage f)" "live (unstage f)"
      using compact_parts(3) [OF k, of i f "ui_clock io"] f c by (auto simp: live_def unstage_def)
    then have lc: "file_live ?c i" by (simp add: file_live_def)
    have sc: "scope_at ?c (uf_scope f) = scope_at (stored st s) (uf_scope f)"
    proof -
      have "occupied ?c (uf_scope f)"
        using map_of_SomeD [OF g(1)] unfolding occupied_def list_ex_iff by (intro disjI2 bexI [of _ "(i, unstage f)"]) (simp_all add: unstage_def)
      then show ?thesis
        using compact_parts(4,5) [OF k, where k = "ui_clock io"] c unfolding scope_at_def by (metis (no_types, lifting) not_None_eq)
    qed
    have cat: "ud_catalog t = ud_catalog s" using call_keyed [OF kc ran(4)] ran(2) by simp
    have d: "\<not> file_live d i"
      using ran(6) gone live cat by (auto simp: stored_def)
    show ?thesis
    proof (cases "burying call")
      case False
      then have "keeps_live ?c d" using call_live [OF compact_admitted kc _ ran(4)] k transacts(2) c by blast
      then show ?thesis using d lc keeps_live_at by blast
    next
      case True
      then show ?thesis
      proof (cases call rule: burying.cases)
        case (1 bk idle locked now j confirmed)
        then have "delete_body bk idle locked now j confirmed ?c u = ((e0, ch, v), d, t)" using ran(4) by simp
        from delete_needs_consent [OF this h(1) lc d] show ?thesis using 1 h(2) by auto
      next
        case (2 at)
        then show ?thesis using collect_spares [OF _ kc h(1) lc] ran(4) d by auto
      next
        case (3 t' slug thread epoch)
        then have "RemoveSession_body t' slug thread epoch ?c u = ((e0, ch, v), d, t)" using ran(4) by simp
        from removal_of_owner [OF this kc g d] have "retired slug thread epoch (scope_at ?c (uf_scope f))"
          by (simp add: unstage_def split: if_splits)
        then show ?thesis using 3 sc by simp
      qed simp_all
    qed
  qed
qed

end
