(* ===== verification/Upload_Claims.thy ===== *)
theory Upload_Claims
  imports Upload_Readable
begin

text \<open>
  The claim of a session request on the files of a draft, which is exclusive and can be repeated, and the limit
  that forking does not observe.
\<close>

subsection \<open>Exclusive claims\<close>

definition claimed :: "catalog \<Rightarrow> string \<Rightarrow> string \<Rightarrow> string \<Rightarrow> string list \<Rightarrow> string \<Rightarrow> bool" where
  "claimed c request scope message ids wire \<longleftrightarrow>
     map_of (ct_scopes c) scope \<noteq> None \<and> \<not> us_deleted (scope_at c scope) \<and> us_draft (scope_at c scope) \<and>
     map_of (ct_submissions c) (claim_key scope request) =
       Some (new_submission scope ''initial'' (''preparation:'' @ request) message wire ids True) \<and>
     (\<forall>x \<in> set (ct_submissions c). fst x \<noteq> claim_key scope request \<longrightarrow> sb_scope (snd x) = scope \<longrightarrow> sb_state (snd x) = ''cancelled'')"

lemma set_submission_entries:
  assumes "keyed_catalog c" "x \<in> set (ct_submissions (set_submission key b c))"
  shows "x = (key, b) \<or> x \<in> set (ct_submissions c)"
proof -
  obtain i d where x: "x = (i, d)" by (cases x)
  have "map_of (ct_submissions (set_submission key b c)) i = Some d"
    by (subst map_of_eq_Some_iff) (use keyed_catalog_updates(3) [OF assms(1), of key b] assms(2) x in \<open>simp_all add: keyed_catalog_def\<close>)
  then show ?thesis using x map_of_SomeD by (fastforce split: if_splits)
qed

lemma claim_new:
  assumes k: "keyed_catalog c" and run: "preparePreparation st io request scope message ids c s = ((None, True, wire), c', s')"
  shows "claimed c' request scope message ids wire \<and> keyed_catalog c' \<and> s' = s"
proof -
  have free: "map_of (ct_submissions c) (claim_key scope request) = None"
    and scope: "map_of (ct_scopes c) scope \<noteq> None" "\<not> us_deleted (scope_at c scope)" "us_draft (scope_at c scope)"
    and alone: "\<not> list_ex (\<lambda>x. sb_scope (snd x) = scope \<and> sb_state (snd x) \<noteq> ''cancelled'') (ct_submissions c)"
    and p: "prepareSubmission st io scope ''initial'' (''preparation:'' @ request) message ids True c s = ((None, True, wire), c', s')"
    using run unfolding preparePreparation_def Let_def unchanged_def by (auto split: option.splits if_splits)
  from p show ?thesis
  proof (cases rule: prepareSubmission_cases)
    case (submits ds)
    let ?b = "new_submission scope ''initial'' (''preparation:'' @ request) message wire ids True"
    have subs: "ct_submissions c' = ct_submissions (set_submission (claim_key scope request) ?b c)" "ct_scopes c' = ct_scopes c"
      by (simp_all add: submits(7) claim_key_def)
    have "keyed_catalog c'" using prepareSubmission_evolves [OF k p] ages_keyed by blast
    moreover have "claimed c' request scope message ids wire"
      unfolding claimed_def
    proof (intro conjI ballI impI)
      fix x
      assume x: "x \<in> set (ct_submissions c')" "fst x \<noteq> claim_key scope request" "sb_scope (snd x) = scope"
      from set_submission_entries [OF k x(1) [unfolded subs(1)]] x(2) have "x \<in> set (ct_submissions c)" by auto
      then show "sb_state (snd x) = ''cancelled''" using alone x(3) by (auto simp: list_ex_iff)
    qed (use scope subs in \<open>simp_all add: scope_at_def\<close>)
    ultimately show ?thesis using submits(4) by simp
  qed simp
qed

lemma claimed_compact:
  assumes "keyed_catalog c" "claimed c request scope message ids wire"
  shows "claimed (snd (compact k c)) request scope message ids wire"
proof -
  let ?d = "snd (compact k c)" and ?b = "new_submission scope ''initial'' (''preparation:'' @ request) message wire ids True"
  note p = compact_parts [OF assms(1), where k = k]
  have keep: "\<not> obsolete c ?b" using assms(2) by (simp add: claimed_def obsolete_def new_submission_def)
  then have b: "map_of (ct_submissions ?d) (claim_key scope request) = Some ?b" using assms(2) unfolding p(1) by (simp add: claimed_def)
  have "occupied ?d scope"
    using map_of_SomeD [OF b] unfolding occupied_def list_ex_iff
    by (intro disjI1 bexI [of _ "(claim_key scope request, ?b)"]) (simp_all add: new_submission_def)
  then have same: "map_of (ct_scopes ?d) scope = map_of (ct_scopes c) scope"
    using p(4,5) assms(2) unfolding claimed_def by (metis not_None_eq)
  have sub: "x \<in> set (ct_submissions c)" if "x \<in> set (ct_submissions ?d)" for x
  proof -
    obtain i b where [simp]: "x = (i, b)" by (cases x)
    have "map_of (ct_submissions ?d) i = Some b" using that p(8) by (simp add: keyed_catalog_def)
    then have "map_of (ct_submissions c) i = Some b" unfolding p(1) by (simp split: option.splits if_splits)
    then show ?thesis using map_of_SomeD by simp
  qed
  show ?thesis
    using assms(2) b sub same unfolding claimed_def by (simp add: scope_at_def)
qed

lemma claim_key_inj: "claim_key scope r = claim_key scope q \<longleftrightarrow> r = q"
  by (simp add: claim_key_def submission_key_def)

lemma claimed_repeat:
  assumes "claimed c request scope message ids wire"
  shows "preparePreparation st io request scope message ids c s = ((None, False, wire), c, s)"
proof -
  have "preparationClaimConflict c scope (claim_key scope request) = None"
    using assms by (auto simp: preparationClaimConflict_def claimed_def list_ex_iff)
  then show ?thesis
    using assms by (simp add: preparePreparation_def claimed_def new_submission_def unchanged_def Let_def)
qed

lemma claimed_refuses:
  assumes "claimed c request scope message ids wire" "other \<noteq> request"
  shows "\<exists>e. preparePreparation st io other scope message' ids' c s = ((Some (Problem 409 e), False, []), c, s)"
proof -
  let ?b = "new_submission scope ''initial'' (''preparation:'' @ request) message wire ids True"
  have b: "(claim_key scope request, ?b) \<in> set (ct_submissions c)" using assms(1) by (auto simp: claimed_def dest: map_of_SomeD)
  have scope: "map_of (ct_scopes c) scope \<noteq> None" "\<not> us_deleted (scope_at c scope)" "us_draft (scope_at c scope)"
    using assms(1) by (simp_all add: claimed_def)
  show ?thesis
  proof (cases "map_of (ct_submissions c) (claim_key scope other)")
    case (Some previous)
    have "list_ex (\<lambda>x. fst x \<noteq> claim_key scope other \<and> sb_scope (snd x) = scope \<and> sb_state (snd x) \<noteq> ''cancelled'') (ct_submissions c)"
      unfolding list_ex_iff by (rule bexI [OF _ b]) (use assms(2) in \<open>simp add: claim_key_inj new_submission_def\<close>)
    then have "preparationClaimConflict c scope (claim_key scope other) = Some (Problem 409 ''Initial files have a competing submission'')"
      using scope by (simp add: preparationClaimConflict_def)
    then show ?thesis using Some by (simp add: preparePreparation_def Let_def)
  next
    case None
    have "list_ex (\<lambda>x. preparation_claim scope (snd x)) (ct_submissions c)"
      unfolding list_ex_iff by (rule bexI [OF _ b]) (simp add: preparation_claim_def new_submission_def HasPrefix_def)
    then have "preparationMutation c scope = Some (Problem 409 ''Initial files belong to an accepted session request'')"
      using scope by (simp add: preparationMutation_def)
    then show ?thesis
      using None scope by (simp add: preparePreparation_def Let_def)
  qed
qed

text \<open>
  C15. The claim of a session request on a draft is exclusive and can be repeated. After a new claim, and
  whatever the compaction of a later transaction removes, the same request gets the same wire text again and
  changes nothing, whatever the files on disk look like by then, and every other request for the draft is
  refused with a conflict and changes nothing.
\<close>

theorem claims_are_exclusive:
  assumes "keyed_catalog c" and "preparePreparation st io request scope message ids c s = ((None, True, wire), c', s')"
  shows "preparePreparation st io' request scope message ids (snd (compact k c')) t = ((None, False, wire), snd (compact k c'), t) \<and>
    (other \<noteq> request \<longrightarrow>
      (\<exists>e. preparePreparation st io' other scope message' ids' (snd (compact k c')) t = ((Some (Problem 409 e), False, []), snd (compact k c'), t)))"
proof -
  have "claimed (snd (compact k c')) request scope message ids wire"
    using claim_new [OF assms] claimed_compact by blast
  then show ?thesis using claimed_repeat claimed_refuses by simp
qed

subsection \<open>Forking without a limit\<close>

definition fork_key :: "upload_scope \<Rightarrow> string \<times> submission \<Rightarrow> string" where
  "fork_key target z = submission_key (us_id target) (sb_kind (snd z)) (sb_attempt (snd z))"

definition forked :: "string \<Rightarrow> (string \<times> string \<times> string) list \<Rightarrow> catalog \<Rightarrow> string \<times> submission \<Rightarrow> bool" where
  "forked source entries c z \<longleftrightarrow>
     us_thread (scope_at c (sb_scope (snd z))) = source \<and> sb_state (snd z) \<noteq> ''cancelled'' \<and>
     list_ex (\<lambda>(kind, message, _). kind = ''userMessage'' \<and> message = sb_wire (snd z)) entries"

lemma scope_at_submission [simp]: "scope_at (set_submission k b c) x = scope_at c x"
  by (simp add: scope_at_def)

lemma fork_each_adds:
  "\<forall>z \<in> set bs. forked source entries c z \<and> map_of (ct_submissions c) (fork_key target z) = None \<Longrightarrow>
     distinct (map (fork_key target) bs) \<Longrightarrow>
     length (ct_submissions (snd (fork_each source target entries bs changed c))) = length (ct_submissions c) + length bs \<and>
     fst (fork_each source target entries bs changed c) = (changed \<or> bs \<noteq> [])"
proof (induction bs arbitrary: changed c)
  case Nil
  then show ?case by simp
next
  case (Cons z bs)
  have z: "forked source entries c z" "map_of (ct_submissions c) (fork_key target z) = None" using Cons.prems(1) by simp_all
  then obtain kind message item where find: "List.find (\<lambda>(kind, message, _). kind = ''userMessage'' \<and> message = sb_wire (snd z)) entries = Some (kind, message, item)"
    unfolding forked_def list_ex_iff using find_None_iff [of _ entries] by (metis (no_types, lifting) not_None_eq surj_pair)
  let ?d = "set_submission (fork_key target z) ((snd z)\<lparr>sb_scope := us_id target, sb_state := ''observed'', sb_item := item\<rparr>) c"
  have step: "fork_each source target entries (z # bs) changed c = fork_each source target entries bs True ?d"
    using z find by (simp add: forked_def fork_key_def Let_def)
  have "forked source entries ?d y \<and> map_of (ct_submissions ?d) (fork_key target y) = None" if y: "y \<in> set bs" for y
  proof -
    have "fork_key target y \<in> fork_key target ` set bs" "fork_key target z \<notin> fork_key target ` set bs"
      using Cons.prems(2) y by simp_all
    then have "fork_key target y \<noteq> fork_key target z" by metis
    then show ?thesis using Cons.prems(1) y by (simp add: forked_def)
  qed
  then show ?case
    unfolding step using Cons.IH [of ?d True] Cons.prems(2) z(2) by simp
qed

text \<open>Every call of the system that a transaction makes succeeds.\<close>

definition answers_well :: "transaction_io \<Rightarrow> bool" where
  "answers_well io \<longleftrightarrow>
     ui_mkdir io = None \<and> ui_lstat io = None \<and> ui_private io \<and> ui_lock io = None \<and> flock_wait (ui_flock io) = Some None \<and>
     ui_before io = None \<and> ui_create io = None \<and> ui_write io = None \<and> ui_sync io = None \<and> ui_close io = None \<and>
     ui_rename io = None \<and> ui_after io = None"

lemma transaction_saves:
  assumes "answers_well io" and "load_catalog st io = Inr c" and "\<And>u. B (snd (compact (ui_clock io) c)) u = ((None, True, a), d, u)"
    and "\<not> too_large (json_len (catalog_json tm d)) (catalogSize c) (catalogSize d)"
  shows "\<exists>s'. run_transaction tm st io zero B s = Some ((None, a), s') \<and> ud_catalog s' = Some d"
proof -
  obtain b c1 where k: "compact (ui_clock io) c = (b, c1)" by (cases "compact (ui_clock io) c")
  with assms show ?thesis
    by (auto simp: run_transaction_def answers_well_def confirmCatalog_def commit_def store_catalog_def)
qed


end
