(* ===== verification/Upload_Samples.thy ===== *)
theory Upload_Samples
  imports Upload_Kept Upload_Claims "HOL-Library.Code_Target_Nat"
begin

text \<open>
  A run of the upload store that the witnesses of its properties share: a draft, a file of three bytes, its
  completion, a message that refers to it, and the deletion of the file once the message was seen.
\<close>

definition a_upload_store :: upload_store where
  "a_upload_store = \<lparr>up_directory = ''/state/uploads'', up_workspace = ''/work'', up_limits = DefaultLimits, up_min_free = 1073741824\<rparr>"

lemma a_upload_store_new: "New_store ''/state/uploads'' ''/work'' = Inr a_upload_store"
  by (simp add: New_store_def a_upload_store_def Let_def) code_simp

definition a_digest :: "string \<Rightarrow> string" where "a_digest s = s @ ''#''"

definition a_time :: "int \<Rightarrow> json" where "a_time t = JInt t"

definition uploads_io :: "upload_state \<Rightarrow> transaction_io" where
  "uploads_io s =
     \<lparr>ui_mkdir = None, ui_lstat = None, ui_private = True, ui_lock = None, ui_flock = [Acquired],
      ui_file = (case ud_catalog s of None \<Rightarrow> missing_view (empty_catalog ''/work'') | Some c \<Rightarrow> plain_view ''{}'' c),
      ui_null = False, ui_before = None, ui_clock = \<lparr>cc_files = \<lambda>_. 0, cc_scopes = \<lambda>_. 0\<rparr>, ui_create = None, ui_write = None,
      ui_sync = None, ui_close = None, ui_rename = None, ui_after = None\<rparr>"

definition can_call :: "upload_call \<Rightarrow> upload_state \<Rightarrow> bool" where
  "can_call call s \<longleftrightarrow> reads_back a_upload_store (uploads_io s) s \<and> upload_admitted a_digest a_upload_store (stored a_upload_store s) call"

fun run_calls :: "upload_call list \<Rightarrow> upload_state \<Rightarrow> upload_state option" where
  "run_calls [] s = Some s"
| "run_calls (call # calls) s =
     (case (if can_call call s then run_transaction a_time a_upload_store (uploads_io s) () (call_body a_digest a_upload_store call) s else None) of
        None \<Rightarrow> None
      | Some (_, s1) \<Rightarrow> run_calls calls s1)"

lemma run_calls_reach:
  "uploads_reach a_digest a_time a_upload_store allowed s \<Longrightarrow> list_all allowed calls \<Longrightarrow> run_calls calls s = Some s' \<Longrightarrow>
     uploads_reach a_digest a_time a_upload_store allowed s'"
proof (induction calls arbitrary: s)
  case (Cons call calls)
  then obtain r s1 where t: "run_transaction a_time a_upload_store (uploads_io s) () (call_body a_digest a_upload_store call) s = Some (r, s1)"
    and c: "can_call call s" and rest: "run_calls calls s1 = Some s'"
    by (auto split: if_splits option.splits)
  have step: "upload_step a_digest a_time a_upload_store call s s1"
    using t c by (auto simp: can_call_def intro: transacts)
  show ?case
    using Cons.IH [OF goes_on [OF Cons.prems(1) _ step] _ rest] Cons.prems(2) by simp
qed simp

definition draft_id :: string where "draft_id = ''00000000-0000-4000-8000-000000000000''"
definition upload_id :: string where "upload_id = ''01010101-0101-4101-8101-010101010101''"
definition client_id :: string where "client_id = ''0a0a0a0a-0a0a-4a0a-8a0a-0a0a0a0a0a0a''"

definition a_backend :: backend where "a_backend = \<lparr>bk_scope = draft_id, bk_base = ''/uploads'', bk_read_only = False\<rparr>"

definition a_create :: create_io where
  "a_create = \<lparr>co_free = Inr 1099511627776, co_entropy = Inr (replicate 16 1), co_now = 0, co_mkdir = None, co_open = None, co_sync = None\<rparr>"

definition an_append :: append_io where
  "an_append = \<lparr>an_open = None, an_truncate = None, an_write = (0, None), an_sync = None, an_now = 0\<rparr>"

definition a_complete :: complete_io where
  "a_complete = \<lparr>cm_rename = None, cm_stat = None, cm_chmod = None, cm_opendir = None, cm_syncdir = None, cm_now = 0\<rparr>"

definition a_prepare :: prepare_io where "a_prepare = \<lparr>py_lstat = \<lambda>_. None, py_at = \<lambda>_. 0\<rparr>"

definition do_draft :: upload_call where "do_draft = DoNewDraft (Inr (replicate 16 0)) 0"
definition do_create :: upload_call where "do_create = DoCreate a_backend a_create \<lparr>ur_client = client_id, ur_name = ''a.txt'', ur_size = 3\<rparr>"
definition do_append :: upload_call where "do_append = DoAppend a_backend an_append upload_id 0 (a_digest ''abc'') ''abc''"
definition do_prepare :: upload_call where "do_prepare = DoPrepare a_backend a_prepare ''queue'' ''k'' ''hi'' [upload_id]"
definition do_delete :: upload_call where "do_delete = DoDelete a_backend (Some (\<lambda>_. None)) None 0 upload_id True"

text \<open>The conversation shows whatever message the catalog holds for the attempt.\<close>

definition do_observe :: "upload_state \<Rightarrow> upload_call" where
  "do_observe s = DoTranscript a_backend
     (map (\<lambda>x. \<lparr>te_kind = ''userMessage'', te_text = sb_wire (snd x), te_client = ''k'', te_item = ''item'', te_display = None, te_attachments = []\<rparr>)
       (ct_submissions (stored a_upload_store s)))"

definition upload_calls :: "upload_call list" where "upload_calls = [do_draft, do_create, do_append]"

definition sent_all :: upload_state where "sent_all = the (run_calls upload_calls new_upload_state)"

definition finish_upload :: "upload_state \<Rightarrow> upload_view call_result" where
  "finish_upload s = Complete_upload a_time a_upload_store a_backend (uploads_io s) a_complete upload_id s"

definition file_is :: "upload_state \<Rightarrow> string \<Rightarrow> bool" where
  "file_is s state \<longleftrightarrow>
     (case map_of (ct_files (stored a_upload_store s)) upload_id of
        None \<Rightarrow> False | Some f \<Rightarrow> uf_state f = state \<and> uf_size f = 3 \<and> uf_checksums f = (if state = ''uploading'' then [a_digest ''abc''] else []))"

definition step_ok :: "upload_call \<Rightarrow> upload_state \<Rightarrow> bool" where
  "step_ok call s \<longleftrightarrow> can_call call s \<and> run_calls [call] s \<noteq> None"

definition submission_key_k :: string where "submission_key_k = submission_key draft_id ''queue'' ''k''"

definition observed_ok :: "upload_state \<Rightarrow> bool" where
  "observed_ok s \<longleftrightarrow>
     (case map_of (ct_submissions (stored a_upload_store s)) submission_key_k of
        None \<Rightarrow> False | Some b \<Rightarrow> held_by (stored a_upload_store s) upload_id submission_key_k b) \<and>
     file_is s ''ready'' \<and>
     (case run_calls [do_delete] s of None \<Rightarrow> False | Some s' \<Rightarrow> \<not> file_live (stored a_upload_store s') upload_id)"

definition ready_ok :: "upload_state \<Rightarrow> bool" where
  "ready_ok s \<longleftrightarrow>
     bl_final (ud_blobs s upload_id) = Some ''abc'' \<and> file_is s ''ready'' \<and> step_ok do_delete s \<and>
     (let ((e, changed, _), c, _) = preparePreparation a_upload_store a_prepare ''r1'' draft_id ''hi'' [upload_id] (stored a_upload_store s) s in
      e = None \<and> changed) \<and>
     (case run_calls [do_prepare] s of
        None \<Rightarrow> False
      | Some s1 \<Rightarrow> (case run_calls [do_observe s1] s1 of None \<Rightarrow> False | Some s2 \<Rightarrow> observed_ok s2))"

definition sent_all_ok :: "upload_state \<Rightarrow> bool" where
  "sent_all_ok s \<longleftrightarrow>
     file_is s ''uploading'' \<and> reads_back a_upload_store (uploads_io s) s \<and>
     (case finish_upload s of None \<Rightarrow> False | Some ((e, _), s') \<Rightarrow> e = None \<and> ready_ok s')"

lemma run_upload: "case run_calls upload_calls new_upload_state of None \<Rightarrow> False | Some s \<Rightarrow> sent_all_ok s"
  by code_simp


subsection \<open>The states of the run\<close>

lemma run_one: "run_calls [call] s = Some s' \<Longrightarrow> upload_step a_digest a_time a_upload_store call s s'"
  by (auto simp: can_call_def intro: transacts split: option.splits if_splits)

lemma sent_all_reached: "list_all allowed upload_calls \<Longrightarrow> uploads_reach a_digest a_time a_upload_store allowed sent_all"
  using run_calls_reach [OF begins, of allowed upload_calls sent_all] run_upload by (auto simp: sent_all_def split: option.splits)

lemma sent_all_any: "uploads_reach a_digest a_time a_upload_store (\<lambda>_. True) sent_all"
  by (rule sent_all_reached) (simp add: list_all_iff)

lemma sent_all_facts: "sent_all_ok sent_all"
  using run_upload by (auto simp: sent_all_def split: option.splits)

lemma file_isE:
  assumes "file_is s state"
  obtains f where "map_of (ct_files (stored a_upload_store s)) upload_id = Some f" "uf_state f = state" "uf_size f = 3"
    "state = ''uploading'' \<Longrightarrow> uf_checksums f = [a_digest ''abc'']"
  using assms by (auto simp: file_is_def split: option.splits)

lemma finished_upload:
  obtains v s1 where "finish_upload sent_all = Some ((None, v), s1)" "ready_ok s1" "uploads_reach a_digest a_time a_upload_store (\<lambda>_. True) s1"
proof -
  obtain v s1 where f: "finish_upload sent_all = Some ((None, v), s1)" "ready_ok s1"
    using sent_all_facts unfolding sent_all_ok_def by (auto split: option.splits prod.splits)
  have "reads_back a_upload_store (uploads_io sent_all) sent_all" using sent_all_facts by (simp add: sent_all_ok_def)
  then have "upload_step a_digest a_time a_upload_store (DoComplete a_backend a_complete upload_id) sent_all s1"
    using Complete_upload_step f(1) unfolding finish_upload_def by blast
  then show ?thesis using that f goes_on [OF sent_all_any] by blast
qed

lemma observed_upload:
  obtains s3 b s4 where "observed_ok s3" "uploads_reach a_digest a_time a_upload_store (\<lambda>_. True) s3"
    "held_by (stored a_upload_store s3) upload_id submission_key_k b" "file_is s3 ''ready''"
    "upload_step a_digest a_time a_upload_store do_delete s3 s4" "\<not> file_live (stored a_upload_store s4) upload_id"
proof -
  obtain s1 where r: "ready_ok s1" "uploads_reach a_digest a_time a_upload_store (\<lambda>_. True) s1" by (rule finished_upload)
  then obtain s2 s3 where s: "run_calls [do_prepare] s1 = Some s2" "run_calls [do_observe s2] s2 = Some s3" "observed_ok s3"
    unfolding ready_ok_def by (auto simp del: run_calls.simps split: option.splits)
  have reach: "uploads_reach a_digest a_time a_upload_store (\<lambda>_. True) s3"
    using goes_on [OF goes_on [OF r(2) _ run_one [OF s(1)]] _ run_one [OF s(2)]] by simp
  obtain b where b: "held_by (stored a_upload_store s3) upload_id submission_key_k b" "file_is s3 ''ready''"
    using s(3) unfolding observed_ok_def by (auto simp del: run_calls.simps split: option.splits)
  obtain s4 where "run_calls [do_delete] s3 = Some s4" "\<not> file_live (stored a_upload_store s4) upload_id"
    using s(3) unfolding observed_ok_def by (auto simp del: run_calls.simps split: option.splits)
  then show ?thesis using that s(3) reach b run_one by blast
qed

subsection \<open>Witnesses\<close>

theorem uploads_keep_their_bytes_witness:
  "\<exists>f. map_of (ct_files (stored a_upload_store sent_all)) upload_id = Some f \<and> uf_state f = ''uploading'' \<and>
     uf_checksums f = [a_digest ''abc''] \<and> file_intact a_digest f (ud_blobs sent_all upload_id)"
proof -
  have "file_is sent_all ''uploading''" using sent_all_facts by (simp add: sent_all_ok_def)
  then obtain f where f: "map_of (ct_files (stored a_upload_store sent_all)) upload_id = Some f" "uf_state f = ''uploading''"
      "uf_checksums f = [a_digest ''abc'']"
    by (rule file_isE) simp
  then show ?thesis using uploads_keep_their_bytes [OF sent_all_any f(1)] by blast
qed

theorem completed_upload_is_whole_witness:
  "\<exists>v s' chunks. finish_upload sent_all = Some ((None, v), s') \<and> map a_digest chunks = [a_digest ''abc''] \<and>
     bl_final (ud_blobs s' upload_id) = Some (concat chunks) \<and> length (concat chunks) = 3"
proof -
  have "file_is sent_all ''uploading''" "reads_back a_upload_store (uploads_io sent_all) sent_all"
    using sent_all_facts by (simp_all add: sent_all_ok_def)
  then obtain f where f: "map_of (ct_files (stored a_upload_store sent_all)) upload_id = Some f" "uf_state f = ''uploading''"
      "uf_checksums f = [a_digest ''abc'']" "uf_size f = 3" and rb: "reads_back a_upload_store (uploads_io sent_all) sent_all"
    by (auto elim: file_isE)
  obtain v s' where c: "finish_upload sent_all = Some ((None, v), s')" by (rule finished_upload)
  obtain chunks where "map a_digest chunks = uf_checksums f" "bl_final (ud_blobs s' upload_id) = Some (concat chunks)"
      "int (length (concat chunks)) = uf_size f"
    using completed_upload_is_whole [OF sent_all_any rb f(1,2) c [unfolded finish_upload_def]] by blast
  then show ?thesis using c f(3,4) by (intro exI conjI) simp_all
qed

theorem finished_bytes_stay_witness:
  "\<exists>v s' s''. finish_upload sent_all = Some ((None, v), s') \<and> upload_step a_digest a_time a_upload_store do_delete s' s'' \<and>
     bl_final (ud_blobs s' upload_id) = Some ''abc'' \<and> bl_final (ud_blobs s'' upload_id) = Some ''abc''"
proof -
  obtain v s' where c: "finish_upload sent_all = Some ((None, v), s')" "ready_ok s'" "uploads_reach a_digest a_time a_upload_store (\<lambda>_. True) s'"
    by (rule finished_upload)
  then have r: "bl_final (ud_blobs s' upload_id) = Some ''abc''" "file_is s' ''ready''" "run_calls [do_delete] s' \<noteq> None"
    unfolding ready_ok_def step_ok_def by blast+
  obtain s'' where s'': "run_calls [do_delete] s' = Some s''" using r(3) by blast
  obtain f where f: "map_of (ct_files (stored a_upload_store s')) upload_id = Some f" "uf_state f = ''ready''"
    using r(2) by (rule file_isE)
  show ?thesis
    using finished_bytes_stay [OF c(3) run_one [OF s''] f] c(1) r(1) run_one [OF s''] by auto
qed

theorem uploads_within_quota_witness:
  "file_is sent_all ''uploading'' \<and> bytes_in live (stored a_upload_store sent_all) \<le> 100 * 2 ^ 30 \<and>
   bytes_in (in_scope draft_id) (stored a_upload_store sent_all) \<le> 10 * 2 ^ 30"
  using uploads_within_quota [OF a_upload_store_new sent_all_any] sent_all_facts by (simp add: sent_all_ok_def)

definition saved_io :: "upload_state \<Rightarrow> transaction_io" where
  "saved_io s = (uploads_io s)\<lparr>ui_file := (case ud_catalog s of None \<Rightarrow> missing_view (empty_catalog ''/work'')
     | Some c \<Rightarrow> plain_view (json_enc (catalog_json a_time c)) c)\<rparr>"

lemma saved_io_shows: "shows_catalog a_time (saved_io s) s"
  by (cases "ud_catalog s") (simp_all add: shows_catalog_def saved_io_def uploads_io_def missing_view_def plain_view_def)

theorem upload_catalog_stays_readable_witness:
  "file_is sent_all ''uploading'' \<and> load_catalog a_upload_store (saved_io sent_all) = Inr (stored a_upload_store sent_all)"
proof -
  have "uploads_reach a_digest a_time a_upload_store (\<lambda>call. \<not> forking call) sent_all"
    by (rule sent_all_reached) (simp add: upload_calls_def do_draft_def do_create_def do_append_def)
  then show ?thesis
    using upload_catalog_stays_readable [OF a_upload_store_new _ saved_io_shows] sent_all_facts by (simp add: sent_all_ok_def)
qed

theorem sent_files_are_kept_witness:
  "\<exists>s s' b check scopes. held_by (stored a_upload_store s) upload_id submission_key_k b \<and> file_live (stored a_upload_store s) upload_id \<and>
     upload_step a_digest a_time a_upload_store do_delete s s' \<and> \<not> file_live (stored a_upload_store s') upload_id \<and>
     do_delete = DoDelete a_backend (Some check) None 0 upload_id True \<and> scope_at (stored a_upload_store s) (sb_scope b) \<in> set scopes \<and>
     sb_state b \<noteq> ''pending''"
proof -
  obtain s b s' where s: "uploads_reach a_digest a_time a_upload_store (\<lambda>_. True) s"
      "held_by (stored a_upload_store s) upload_id submission_key_k b" "file_is s ''ready''"
      "upload_step a_digest a_time a_upload_store do_delete s s'" "\<not> file_live (stored a_upload_store s') upload_id"
    by (rule observed_upload)
  obtain f where f: "map_of (ct_files (stored a_upload_store s)) upload_id = Some f" "uf_state f = ''ready''"
    using s(3) by (rule file_isE)
  have live: "live f" using f(2) by (simp add: live_def)
  from sent_files_are_kept [OF s(1,4,2) f(1) live s(5)] obtain check scopes where
    "do_delete = DoDelete a_backend (Some check) None 0 upload_id True" "scope_at (stored a_upload_store s) (sb_scope b) \<in> set scopes"
    "sb_state b \<noteq> ''pending''"
    unfolding do_delete_def by auto
  then show ?thesis using s(2,4,5) f(1) live unfolding file_live_def by fastforce
qed

theorem claims_are_exclusive_witness:
  "\<exists>s wire c' d. file_is s ''ready'' \<and> d = snd (compact (ui_clock (uploads_io s)) c') \<and>
     fst (preparePreparation a_upload_store a_prepare ''r1'' draft_id ''hi'' [upload_id] (stored a_upload_store s) s) = (None, True, wire) \<and>
     preparePreparation a_upload_store a_prepare ''r1'' draft_id ''hi'' [upload_id] d s = ((None, False, wire), d, s) \<and>
     (\<exists>e. preparePreparation a_upload_store a_prepare ''r2'' draft_id ''ho'' [upload_id] d s = ((Some (Problem 409 e), False, []), d, s))"
proof -
  obtain s where s: "ready_ok s" "uploads_reach a_digest a_time a_upload_store (\<lambda>_. True) s" by (rule finished_upload)
  let ?p = "preparePreparation a_upload_store a_prepare ''r1'' draft_id ''hi'' [upload_id] (stored a_upload_store s) s"
  obtain e changed wire c' t where p: "?p = ((e, changed, wire), c', t)" by (cases ?p) auto
  then have run: "?p = ((None, True, wire), c', t)" and ready: "file_is s ''ready''"
    using s(1) unfolding ready_ok_def by (simp_all add: Let_def)
  have k: "keyed_catalog (stored a_upload_store s)" using integrity.reached [OF s(2)] by blast
  note x = claims_are_exclusive [OF k run, where io' = a_prepare and k = "ui_clock (uploads_io s)" and t = s and other = "''r2''" and message' = "''ho''" and ids' = "[upload_id]"]
  show ?thesis
    using x ready run by (intro exI [of _ s] exI [of _ wire] exI [of _ c'] exI [of _ "snd (compact (ui_clock (uploads_io s)) c')"]) simp
qed

subsection \<open>A catalog that forking makes unreadable\<close>

definition nth_attempt :: "nat \<Rightarrow> string" where
  "nth_attempt n = replicate (n div 100) (CHR ''a'') @ ''-'' @ replicate (n mod 100) (CHR ''b'')"

lemma nth_attempt_inj: "nth_attempt n = nth_attempt m \<longleftrightarrow> n = m"
proof
  assume eq: "nth_attempt n = nth_attempt m"
  have count: "length (filter ((=) (CHR ''a'')) (nth_attempt k)) = k div 100" "length (filter ((=) (CHR ''b'')) (nth_attempt k)) = k mod 100" for k
    by (simp_all add: nth_attempt_def)
  have "n div 100 = m div 100" "n mod 100 = m mod 100" using count [of n] count [of m] eq by simp_all
  then show "n = m" by (metis div_mult_mod_eq)
qed simp

definition nth_submission :: "nat \<Rightarrow> string \<times> submission" where
  "nth_submission n =
     (submission_key ''source'' ''queue'' (nth_attempt n),
      \<lparr>sb_scope = ''source'', sb_kind = ''queue'', sb_attempt = nth_attempt n, sb_text = ''hi'', sb_wire = ''hi'', sb_files = [upload_id],
       sb_state = ''observed'', sb_queue = [], sb_item = []\<rparr>)"

definition a_long_history :: catalog where
  "a_long_history =
     (empty_catalog ''/work'')\<lparr>ct_scopes := [(''source'', zero_scope\<lparr>us_id := ''source'', us_thread := ''T''\<rparr>)],
       ct_submissions := map nth_submission [0..<5001]\<rparr>"

definition a_fork_target :: upload_scope where "a_fork_target = zero_scope\<lparr>us_id := ''target'', us_thread := ''U''\<rparr>"

definition a_transcript :: "(string \<times> string \<times> string) list" where "a_transcript = [(''userMessage'', ''hi'', ''item'')]"

definition long_state :: upload_state where "long_state = new_upload_state\<lparr>ud_catalog := Some a_long_history\<rparr>"

text \<open>The size of the forked catalog: an entry of a submission has fewer than 700 bytes.\<close>

definition entry_len :: "string \<times> submission \<Rightarrow> nat" where
  "entry_len x = length (json_string (fst x)) + length (json_enc (submission_json (snd x)))"

lemma object_len: "length (json_enc (JObj ms)) \<le> 2 + sum_list (map (\<lambda>m. length (json_string (fst m)) + length (json_enc (snd m)) + 2) ms)"
proof -
  have "sum_list (map (\<lambda>m. length (json_string (fst m)) + length (json_enc (snd m)) + 2) ms) =
      sum_list (map (\<lambda>m. length (json_string (fst m) @ '':'' @ json_enc (snd m))) ms) + length ms"
    by (induction ms) simp_all
  then show ?thesis by (simp add: length_join_with comp_def)
qed

lemma map_json_len:
  assumes "\<forall>x \<in> set xs. entry_len x \<le> n"
  shows "length (json_enc (map_json submission_json xs)) \<le> 2 + length xs * (n + 2)"
proof -
  have "sum_list (map (\<lambda>x. entry_len x + 2) (sort_key fst xs)) \<le> length xs * (n + 2)"
    using sum_list_mono [of "sort_key fst xs" "\<lambda>x. entry_len x + 2" "\<lambda>_. n + 2"] assms by (simp add: sum_list_triv)
  moreover have "length (json_enc (map_json submission_json xs)) \<le> 2 + sum_list (map (\<lambda>x. entry_len x + 2) (sort_key fst xs))"
    using object_len [of "map (\<lambda>x. (fst x, submission_json (snd x))) (sort_key fst xs)"] by (simp add: map_json_def entry_len_def comp_def)
  ultimately show ?thesis by linarith
qed

lemma entries_of_update: "set (AList.update k v al) \<subseteq> insert (k, v) (set al)"
  by (induction al) auto

lemma fork_each_all:
  assumes "\<forall>x \<in> set bs. \<forall>item \<in> snd ` snd ` set entries.
    P (fork_key target x, (snd x)\<lparr>sb_scope := us_id target, sb_state := ''observed'', sb_item := item\<rparr>)"
    and "\<forall>x \<in> set (ct_submissions c). P x"
  shows "\<forall>x \<in> set (ct_submissions (snd (fork_each source target entries bs changed c))). P x"
  using assms
proof (induction bs arbitrary: changed c)
  case (Cons x bs)
  show ?case
  proof (cases "List.find (\<lambda>(kind, message, _). kind = ''userMessage'' \<and> message = sb_wire (snd x)) entries")
    case None
    with Cons show ?thesis by (simp add: Let_def)
  next
    case (Some e)
    obtain kind message item where e: "e = (kind, message, item)" by (cases e)
    have "e \<in> set entries" using Some by (metis find_Some_iff nth_mem)
    then have "item \<in> snd ` snd ` set entries" unfolding e by force
    then have "P (fork_key target x, (snd x)\<lparr>sb_scope := us_id target, sb_state := ''observed'', sb_item := item\<rparr>)" using Cons.prems(1) by auto
    then have d: "\<forall>y \<in> set (ct_submissions (set_submission (fork_key target x) ((snd x)\<lparr>sb_scope := us_id target, sb_state := ''observed'', sb_item := item\<rparr>) c)). P y"
      using Cons.prems(2) by (auto simp: set_submission_def dest!: subsetD [OF entries_of_update])
    have rest: "\<forall>x \<in> set bs. \<forall>item \<in> snd ` snd ` set entries.
        P (fork_key target x, (snd x)\<lparr>sb_scope := us_id target, sb_state := ''observed'', sb_item := item\<rparr>)" using Cons.prems(1) by simp
    show ?thesis
      using Cons.IH [OF rest Cons.prems(2)] Cons.IH [OF rest d] Some
      by (simp add: e Let_def fork_key_def)
  qed
qed simp

lemma fork_each_frame:
  "ct_schema (snd (fork_each source target entries bs changed c)) = ct_schema c" "ct_workspace (snd (fork_each source target entries bs changed c)) = ct_workspace c"
  "ct_scopes (snd (fork_each source target entries bs changed c)) = ct_scopes c" "ct_files (snd (fork_each source target entries bs changed c)) = ct_files c"
  by (induction bs arbitrary: changed c) (simp_all add: Let_def split: option.split)

lemma nth_attempt_text: "n < 5001 \<Longrightarrow> length (nth_attempt n) \<le> 150" "list_all verbatim (nth_attempt n)"
proof -
  have "n < 5001 \<Longrightarrow> n div 100 \<le> 50" by linarith
  moreover have "n mod 100 \<le> 99" using mod_less_divisor [of 100 n] by linarith
  ultimately show "n < 5001 \<Longrightarrow> length (nth_attempt n) \<le> 150" unfolding nth_attempt_def length_append length_replicate by simp
  show "list_all verbatim (nth_attempt n)" by (auto simp: nth_attempt_def list_all_iff)
qed

lemma entry_short:
  assumes "n < 5001"
  shows "entry_len (nth_submission n) \<le> 700"
    "entry_len (fork_key a_fork_target (nth_submission n), (snd (nth_submission n))\<lparr>sb_scope := us_id a_fork_target, sb_state := ''observed'', sb_item := ''item''\<rparr>) \<le> 700"
  using nth_attempt_text [of n] assms
  by (simp_all add: entry_len_def nth_submission_def fork_key_def submission_key_def a_fork_target_def submission_json_def omit_def json_string_def
    upload_id_def esc_verbatim)

lemma long_history_kept: "snd (compact k a_long_history) = a_long_history"
proof -
  have scope: "scope_at a_long_history ''source'' = zero_scope\<lparr>us_id := ''source'', us_thread := ''T''\<rparr>" by (simp add: scope_at_def a_long_history_def)
  have kept: "\<not> obsolete a_long_history (snd x)" if "x \<in> set (ct_submissions a_long_history)" for x
    using that scope by (auto simp: a_long_history_def nth_submission_def obsolete_def zero_scope_def)
  then have "filter (\<lambda>x. \<not> obsolete a_long_history (snd x)) (ct_submissions a_long_history) = ct_submissions a_long_history"
    by (simp add: filter_id_conv)
  then have 1: "a_long_history\<lparr>ct_submissions := filter (\<lambda>x. \<not> obsolete a_long_history (snd x)) (ct_submissions a_long_history)\<rparr> = a_long_history"
    by simp
  have 2: "compact_files at a_long_history = ct_files a_long_history" for at by (simp add: compact_files_def a_long_history_def empty_catalog_def)
  have "nth_submission 0 \<in> set (ct_submissions a_long_history)" by (force simp: a_long_history_def)
  then have "occupied a_long_history ''source''" by (force simp: occupied_def list_ex_iff nth_submission_def)
  then have 3: "filter (\<lambda>x. \<not> abandoned at a_long_history x) (ct_scopes a_long_history) = ct_scopes a_long_history" for at
    by (simp add: abandoned_def) (simp add: a_long_history_def abandoned_def)
  show ?thesis unfolding compact_def Let_def 1 by (simp add: 2 3)
qed

lemma forked_size: "json_len (catalog_json a_time (snd (fork_each ''T'' a_fork_target a_transcript (ct_submissions a_long_history) False a_long_history))) \<le> 15 * 2 ^ 20"
  (is "json_len (catalog_json a_time ?c) \<le> _")
proof -
  have orig: "\<forall>x \<in> set (ct_submissions a_long_history). entry_len x \<le> 700"
    using entry_short(1) by (auto simp: a_long_history_def)
  have all: "\<forall>x \<in> set (ct_submissions ?c). entry_len x \<le> 700"
    by (rule fork_each_all [OF _ orig]) (use entry_short(2) in \<open>auto simp: a_long_history_def a_transcript_def\<close>)
  have "length (ct_submissions (snd (fork_each source target entries bs changed c))) \<le> length (ct_submissions c) + length bs" for source target entries bs changed c
    by (induction bs arbitrary: changed c) (fastforce simp: Let_def split: option.split intro: order_trans)+
  then have len: "length (ct_submissions ?c) \<le> 10002"
    by (rule order_trans) (simp add: a_long_history_def)
  have subs: "length (json_enc (map_json submission_json (ct_submissions ?c))) \<le> 2 + 10002 * 702"
    by (rule order_trans [OF map_json_len [OF all]]) (use len in simp)
  have z: "length (dec_int 0) = 1" by code_simp
  have scopes: "length (json_enc (map_json (upload_scope_json a_time) (ct_scopes ?c))) \<le> 1000"
    unfolding fork_each_frame a_long_history_def by (simp add: z map_json_def upload_scope_json_def omit_def json_string_def zero_scope_def a_time_def esc_verbatim)
  have files: "length (json_enc (map_json (file_json a_time) (ct_files ?c))) \<le> 1000"
    unfolding fork_each_frame a_long_history_def by (simp add: map_json_def empty_catalog_def)
  have one: "length (dec_int 1) = 1" by code_simp
  have "ct_schema ?c = 1" "ct_workspace ?c = ''/work''" by (simp_all add: fork_each_frame a_long_history_def empty_catalog_def)
  with subs scopes files one show ?thesis
    by (simp add: length_join_with json_len_def catalog_json_def json_string_def esc_verbatim)
qed


end
