(* ===== verification/Spec2Isabelle.thy ===== *)
theory Spec2Isabelle
  imports Retry_Lifecycle Communication_Native Session_Permission Web_Repair Upload_Samples
begin

text \<open>
  A verification library for the workspace portal of dev-workspace (the Go code under \<open>src/portal\<close>).

  \<^bold>\<open>The program.\<close> The portal supervises long-lived Codex sessions. Each session has a slug, a tracked
  directory, a root conversation (thread) and a set of private durable records; the portal's commands,
  its HTTP server and the host's lifecycle commands share those records through files and advisory
  locks. The library models the parts that own durable state and decide when the portal acts on its
  own: automatic continuation of failed turns, messages between session leads, execution permission,
  lifecycle journals and runtime authority, the server's receipts of lifecycle operations, and the files
  that users upload for a session.

  \<^bold>\<open>Foundations.\<close>
  \<^item> \<open>Go_Base\<close>: errors as values (\<open>errors.Is\<close> looks through wrapping), bytes and hexadecimal text,
    \<open>path/filepath\<close>, UTF-8, \<open>strings\<close>, the atomic replacement of a file as a function of the outcome of
    each of its system calls, the locale \<open>durable_store\<close> (a put leaves the old or the new acceptable
    value, whatever fails), the locale \<open>safe_machine\<close> (inductive invariants), lists as tables.
  \<^item> \<open>Go_Json\<close>: the encoder of \<open>encoding/json\<close>; sizes and digests are taken of its text.
  \<^item> \<open>Go_Text\<close>: \<open>strings.TrimSpace\<close>, trimming to valid UTF-8 and sizes of encoded text.
  \<^item> \<open>Go_Files\<close>: what a reader sees of a file, and an advisory lock that is waited for.
  \<^item> \<open>Go_Monad\<close>: the state monad for code that threads a state through many calls, with triples and
    the relation \<open>steady R\<close> (whatever a program returns, it moves the state along \<open>R\<close>).

  \<^bold>\<open>Automatic continuation\<close> (\<open>internal/turnretry\<close>).
  \<^item> \<open>Retry_State\<close> is \<open>state.go\<close>, \<open>managed_turn.go\<close> and the validation of \<open>store.go\<close>: the ledger of one
    thread (\<open>rstate\<close>) and every operation on it. \<open>Retry_Ledger\<close> and \<open>Retry_Quota\<close> hold its algebra and
    the rate limit, \<open>Retry_Valid\<close> that every operation keeps the ledger valid (also the interpretation of
    \<open>safe_machine\<close>), \<open>Retry_Samples\<close> concrete ledgers.
  \<^item> \<open>Retry_Store\<close> is \<open>store.go\<close>: \<open>Load\<close>, \<open>Save\<close> and the admission lock (interpretation \<open>retry_file\<close> of
    \<open>durable_store\<close>). \<open>Retry_Policy\<close> is \<open>policy.go\<close>, \<open>policy_store.go\<close> and \<open>summary.go\<close>: the user's choices
    for a session, their revisions and the checkpoints of each chain. \<open>Retry_Controller\<close> is
    \<open>controller.go\<close>: one step over any backend. \<open>Retry_Lifecycle\<close> is \<open>CancelSession\<close>.
  \<^item> Shown: the ledger stays valid; no five minutes contain more than thirty charged cybersecurity
    submissions; a step sends at most once, and only a durable, valid, permitted attempt that is known
    not to have been submitted; a class that was switched off never resumes its chain; checkpoints are
    idempotent; cancelling a session leaves nothing bound or unresolved.

  \<^bold>\<open>Messages between leads\<close> (\<open>internal/communication\<close>).
  \<^item> \<open>Communication\<close> is \<open>store.go\<close>, \<open>service.go\<close> and \<open>authorization_context.go\<close>: grants and messages, the
    locked registry, \<open>Run\<close>, \<open>Read\<close>, \<open>Pending\<close>, \<open>Expire\<close> and \<open>Dispatch\<close> as programs of the state monad over
    the durable registry and a log of deliveries; the transport, the resolver, the session locks, the
    clock, the entropy and the file system are the fields of \<open>comm_env\<close>.
  \<^item> \<open>Communication_History\<close>: the registry is an append-only history, and one \<open>Dispatch\<close> delivers at most
    once, under an active grant. \<open>Communication_Valid\<close>: whatever fails, the file holds a registry that the
    next reading returns (size, schema and workspace included); what a send and an expiry do; operations that
    take the session locks cannot wait for one another in a cycle.
  \<^item> \<open>Communication_Native\<close> is \<open>native.go\<close>: identities of leads, readiness of a recipient and the
    requests handed to the App Server.

  \<^bold>\<open>Sessions\<close> (\<open>internal/session\<close>).
  \<^item> \<open>Session_Base\<close>: names, the strict YAML walk and the runtime contract (\<open>manifest.go\<close>, \<open>contract.go\<close>).
  \<^item> \<open>Session_Recovery\<close> is \<open>recovery.go\<close>: execution permission per server generation (interpretation
    \<open>recovery_file\<close> of \<open>durable_store\<close>). Shown: \<open>Set\<close> grants exactly what it says, \<open>Retire\<close> withdraws it;
    and that the size bounds of \<open>Update\<close> and \<open>Load\<close> differ by one byte.
  \<^item> \<open>Session_Permission\<close> holds the other writers of that record: the server's \<open>seedLiveRecovery\<close>,
    \<open>publishRecovery\<close> and \<open>acceptContinuation\<close> (\<open>internal/web/recovery.go\<close>) and the assignment of work to a
    member, \<open>sendWithRecovery\<close> (\<open>internal/workspacecodex/recovery.go\<close>). \<open>recovery_run\<close> is the life of a record
    under all six writers, with the history of their calls. Shown: a thread is permitted to run exactly
    if a call gave it the permission for that generation and none took it away since.
  \<^item> \<open>Session_Lifecycle\<close> is \<open>lifecycle.go\<close> and \<open>service_cleanup.go\<close>: which operation owns a session. Shown:
    the quick check and the full reading agree, reading fails closed, what is read is well formed, the
    catalogue of pending operations is exact.
  \<^item> \<open>Session_Authority\<close> is \<open>authority.go\<close> and most of \<open>observation.go\<close>: the runtime authority, its locks
    and the live tmux session, by socket and target. Shown: what loads is well formed, waiting for the lock ends,
    a threadless archive proves absence behind the selected socket.

  \<^bold>\<open>Lifecycle operations of the server\<close> (\<open>internal/web\<close>).
  \<^item> \<open>Web_Operation\<close> is the receipt of an operation and what bounds and validates it
    (\<open>operation_store.go\<close>, \<open>lifecycle_*.go\<close>); \<open>Web_Proposal\<close> what a server that finds journals proposes for
    it; \<open>Web_Receipts\<close> the receipt file, reconciliation, admission of a request and the end of its job
    (with the parts of \<open>server.go\<close> that do it); \<open>Web_Server\<close> these as the steps of one server among others;
    \<open>Web_Capacity\<close> the reservation of room for an outcome.
  \<^item> \<open>Web_Preparation\<close> is \<open>archive_preparation.go\<close>, the loop of checks and repair turns before an archival,
    and \<open>Web_Repair\<close> its properties.
  \<^item> Shown: the receipt file is always read back; a job starts only with a right to it, for the session that
    was found, and its end settles its own attempt without replacing evidence that was recorded meanwhile
    (a success takes the options with which the command was started); evidence changes at most once; a
    dismissed receipt stays dismissed; preparation cannot cycle for ever, sends an outstanding repair only
    as itself and ends only with a clear check; an outcome fits the room reserved for it if its error has at
    most 4,000 bytes in JSON, while the reservation counts plain bytes (\<open>reservation_underestimates\<close>).
    What a repair turn sends is the first component of \<open>repair_exchange\<close>.

  \<^bold>\<open>Uploads\<close> (\<open>internal/uploads/store.go\<close>).
  \<^item> \<open>Upload_Catalog\<close>: the catalog of scopes, files and submissions, its JSON form, compaction, and the
    locked transaction (\<open>run_transaction\<close>: read and validate, confirm, compact, run a body, save, confirm).
    \<open>Upload_Files\<close>: bodies about scopes and files, the bytes on disk included. \<open>Upload_Submissions\<close>: bodies
    about messages, claims, adoption, deletion, expiry, removal and forks. \<open>Upload_Store\<close>: the operations
    as the code calls them, and the store as a state machine whose steps are single transactions, in any
    order, whatever the system answers.
  \<^item> \<open>Upload_Rules\<close> and \<open>Upload_Steps\<close>: a transaction and a compaction from outside, what each body does to
    files, and the locale \<open>upload_invariant\<close>: an invariant that compaction and every body keep holds in
    every state. It is interpreted three times, as \<open>integrity\<close> (\<open>Upload_Integrity\<close>: the bytes on disk are
    the recorded chunks), \<open>quotas\<close> (\<open>Upload_Quota\<close>) and \<open>reading\<close> (\<open>Upload_Readable\<close>: without forks the next
    transaction always reads the catalog that was saved; \<open>Upload_Valid\<close> holds its lemmas). \<open>Upload_Kept\<close>: files of sent messages stay.
    \<open>Upload_Claims\<close>: claims of session requests are exclusive; forking does not observe the record limit, and
    the store then refuses every transaction.
    \<open>Upload_Samples\<close>: a run of the store, and the witnesses.

  This theory holds what spans components: a delivered message implies a permission in force.

  \<^bold>\<open>Conventions.\<close> A nil slice or pointer is \<open>None\<close>. A \<open>raise\<close> or early return is \<open>Inl\<close> or \<open>Some\<close>
  of an \<open>error\<close>; a panic of the Go code that can be reached is an error of its own text. Every system
  call and every call to another process appears by its outcome, which is universally quantified in
  the theorems, so a theorem about an operation holds whichever call fails. Decoders (\<open>yaml.v3\<close>, JSON
  with unknown fields disallowed, \<open>time.Parse\<close>) appear by their result on the file's bytes; SHA-256 is
  a parameter. Loops over finite data are structural recursions; a loop that waits for a lock consumes
  a list of attempts and returns \<open>None\<close> when the list ends first, so that no bound is built in:
  \<open>flock_wait_returns\<close> and \<open>runtime_lock_returns\<close> say exactly when it returns. Times are integers;
  the ledger's integers keep their 64-bit width where the code wraps.

  \<^bold>\<open>Not modelled.\<close> The \<open>codex\<close> client package (third party; its results are parameters). Of the
  session package: the manifest's YAML decoding, the catalogue cache, removal and worktree bookkeeping.
  Of the server: routing, templates and the streams of conversations, session creation and preparation.
  Agent-team catalogues and member rosters (\<open>internal/agentteams\<close>, \<open>internal/teamruntime\<close>), repository
  review, provider routing, the App Server client (\<open>internal/workspacecodex\<close>, but for the assignment) and the command line
  (\<open>cmd/workspace-portal\<close>).
\<close>

text \<open>
  An environment whose readiness check is that of the native transport. \<open>view i w\<close> is what the check of the
  recipient \<open>i\<close> sees in the world \<open>w\<close>; the permission record it reads is the recipient's record \<open>disk i w\<close> at
  that time, which came about by the history \<open>hist i w\<close> of calls.
\<close>

definition native_env ::
  "(string \<Rightarrow> string) \<Rightarrow> native \<Rightarrow> ('w, 'p, 'r) comm_env \<Rightarrow> (identity \<Rightarrow> 'w \<Rightarrow> native_view) \<Rightarrow>
   (identity \<Rightarrow> 'w \<Rightarrow> permission_event list) \<Rightarrow> (identity \<Rightarrow> 'w \<Rightarrow> recovery option) \<Rightarrow> bool" where
  "native_env sha n cv view hist disk \<longleftrightarrow>
     (let st = \<lparr>rs_root = na_root n, rs_workspace = na_workspace n\<rparr> in
      \<forall>i w. fst (cv_ready cv i w) = native_Ready sha n (view i w) i \<and>
        recovery_run sha st (id_slug i) (hist i w) (disk i w) \<and>
        shows_record sha st (id_slug i) (nv_recovery (view i w)) (disk i w))"

text \<open>
  C7. A message reaches only a conversation that is permitted to run: when \<open>Dispatch\<close> over the native
  transport hands a message to the App Server, it did so directly after a readiness check of the recipient,
  and on the very server generation which that check found current the recipient's thread has a
  permission in force: some call gave it for this generation, and none took it away before the check. This
  composes the registry, the readiness check and the permission record with all its writers.
\<close>

theorem delivery_was_permitted:
  assumes run: "run_state (Dispatch cc cv ws mid) r = (x, r')"
    and sent: "cr_log r' = CSend m st # lg" "cr_log r' \<noteq> cr_log r"
    and native: "native_env sha n cv view hist disk"
  shows "m_id m = mid \<and> (\<exists>l. lg = CReady (m_to m) (Inr []) # l) \<and>
    (\<exists>w epoch. fst (cv_ready cv (m_to m) w) = Inr [] \<and> SocketIdentity (nv_socket (view (m_to m) w)) = Inr epoch \<and>
       in_force (hist (m_to m) w) (id_thread (m_to m)) epoch)"
proof -
  let ?st = "\<lparr>rs_root = na_root n, rs_workspace = na_workspace n\<rparr>" and ?i = "m_to m"
  have "delivers_once cv mid (cr_log r) (cr_log r')"
    using steadyD [OF delivering_Dispatch run] by (simp add: delivering_def)
  with sent have m: "m_id m = mid" "\<exists>l. lg = CReady ?i (Inr []) # l" and au: "\<exists>st. authorised_send cv m st"
    by (auto simp: delivers_once_def Cons_eq_append_conv)
  from au obtain w w' where w: "cv_ready cv ?i w = (Inr [], w')" by (auto simp: authorised_send_def)
  from native have "fst (cv_ready cv ?i w) = native_Ready sha n (view ?i w) ?i"
    and h: "recovery_run sha ?st (id_slug ?i) (hist ?i w) (disk ?i w)"
    and entry: "shows_record sha ?st (id_slug ?i) (nv_recovery (view ?i w)) (disk ?i w)"
    by (simp_all add: native_env_def Let_def)
  with w have v: "native_Ready sha n (view ?i w) ?i = Inr []" by simp
  from v obtain q epoch where q: "recovery_load sha ?st (id_slug ?i) (nv_recovery (view ?i w)) = Inr q"
    "SocketIdentity (nv_socket (view ?i w)) = Inr epoch" "Active q (id_thread ?i) epoch"
    by (auto simp: Ready_iff recipient_ready_def)
  with entry have "permits (disk ?i w) (id_thread ?i) epoch" by (simp add: shows_record_def)
  with recovery_run_accounted [OF h] have "in_force (hist ?i w) (id_thread ?i) epoch" by (simp add: accounted_def)
  with m w q(2) show ?thesis by (metis fst_conv)
qed


subsection \<open>A lead that can be written to\<close>

definition lead_permission :: recovery where
  "lead_permission = rec_active\<lparr>rc_slug := ''alice'', rc_thread := ''alice-thread'', rc_active := Some [''alice-thread'']\<rparr>"

definition lead_authority :: authority_view where
  "lead_authority = \<lparr>av_dir = private_dir,
     av_file = plain_view ''authority'' (shell_authority\<lparr>ra_slug := ''alice'', ra_thread := ''alice-thread'',
       ra_codex_socket := ''/run/codex.sock'', ra_codex_version := ''1.0''\<rparr>),
     av_fields = Inr [(''codex_thread_id'', JStr ''alice-thread''), (''codex_socket_path'', JStr ''/run/codex.sock''),
                      (''codex_client_version'', JStr ''1.0'')]\<rparr>"

definition lead_native :: native where
  "lead_native = \<lparr>na_workspace = ''/w'', na_root = ''/s'', na_directory = ''/auth'', na_socket = ''/run/codex.sock''\<rparr>"

definition lead_view :: "identity \<Rightarrow> native_view" where
  "lead_view i = \<lparr>nv_admission = (\<lambda>_. None), nv_authority = lead_authority,
     nv_recovery = (if id_slug i = ''alice'' then recovery_file_of lead_permission else missing_view zero_recovery), nv_socket = rec_socket,
     nv_metadata = Inr (''alice-thread'', ''/w/work/alice''), nv_activity = Inr \<lparr>ac_wait = [], ac_state = ''working''\<rparr>\<rparr>"

definition lead_env :: "(unit, unit, unit) comm_env" where
  "lead_env = comm_sample_env\<lparr>cv_ready := (\<lambda>i w. (native_Ready rec_sha lead_native (lead_view i) i, w))\<rparr>"

definition lead_history :: "identity \<Rightarrow> permission_event list" where
  "lead_history i = (if id_slug i = ''alice'' then [PermSet ''boot-1:5:77:12:0'' ''alice-thread'' True True] else [])"

definition lead_disk :: "identity \<Rightarrow> recovery option" where
  "lead_disk i = (if id_slug i = ''alice'' then Some lead_permission else None)"

lemma lead_run: "recovery_run rec_sha rec_store ''alice'' [PermSet ''boot-1:5:77:12:0'' ''alice-thread'' True True] (Some lead_permission)"
proof -
  have 1: "shows_record rec_sha rec_store ''alice'' (ri_view (rec_io None)) None" by code_simp
  have "Set_permission rec_sha rec_store ''alice'' ''alice-thread'' ''/run/codex.sock'' True True rec_socket (rec_io None) None =
      Some (None, Some lead_permission)" by code_simp
  from run_set [OF run_start 1 rec_epoch this] show ?thesis by (simp add: after_call_def)
qed

lemma lead_native_env: "native_env rec_sha lead_native lead_env (\<lambda>i w. lead_view i) (\<lambda>i w. lead_history i) (\<lambda>i w. lead_disk i)"
proof -
  have st: "\<lparr>rs_root = na_root lead_native, rs_workspace = na_workspace lead_native\<rparr> = rec_store"
    by (simp add: lead_native_def rec_store_def)
  have shown: "shows_record rec_sha rec_store ''alice'' (recovery_file_of lead_permission) (Some lead_permission)" by code_simp
  have absent: "shows_record rec_sha rec_store slug (missing_view zero_recovery) None" for slug
    by (auto simp: shows_record_def recovery_load_def missing_view_def plain_view_def split: sum.splits option.splits)
  show ?thesis
    unfolding native_env_def Let_def st
    using shown absent lead_run run_start [of rec_sha rec_store]
    by (auto simp: lead_env_def lead_view_def lead_history_def lead_disk_def)
qed

theorem delivery_was_permitted_witness:
  "\<exists>x r' m st lg. run_state (Dispatch comm_sample_codec lead_env ''/w'' comm_sample_id) comm_sample_held = (x, r') \<and>
     cr_log r' = CSend m st # lg \<and> m_id m = comm_sample_id \<and>
     (\<exists>epoch. SocketIdentity (nv_socket (lead_view (m_to m))) = Inr epoch \<and> in_force (lead_history (m_to m)) (id_thread (m_to m)) epoch)"
proof -
  let ?e = "run_state (Dispatch comm_sample_codec lead_env ''/w'' comm_sample_id) comm_sample_held"
  have "case cr_log (snd ?e) of CSend m st # lg \<Rightarrow> True | _ \<Rightarrow> False" by code_simp
  then obtain m st lg where log: "cr_log (snd ?e) = CSend m st # lg" by (auto split: list.splits comm_call.splits)
  have "cr_log comm_sample_held = []" by (simp add: comm_sample_held_def)
  with log have "cr_log (snd ?e) \<noteq> cr_log comm_sample_held" by simp
  from delivery_was_permitted [OF prod.collapse [of ?e, symmetric] log this lead_native_env]
  have p: "m_id m = comm_sample_id \<and> (\<exists>epoch. SocketIdentity (nv_socket (lead_view (m_to m))) = Inr epoch \<and>
      in_force (lead_history (m_to m)) (id_thread (m_to m)) epoch)" by blast
  show ?thesis
    by (rule exI [of _ "fst ?e"], rule exI [of _ "snd ?e"], rule exI [of _ m], rule exI [of _ st], rule exI [of _ lg])
       (simp add: log p)
qed

end
